(* ===== verification/Prelude.thy ===== *)
theory Prelude
  imports Main "HOL-Library.Sublist" "HOL-Library.AList"
begin

text \<open>
  What every component of the development shares: the error values of the server, the part of
  Go's standard library the modelled sources call (\<^verbatim>\<open>strings\<close>, \<^verbatim>\<open>strconv\<close>, \<^verbatim>\<open>sort.Strings\<close>,
  64-bit integer arithmetic, \<^verbatim>\<open>time.Time\<close> and \<^verbatim>\<open>time.Duration\<close> as integer nanoseconds), and the
  generic lemmas the component proofs use.

  Go strings are byte strings, so they are the \<^typ>\<open>string\<close>s of HOL. Case folding and white space
  follow ASCII: bytes from 128 on are left alone. Go maps are partial functions where only look-ups
  matter, and association lists with distinct keys where the code iterates over them or takes their
  size; the iteration order of a Go map is unspecified, and so is the order of such a list.
\<close>

section \<open>Collections of facts\<close>

named_theorems go_defs \<open>unfolding rules of the standard-library model\<close>
named_theorems inv_intros \<open>preservation lemmas of component invariants\<close>

section \<open>Errors\<close>

text \<open>
  An \<^verbatim>\<open>error\<close> value of the server is either an \<^verbatim>\<open>errors2.APIError\<close>, which carries the HTTP status,
  or an error made with \<^verbatim>\<open>errors.New\<close> or \<^verbatim>\<open>fmt.Errorf\<close>. The message is kept as its format string and
  its arguments; rendering it into one text is left out.
\<close>

datatype err_arg = AS string | AI int

datatype goerr =
    APIError (err_status: int) (err_format: string) (err_args: "err_arg list")
  | GoError (err_format: string) (err_args: "err_arg list")

type_synonym 'a res = "goerr + 'a"

type_synonym time = int
type_synonym duration = int

abbreviation StatusBadRequest :: int where "StatusBadRequest \<equiv> 400"
abbreviation StatusUnauthorized :: int where "StatusUnauthorized \<equiv> 401"
abbreviation StatusForbidden :: int where "StatusForbidden \<equiv> 403"
abbreviation StatusNotFound :: int where "StatusNotFound \<equiv> 404"
abbreviation StatusConflict :: int where "StatusConflict \<equiv> 409"
abbreviation StatusTooManyRequests :: int where "StatusTooManyRequests \<equiv> 429"
abbreviation StatusInternalServerError :: int where "StatusInternalServerError \<equiv> 500"
abbreviation StatusServiceUnavailable :: int where "StatusServiceUnavailable \<equiv> 503"
abbreviation StatusOK :: int where "StatusOK \<equiv> 200"
abbreviation StatusCreated :: int where "StatusCreated \<equiv> 201"
abbreviation StatusNoContent :: int where "StatusNoContent \<equiv> 204"

abbreviation Second :: duration where "Second \<equiv> 1000000000"
abbreviation Minute :: duration where "Minute \<equiv> 60 * Second"
abbreviation Hour :: duration where "Hour \<equiv> 60 * Minute"

definition is_err :: "'a res \<Rightarrow> bool" where
  "is_err r = (case r of Inl _ \<Rightarrow> True | Inr _ \<Rightarrow> False)"

lemma is_err_simps [simp]: "is_err (Inl e)" "\<not> is_err (Inr x)"
  by (simp_all add: is_err_def)

text \<open>\<^verbatim>\<open>if err != nil { return ..., err }\<close>: the error return that nearly every call is followed by.\<close>

definition bind_res :: "'a res \<Rightarrow> ('a \<Rightarrow> 'b res) \<Rightarrow> 'b res" where
  "bind_res r f = (case r of Inl e \<Rightarrow> Inl e | Inr x \<Rightarrow> f x)"

lemma bind_res_simps [simp]: "bind_res (Inl e) f = Inl e" "bind_res (Inr x) f = f x"
  by (simp_all add: bind_res_def)

lemma bind_res_eq_Inr:
  "bind_res r f = Inr y \<longleftrightarrow> (\<exists>x. r = Inr x \<and> f x = Inr y)"
  by (cases r) auto

definition ErrTooManyRequests :: goerr where
  "ErrTooManyRequests = GoError ''too many requests, please try later'' []"

text \<open>A JSON document, the shape \<^verbatim>\<open>encoding/json\<close> decodes into; numbers are integers.\<close>

datatype json = JNull | JBool bool | JNum int | JStr string | JArr "json list" | JObj "(string \<times> json) list"

section \<open>Responses\<close>

text \<open>
  What an API handler writes (\<^verbatim>\<open>server/api_responses.go\<close>): a status with the payload of a success or with
  an error. \<^verbatim>\<open>jsonError\<close> takes the status of an \<^verbatim>\<open>APIError\<close> and 500 for every other error.
\<close>

datatype 'a response = Response (resp_status: int) (resp_body: "goerr + 'a")

definition jsonError :: "goerr \<Rightarrow> 'a response" where
  "jsonError e =
     Response (case e of APIError st _ _ \<Rightarrow> st | GoError _ _ \<Rightarrow> StatusInternalServerError) (Inl e)"

definition jsonErrorResponse :: "int \<Rightarrow> goerr \<Rightarrow> 'a response" where
  "jsonErrorResponse st e = Response st (Inl e)"

definition jsonErrorResponseWithTitle :: "int \<Rightarrow> string \<Rightarrow> 'a response" where
  "jsonErrorResponseWithTitle st title = Response st (Inl (GoError title []))"

definition jsonErrorResponseWithError :: "int \<Rightarrow> string \<Rightarrow> goerr \<Rightarrow> 'a response" where
  "jsonErrorResponseWithError st title e = Response st (Inl (GoError title (AS (err_format e) # err_args e)))"

definition writeJSONResponse :: "int \<Rightarrow> 'a \<Rightarrow> 'a response" where
  "writeJSONResponse st x = Response st (Inr x)"

definition jsonErrorResponseWithErrCode :: "int \<Rightarrow> string \<Rightarrow> string \<Rightarrow> err_arg list \<Rightarrow> 'a response" where
  "jsonErrorResponseWithErrCode st errCode title args = Response st (Inl (GoError title (AS errCode # args)))"

definition jsonErrorResponseWithDetail :: "int \<Rightarrow> string \<Rightarrow> string \<Rightarrow> err_arg list \<Rightarrow> string \<Rightarrow> 'a response" where
  "jsonErrorResponseWithDetail st errCode title args detail = Response st (Inl (GoError title (AS errCode # args @ [AS detail])))"

text \<open>\<^verbatim>\<open>jsonError\<close> of an \<^verbatim>\<open>APIErrors\<close>: the first error gives the status.\<close>

definition jsonErrors :: "goerr list \<Rightarrow> 'a response" where
  "jsonErrors es = (case es of [] \<Rightarrow> Response StatusInternalServerError (Inl (GoError [] [])) | e # _ \<Rightarrow> jsonError e)"

lemma response_body_simps [simp]:
  "resp_body (jsonError e) = Inl e"
  "resp_body (jsonErrorResponse st e) = Inl e"
  "resp_body (jsonErrorResponseWithTitle st t) = Inl (GoError t [])"
  "resp_body (writeJSONResponse st x) = Inr x"
  by (simp_all add: jsonError_def jsonErrorResponse_def jsonErrorResponseWithTitle_def writeJSONResponse_def)

section \<open>64-bit integers\<close>

text \<open>Go's \<^verbatim>\<open>int\<close> and \<^verbatim>\<open>int64\<close> on the supported platforms: two's complement with wrap-around.\<close>

definition MaxInt64 :: int where "MaxInt64 = 9223372036854775807"
definition MinInt64 :: int where "MinInt64 = - 9223372036854775808"

definition wrap64 :: "int \<Rightarrow> int" where
  "wrap64 x = (x + 9223372036854775808) mod 18446744073709551616 - 9223372036854775808"

definition int64_range :: "int \<Rightarrow> bool" where
  "int64_range x \<longleftrightarrow> MinInt64 \<le> x \<and> x \<le> MaxInt64"

lemma wrap64_range: "int64_range (wrap64 x)"
proof -
  have "0 \<le> (x + 9223372036854775808) mod 18446744073709551616" by simp
  moreover have "(x + 9223372036854775808) mod 18446744073709551616 < 18446744073709551616" by simp
  ultimately show ?thesis
    unfolding int64_range_def wrap64_def MinInt64_def MaxInt64_def by linarith
qed

lemma wrap64_id: "int64_range x \<Longrightarrow> wrap64 x = x"
  by (simp add: int64_range_def wrap64_def MinInt64_def MaxInt64_def)

lemma wrap64_overflow:
  assumes "MaxInt64 < x" "x \<le> MaxInt64 + MaxInt64 + 1"
  shows "wrap64 x = x - 18446744073709551616"
proof -
  have "(x + 9223372036854775808) mod 18446744073709551616
      = (x + 9223372036854775808 - 18446744073709551616) mod 18446744073709551616"
    by (rule minus_mod_self2 [symmetric])
  also have "\<dots> = x + 9223372036854775808 - 18446744073709551616"
    by (rule mod_pos_pos_trivial) (use assms in \<open>simp_all add: MaxInt64_def\<close>)
  finally show ?thesis by (simp add: wrap64_def)
qed

section \<open>The strings package\<close>

text \<open>\<^verbatim>\<open>strings.Split(s, sep)\<close> for a separator of one byte. The result is never empty.\<close>

fun split_on :: "char \<Rightarrow> string \<Rightarrow> string list" where
  "split_on c [] = [[]]"
| "split_on c (x # xs) =
     (if x = c then [] # split_on c xs
      else (case split_on c xs of [] \<Rightarrow> [[x]] | y # ys \<Rightarrow> (x # y) # ys))"

text \<open>\<^verbatim>\<open>strings.SplitN(s, sep, 2)\<close>: the text before and after the first separator.\<close>

fun split_n2 :: "char \<Rightarrow> string \<Rightarrow> string list" where
  "split_n2 c [] = [[]]"
| "split_n2 c (x # xs) =
     (if x = c then [[], xs]
      else (case split_n2 c xs of [] \<Rightarrow> [[x]] | y # ys \<Rightarrow> (x # y) # ys))"

text \<open>\<^verbatim>\<open>strings.Join\<close>.\<close>

fun join :: "string \<Rightarrow> string list \<Rightarrow> string" where
  "join sep [] = []"
| "join sep [x] = x"
| "join sep (x # y # ys) = x @ sep @ join sep (y # ys)"

text \<open>\<^verbatim>\<open>strings.HasPrefix\<close>, \<^verbatim>\<open>strings.HasSuffix\<close>, \<^verbatim>\<open>strings.TrimPrefix\<close>.\<close>

definition has_prefix :: "string \<Rightarrow> string \<Rightarrow> bool" where
  "has_prefix s p \<longleftrightarrow> take (length p) s = p"

definition has_suffix :: "string \<Rightarrow> string \<Rightarrow> bool" where
  "has_suffix s p \<longleftrightarrow> length p \<le> length s \<and> drop (length s - length p) s = p"

definition trim_prefix :: "string \<Rightarrow> string \<Rightarrow> string" where
  "trim_prefix s p = (if has_prefix s p then drop (length p) s else s)"

text \<open>\<^verbatim>\<open>strings.Index\<close>: the position of the first occurrence.\<close>

fun index_of :: "string \<Rightarrow> string \<Rightarrow> nat option" where
  "index_of [] p = (if p = [] then Some 0 else None)"
| "index_of (x # xs) p =
     (if has_prefix (x # xs) p then Some 0
      else map_option Suc (index_of xs p))"

text \<open>\<^verbatim>\<open>strings.Contains\<close>.\<close>

definition contains_str :: "string \<Rightarrow> string \<Rightarrow> bool" where
  "contains_str s p \<longleftrightarrow> index_of s p \<noteq> None"

text \<open>\<^verbatim>\<open>strings.ToLower\<close>, \<^verbatim>\<open>strings.ToUpper\<close> and \<^verbatim>\<open>strings.EqualFold\<close> on ASCII text.\<close>

definition lower_char :: "char \<Rightarrow> char" where
  "lower_char c = (let n = of_char c :: nat in
     if 65 \<le> n \<and> n \<le> 90 then char_of (n + 32) else c)"

definition upper_char :: "char \<Rightarrow> char" where
  "upper_char c = (let n = of_char c :: nat in
     if 97 \<le> n \<and> n \<le> 122 then char_of (n - 32) else c)"

definition to_lower :: "string \<Rightarrow> string" where
  "to_lower s = map lower_char s"

definition to_upper :: "string \<Rightarrow> string" where
  "to_upper s = map upper_char s"

definition equal_fold :: "string \<Rightarrow> string \<Rightarrow> bool" where
  "equal_fold s t \<longleftrightarrow> to_lower s = to_lower t"

text \<open>\<^verbatim>\<open>strings.TrimSpace\<close>, \<^verbatim>\<open>strings.Trim\<close> and \<^verbatim>\<open>strings.TrimLeft\<close> with a cut set of one byte.\<close>

definition is_space :: "char \<Rightarrow> bool" where
  "is_space c \<longleftrightarrow> (let n = of_char c :: nat in n = 32 \<or> (9 \<le> n \<and> n \<le> 13))"

definition trim_space :: "string \<Rightarrow> string" where
  "trim_space s = rev (dropWhile is_space (rev (dropWhile is_space s)))"

definition trim_left :: "string \<Rightarrow> char \<Rightarrow> string" where
  "trim_left s c = dropWhile (\<lambda>x. x = c) s"

definition trim_char :: "string \<Rightarrow> char \<Rightarrow> string" where
  "trim_char s c = rev (dropWhile (\<lambda>x. x = c) (rev (dropWhile (\<lambda>x. x = c) s)))"

text \<open>\<^verbatim>\<open>strings.ReplaceAll(s, old, new)\<close> for an \<^verbatim>\<open>old\<close> of one byte.\<close>

definition replace_char :: "string \<Rightarrow> char \<Rightarrow> string \<Rightarrow> string" where
  "replace_char s c new = concat (map (\<lambda>x. if x = c then new else [x]) s)"

text \<open>\<^verbatim>\<open>strings.Replace\<close> with a limit of one replacement.\<close>

definition replace_first :: "string \<Rightarrow> string \<Rightarrow> string \<Rightarrow> string" where
  "replace_first s old new =
     (case index_of s old of None \<Rightarrow> s | Some i \<Rightarrow> take i s @ new @ drop (i + length old) s)"

section \<open>The strconv package\<close>

definition digit_char :: "nat \<Rightarrow> char" where
  "digit_char d = char_of (48 + d)"

definition is_digit :: "char \<Rightarrow> bool" where
  "is_digit c \<longleftrightarrow> (let n = of_char c :: nat in 48 \<le> n \<and> n \<le> 57)"

definition digit_val :: "char \<Rightarrow> nat" where
  "digit_val c = of_char c - 48"

fun nat_to_string :: "nat \<Rightarrow> string" where
  "nat_to_string n =
     (if n < 10 then [digit_char n] else nat_to_string (n div 10) @ [digit_char (n mod 10)])"

declare nat_to_string.simps [simp del]

text \<open>\<^verbatim>\<open>strconv.Itoa\<close> and \<^verbatim>\<open>strconv.FormatInt(_, 10)\<close>.\<close>

definition itoa :: "int \<Rightarrow> string" where
  "itoa n = (if n < 0 then CHR ''-'' # nat_to_string (nat (- n)) else nat_to_string (nat n))"

definition digits_val :: "string \<Rightarrow> nat" where
  "digits_val s = foldl (\<lambda>acc c. 10 * acc + digit_val c) 0 s"

datatype atoi_result = AtoiOk int | AtoiSyntax | AtoiRange int

text \<open>
  \<^verbatim>\<open>strconv.Atoi\<close>: an optional sign and at least one decimal digit. Out of range it fails and
  returns the nearest 64-bit integer; on any other text it fails and returns 0.
\<close>

definition atoi :: "string \<Rightarrow> atoi_result" where
  "atoi s =
     (let (neg, ds) = (case s of [] \<Rightarrow> (False, [])
                       | c # cs \<Rightarrow> if c = CHR ''-'' then (True, cs)
                                   else if c = CHR ''+'' then (False, cs) else (False, s))
      in if ds = [] \<or> \<not> list_all is_digit ds then AtoiSyntax
         else let v = (if neg then - int (digits_val ds) else int (digits_val ds))
              in if v < MinInt64 then AtoiRange MinInt64
                 else if MaxInt64 < v then AtoiRange MaxInt64
                 else AtoiOk v)"

text \<open>The two results of \<^verbatim>\<open>Atoi\<close>: the number (also on failure) and whether it failed.\<close>

fun atoi_value :: "atoi_result \<Rightarrow> int" where
  "atoi_value (AtoiOk v) = v"
| "atoi_value AtoiSyntax = 0"
| "atoi_value (AtoiRange v) = v"

fun atoi_failed :: "atoi_result \<Rightarrow> bool" where
  "atoi_failed (AtoiOk v) = False"
| "atoi_failed AtoiSyntax = True"
| "atoi_failed (AtoiRange v) = True"

section \<open>Generic lemmas\<close>

lemma split_on_nonempty [simp]: "split_on c s \<noteq> []"
  by (cases s) (auto split: list.splits)

lemma join_split_on: "join [c] (split_on c s) = s"
proof (induction s)
  case (Cons x xs)
  obtain y ys where "split_on c xs = y # ys"
    by (cases "split_on c xs") auto
  with Cons show ?case by (cases ys) auto
qed simp

lemma split_on_no_sep: "c \<notin> set s \<Longrightarrow> split_on c s = [s]"
  by (induction s) auto

lemma split_on_append_sep: "c \<notin> set s \<Longrightarrow> split_on c (s @ c # t) = s # split_on c t"
  by (induction s) auto

lemma split_on_join:
  assumes "xs \<noteq> []" "\<forall>x \<in> set xs. c \<notin> set x"
  shows "split_on c (join [c] xs) = xs"
  using assms by (induction "[c]" xs rule: join.induct) (auto simp: split_on_no_sep split_on_append_sep)

lemma split_on_parts_no_sep: "p \<in> set (split_on c s) \<Longrightarrow> c \<notin> set p"
  by (induction s arbitrary: p) (auto split: if_splits list.splits)

lemma has_prefix_iff: "has_prefix s p \<longleftrightarrow> (\<exists>r. s = p @ r)"
  by (metis append_eq_conv_conj append_take_drop_id has_prefix_def)

lemma has_suffix_iff: "has_suffix s p \<longleftrightarrow> (\<exists>r. s = r @ p)"
proof
  assume "has_suffix s p"
  then have "s = take (length s - length p) s @ p"
    unfolding has_suffix_def by (metis append_take_drop_id)
  then show "\<exists>r. s = r @ p" by blast
qed (auto simp: has_suffix_def)

lemma has_prefix_Nil [simp]: "has_prefix s []"
  by (simp add: has_prefix_def)

lemma has_prefix_Cons [simp]: "has_prefix (x # xs) (y # ys) \<longleftrightarrow> x = y \<and> has_prefix xs ys"
  by (auto simp: has_prefix_def)

lemma has_prefix_Nil_Cons [simp]: "\<not> has_prefix [] (y # ys)"
  by (simp add: has_prefix_def)

lemma index_of_prefix: "has_prefix s p \<Longrightarrow> index_of s p = Some 0"
  by (cases s) (auto simp: has_prefix_iff)

lemma index_of_Some:
  "index_of s p = Some i \<Longrightarrow> i + length p \<le> length s \<and> take (length p) (drop i s) = p"
proof (induction s arbitrary: i)
  case (Cons x xs)
  show ?case
  proof (cases "has_prefix (x # xs) p")
    case True
    with Cons.prems have "i = 0" by simp
    moreover from True obtain r where r: "x # xs = p @ r" by (auto simp: has_prefix_iff)
    ultimately show ?thesis unfolding r by simp
  next
    case False
    with Cons.prems obtain j where "index_of xs p = Some j" "i = Suc j" by auto
    with Cons.IH [of j] show ?thesis by simp
  qed
qed (auto split: if_splits)

lemma index_of_split:
  "index_of s p = Some i \<Longrightarrow> s = take i s @ p @ drop (i + length p) s"
  using index_of_Some [of s p i] by (metis add.commute append_take_drop_id drop_drop)

lemma index_of_first:
  "s = u @ p @ v \<Longrightarrow> \<exists>i. index_of s p = Some i \<and> i \<le> length u"
proof (induction u arbitrary: s)
  case Nil
  then have "has_prefix s p" by (simp add: has_prefix_iff)
  then show ?case by (cases s; cases p) auto
next
  case (Cons x u)
  from Cons.IH [of "u @ p @ v"] obtain i where "index_of (u @ p @ v) p = Some i" "i \<le> length u"
    by auto
  with Cons.prems show ?case by auto
qed

lemma contains_str_iff: "contains_str s p \<longleftrightarrow> (\<exists>u v. s = u @ p @ v)"
  unfolding contains_str_def
  by (metis index_of_first index_of_split not_Some_eq)

lemma contains_char_iff: "contains_str s [c] \<longleftrightarrow> c \<in> set s"
  by (auto simp: contains_str_iff in_set_conv_decomp)

lemma digit_char_props:
  assumes "d < 10"
  shows "is_digit (digit_char d)" "digit_val (digit_char d) = d"
        "digit_char d \<noteq> CHR ''-''" "digit_char d \<noteq> CHR ''+''"
proof -
  have *: "of_char (digit_char d) = 48 + d"
    using assms by (simp add: digit_char_def)
  then show "is_digit (digit_char d)" "digit_val (digit_char d) = d"
    using assms by (simp_all add: is_digit_def digit_val_def)
  have "of_char (CHR ''-'') = (45::nat)" "of_char (CHR ''+'') = (43::nat)" by simp_all
  with * show "digit_char d \<noteq> CHR ''-''" "digit_char d \<noteq> CHR ''+''" by auto
qed

lemma digits_val_snoc: "digits_val (s @ [c]) = 10 * digits_val s + digit_val c"
  by (simp add: digits_val_def)

lemma nat_to_string_nonempty [simp]: "nat_to_string n \<noteq> []"
  by (subst nat_to_string.simps) simp

lemma nat_to_string_digits: "list_all is_digit (nat_to_string n)"
proof (induction n rule: nat_to_string.induct)
  case (1 n)
  then show ?case
    by (subst nat_to_string.simps) (simp add: digit_char_props)
qed

lemma digits_val_nat_to_string [simp]: "digits_val (nat_to_string n) = n"
proof (induction n rule: nat_to_string.induct)
  case (1 n)
  show ?case
  proof (cases "n < 10")
    case True
    then show ?thesis
      by (subst nat_to_string.simps) (simp add: digits_val_def digit_char_props)
  next
    case False
    with 1 show ?thesis
      by (subst nat_to_string.simps) (simp add: digits_val_snoc digit_char_props)
  qed
qed

lemma hd_nat_to_string: "is_digit (hd (nat_to_string n))"
  using nat_to_string_digits [of n] by (cases "nat_to_string n") auto

lemma is_digit_not_sign [simp]: "is_digit c \<Longrightarrow> c \<noteq> CHR ''-'' \<and> c \<noteq> CHR ''+''"
  by (auto simp: is_digit_def)

lemma atoi_digits:
  assumes "ds \<noteq> []" "list_all is_digit ds" "int (digits_val ds) \<le> MaxInt64"
  shows "atoi ds = AtoiOk (int (digits_val ds))"
proof -
  obtain c cs where ds: "ds = c # cs" using assms(1) by (cases ds) auto
  with assms(2) have "c \<noteq> CHR ''-''" "c \<noteq> CHR ''+''"
    using is_digit_not_sign by auto
  moreover have "\<not> int (digits_val ds) < MinInt64" by (simp add: MinInt64_def)
  ultimately show ?thesis
    using ds assms by (auto simp: atoi_def Let_def)
qed

lemma atoi_itoa:
  assumes "int64_range n"
  shows "atoi (itoa n) = AtoiOk n"
proof (cases "n < 0")
  case True
  then have "itoa n = CHR ''-'' # nat_to_string (nat (- n))"
    by (simp add: itoa_def)
  moreover have "- int (digits_val (nat_to_string (nat (- n)))) = n"
    using True by simp
  ultimately show ?thesis
    using assms nat_to_string_digits [of "nat (- n)"]
    by (simp add: atoi_def Let_def int64_range_def)
next
  case False
  with assms have "int (digits_val (nat_to_string (nat n))) \<le> MaxInt64"
    by (simp add: int64_range_def)
  from atoi_digits [OF _ nat_to_string_digits this] False show ?thesis
    by (simp add: itoa_def)
qed

lemma atoi_value_range: "int64_range (atoi_value (atoi s))"
  by (auto simp: atoi_def Let_def int64_range_def MinInt64_def MaxInt64_def split: list.splits)

lemma itoa_inj [simp]: "itoa m = itoa n \<longleftrightarrow> m = n"
proof
  assume e: "itoa m = itoa n"
  have hd_nn: "0 \<le> x \<Longrightarrow> hd (itoa x) \<noteq> CHR ''-''" for x
    using hd_nat_to_string [of "nat x"] by (auto simp: itoa_def is_digit_def)
  have hd_neg: "x < 0 \<Longrightarrow> hd (itoa x) = CHR ''-''" for x by (simp add: itoa_def)
  have inj: "nat_to_string a = nat_to_string b \<Longrightarrow> a = b" for a b
    by (metis digits_val_nat_to_string)
  have "m < 0 \<longleftrightarrow> n < 0" using e hd_nn hd_neg by (metis not_le)
  with e show "m = n" by (auto simp: itoa_def dest!: inj split: if_splits)
qed simp

section \<open>Runs of a component\<close>

text \<open>
  The operations of a component are interleaved in any order. A component describes its atomic
  steps as a relation between the state before, the event and the state after; \<open>run\<close> is a finite
  sequence of such steps.
\<close>

inductive run :: "('s \<Rightarrow> 'e \<Rightarrow> 's \<Rightarrow> bool) \<Rightarrow> 's \<Rightarrow> 'e list \<Rightarrow> 's \<Rightarrow> bool"
  for step where
  run_Nil: "run step s [] s"
| run_Cons: "step s e s' \<Longrightarrow> run step s' es t \<Longrightarrow> run step s (e # es) t"

inductive_cases run_NilE [elim!]: "run step s [] t"
inductive_cases run_ConsE: "run step s (e # es) t"

lemma run_Nil_iff [simp]: "run step s [] t \<longleftrightarrow> s = t"
  by (auto intro: run_Nil)

lemma run_Cons_iff: "run step s (e # es) t \<longleftrightarrow> (\<exists>s'. step s e s' \<and> run step s' es t)"
  by (auto intro: run_Cons elim: run_ConsE)

lemma run_append_iff: "run step s (es @ fs) t \<longleftrightarrow> (\<exists>s'. run step s es s' \<and> run step s' fs t)"
  by (induction es arbitrary: s) (auto simp: run_Cons_iff)

text \<open>
  The contract behind every safety property: an invariant that each atomic step keeps. It is kept
  by every run then.
\<close>

locale step_invariant =
  fixes step :: "'s \<Rightarrow> 'e \<Rightarrow> 's \<Rightarrow> bool"
    and inv :: "'s \<Rightarrow> bool"
  assumes step_keeps: "inv s \<Longrightarrow> step s e s' \<Longrightarrow> inv s'"
begin

lemma run_keeps: "run step s es t \<Longrightarrow> inv s \<Longrightarrow> inv t"
  by (induction rule: run.induct) (auto dest: step_keeps)

lemma run_keeps_everywhere: "run step s (es @ fs) t \<Longrightarrow> inv s \<Longrightarrow> run step s es s' \<Longrightarrow> inv s'"
  using run_keeps by blast

end

end
