(* ===== verification/Session.thy ===== *)
theory Session
  imports Prelude
begin

text \<open>
  API sessions: \<^verbatim>\<open>server/api/session\<close>. The table \<^verbatim>\<open>api_sessions\<close> is the list of its rows and every SQL
  statement of \<^verbatim>\<open>sqlite.go\<close> is one operation on it; the driver may refuse any statement, which is the
  argument \<open>err\<close>. The row id that SQLite chooses for a new row is a function \<open>rowid\<close> of the ids in the
  table. The in-memory cache is go-cache, which the source reaches through the interface
  \<^verbatim>\<open>InternalCacheProvider\<close>: its operations are the record \<open>cache_ops\<close>, and \<open>cache_spec\<close> states what its
  documentation promises. The write-through cache of \<^verbatim>\<open>cache.go\<close> is modelled over both.
\<close>

record api_session =
  sSessionID :: int
  sExpiresAt :: time
  sLastAccessAt :: time
  sUsername :: string
  sUserAgent :: string
  sIPAddress :: string

section \<open>The SQLite storage\<close>

type_synonym session_rows = "api_session list"

text \<open>\<^verbatim>\<open>DATETIME(t)\<close> has the precision of a second.\<close>

definition datetime :: "time \<Rightarrow> int" where
  "datetime t = t div Second"

definition db_failed :: "string \<Rightarrow> goerr \<Rightarrow> goerr" where
  "db_failed msg e = GoError (msg @ '': '' @ err_format e) (err_args e)"

definition Storage_GetAll :: "goerr option \<Rightarrow> time \<Rightarrow> session_rows \<Rightarrow> api_session list res" where
  "Storage_GetAll err now rows =
     (case err of
        Some e \<Rightarrow> Inl (db_failed ''unable to get api sessions from DB'' e)
      | None \<Rightarrow> Inr (filter (\<lambda>s. datetime (sExpiresAt s) \<ge> datetime now) rows))"

definition Storage_Get :: "goerr option \<Rightarrow> int \<Rightarrow> session_rows \<Rightarrow> api_session option res" where
  "Storage_Get err sessionID rows =
     (case err of
        Some e \<Rightarrow> Inl (db_failed ''unable to get api session from DB by token'' e)
      | None \<Rightarrow> Inr (find (\<lambda>s. sSessionID s = sessionID) rows))"

definition Storage_add :: "goerr option \<Rightarrow> (int list \<Rightarrow> int) \<Rightarrow> api_session \<Rightarrow> session_rows \<Rightarrow> (int \<times> session_rows) res" where
  "Storage_add err rowid session rows =
     (case err of
        Some e \<Rightarrow> Inl (db_failed ''unable to create api session'' e)
      | None \<Rightarrow> (let sessionID = rowid (map sSessionID rows)
                 in Inr (sessionID, rows @ [session\<lparr>sSessionID := sessionID\<rparr>])))"

definition Storage_update :: "goerr option \<Rightarrow> api_session \<Rightarrow> session_rows \<Rightarrow> (int \<times> session_rows) res" where
  "Storage_update err session rows =
     (case err of
        Some e \<Rightarrow> Inl (db_failed ''unable to update api session'' e)
      | None \<Rightarrow> Inr (sSessionID session, map (\<lambda>s. if sSessionID s = sSessionID session then session else s) rows))"

definition Storage_Save :: "goerr option \<Rightarrow> (int list \<Rightarrow> int) \<Rightarrow> api_session \<Rightarrow> session_rows \<Rightarrow> (int \<times> session_rows) res" where
  "Storage_Save err rowid session rows =
     (if sSessionID session = 0 then Storage_add err rowid session rows else Storage_update err session rows)"

definition delete_where :: "goerr option \<Rightarrow> (api_session \<Rightarrow> bool) \<Rightarrow> session_rows \<Rightarrow> session_rows res" where
  "delete_where err P rows = (case err of Some e \<Rightarrow> Inl e | None \<Rightarrow> Inr (filter (\<lambda>s. \<not> P s) rows))"

definition Storage_Delete :: "goerr option \<Rightarrow> int \<Rightarrow> session_rows \<Rightarrow> session_rows res" where
  "Storage_Delete err sessionID =
     delete_where (map_option (db_failed ''unable to delete api session by token'') err) (\<lambda>s. sSessionID s = sessionID)"

definition Storage_DeleteExpired :: "goerr option \<Rightarrow> time \<Rightarrow> session_rows \<Rightarrow> session_rows res" where
  "Storage_DeleteExpired err now =
     delete_where (map_option (db_failed ''unable to delete expired api sessions'') err)
       (\<lambda>s. datetime (sExpiresAt s) \<le> datetime now)"

definition Storage_DeleteAllByUser :: "goerr option \<Rightarrow> string \<Rightarrow> session_rows \<Rightarrow> session_rows res" where
  "Storage_DeleteAllByUser err user = delete_where err (\<lambda>s. sUsername s = user)"

definition Storage_DeleteByID :: "goerr option \<Rightarrow> string \<Rightarrow> int \<Rightarrow> session_rows \<Rightarrow> session_rows res" where
  "Storage_DeleteByID err user sessionID = delete_where err (\<lambda>s. sUsername s = user \<and> sSessionID s = sessionID)"

section \<open>The write-through cache\<close>

record 'c cache_ops =
  c_set :: "time \<Rightarrow> string \<Rightarrow> api_session \<Rightarrow> duration \<Rightarrow> 'c \<Rightarrow> 'c"
  c_get :: "time \<Rightarrow> 'c \<Rightarrow> string \<Rightarrow> api_session option"
  c_delete :: "string \<Rightarrow> 'c \<Rightarrow> 'c"
  c_items :: "time \<Rightarrow> 'c \<Rightarrow> (string \<times> api_session) list"

record 'c session_cache =
  sc_cache :: 'c
  sc_rows :: session_rows

definition formatID :: "int \<Rightarrow> string" where
  "formatID sessionID = itoa sessionID"

definition NewCache :: "'c cache_ops \<Rightarrow> goerr option \<Rightarrow> time \<Rightarrow> 'c \<Rightarrow> session_rows \<Rightarrow> 'c session_cache res" where
  "NewCache ops err now c rows =
     (case Storage_GetAll err now rows of
        Inl e \<Rightarrow> Inl (db_failed ''unable to get api sessions from storage'' e)
      | Inr valid \<Rightarrow>
          Inr \<lparr>sc_cache = foldl (\<lambda>c s. c_set ops now (formatID (sSessionID s)) s (sExpiresAt s - now) c) c valid,
               sc_rows = rows\<rparr>)"

definition Cache_Get :: "'c cache_ops \<Rightarrow> time \<Rightarrow> int \<Rightarrow> 'c session_cache \<Rightarrow> api_session option" where
  "Cache_Get ops now sessionID p = c_get ops now (sc_cache p) (formatID sessionID)"

definition Cache_Save ::
    "'c cache_ops \<Rightarrow> goerr option \<Rightarrow> (int list \<Rightarrow> int) \<Rightarrow> time \<Rightarrow> api_session \<Rightarrow> 'c session_cache
       \<Rightarrow> int res \<times> 'c session_cache" where
  "Cache_Save ops err rowid now session p =
     (case Storage_Save err rowid session (sc_rows p) of
        Inl e \<Rightarrow> (Inl e, p)
      | Inr (sessionID, rows) \<Rightarrow>
          (let session1 = session\<lparr>sSessionID := sessionID\<rparr>
           in (Inr sessionID,
               \<lparr>sc_cache = c_set ops now (formatID sessionID) session1 (sExpiresAt session1 - now) (sc_cache p),
                sc_rows = rows\<rparr>)))"

definition Cache_Delete :: "'c cache_ops \<Rightarrow> goerr option \<Rightarrow> int \<Rightarrow> 'c session_cache \<Rightarrow> goerr option \<times> 'c session_cache" where
  "Cache_Delete ops err sessionID p =
     (case Storage_Delete err sessionID (sc_rows p) of
        Inl e \<Rightarrow> (Some e, p)
      | Inr rows \<Rightarrow> (None, \<lparr>sc_cache = c_delete ops (formatID sessionID) (sc_cache p), sc_rows = rows\<rparr>))"

definition Cache_DeleteExpired :: "goerr option \<Rightarrow> time \<Rightarrow> 'c session_cache \<Rightarrow> goerr option \<times> 'c session_cache" where
  "Cache_DeleteExpired err now p =
     (case Storage_DeleteExpired err now (sc_rows p) of
        Inl e \<Rightarrow> (Some e, p)
      | Inr rows \<Rightarrow> (None, p\<lparr>sc_rows := rows\<rparr>))"

definition Cache_GetAllByUser :: "'c cache_ops \<Rightarrow> time \<Rightarrow> string \<Rightarrow> 'c session_cache \<Rightarrow> api_session list" where
  "Cache_GetAllByUser ops now user p =
     sort_key sLastAccessAt (filter (\<lambda>s. sUsername s = user) (map snd (c_items ops now (sc_cache p))))"

definition deleteUserSessionsFromCache :: "'c cache_ops \<Rightarrow> time \<Rightarrow> string \<Rightarrow> int \<Rightarrow> 'c \<Rightarrow> 'c" where
  "deleteUserSessionsFromCache ops now user sessionID c =
     (if sessionID \<noteq> - 1 then c_delete ops (formatID sessionID) c
      else foldl (\<lambda>c (k, s). if sUsername s = user then c_delete ops (formatID (sSessionID s)) c else c) c (c_items ops now c))"

definition Cache_DeleteByID ::
    "'c cache_ops \<Rightarrow> goerr option \<Rightarrow> time \<Rightarrow> string \<Rightarrow> int \<Rightarrow> 'c session_cache \<Rightarrow> goerr option \<times> 'c session_cache" where
  "Cache_DeleteByID ops err now user sessionID p =
     (let c = deleteUserSessionsFromCache ops now user sessionID (sc_cache p) in
      case Storage_DeleteByID err user sessionID (sc_rows p) of
        Inl e \<Rightarrow> (Some (db_failed ''unable to delete session from storage'' e), p\<lparr>sc_cache := c\<rparr>)
      | Inr rows \<Rightarrow> (None, \<lparr>sc_cache = c, sc_rows = rows\<rparr>))"

definition Cache_DeleteAllByUser ::
    "'c cache_ops \<Rightarrow> goerr option \<Rightarrow> time \<Rightarrow> string \<Rightarrow> 'c session_cache \<Rightarrow> goerr option \<times> 'c session_cache" where
  "Cache_DeleteAllByUser ops err now user p =
     (let c = deleteUserSessionsFromCache ops now user (- 1) (sc_cache p) in
      case Storage_DeleteAllByUser err user (sc_rows p) of
        Inl e \<Rightarrow> (Some (db_failed ''unable to delete sessions from storage'' e), p\<lparr>sc_cache := c\<rparr>)
      | Inr rows \<Rightarrow> (None, \<lparr>sc_cache = c, sc_rows = rows\<rparr>))"

section \<open>What the cache and the database promise\<close>

text \<open>
  go-cache: an item that was set is found under its key until it expires or is deleted or replaced; an item
  set for a positive duration is found during it; \<^verbatim>\<open>Items\<close> returns what \<^verbatim>\<open>Get\<close> would find; what is found
  later was there before.
\<close>

definition cache_spec :: "'c cache_ops \<Rightarrow> bool" where
  "cache_spec ops \<longleftrightarrow>
     (\<forall>t k v d c now k'. k' \<noteq> k \<longrightarrow> c_get ops now (c_set ops t k v d c) k' = c_get ops now c k') \<and>
     (\<forall>t k v d c now. c_get ops now (c_set ops t k v d c) k \<in> {None, Some v}) \<and>
     (\<forall>t k v d c now. 0 < d \<and> now \<le> t + d \<longrightarrow> c_get ops now (c_set ops t k v d c) k = Some v) \<and>
     (\<forall>k c now k'. c_get ops now (c_delete ops k c) k' = (if k' = k then None else c_get ops now c k')) \<and>
     (\<forall>c now. set (c_items ops now c) = {(k, v). c_get ops now c k = Some v}) \<and>
     (\<forall>c k now now' v. now \<le> now' \<and> c_get ops now' c k = Some v \<longrightarrow> c_get ops now c k = Some v)"

text \<open>SQLite: a new row gets a positive id that no row of the table has.\<close>

definition rowid_spec :: "(int list \<Rightarrow> int) \<Rightarrow> bool" where
  "rowid_spec rowid \<longleftrightarrow> (\<forall>ids. 0 < rowid ids \<and> rowid ids \<notin> set ids)"

text \<open>
  SQLite without \<^verbatim>\<open>AUTOINCREMENT\<close>, which is how the migration of this table declares the column: the id of
  a new row is one more than the largest id in the table, and 1 in an empty table.
\<close>

definition rowid_max :: "int list \<Rightarrow> int" where
  "rowid_max ids = foldl max 0 ids + 1"

lemma cache_specD:
  assumes "cache_spec ops"
  shows "k' \<noteq> k \<Longrightarrow> c_get ops now (c_set ops t k v d c) k' = c_get ops now c k'"
    and "c_get ops now (c_set ops t k v d c) k = Some w \<Longrightarrow> w = v"
    and "0 < d \<Longrightarrow> now \<le> t + d \<Longrightarrow> c_get ops now (c_set ops t k v d c) k = Some v"
    and "c_get ops now (c_delete ops k c) k' = (if k' = k then None else c_get ops now c k')"
    and "set (c_items ops now c) = {(k, v). c_get ops now c k = Some v}"
    and "now \<le> now' \<Longrightarrow> c_get ops now' c k = Some v \<Longrightarrow> c_get ops now c k = Some v"
proof -
  note s = assms [unfolded cache_spec_def]
  show "k' \<noteq> k \<Longrightarrow> c_get ops now (c_set ops t k v d c) k' = c_get ops now c k'"
    by (rule s [THEN conjunct1, rule_format])
  show "w = v" if "c_get ops now (c_set ops t k v d c) k = Some w"
    using s [THEN conjunct2, THEN conjunct1, rule_format, of now t k v d c] that by simp
  show "0 < d \<Longrightarrow> now \<le> t + d \<Longrightarrow> c_get ops now (c_set ops t k v d c) k = Some v"
    by (rule s [THEN conjunct2, THEN conjunct2, THEN conjunct1, rule_format]) simp
  show "c_get ops now (c_delete ops k c) k' = (if k' = k then None else c_get ops now c k')"
    by (rule s [THEN conjunct2, THEN conjunct2, THEN conjunct2, THEN conjunct1, rule_format])
  show "set (c_items ops now c) = {(k, v). c_get ops now c k = Some v}"
    by (rule s [THEN conjunct2, THEN conjunct2, THEN conjunct2, THEN conjunct2, THEN conjunct1, rule_format])
  show "now \<le> now' \<Longrightarrow> c_get ops now' c k = Some v \<Longrightarrow> c_get ops now c k = Some v"
    by (rule s [THEN conjunct2, THEN conjunct2, THEN conjunct2, THEN conjunct2, THEN conjunct2, rule_format]) simp
qed

lemma foldl_max_ge: "a \<le> foldl max (a::int) ids" "x \<in> set ids \<Longrightarrow> x \<le> foldl max (a::int) ids"
proof (induction ids arbitrary: a)
  case (Cons y ys)
  { case 1 show ?case using Cons.IH(1) [of "max a y"] by simp }
  { case 2 show ?case using Cons.IH(1) [of "max a y"] Cons.IH(2) [of "max a y"] 2 by auto }
qed simp_all

lemma rowid_max_spec: "rowid_spec rowid_max"
  unfolding rowid_spec_def rowid_max_def
proof (intro allI conjI)
  fix ids :: "int list"
  show "0 < foldl max 0 ids + 1" using foldl_max_ge(1) [of 0 ids] by simp
  show "foldl max 0 ids + 1 \<notin> set ids" using foldl_max_ge(2) [of "foldl max 0 ids + 1" ids 0] by fastforce
qed

text \<open>
  A cache that meets the specification: a map from keys to values with their deadline, none where the
  duration is not positive.
\<close>

type_synonym map_cache_state = "(string \<times> api_session \<times> time option) list"

definition map_cache_get :: "time \<Rightarrow> map_cache_state \<Rightarrow> string \<Rightarrow> api_session option" where
  "map_cache_get now c k =
     (case map_of c k of
        Some (v, Some t) \<Rightarrow> if now \<le> t then Some v else None
      | Some (v, None) \<Rightarrow> Some v
      | None \<Rightarrow> None)"

definition map_cache :: "map_cache_state cache_ops" where
  "map_cache =
     \<lparr>c_set = (\<lambda>now k v d c. (k, v, if 0 < d then Some (now + d) else None) # c),
      c_get = map_cache_get,
      c_delete = (\<lambda>k. filter (\<lambda>e. fst e \<noteq> k)),
      c_items = (\<lambda>now c. concat (map (\<lambda>k. case map_cache_get now c k of Some v \<Rightarrow> [(k, v)] | None \<Rightarrow> []) (map fst c)))\<rparr>"

lemma map_of_filter_neq: "map_of (filter (\<lambda>e. fst e \<noteq> k) c) k' = (if k' = k then None else map_of c k')"
  by (induction c) auto

lemma map_cache_get_dom: "map_cache_get now c k = Some v \<Longrightarrow> k \<in> set (map fst c)"
  unfolding map_cache_get_def by (force split: option.splits dest: map_of_SomeD)

lemma map_cache_spec: "cache_spec map_cache"
  unfolding cache_spec_def
proof (intro conjI allI impI)
  fix t k v d c now show "c_get map_cache now (c_set map_cache t k v d c) k \<in> {None, Some v}"
    by (simp add: map_cache_def map_cache_get_def)
next
  fix c and now :: int
  show "set (c_items map_cache now c) = {(k, v). c_get map_cache now c k = Some v}"
    using map_cache_get_dom [of now c] by (auto simp: map_cache_def split: option.splits) force
qed (auto simp: map_cache_def map_cache_get_def map_of_filter_neq split: option.splits if_splits)

section \<open>The storage's contract\<close>

definition stored :: "session_rows \<Rightarrow> int \<Rightarrow> api_session option" where
  "stored rows sid = find (\<lambda>s. sSessionID s = sid) rows"

text \<open>The table has one row per id, and ids are positive.\<close>

definition rows_wf :: "session_rows \<Rightarrow> bool" where
  "rows_wf rows \<longleftrightarrow> distinct (map sSessionID rows) \<and> list_all (\<lambda>s. 0 < sSessionID s) rows"

lemma stored_Some_iff: "rows_wf rows \<Longrightarrow> stored rows sid = Some s \<longleftrightarrow> s \<in> set rows \<and> sSessionID s = sid"
  unfolding stored_def rows_wf_def by (induction rows) (auto simp: image_iff)

lemma stored_None_iff: "stored rows sid = None \<longleftrightarrow> sid \<notin> sSessionID ` set rows"
  unfolding stored_def by (auto simp: find_None_iff)

lemma stored_append: "stored (rows @ [s]) sid = (case stored rows sid of Some r \<Rightarrow> Some r | None \<Rightarrow> if sSessionID s = sid then Some s else None)"
  unfolding stored_def by (induction rows) auto

lemma stored_filter: "rows_wf rows \<Longrightarrow> stored (filter P rows) sid = (case stored rows sid of Some s \<Rightarrow> if P s then Some s else None | None \<Rightarrow> None)"
proof -
  assume wf: "rows_wf rows"
  then have wf': "rows_wf (filter P rows)"
    by (auto simp: rows_wf_def distinct_map list_all_iff intro: inj_on_subset)
  show ?thesis
  proof (cases "stored (filter P rows) sid")
    case None
    with stored_None_iff [of "filter P rows" sid] show ?thesis
      using stored_Some_iff [OF wf, of sid] by (auto split: option.splits)
  next
    case (Some s)
    then have "s \<in> set rows \<and> P s \<and> sSessionID s = sid" by (simp add: stored_Some_iff [OF wf'])
    with Some stored_Some_iff [OF wf, of sid s] show ?thesis by simp
  qed
qed

lemma stored_update: "stored (map (\<lambda>s. if sSessionID s = sSessionID n then n else s) rows) sid
    = (if sid = sSessionID n then map_option (\<lambda>_. n) (stored rows sid) else stored rows sid)"
  unfolding stored_def by (induction rows) auto

text \<open>
  What the cache relies on of a session storage: \<open>look\<close> is the row of an id; a saved session is stored under
  the id the save returns and nothing else changes, except that a session that has an id without a row stays
  unstored; a deletion removes exactly what it names.
\<close>

locale session_storage =
  fixes ok :: "'s \<Rightarrow> bool"
    and look :: "'s \<Rightarrow> int \<Rightarrow> api_session option"
    and save :: "api_session \<Rightarrow> 's \<Rightarrow> (int \<times> 's) res"
    and delete :: "(api_session \<Rightarrow> bool) \<Rightarrow> 's \<Rightarrow> 's res"
  assumes look_id: "ok st \<Longrightarrow> look st sid = Some s \<Longrightarrow> sSessionID s = sid \<and> sid \<noteq> 0"
    and save_ok: "ok st \<Longrightarrow> save s st = Inr (sid, st') \<Longrightarrow> ok st'"
    and save_id: "ok st \<Longrightarrow> save s st = Inr (sid, st') \<Longrightarrow> sSessionID s \<noteq> 0 \<Longrightarrow> sid = sSessionID s"
    and save_look: "ok st \<Longrightarrow> save s st = Inr (sid, st') \<Longrightarrow> sSessionID s = 0 \<or> look st (sSessionID s) \<noteq> None \<Longrightarrow>
          look st' i = (if i = sid then Some (s\<lparr>sSessionID := sid\<rparr>) else look st i)"
    and delete_ok: "ok st \<Longrightarrow> delete P st = Inr st' \<Longrightarrow> ok st'"
    and delete_look: "ok st \<Longrightarrow> delete P st = Inr st' \<Longrightarrow>
          look st' i = (case look st i of Some s \<Rightarrow> if P s then None else Some s | None \<Rightarrow> None)"
begin

text \<open>A session the cache finds is the stored one, or one whose time is up to the second.\<close>

definition coherent :: "'c cache_ops \<Rightarrow> time \<Rightarrow> 'c \<Rightarrow> 's \<Rightarrow> bool" where
  "coherent ops now c st \<longleftrightarrow>
     (\<forall>k s. c_get ops now c k = Some s \<longrightarrow>
        k = formatID (sSessionID s) \<and> (look st (sSessionID s) = Some s \<or> datetime (sExpiresAt s) \<le> datetime now))"

lemma coherent_later:
  assumes "cache_spec ops" "coherent ops now c st" "now \<le> now'"
  shows "coherent ops now' c st"
  unfolding coherent_def
proof (intro allI impI)
  fix k s assume "c_get ops now' c k = Some s"
  then have "c_get ops now c k = Some s" by (rule cache_specD(6) [OF assms(1,3)])
  then have "k = formatID (sSessionID s) \<and> (look st (sSessionID s) = Some s \<or> datetime (sExpiresAt s) \<le> datetime now)"
    using assms(2) unfolding coherent_def by blast
  moreover have "datetime now \<le> datetime now'"
    using assms(3) by (simp add: datetime_def zdiv_mono1)
  ultimately show "k = formatID (sSessionID s) \<and> (look st (sSessionID s) = Some s \<or> datetime (sExpiresAt s) \<le> datetime now')"
    by linarith
qed

lemma coherent_save:
  assumes "cache_spec ops" "ok st" "coherent ops now c st"
    and "save s st = Inr (sid, st')" "sSessionID s = 0 \<or> look st (sSessionID s) \<noteq> None"
  shows "coherent ops now (c_set ops t (formatID sid) (s\<lparr>sSessionID := sid\<rparr>) d c) st'"
  unfolding coherent_def
proof (intro allI impI)
  fix k r assume g: "c_get ops now (c_set ops t (formatID sid) (s\<lparr>sSessionID := sid\<rparr>) d c) k = Some r"
  note sl = save_look [OF assms(2,4,5)]
  show "k = formatID (sSessionID r) \<and> (look st' (sSessionID r) = Some r \<or> datetime (sExpiresAt r) \<le> datetime now)"
  proof (cases "k = formatID sid")
    case True
    with g have "r = s\<lparr>sSessionID := sid\<rparr>" using cache_specD(2) [OF assms(1)] by blast
    with True show ?thesis by (simp add: sl)
  next
    case False
    with g have "c_get ops now c k = Some r" using cache_specD(1) [OF assms(1)] by metis
    with assms(3) False show ?thesis unfolding coherent_def by (auto simp: sl)
  qed
qed

lemma coherent_drop:
  assumes "coherent ops now c st" "\<And>k s. c_get ops now c' k = Some s \<Longrightarrow> c_get ops now c k = Some s"
  shows "coherent ops now c' st"
  using assms unfolding coherent_def by blast

lemma coherent_delete:
  assumes "ok st" "coherent ops now c st" "delete P st = Inr st'"
    and "\<And>k s. c_get ops now c k = Some s \<Longrightarrow> P s \<Longrightarrow> datetime (sExpiresAt s) \<le> datetime now"
  shows "coherent ops now c st'"
  unfolding coherent_def
proof (intro allI impI)
  fix k s assume g: "c_get ops now c k = Some s"
  with assms(2) have "k = formatID (sSessionID s)" "look st (sSessionID s) = Some s \<or> datetime (sExpiresAt s) \<le> datetime now"
    unfolding coherent_def by blast+
  with assms(4) [OF g] show "k = formatID (sSessionID s) \<and> (look st' (sSessionID s) = Some s \<or> datetime (sExpiresAt s) \<le> datetime now)"
    by (auto simp: delete_look [OF assms(1,3)])
qed

end

lemma rowid_fresh: "rowid_spec rowid \<Longrightarrow> 0 < rowid (map f rows) \<and> rowid (map f rows) \<notin> f ` set rows"
  unfolding rowid_spec_def by (metis list.set_map)

lemma rows_wf_save:
  assumes "rowid_spec rowid" "rows_wf rows" "Storage_Save err rowid s rows = Inr (sid, rows')"
  shows "rows_wf rows'"
proof -
  have u: "map sSessionID (map (\<lambda>r. if sSessionID r = sSessionID s then s else r) rows) = map sSessionID rows"
    by simp
  have "\<forall>r\<in>set rows. 0 < sSessionID (if sSessionID r = sSessionID s then s else r)"
    using assms(2) by (auto simp: rows_wf_def list_all_iff)
  with u assms(2,3) rowid_fresh [OF assms(1), of sSessionID rows] show ?thesis
    unfolding Storage_Save_def Storage_add_def Storage_update_def
    by (auto simp: rows_wf_def list_all_iff Let_def simp del: map_map split: if_splits option.splits)
qed

lemma stored_save:
  assumes "rowid_spec rowid" "rows_wf rows" "Storage_Save err rowid s rows = Inr (sid, rows')"
    and "sSessionID s = 0 \<or> stored rows (sSessionID s) \<noteq> None"
  shows "stored rows' i = (if i = sid then Some (s\<lparr>sSessionID := sid\<rparr>) else stored rows i)"
proof -
  have f: "stored rows (rowid (map sSessionID rows)) = None"
    using rowid_fresh [OF assms(1), of sSessionID rows] by (simp add: stored_None_iff)
  from assms(3,4) f show ?thesis
    unfolding Storage_Save_def Storage_add_def Storage_update_def
    by (auto simp: stored_append stored_update Let_def split: if_splits option.splits)
qed

lemma sqlite_session_storage:
  assumes "rowid_spec rowid"
  shows "session_storage rows_wf stored (Storage_Save err rowid) (delete_where err')"
proof
  fix st sid s assume "rows_wf st" "stored st sid = Some s"
  then show "sSessionID s = sid \<and> sid \<noteq> 0"
    using stored_Some_iff [of st sid s] by (auto simp: rows_wf_def list_all_iff)
next
  fix st sid s st' assume "rows_wf st" "Storage_Save err rowid s st = Inr (sid, st')"
  then show "rows_wf st'" by (rule rows_wf_save [OF assms])
next
  fix st sid s st' assume "Storage_Save err rowid s st = Inr (sid, st')" "sSessionID s \<noteq> 0"
  then show "sid = sSessionID s" by (auto simp: Storage_Save_def Storage_update_def split: option.splits)
next
  fix st sid s st' i
  assume "rows_wf st" "Storage_Save err rowid s st = Inr (sid, st')" "sSessionID s = 0 \<or> stored st (sSessionID s) \<noteq> None"
  then show "stored st' i = (if i = sid then Some (s\<lparr>sSessionID := sid\<rparr>) else stored st i)"
    by (rule stored_save [OF assms])
next
  fix st P st' assume "rows_wf st" "delete_where err' P st = Inr st'"
  then show "rows_wf st'"
    by (auto simp: delete_where_def rows_wf_def distinct_map list_all_iff inj_on_def split: option.splits)
next
  fix st P st' i assume "rows_wf st" "delete_where err' P st = Inr st'"
  then show "stored st' i = (case stored st i of Some s \<Rightarrow> if P s then None else Some s | None \<Rightarrow> None)"
    by (auto simp: delete_where_def stored_filter split: option.splits)
qed

interpretation sq: session_storage rows_wf stored "Storage_Save err rowid_max" "delete_where err'" for err err'
  by (rule sqlite_session_storage [OF rowid_max_spec])

lemmas storage_laws =
  session_storage.coherent_save [OF sqlite_session_storage]
  session_storage.coherent_delete [OF sqlite_session_storage]
  session_storage.delete_ok [OF sqlite_session_storage]

section \<open>Runs of the cache\<close>

text \<open>
  The operations on the cache, each at a time not before the one of the operation before. A session with an id
  is only saved while its row exists: the source saves one after it has read it.
\<close>

datatype session_event =
    EvSave "goerr option" api_session
  | EvDelete "goerr option" int
  | EvDeleteExpired "goerr option"
  | EvDeleteByID "goerr option" string int
  | EvDeleteAllByUser "goerr option" string

fun session_apply :: "'c cache_ops \<Rightarrow> (int list \<Rightarrow> int) \<Rightarrow> time \<Rightarrow> session_event \<Rightarrow> 'c session_cache \<Rightarrow> 'c session_cache" where
  "session_apply ops rowid now (EvSave err s) p = snd (Cache_Save ops err rowid now s p)"
| "session_apply ops rowid now (EvDelete err sid) p = snd (Cache_Delete ops err sid p)"
| "session_apply ops rowid now (EvDeleteExpired err) p = snd (Cache_DeleteExpired err now p)"
| "session_apply ops rowid now (EvDeleteByID err user sid) p = snd (Cache_DeleteByID ops err now user sid p)"
| "session_apply ops rowid now (EvDeleteAllByUser err user) p = snd (Cache_DeleteAllByUser ops err now user p)"

fun session_enabled :: "session_event \<Rightarrow> 'c session_cache \<Rightarrow> bool" where
  "session_enabled (EvSave err s) p \<longleftrightarrow> sSessionID s = 0 \<or> stored (sc_rows p) (sSessionID s) \<noteq> None"
| "session_enabled _ p \<longleftrightarrow> True"

inductive session_step ::
    "'c cache_ops \<Rightarrow> (int list \<Rightarrow> int) \<Rightarrow> 'c session_cache \<times> time \<Rightarrow> time \<times> session_event \<Rightarrow> 'c session_cache \<times> time \<Rightarrow> bool"
  for ops rowid where
  "t \<le> now \<Longrightarrow> session_enabled ev p \<Longrightarrow> session_step ops rowid (p, t) (now, ev) (session_apply ops rowid now ev p, now)"

inductive_simps session_step_iff: "session_step ops rowid (p, t) (now, ev) (q, t')"

definition session_inv :: "'c cache_ops \<Rightarrow> 'c session_cache \<times> time \<Rightarrow> bool" where
  "session_inv ops = (\<lambda>(p, t). rows_wf (sc_rows p) \<and> sq.coherent ops t (sc_cache p) (sc_rows p))"

lemma fold_delete_get:
  assumes "cache_spec ops"
  shows "c_get ops now (foldl (\<lambda>c (k, s). if P s then c_delete ops (f s) c else c) c items) k
           = (if \<exists>(k', s)\<in>set items. P s \<and> f s = k then None else c_get ops now c k)"
proof (induction items arbitrary: c)
  case (Cons a items)
  obtain k' s where a: "a = (k', s)" by (cases a)
  show ?case unfolding a using Cons.IH by (cases "P s") (auto simp: cache_specD(4) [OF assms])
qed simp

lemma delete_from_cache_sub:
  assumes "cache_spec ops" "c_get ops now' (deleteUserSessionsFromCache ops now user sid c) k = Some s"
  shows "c_get ops now' c k = Some s"
  using assms(2)
  by (auto simp: deleteUserSessionsFromCache_def fold_delete_get [OF assms(1)] cache_specD(4) [OF assms(1)] split: if_splits)

text \<open>Deleting all the sessions of a user from a cache whose keys are right leaves exactly the others.\<close>

lemma delete_user_from_cache:
  assumes "cache_spec ops" "sq.coherent ops now c st"
  shows "c_get ops now (deleteUserSessionsFromCache ops now user (- 1) c) k
           = (case c_get ops now c k of Some s \<Rightarrow> if sUsername s = user then None else Some s | None \<Rightarrow> None)"
proof -
  have k: "\<And>k s. c_get ops now c k = Some s \<Longrightarrow> formatID (sSessionID s) = k"
    using assms(2) unfolding sq.coherent_def by blast
  have "(\<exists>(k', s)\<in>set (c_items ops now c). sUsername s = user \<and> formatID (sSessionID s) = k)
          \<longleftrightarrow> (\<exists>s. c_get ops now c k = Some s \<and> sUsername s = user)"
    unfolding cache_specD(5) [OF assms(1)] using k by blast
  then show ?thesis
    by (simp add: deleteUserSessionsFromCache_def fold_delete_get [OF assms(1)] split: option.split)
qed

lemma session_inv_save:
  assumes "cache_spec ops" "rowid_spec rowid" "session_inv ops (p, t)"
    and "sSessionID s = 0 \<or> stored (sc_rows p) (sSessionID s) \<noteq> None"
  shows "session_inv ops (snd (Cache_Save ops err rowid now s p), t)"
proof (cases "Storage_Save err rowid s (sc_rows p)")
  case (Inl e) with assms(3) show ?thesis by (simp add: Cache_Save_def)
next
  case (Inr r)
  obtain sid rows where r: "r = (sid, rows)" by (cases r)
  have "rows_wf rows" using rows_wf_save [OF assms(2)] assms(3) Inr r by (auto simp: session_inv_def)
  moreover have "sq.coherent ops t (c_set ops now (formatID sid) (s\<lparr>sSessionID := sid\<rparr>) (sExpiresAt s - now) (sc_cache p)) rows"
    using storage_laws(1) [OF assms(2,1)] assms(3,4) Inr r by (auto simp: session_inv_def)
  ultimately show ?thesis using Inr r by (simp add: Cache_Save_def session_inv_def)
qed

text \<open>Every deletion has this shape: the cache loses entries, and the table loses rows the cache has lost.\<close>

lemma session_inv_delete:
  assumes "rowid_spec rowid" "session_inv ops (p, t)"
    and sub: "\<And>k s. c_get ops t c k = Some s \<Longrightarrow> c_get ops t (sc_cache p) k = Some s"
    and rows: "rows = sc_rows p \<or> delete_where err P (sc_rows p) = Inr rows"
    and lost: "\<And>k s. c_get ops t c k = Some s \<Longrightarrow> P s \<Longrightarrow> datetime (sExpiresAt s) \<le> datetime t"
  shows "session_inv ops (\<lparr>sc_cache = c, sc_rows = rows\<rparr>, t)"
proof -
  from assms(2) have wf: "rows_wf (sc_rows p)" and co: "sq.coherent ops t (sc_cache p) (sc_rows p)"
    by (auto simp: session_inv_def)
  have co': "sq.coherent ops t c (sc_rows p)" by (rule sq.coherent_drop [OF co sub])
  from rows show ?thesis
  proof
    assume "rows = sc_rows p" with wf co' show ?thesis by (simp add: session_inv_def)
  next
    assume d: "delete_where err P (sc_rows p) = Inr rows"
    from storage_laws(2) [OF assms(1) wf co' d lost] storage_laws(3) [OF assms(1) wf d]
    show ?thesis by (simp add: session_inv_def)
  qed
qed

lemma session_inv_step:
  assumes "cache_spec ops" "rowid_spec rowid" "session_inv ops (p, now)" "session_enabled ev p"
  shows "session_inv ops (session_apply ops rowid now ev p, now)"
proof -
  note del = session_inv_delete [OF assms(2,3)]
  note get_del = cache_specD(4) [OF assms(1)]
  note sub = delete_from_cache_sub [OF assms(1)]
  from assms(3) have wf: "rows_wf (sc_rows p)" and co: "sq.coherent ops now (sc_cache p) (sc_rows p)"
    by (auto simp: session_inv_def)
  have key: "k = formatID (sSessionID s)" if "c_get ops now (sc_cache p) k = Some s" for k s
    using co that unfolding sq.coherent_def by blast
  show ?thesis
  proof (cases ev)
    case (EvSave err s) with assms show ?thesis by (simp add: session_inv_save)
  next
    case (EvDelete err sid)
    show ?thesis
    proof (cases "Storage_Delete err sid (sc_rows p)")
      case (Inr rows)
      then have "session_inv ops (\<lparr>sc_cache = c_delete ops (formatID sid) (sc_cache p), sc_rows = rows\<rparr>, now)"
        unfolding Storage_Delete_def
        by (intro del [where P = "\<lambda>s. sSessionID s = sid", OF _ disjI2]) (auto simp: get_del dest: key split: if_splits)
      with EvDelete Inr show ?thesis by (simp add: Cache_Delete_def)
    qed (use EvDelete assms(3) in \<open>simp add: Cache_Delete_def\<close>)
  next
    case (EvDeleteExpired err)
    show ?thesis
    proof (cases "Storage_DeleteExpired err now (sc_rows p)")
      case (Inr rows)
      then have "session_inv ops (\<lparr>sc_cache = sc_cache p, sc_rows = rows\<rparr>, now)"
        unfolding Storage_DeleteExpired_def by (intro del [OF _ disjI2]) auto
      with EvDeleteExpired Inr show ?thesis by (cases p) (simp add: Cache_DeleteExpired_def)
    qed (use EvDeleteExpired assms(3) in \<open>simp add: Cache_DeleteExpired_def\<close>)
  next
    case (EvDeleteByID err user sid)
    define c where "c = deleteUserSessionsFromCache ops now user sid (sc_cache p)"
    have lost: "datetime (sExpiresAt s) \<le> datetime now"
      if "c_get ops now c k = Some s" "sUsername s = user \<and> sSessionID s = sid" for k s
    proof (cases "sid = - 1")
      case True
      then show ?thesis using that delete_user_from_cache [OF assms(1) co, of user k]
        by (auto simp: c_def split: option.splits if_splits)
    next
      case False
      with that key [OF sub [OF that(1) [unfolded c_def]]] show ?thesis
        by (simp add: c_def deleteUserSessionsFromCache_def get_del)
    qed
    have "session_inv ops (\<lparr>sc_cache = c, sc_rows = rows\<rparr>, now)"
      if "rows = sc_rows p \<or> delete_where err (\<lambda>s. sUsername s = user \<and> sSessionID s = sid) (sc_rows p) = Inr rows" for rows
      using sub that lost unfolding c_def by (intro del) blast+
    then show ?thesis using EvDeleteByID
      by (cases p) (auto simp: Cache_DeleteByID_def Let_def c_def Storage_DeleteByID_def split: sum.split)
  next
    case (EvDeleteAllByUser err user)
    define c where "c = deleteUserSessionsFromCache ops now user (- 1) (sc_cache p)"
    have lost: "sUsername s \<noteq> user" if "c_get ops now c k = Some s" for k s
      using that delete_user_from_cache [OF assms(1) co, of user k] by (auto simp: c_def split: option.splits if_splits)
    have "session_inv ops (\<lparr>sc_cache = c, sc_rows = rows\<rparr>, now)"
      if "rows = sc_rows p \<or> delete_where err (\<lambda>s. sUsername s = user) (sc_rows p) = Inr rows" for rows
      using sub that lost unfolding c_def by (intro del) blast+
    then show ?thesis using EvDeleteAllByUser
      by (cases p) (auto simp: Cache_DeleteAllByUser_def Let_def c_def Storage_DeleteAllByUser_def split: sum.split)
  qed
qed

lemma session_inv_later: "cache_spec ops \<Longrightarrow> session_inv ops (p, t) \<Longrightarrow> t \<le> now \<Longrightarrow> session_inv ops (p, now)"
  using sq.coherent_later by (auto simp: session_inv_def)

lemma session_run_inv:
  assumes "cache_spec ops" "rowid_spec rowid"
  shows "run (session_step ops rowid) s es t \<Longrightarrow> session_inv ops s \<Longrightarrow> session_inv ops t"
proof -
  have "session_inv ops s'" if "session_inv ops s" "session_step ops rowid s e s'" for s e s'
    using that(2,1) by cases (simp add: session_inv_step [OF assms session_inv_later [OF assms(1)]])
  then have "step_invariant (session_step ops rowid) (session_inv ops)"
    by (rule step_invariant.intro)
  then show "run (session_step ops rowid) s es t \<Longrightarrow> session_inv ops s \<Longrightarrow> session_inv ops t"
    by (rule step_invariant.run_keeps)
qed

lemma fold_set_get:
  assumes "cache_spec ops" "\<forall>k. c_get ops now c k = Some s \<longrightarrow> P k s"
    and "\<forall>r\<in>set rs. P (formatID (sSessionID r)) r"
    and "c_get ops now (foldl (\<lambda>c r. c_set ops t (formatID (sSessionID r)) r (d r) c) c rs) k = Some s"
  shows "P k s"
  using assms(2-)
proof (induction rs arbitrary: c)
  case (Cons r rs)
  let ?c = "c_set ops t (formatID (sSessionID r)) r (d r) c"
  have "\<forall>k. c_get ops now ?c k = Some s \<longrightarrow> P k s"
  proof (intro allI impI)
    fix k assume g: "c_get ops now ?c k = Some s"
    show "P k s"
    proof (cases "k = formatID (sSessionID r)")
      case True
      with g have "s = r" using cache_specD(2) [OF assms(1)] by blast
      with True Cons.prems(2) show ?thesis by simp
    next
      case False with g Cons.prems(1) show ?thesis by (simp add: cache_specD(1) [OF assms(1)])
    qed
  qed
  with Cons.IH Cons.prems show ?case by simp
qed simp

lemma session_inv_new:
  assumes "cache_spec ops" "rows_wf rows" "\<forall>k. c_get ops t c k = None" "NewCache ops err t c rows = Inr p"
  shows "session_inv ops (p, t)"
proof -
  let ?valid = "filter (\<lambda>s. datetime (sExpiresAt s) \<ge> datetime t) rows"
  have p: "p = \<lparr>sc_cache = foldl (\<lambda>c s. c_set ops t (formatID (sSessionID s)) s (sExpiresAt s - t) c) c ?valid, sc_rows = rows\<rparr>"
    using assms(4) by (auto simp: NewCache_def Storage_GetAll_def split: option.splits)
  have "k = formatID (sSessionID s) \<and> stored rows (sSessionID s) = Some s" if "c_get ops t (sc_cache p) k = Some s" for k s
    by (rule fold_set_get [OF assms(1), where P = "\<lambda>k s. k = formatID (sSessionID s) \<and> stored rows (sSessionID s) = Some s"])
      (use that assms(2,3) in \<open>auto simp: p stored_Some_iff\<close>)
  with assms(2) show ?thesis by (auto simp: p session_inv_def sq.coherent_def)
qed

section \<open>Properties\<close>



text \<open>A table with a session of each of two users, its cache, and a run that refreshes one and adds one.\<close>

definition example_session :: "int \<Rightarrow> string \<Rightarrow> api_session" where
  "example_session sid user =
     \<lparr>sSessionID = sid, sExpiresAt = 600 * Second, sLastAccessAt = 0, sUsername = user, sUserAgent = ''curl'', sIPAddress = ''10.0.0.1''\<rparr>"

definition example_rows :: session_rows where
  "example_rows = [example_session 1 ''alice'', example_session 2 ''bob'']"

definition example_cache :: "map_cache_state session_cache" where
  "example_cache =
     \<lparr>sc_cache = foldl (\<lambda>c s. c_set map_cache 0 (formatID (sSessionID s)) s (sExpiresAt s - 0) c) [] example_rows,
      sc_rows = example_rows\<rparr>"

definition example_events :: "(time \<times> session_event) list" where
  "example_events = [(Second, EvSave None (example_session 0 ''alice'')), (2 * Second, EvDelete (Some (GoError ''locked'' [])) 2)]"

definition example_cache' :: "map_cache_state session_cache" where
  "example_cache' = session_apply map_cache rowid_max (2 * Second) (EvDelete (Some (GoError ''locked'' [])) 2)
     (session_apply map_cache rowid_max Second (EvSave None (example_session 0 ''alice'')) example_cache)"

lemma example_cache_new: "NewCache map_cache None 0 [] example_rows = Inr example_cache"
  by (simp add: NewCache_def Storage_GetAll_def example_cache_def example_rows_def example_session_def datetime_def)

lemma example_run: "run (session_step map_cache rowid_max) (example_cache, 0) example_events (example_cache', 2 * Second)"
  unfolding example_events_def example_cache'_def
  by (rule run_Cons, rule session_step.intros, simp, simp add: example_session_def,
      rule run_Cons, rule session_step.intros, simp, simp, rule run_Nil)

lemma example_rows_wf: "rows_wf example_rows"
  by (simp add: rows_wf_def example_rows_def example_session_def)

lemma example_empty: "\<forall>k. c_get map_cache 0 [] k = None"
  by (simp add: map_cache_def map_cache_get_def)

lemmas example_session_run = map_cache_spec rowid_max_spec example_rows_wf example_empty example_cache_new example_run

lemma example_get: "Cache_Get map_cache (2 * Second) 3 example_cache' = Some (example_session 3 ''alice'')"
  by (simp add: Cache_Get_def example_cache'_def example_cache_def example_rows_def example_session_def Cache_Save_def
      Storage_Save_def Storage_add_def Cache_Delete_def Storage_Delete_def delete_where_def rowid_max_def map_cache_def
      map_cache_get_def formatID_def Let_def)



text \<open>
  Two boundaries of the cache. Saving a session whose row is gone (read before a deletion, saved after it)
  makes the cache accept it again although the table has no such row. Deleting a session by id under the wrong
  username evicts the session of its real owner from the cache and leaves its row.
\<close>

lemma save_without_row_revives:
  assumes "cache_spec ops" "sSessionID s \<noteq> 0" "stored (sc_rows p) (sSessionID s) = None" "now < sExpiresAt s"
    and "Cache_Save ops None rowid now s p = (r, q)"
  shows "Cache_Get ops now (sSessionID s) q = Some s \<and> stored (sc_rows q) (sSessionID s) = None"
  using assms cache_specD(3) [OF assms(1)] stored_update [of s "sc_rows p" "sSessionID s"]
  by (auto simp: Cache_Save_def Storage_Save_def Storage_update_def Cache_Get_def Let_def)

lemma delete_by_id_evicts_other_user:
  assumes "cache_spec ops" "rows_wf (sc_rows p)" "stored (sc_rows p) sid = Some s" "sUsername s \<noteq> user" "sid \<noteq> - 1"
    and "Cache_DeleteByID ops None now user sid p = (r, q)"
  shows "Cache_Get ops now' sid q = None \<and> stored (sc_rows q) sid = Some s"
  using assms(3-6) cache_specD(4) [OF assms(1)]
  by (auto simp: Cache_DeleteByID_def Cache_Get_def deleteUserSessionsFromCache_def Let_def Storage_DeleteByID_def
      delete_where_def stored_filter [OF assms(2)])

end
