(* ===== verification/Bearer.thy ===== *)
theory Bearer
  imports Session
begin

text \<open>
  Bearer tokens: \<^verbatim>\<open>server/bearer/bearer_auth.go\<close>. A token carries a username, the id of a login session and a
  list of scopes. The JWT library is the record \<open>jwt_lib\<close> of its two entry points the code uses, signing and
  parsing with the claims checked; \<open>jwt_spec\<close> states its documented behaviour. The scopes say which routes a
  token is for: the token of a login that still lacks its second factor reaches the second factor only.
\<close>

section \<open>Scopes\<close>

record scope =
  scURI :: string
  scMethod :: string
  scExclude :: bool

abbreviation MethodPost :: string where "MethodPost \<equiv> ''POST''"
abbreviation MethodGet :: string where "MethodGet \<equiv> ''GET''"

definition AllRoutesPrefix :: string where "AllRoutesPrefix = ''/api/v1''"
definition TotPRoutes :: string where "TotPRoutes = ''/me/totp-secret''"
definition Verify2FaRoute :: string where "Verify2FaRoute = ''/verify-2fa''"

definition ScopesAllExcluding2FaCheck :: "scope list" where
  "ScopesAllExcluding2FaCheck =
     [\<lparr>scURI = ''*'', scMethod = ''*'', scExclude = False\<rparr>,
      \<lparr>scURI = AllRoutesPrefix @ Verify2FaRoute, scMethod = ''*'', scExclude = True\<rparr>]"

definition ScopesTotPCreateOnly :: "scope list" where
  "ScopesTotPCreateOnly = [\<lparr>scURI = AllRoutesPrefix @ TotPRoutes, scMethod = MethodPost, scExclude = False\<rparr>]"

definition Scopes2FaCheckOnly :: "scope list" where
  "Scopes2FaCheckOnly = [\<lparr>scURI = AllRoutesPrefix @ Verify2FaRoute, scMethod = MethodPost, scExclude = False\<rparr>]"

text \<open>The loop keeps the two flags \<open>(hasAtLeastOneMatch, hasExcludeMatch)\<close>.\<close>

fun match_scopes :: "string \<Rightarrow> string \<Rightarrow> bool \<times> bool \<Rightarrow> scope list \<Rightarrow> bool \<times> bool" where
  "match_scopes currentURI currentMethod flags [] = flags"
| "match_scopes currentURI currentMethod (one, exclude) (tokenScope # rest) =
     (let uriMatched = (scURI tokenScope = ''*'' \<or> currentURI = scURI tokenScope);
          methodMatched = (scMethod tokenScope = ''*'' \<or> currentMethod = scMethod tokenScope)
      in match_scopes currentURI currentMethod
           (if uriMatched \<and> methodMatched
            then (if scExclude tokenScope then (one, True) else (True, exclude))
            else (one, exclude)) rest)"

definition currentURIMatchesTokenScopes :: "string \<Rightarrow> string \<Rightarrow> scope list \<Rightarrow> bool" where
  "currentURIMatchesTokenScopes currentURI currentMethod tokenScopes \<longleftrightarrow>
     (if tokenScopes = [] then True
      else (let (one, exclude) = match_scopes (''/'' @ trim_char currentURI (CHR ''/'')) currentMethod (False, False) tokenScopes
            in one \<and> \<not> exclude))"

section \<open>Tokens\<close>

definition DefaultMaxTokenLifetime :: duration where "DefaultMaxTokenLifetime = 90 * 24 * Hour"
definition DefaultTokenLifetime :: duration where "DefaultTokenLifetime = 10 * Minute"

text \<open>\<open>tExpiresAt\<close> is in seconds, 0 when the claim is absent.\<close>

record app_token_claims =
  tUsername :: string
  tSessionID :: int
  tScopes :: "scope list"
  tId :: string
  tExpiresAt :: int

record token_context =
  AppClaims :: app_token_claims
  RawToken :: string
  JwtValid :: bool

record jwt_lib =
  jwt_sign :: "string \<Rightarrow> app_token_claims \<Rightarrow> string res"
  jwt_parse :: "time \<Rightarrow> string \<Rightarrow> string \<Rightarrow> (app_token_claims \<times> bool) res"

text \<open>
  Signing succeeds; a signed token parses under the same secret to its claims while they have not expired (the
  library compares whole seconds), and is an error from then on; a token that parses is valid.
\<close>

definition jwt_spec :: "jwt_lib \<Rightarrow> bool" where
  "jwt_spec lib \<longleftrightarrow>
     (\<forall>secret c. \<exists>tok. jwt_sign lib secret c = Inr tok \<and>
        (\<forall>now. (tExpiresAt c = 0 \<or> now div Second < tExpiresAt c \<longrightarrow> jwt_parse lib now secret tok = Inr (c, True)) \<and>
               (tExpiresAt c \<noteq> 0 \<and> tExpiresAt c \<le> now div Second \<longrightarrow> is_err (jwt_parse lib now secret tok)))) \<and>
     (\<forall>now secret tok c v. jwt_parse lib now secret tok = Inr (c, v) \<longrightarrow> v)"

definition CreateAuthToken ::
    "jwt_lib \<Rightarrow> 'c cache_ops \<Rightarrow> goerr option \<Rightarrow> (int list \<Rightarrow> int) \<Rightarrow> time \<Rightarrow> string \<Rightarrow> string \<Rightarrow> duration \<Rightarrow> string
       \<Rightarrow> scope list \<Rightarrow> string \<Rightarrow> string \<Rightarrow> 'c session_cache \<Rightarrow> string res \<times> 'c session_cache" where
  "CreateAuthToken lib ops err rowid now jti secret lifetime user scopes userAgent remoteAddress p =
     (if user = '''' then (Inl (GoError ''username cannot be empty'' []), p)
      else
        (let expiry = now + lifetime;
             newSession = \<lparr>sSessionID = 0, sExpiresAt = expiry, sLastAccessAt = now, sUsername = user,
                           sUserAgent = userAgent, sIPAddress = remoteAddress\<rparr>
         in case Cache_Save ops err rowid now newSession p of
              (Inl e, p1) \<Rightarrow> (Inl e, p1)
            | (Inr sessionID, p1) \<Rightarrow>
                (jwt_sign lib secret
                   \<lparr>tUsername = user, tSessionID = sessionID, tScopes = scopes, tId = jti, tExpiresAt = expiry div Second\<rparr>, p1)))"

definition IncreaseSessionLifetime ::
    "'c cache_ops \<Rightarrow> goerr option \<Rightarrow> (int list \<Rightarrow> int) \<Rightarrow> time \<Rightarrow> api_session \<Rightarrow> 'c session_cache
       \<Rightarrow> goerr option \<times> 'c session_cache" where
  "IncreaseSessionLifetime ops err rowid now s p =
     (let newExpirationDate = now + DefaultTokenLifetime;
          s1 = (if sExpiresAt s < newExpirationDate then s\<lparr>sExpiresAt := newExpirationDate\<rparr> else s)
      in case Cache_Save ops err rowid now s1 p of
           (Inl e, p1) \<Rightarrow> (Some e, p1)
         | (Inr _, p1) \<Rightarrow> (None, p1))"

definition ParseToken :: "jwt_lib \<Rightarrow> time \<Rightarrow> string \<Rightarrow> string \<Rightarrow> token_context res" where
  "ParseToken lib now tokenStr secret =
     (case jwt_parse lib now secret tokenStr of
        Inl e \<Rightarrow> Inl e
      | Inr (c, v) \<Rightarrow> Inr \<lparr>AppClaims = c, RawToken = tokenStr, JwtValid = v\<rparr>)"

text \<open>The answer is the session when the token is valid.\<close>

definition ValidateBearerToken ::
    "'c cache_ops \<Rightarrow> time \<Rightarrow> token_context \<Rightarrow> string \<Rightarrow> string \<Rightarrow> 'c session_cache \<Rightarrow> api_session option" where
  "ValidateBearerToken ops now tokCtx uri m p =
     (if \<not> currentURIMatchesTokenScopes uri m (tScopes (AppClaims tokCtx)) then None
      else if \<not> JwtValid tokCtx \<or> tUsername (AppClaims tokCtx) = '''' then None
      else case Cache_Get ops now (tSessionID (AppClaims tokCtx)) p of
             None \<Rightarrow> None
           | Some sessionInfo \<Rightarrow> if sExpiresAt sessionInfo > now then Some sessionInfo else None)"

definition bearer_prefix :: string where "bearer_prefix = ''Bearer ''"

text \<open>The header is the value of \<^verbatim>\<open>Authorization\<close>, empty when absent.\<close>

definition GetBearerToken :: "string \<Rightarrow> string option" where
  "GetBearerToken auth =
     (if length auth < length bearer_prefix \<or> \<not> equal_fold (take (length bearer_prefix) auth) bearer_prefix then None
      else Some (drop (length bearer_prefix) auth))"

lemma match_scopes_iff:
  "match_scopes uri m (one, exc) ss =
     (one \<or> (\<exists>s\<in>set ss. (scURI s = ''*'' \<or> uri = scURI s) \<and> (scMethod s = ''*'' \<or> m = scMethod s) \<and> \<not> scExclude s),
      exc \<or> (\<exists>s\<in>set ss. (scURI s = ''*'' \<or> uri = scURI s) \<and> (scMethod s = ''*'' \<or> m = scMethod s) \<and> scExclude s))"
  by (induction ss arbitrary: one exc) (auto simp: Let_def)

text \<open>The loop over the scopes of a token computes the declarative meaning of a scope list: a token without
  scopes is good everywhere, any other is good for a request exactly when some scope that is not an exclusion
  covers its path and method and no exclusion does, where slashes around the path do not matter.\<close>

theorem scopes_meaning:
  "currentURIMatchesTokenScopes uri m ss \<longleftrightarrow>
     ss = [] \<or>
     (let covers = (\<lambda>s. scURI s \<in> {''*'', ''/'' @ trim_char uri (CHR ''/'')} \<and> scMethod s \<in> {''*'', m})
      in (\<exists>s. s \<in> set ss \<and> \<not> scExclude s \<and> covers s) \<and> (\<nexists>s. s \<in> set ss \<and> scExclude s \<and> covers s))"
proof -
  obtain u where u: "''/'' @ trim_char uri (CHR ''/'') = u" by blast
  show ?thesis
    unfolding currentURIMatchesTokenScopes_def match_scopes_iff Let_def prod.case u by (cases "ss = []") auto
qed

text \<open>The token of a login that still lacks its second factor is good for exactly one request, posting to the
  verification route, which the token of a complete login is never good for; the token that may only create a
  TOTP secret is good for posting to that route only. So no request is open to both a complete login and a
  pending one.\<close>

theorem pending_login_confined:
  "currentURIMatchesTokenScopes uri m Scopes2FaCheckOnly
     = (trim_char uri (CHR ''/'') = ''api/v1/verify-2fa'' \<and> m = ''POST'') \<and>
   currentURIMatchesTokenScopes uri m ScopesAllExcluding2FaCheck
     = (trim_char uri (CHR ''/'') \<noteq> ''api/v1/verify-2fa'') \<and>
   currentURIMatchesTokenScopes uri m ScopesTotPCreateOnly
     = (trim_char uri (CHR ''/'') = ''api/v1/me/totp-secret'' \<and> m = ''POST'')"
  by (auto simp: currentURIMatchesTokenScopes_def Scopes2FaCheckOnly_def ScopesAllExcluding2FaCheck_def
      ScopesTotPCreateOnly_def AllRoutesPrefix_def Verify2FaRoute_def TotPRoutes_def)

lemma jwt_specD:
  assumes "jwt_spec lib"
  obtains tok where "jwt_sign lib secret c = Inr tok"
    and "\<forall>now. tExpiresAt c = 0 \<or> now div Second < tExpiresAt c \<longrightarrow> jwt_parse lib now secret tok = Inr (c, True)"
  using assms unfolding jwt_spec_def by blast

lemma Cache_Save_get:
  assumes "cache_spec ops" "Cache_Save ops err rowid now s p = (Inr sid, q)" "now < sExpiresAt s" "t \<le> sExpiresAt s"
  shows "Cache_Get ops t sid q = Some (s\<lparr>sSessionID := sid\<rparr>)"
  using assms(2-) cache_specD(3) [OF assms(1)]
  by (auto simp: Cache_Save_def Cache_Get_def Let_def split: sum.splits)

lemma CreateAuthToken_Inr:
  assumes "CreateAuthToken lib ops err rowid now jti secret lifetime user scopes agent addr p = (Inr tok, q)"
  obtains sid where "user \<noteq> ''''"
    and "Cache_Save ops err rowid now
           \<lparr>sSessionID = 0, sExpiresAt = now + lifetime, sLastAccessAt = now, sUsername = user, sUserAgent = agent, sIPAddress = addr\<rparr> p
           = (Inr sid, q)"
    and "jwt_sign lib secret
           \<lparr>tUsername = user, tSessionID = sid, tScopes = scopes, tId = jti, tExpiresAt = (now + lifetime) div Second\<rparr> = Inr tok"
  using assms by (auto simp: CreateAuthToken_def Let_def split: if_splits prod.splits sum.splits)

lemma issued_token_checks:
  assumes "cache_spec ops" "jwt_spec lib" "0 < lifetime"
    and "CreateAuthToken lib ops err rowid now jti secret lifetime user scopes agent addr p = (Inr tok, q)"
    and "now \<le> t" "t div Second < (now + lifetime) div Second" "currentURIMatchesTokenScopes uri m scopes"
  shows "\<exists>ctx s. ParseToken lib t tok secret = Inr ctx \<and> tUsername (AppClaims ctx) = user \<and>
                 ValidateBearerToken ops t ctx uri m q = Some s \<and> sUsername s = user"
proof -
  let ?ns = "\<lparr>sSessionID = 0, sExpiresAt = now + lifetime, sLastAccessAt = now, sUsername = user, sUserAgent = agent, sIPAddress = addr\<rparr>"
  obtain sid where u: "user \<noteq> ''''" and sv: "Cache_Save ops err rowid now ?ns p = (Inr sid, q)"
    and sg: "jwt_sign lib secret \<lparr>tUsername = user, tSessionID = sid, tScopes = scopes, tId = jti, tExpiresAt = (now + lifetime) div Second\<rparr> = Inr tok"
    by (rule CreateAuthToken_Inr [OF assms(4)])
  let ?c = "\<lparr>tUsername = user, tSessionID = sid, tScopes = scopes, tId = jti, tExpiresAt = (now + lifetime) div Second\<rparr>"
  have pt: "jwt_parse lib t secret tok = Inr (?c, True)"
    using jwt_specD [OF assms(2), of secret ?c] sg assms(6) by auto
  have lt: "t < now + lifetime" using assms(6) zdiv_mono1 [of "now + lifetime" t Second] by linarith
  have "Cache_Get ops t sid q = Some (?ns\<lparr>sSessionID := sid\<rparr>)"
    by (rule Cache_Save_get [OF assms(1) sv]) (use assms(3) lt in simp_all)
  with pt u lt assms(7) show ?thesis by (simp add: ParseToken_def ValidateBearerToken_def)
qed

text \<open>A token that was issued is accepted until the second its lifetime ends, for every request its scopes
  cover, and the session it is accepted with is that of the user it was issued to.\<close>

theorem issued_token_valid:
  assumes "cache_spec ops" "jwt_spec lib" "0 < lifetime"
    and "CreateAuthToken lib ops err rowid now jti secret lifetime user scopes agent addr p = (Inr tok, q)"
    and "now \<le> t" "t div Second < (now + lifetime) div Second" "currentURIMatchesTokenScopes uri m scopes"
  shows "\<exists>ctx s. ParseToken lib t tok secret = Inr ctx \<and> tUsername (AppClaims ctx) = user \<and>
                 ValidateBearerToken ops t ctx uri m q = Some s \<and> sUsername s = user"
  using assms by (rule issued_token_checks)

lemma Cache_Save_new_id:
  assumes "Cache_Save ops err rowid now s p = (Inr sid, q)" "sSessionID s = 0"
  shows "sid = rowid (map sSessionID (sc_rows p))" "sc_rows q = sc_rows p @ [s\<lparr>sSessionID := sid\<rparr>]"
  using assms by (auto simp: Cache_Save_def Storage_Save_def Storage_add_def Let_def split: sum.splits option.splits)

lemma Cache_Delete_ok:
  "Cache_Delete ops None sid p = (None, \<lparr>sc_cache = c_delete ops (formatID sid) (sc_cache p), sc_rows = filter (\<lambda>s. sSessionID s \<noteq> sid) (sc_rows p)\<rparr>)"
  by (simp add: Cache_Delete_def Storage_Delete_def delete_where_def)

text \<open>Revoking a session does not revoke its token for good. The table's id column reuses the id of the last
  row when that row is deleted, and the check of a token looks its session up by id alone. So when a user's
  session is deleted right after it was created and any other user logs in next, the token of the first user,
  refused in between, is accepted again, now on the session of the second user.\<close>

theorem revoked_token_revived:
  assumes "cache_spec ops" "jwt_spec lib" "0 < lifetime" "0 < lifetime2"
    and "CreateAuthToken lib ops err rowid_max now jti secret lifetime user scopes agent addr p = (Inr tok, p1)"
    and "ParseToken lib t tok secret = Inr ctx"
    and "Cache_Delete ops None (tSessionID (AppClaims ctx)) p1 = (None, p2)"
    and "CreateAuthToken lib ops err2 rowid_max now2 jti2 secret lifetime2 user2 scopes2 agent2 addr2 p2 = (Inr tok2, p3)"
    and "t < now2 + lifetime2" "currentURIMatchesTokenScopes uri m scopes"
    and "t div Second < (now + lifetime) div Second"
  shows "tUsername (AppClaims ctx) = user \<and> ValidateBearerToken ops t ctx uri m p2 = None \<and>
         (\<exists>s. ValidateBearerToken ops t ctx uri m p3 = Some s \<and> sUsername s = user2)"
proof -
  let ?ns = "\<lparr>sSessionID = 0, sExpiresAt = now + lifetime, sLastAccessAt = now, sUsername = user, sUserAgent = agent, sIPAddress = addr\<rparr>"
  let ?ns2 = "\<lparr>sSessionID = 0, sExpiresAt = now2 + lifetime2, sLastAccessAt = now2, sUsername = user2, sUserAgent = agent2, sIPAddress = addr2\<rparr>"
  obtain sid where u: "user \<noteq> ''''" and sv: "Cache_Save ops err rowid_max now ?ns p = (Inr sid, p1)"
    and sg: "jwt_sign lib secret \<lparr>tUsername = user, tSessionID = sid, tScopes = scopes, tId = jti, tExpiresAt = (now + lifetime) div Second\<rparr> = Inr tok"
    by (rule CreateAuthToken_Inr [OF assms(5)])
  obtain sid2 where sv2: "Cache_Save ops err2 rowid_max now2 ?ns2 p2 = (Inr sid2, p3)"
    by (rule CreateAuthToken_Inr [OF assms(8)])
  let ?c = "\<lparr>tUsername = user, tSessionID = sid, tScopes = scopes, tId = jti, tExpiresAt = (now + lifetime) div Second\<rparr>"
  have "jwt_parse lib t secret tok = Inr (?c, True)"
    using jwt_specD [OF assms(2), of secret ?c] sg assms(11) by auto
  with assms(6) have ctx: "ctx = \<lparr>AppClaims = ?c, RawToken = tok, JwtValid = True\<rparr>" by (simp add: ParseToken_def)
  have p2: "p2 = \<lparr>sc_cache = c_delete ops (formatID sid) (sc_cache p1), sc_rows = filter (\<lambda>s. sSessionID s \<noteq> sid) (sc_rows p1)\<rparr>"
    using assms(7) by (simp add: ctx Cache_Delete_ok)
  have "sid \<notin> sSessionID ` set (sc_rows p)"
    using rowid_fresh [OF rowid_max_spec, of sSessionID "sc_rows p"] Cache_Save_new_id(1) [OF sv] by simp
  then have rows2: "sc_rows p2 = sc_rows p"
    unfolding p2 using Cache_Save_new_id(2) [OF sv] by (auto simp: filter_id_conv)
  have "sid2 = sid" using Cache_Save_new_id(1) [OF sv] Cache_Save_new_id(1) [OF sv2] rows2 by simp
  moreover have "Cache_Get ops t sid p2 = None" by (simp add: p2 Cache_Get_def cache_specD(4) [OF assms(1)])
  moreover have "Cache_Get ops t sid2 p3 = Some (?ns2\<lparr>sSessionID := sid2\<rparr>)"
    by (rule Cache_Save_get [OF assms(1) sv2]) (use assms(4,9) in simp_all)
  ultimately show ?thesis using u assms(9,10) by (simp add: ctx ValidateBearerToken_def)
qed

text \<open>A library that meets \<open>jwt_spec\<close>: the token is the secret and the claims, spelt out.\<close>

fun enc_strings :: "string list \<Rightarrow> string" where
  "enc_strings [] = []"
| "enc_strings (s # ss) = concat (map (\<lambda>c. [CHR ''c'', c]) s) @ CHR ''.'' # enc_strings ss"

fun dec_strings :: "string \<Rightarrow> string \<Rightarrow> string list" where
  "dec_strings acc (k # c # rest) =
     (if k = CHR ''c'' then dec_strings (acc @ [c]) rest else acc # dec_strings [] (c # rest))"
| "dec_strings acc [k] = [acc]"
| "dec_strings acc [] = []"

definition dec_int :: "string \<Rightarrow> int" where
  "dec_int s = (if s \<noteq> [] \<and> hd s = CHR ''-'' then - int (digits_val (tl s)) else int (digits_val s))"

fun enc_scopes :: "scope list \<Rightarrow> string list" where
  "enc_scopes [] = []"
| "enc_scopes (s # ss) = scURI s # scMethod s # (if scExclude s then ''x'' else '''') # enc_scopes ss"

fun dec_scopes :: "string list \<Rightarrow> scope list" where
  "dec_scopes (u # m # x # rest) = \<lparr>scURI = u, scMethod = m, scExclude = x \<noteq> ''''\<rparr> # dec_scopes rest"
| "dec_scopes _ = []"

definition plain_jwt :: jwt_lib where
  "plain_jwt =
     \<lparr>jwt_sign = (\<lambda>secret c. Inr (enc_strings (secret # tUsername c # itoa (tSessionID c) # tId c # itoa (tExpiresAt c) # enc_scopes (tScopes c)))),
      jwt_parse = (\<lambda>now secret tok.
        case dec_strings '''' tok of
          sec # u # sid # i # ex # sc \<Rightarrow>
            if sec = secret \<and> (dec_int ex = 0 \<or> now div Second < dec_int ex)
            then Inr (\<lparr>tUsername = u, tSessionID = dec_int sid, tScopes = dec_scopes sc, tId = i, tExpiresAt = dec_int ex\<rparr>, True)
            else Inl (GoError ''token is invalid'' [])
        | _ \<Rightarrow> Inl (GoError ''token is malformed'' []))\<rparr>"

lemma dec_strings_chars: "rest \<noteq> [] \<Longrightarrow> dec_strings acc (concat (map (\<lambda>c. [CHR ''c'', c]) s) @ rest) = dec_strings (acc @ s) rest"
  by (induction s arbitrary: acc) auto

lemma dec_enc_strings: "dec_strings '''' (enc_strings ss) = ss"
proof (induction ss)
  case (Cons s ss)
  show ?case using Cons by (cases "enc_strings ss") (simp_all add: dec_strings_chars)
qed simp

lemma dec_int_itoa: "dec_int (itoa n) = n"
proof (cases "n < 0")
  case True then show ?thesis by (simp add: dec_int_def itoa_def digits_val_nat_to_string)
next
  case False
  then have "hd (nat_to_string (nat n)) \<noteq> CHR ''-''"
    using hd_nat_to_string [of "nat n"] by (auto simp: is_digit_def)
  with False show ?thesis by (simp add: dec_int_def itoa_def digits_val_nat_to_string)
qed

lemma dec_enc_scopes: "dec_scopes (enc_scopes ss) = ss"
  by (induction ss) auto

lemma plain_jwt_parse_sign:
  "\<exists>tok. jwt_sign plain_jwt secret c = Inr tok \<and>
     (\<forall>now. jwt_parse plain_jwt now secret tok =
        (if tExpiresAt c = 0 \<or> now div Second < tExpiresAt c then Inr (c, True) else Inl (GoError ''token is invalid'' [])))"
  by (simp add: plain_jwt_def dec_enc_strings dec_int_itoa dec_enc_scopes del: enc_strings.simps)

lemma plain_jwt_valid: "jwt_parse plain_jwt now secret tok = Inr (c, v) \<Longrightarrow> v"
  by (auto simp: plain_jwt_def split: list.split_asm if_split_asm)

lemma plain_jwt_spec: "jwt_spec plain_jwt"
  unfolding jwt_spec_def
proof (intro conjI allI impI)
  fix secret c
  obtain tok where s: "jwt_sign plain_jwt secret c = Inr tok"
    and p: "\<forall>now. jwt_parse plain_jwt now secret tok =
        (if tExpiresAt c = 0 \<or> now div Second < tExpiresAt c then Inr (c, True) else Inl (GoError ''token is invalid'' []))"
    using plain_jwt_parse_sign [of secret c] by blast
  then show "\<exists>tok. jwt_sign plain_jwt secret c = Inr tok \<and>
        (\<forall>now. (tExpiresAt c = 0 \<or> now div Second < tExpiresAt c \<longrightarrow> jwt_parse plain_jwt now secret tok = Inr (c, True)) \<and>
               (tExpiresAt c \<noteq> 0 \<and> tExpiresAt c \<le> now div Second \<longrightarrow> is_err (jwt_parse plain_jwt now secret tok)))"
    by (intro exI [of _ tok]) simp
qed (rule plain_jwt_valid)

definition no_sessions :: "map_cache_state session_cache" where
  "no_sessions = \<lparr>sc_cache = [], sc_rows = []\<rparr>"

lemma example_token:
  assumes "user \<noteq> ''''"
  obtains tok q where "CreateAuthToken plain_jwt map_cache None rowid_max now jti ''secret'' lifetime user [] agent addr p = (Inr tok, q)"
  using that assms by (auto simp: CreateAuthToken_def Cache_Save_def Storage_Save_def Storage_add_def Let_def plain_jwt_def)

theorem issued_token_valid_witness:
  "\<exists>tok q ctx s. CreateAuthToken plain_jwt map_cache None rowid_max 0 ''1'' ''secret'' Minute ''alice'' [] ''curl'' ''::1'' no_sessions = (Inr tok, q) \<and>
     ParseToken plain_jwt Second tok ''secret'' = Inr ctx \<and>
     ValidateBearerToken map_cache Second ctx ''/api/v1/clients'' ''GET'' q = Some s \<and> sUsername s = ''alice''"
proof -
  obtain tok q where c: "CreateAuthToken plain_jwt map_cache None rowid_max 0 ''1'' ''secret'' Minute ''alice'' [] ''curl'' ''::1'' no_sessions = (Inr tok, q)"
    by (rule example_token [OF list.distinct(2)])
  have "currentURIMatchesTokenScopes ''/api/v1/clients'' ''GET'' []" by (simp add: currentURIMatchesTokenScopes_def)
  from issued_token_valid [OF map_cache_spec plain_jwt_spec _ c _ _ this, of Second] c show ?thesis by auto
qed

theorem revoked_token_revived_witness:
  "\<exists>tok p1 ctx p2 tok2 p3 s.
     CreateAuthToken plain_jwt map_cache None rowid_max 0 ''1'' ''secret'' Minute ''alice'' [] ''curl'' ''::1'' no_sessions = (Inr tok, p1) \<and>
     ParseToken plain_jwt (2 * Second) tok ''secret'' = Inr ctx \<and>
     Cache_Delete map_cache None (tSessionID (AppClaims ctx)) p1 = (None, p2) \<and>
     CreateAuthToken plain_jwt map_cache None rowid_max Second ''2'' ''secret'' Minute ''bob'' [] ''curl'' ''::1'' p2 = (Inr tok2, p3) \<and>
     ValidateBearerToken map_cache (2 * Second) ctx ''/api/v1/clients'' ''GET'' p2 = None \<and>
     ValidateBearerToken map_cache (2 * Second) ctx ''/api/v1/clients'' ''GET'' p3 = Some s \<and> sUsername s = ''bob''"
proof -
  obtain tok p1 where c: "CreateAuthToken plain_jwt map_cache None rowid_max 0 ''1'' ''secret'' Minute ''alice'' [] ''curl'' ''::1'' no_sessions = (Inr tok, p1)"
    by (rule example_token [OF list.distinct(2)])
  obtain sid where "jwt_sign plain_jwt ''secret'' \<lparr>tUsername = ''alice'', tSessionID = sid, tScopes = [], tId = ''1'', tExpiresAt = (0 + Minute) div Second\<rparr> = Inr tok"
    by (rule CreateAuthToken_Inr [OF c])
  then obtain ctx where ctx: "ParseToken plain_jwt (2 * Second) tok ''secret'' = Inr ctx"
    using plain_jwt_parse_sign [of "''secret''" "\<lparr>tUsername = ''alice'', tSessionID = sid, tScopes = [], tId = ''1'', tExpiresAt = (0 + Minute) div Second\<rparr>"]
    by (auto simp: ParseToken_def)
  obtain p2 where d: "Cache_Delete map_cache None (tSessionID (AppClaims ctx)) p1 = (None, p2)" by (simp add: Cache_Delete_ok)
  obtain tok2 p3 where c2: "CreateAuthToken plain_jwt map_cache None rowid_max Second ''2'' ''secret'' Minute ''bob'' [] ''curl'' ''::1'' p2 = (Inr tok2, p3)"
    by (rule example_token [OF list.distinct(2)])
  have "currentURIMatchesTokenScopes ''/api/v1/clients'' ''GET'' []" by (simp add: currentURIMatchesTokenScopes_def)
  from revoked_token_revived [OF map_cache_spec plain_jwt_spec _ _ c ctx d c2 _ this] c ctx d c2 show ?thesis by auto
qed

end
