(* ===== verification/BanList.thy ===== *)
theory BanList
  imports Prelude
begin

text \<open>
  The two ban lists of \<^verbatim>\<open>share/security/banlist.go\<close>: \<open>ban_list\<close> blocks a key for a fixed time after one
  failure, \<open>max_ban_list\<close> blocks a key after a number of failures. Both are guarded by a mutex, so
  every operation is atomic. \<^verbatim>\<open>time.Now()\<close> is the argument \<open>now\<close>. Go's nil map of seen failures reads
  like an empty one and is the empty set.
\<close>

section \<open>Bans after one failure\<close>

record ban_list =
  banDuration :: duration
  visitors :: "string \<rightharpoonup> time"

definition NewBanList :: "duration \<Rightarrow> ban_list" where
  "NewBanList d = \<lparr>banDuration = d, visitors = Map.empty\<rparr>"

definition BanList_Add :: "time \<Rightarrow> string \<Rightarrow> ban_list \<Rightarrow> ban_list" where
  "BanList_Add now visitorKey l =
     l\<lparr>visitors := (visitors l)(visitorKey \<mapsto> now + banDuration l)\<rparr>"

definition BanList_IsBanned :: "time \<Rightarrow> string \<Rightarrow> ban_list \<Rightarrow> bool" where
  "BanList_IsBanned now visitorKey l \<longleftrightarrow>
     (case visitors l visitorKey of None \<Rightarrow> False | Some banExpiry \<Rightarrow> now < banExpiry)"

section \<open>Bans after a number of failures\<close>

record visitor =
  badAttempts :: int
  banTime :: "time option"
  seenFailures :: "string set"

record max_ban_list =
  maxBanDuration :: duration
  maxBadAttempts :: int
  maxVisitors :: "string \<rightharpoonup> visitor"

definition new_visitor :: visitor where
  "new_visitor = \<lparr>badAttempts = 0, banTime = None, seenFailures = {}\<rparr>"

definition NewMaxBadAttemptsBanList :: "int \<Rightarrow> duration \<Rightarrow> max_ban_list" where
  "NewMaxBadAttemptsBanList maxBad d =
     \<lparr>maxBanDuration = d, maxBadAttempts = maxBad, maxVisitors = Map.empty\<rparr>"

definition get_visitor :: "string \<Rightarrow> max_ban_list \<Rightarrow> visitor" where
  "get_visitor visitorKey l =
     (case maxVisitors l visitorKey of None \<Rightarrow> new_visitor | Some v \<Rightarrow> v)"

definition put_visitor :: "string \<Rightarrow> visitor \<Rightarrow> max_ban_list \<Rightarrow> max_ban_list" where
  "put_visitor visitorKey v l = l\<lparr>maxVisitors := (maxVisitors l)(visitorKey \<mapsto> v)\<rparr>"

definition AddBadAttempt :: "time \<Rightarrow> string \<Rightarrow> max_ban_list \<Rightarrow> max_ban_list" where
  "AddBadAttempt now visitorKey l =
     (let v = get_visitor visitorKey l;
          v1 = v\<lparr>badAttempts := badAttempts v + 1\<rparr>
      in put_visitor visitorKey
           (if badAttempts v1 = maxBadAttempts l
            then v1\<lparr>banTime := Some (now + maxBanDuration l), badAttempts := 0\<rparr>
            else v1) l)"

definition AddDistinctBadAttempt :: "time \<Rightarrow> string \<Rightarrow> string \<Rightarrow> max_ban_list \<Rightarrow> max_ban_list" where
  "AddDistinctBadAttempt now visitorKey dedupKey l =
     (let v = get_visitor visitorKey l in
      if dedupKey \<in> seenFailures v then put_visitor visitorKey v l
      else let v1 = v\<lparr>seenFailures := insert dedupKey (seenFailures v),
                      badAttempts := badAttempts v + 1\<rparr>
           in put_visitor visitorKey
                (if badAttempts v1 = maxBadAttempts l
                 then v1\<lparr>banTime := Some (now + maxBanDuration l), badAttempts := 0, seenFailures := {}\<rparr>
                 else v1) l)"

definition AddSuccessAttempt :: "string \<Rightarrow> max_ban_list \<Rightarrow> max_ban_list" where
  "AddSuccessAttempt visitorKey l =
     (case maxVisitors l visitorKey of
        None \<Rightarrow> l
      | Some v \<Rightarrow> put_visitor visitorKey (v\<lparr>badAttempts := 0, banTime := None, seenFailures := {}\<rparr>) l)"

definition IsBanned :: "time \<Rightarrow> string \<Rightarrow> max_ban_list \<Rightarrow> bool" where
  "IsBanned now visitorKey l \<longleftrightarrow>
     (case maxVisitors l visitorKey of
        None \<Rightarrow> False
      | Some v \<Rightarrow> (case banTime v of None \<Rightarrow> False | Some t \<Rightarrow> now < t))"

section \<open>How failures are counted\<close>

lemma get_put_visitor [simp]:
  "get_visitor k (put_visitor k' v l) = (if k = k' then v else get_visitor k l)"
  by (simp add: get_visitor_def put_visitor_def)

lemma put_visitor_fields [simp]:
  "maxBanDuration (put_visitor k v l) = maxBanDuration l"
  "maxBadAttempts (put_visitor k v l) = maxBadAttempts l"
  by (simp_all add: put_visitor_def)

lemma IsBanned_visitor:
  "IsBanned now k l \<longleftrightarrow> (case banTime (get_visitor k l) of None \<Rightarrow> False | Some t \<Rightarrow> now < t)"
  by (simp add: IsBanned_def get_visitor_def new_visitor_def split: option.splits)

lemma AddBadAttempt_fields [simp]:
  "maxBanDuration (AddBadAttempt now k l) = maxBanDuration l"
  "maxBadAttempts (AddBadAttempt now k l) = maxBadAttempts l"
  by (simp_all add: AddBadAttempt_def Let_def)

lemma AddDistinctBadAttempt_fields [simp]:
  "maxBanDuration (AddDistinctBadAttempt now k d l) = maxBanDuration l"
  "maxBadAttempts (AddDistinctBadAttempt now k d l) = maxBadAttempts l"
  by (simp_all add: AddDistinctBadAttempt_def Let_def)

text \<open>Failures at the given times, and failures with the given credentials at the given times.\<close>

definition bad_attempts :: "string \<Rightarrow> time list \<Rightarrow> max_ban_list \<Rightarrow> max_ban_list" where
  "bad_attempts k ts l = foldl (\<lambda>l t. AddBadAttempt t k l) l ts"

definition distinct_bad_attempts :: "string \<Rightarrow> (time \<times> string) list \<Rightarrow> max_ban_list \<Rightarrow> max_ban_list" where
  "distinct_bad_attempts k as l = foldl (\<lambda>l (t, d). AddDistinctBadAttempt t k d l) l as"

lemma bad_attempts_snoc: "bad_attempts k (ts @ [t]) l = AddBadAttempt t k (bad_attempts k ts l)"
  by (simp add: bad_attempts_def)

lemma distinct_bad_attempts_snoc:
  "distinct_bad_attempts k (as @ [(t, d)]) l = AddDistinctBadAttempt t k d (distinct_bad_attempts k as l)"
  by (simp add: distinct_bad_attempts_def)

lemma bad_attempts_fields [simp]:
  "maxBanDuration (bad_attempts k ts l) = maxBanDuration l"
  "maxBadAttempts (bad_attempts k ts l) = maxBadAttempts l"
  by (induction ts rule: rev_induct) (simp_all add: bad_attempts_snoc, simp_all add: bad_attempts_def)

lemma distinct_bad_attempts_fields [simp]:
  "maxBanDuration (distinct_bad_attempts k as l) = maxBanDuration l"
  "maxBadAttempts (distinct_bad_attempts k as l) = maxBadAttempts l"
proof -
  have "maxBanDuration (distinct_bad_attempts k as l) = maxBanDuration l \<and>
        maxBadAttempts (distinct_bad_attempts k as l) = maxBadAttempts l"
    by (induction as arbitrary: l) (auto simp: distinct_bad_attempts_def)
  then show "maxBanDuration (distinct_bad_attempts k as l) = maxBanDuration l"
    "maxBadAttempts (distinct_bad_attempts k as l) = maxBadAttempts l" by blast+
qed

text \<open>The time of the failure that set the ban in force: the last one whose number is a multiple of the maximum.\<close>

definition last_ban :: "nat \<Rightarrow> duration \<Rightarrow> time list \<Rightarrow> time option" where
  "last_ban m d ts =
     (if length ts div m = 0 then None else Some (ts ! (m * (length ts div m) - 1) + d))"

lemma AddBadAttempt_visitor:
  "badAttempts (get_visitor k (AddBadAttempt t k l)) =
     (if badAttempts (get_visitor k l) + 1 = maxBadAttempts l then 0 else badAttempts (get_visitor k l) + 1)"
  "banTime (get_visitor k (AddBadAttempt t k l)) =
     (if badAttempts (get_visitor k l) + 1 = maxBadAttempts l then Some (t + maxBanDuration l)
      else banTime (get_visitor k l))"
  "seenFailures (get_visitor k (AddBadAttempt t k l)) = seenFailures (get_visitor k l)"
  by (simp_all add: AddBadAttempt_def Let_def)

lemma last_ban_snoc:
  assumes "0 < m"
  shows "last_ban m d (ts @ [t]) =
           (if Suc (length ts mod m) = m then Some (t + d) else last_ban m d ts)"
proof (cases "Suc (length ts mod m) = m")
  case True
  then have q: "Suc (length ts) div m = Suc (length ts div m)" and r: "Suc (length ts) mod m = 0"
    by (simp_all add: div_Suc mod_Suc)
  have "m * Suc (length ts div m) = Suc (length ts)"
    using r q mult_div_mod_eq [of m "Suc (length ts)"] by simp
  then have "(ts @ [t]) ! (m * Suc (length ts div m) - 1) = t" by simp
  with True q show ?thesis by (simp add: last_ban_def)
next
  case False
  then have q: "Suc (length ts) div m = length ts div m" by (simp add: div_Suc mod_Suc)
  show ?thesis
  proof (cases "length ts div m = 0")
    case True
    with False q show ?thesis by (simp add: last_ban_def)
  next
    case nz: False
    then have "0 < m * (length ts div m)" using assms by simp
    then have "m * (length ts div m) - 1 < length ts"
      using times_div_less_eq_dividend [of m "length ts"] by linarith
    then show ?thesis using False nz q by (simp add: last_ban_def nth_append)
  qed
qed

lemma bad_attempts_visitor:
  assumes "maxBadAttempts l = int m" "0 < m" "get_visitor k l = new_visitor"
  shows "badAttempts (get_visitor k (bad_attempts k ts l)) = int (length ts mod m) \<and>
         banTime (get_visitor k (bad_attempts k ts l)) = last_ban m (maxBanDuration l) ts"
proof (induction ts rule: rev_induct)
  case Nil
  then show ?case using assms by (simp add: bad_attempts_def new_visitor_def last_ban_def)
next
  case (snoc t ts)
  have full: "int (length ts mod m) + 1 = int m \<longleftrightarrow> Suc (length ts mod m) = m" by linarith
  have count: "Suc (length ts) mod m = (if Suc (length ts mod m) = m then 0 else Suc (length ts mod m))"
    by (rule mod_Suc)
  show ?case
    unfolding bad_attempts_snoc AddBadAttempt_visitor last_ban_snoc [OF assms(2)] bad_attempts_fields
      assms(1) snoc [THEN conjunct1] snoc [THEN conjunct2] full
    by (simp only: length_append list.size count add_0_right add_Suc_right split: if_split) simp
qed

lemma distinct_bad_attempts_below:
  assumes "maxBadAttempts l = int m" "get_visitor k l = new_visitor" "card (snd ` set as) < m"
  shows "get_visitor k (distinct_bad_attempts k as l)
       = \<lparr>badAttempts = int (card (snd ` set as)), banTime = None, seenFailures = snd ` set as\<rparr>"
  using assms(3)
proof (induction as rule: rev_induct)
  case Nil
  then show ?case using assms(2) by (simp add: distinct_bad_attempts_def new_visitor_def)
next
  case (snoc a as)
  obtain t d where a: "a = (t, d)" by (cases a)
  have "card (snd ` set as) \<le> card (snd ` set (as @ [a]))" by (rule card_mono) auto
  with snoc have IH: "get_visitor k (distinct_bad_attempts k as l)
      = \<lparr>badAttempts = int (card (snd ` set as)), banTime = None, seenFailures = snd ` set as\<rparr>" by simp
  show ?case
  proof (cases "d \<in> snd ` set as")
    case True
    then have "snd ` set (as @ [a]) = snd ` set as" by (auto simp: a)
    with True IH show ?thesis
      by (simp add: a distinct_bad_attempts_snoc AddDistinctBadAttempt_def)
  next
    case False
    then have "card (snd ` set (as @ [a])) = Suc (card (snd ` set as))" by (simp add: a)
    with False IH snoc.prems assms(1) show ?thesis
      by (simp add: a distinct_bad_attempts_snoc AddDistinctBadAttempt_def Let_def)
  qed
qed

lemma AddBadAttempt_other: "k \<noteq> k' \<Longrightarrow> get_visitor k' (AddBadAttempt now k l) = get_visitor k' l"
  by (simp add: AddBadAttempt_def Let_def)

lemma AddDistinctBadAttempt_other:
  "k \<noteq> k' \<Longrightarrow> get_visitor k' (AddDistinctBadAttempt now k d l) = get_visitor k' l"
  by (simp add: AddDistinctBadAttempt_def Let_def)

section \<open>The contract of a ban list\<close>

text \<open>
  What the login code relies on: adding a key bans exactly that key, for the configured time.
\<close>

locale timed_ban =
  fixes add :: "time \<Rightarrow> string \<Rightarrow> 'l \<Rightarrow> 'l"
    and banned :: "time \<Rightarrow> string \<Rightarrow> 'l \<Rightarrow> bool"
    and dur :: "'l \<Rightarrow> duration"
  assumes banned_add: "banned now k (add t k l) \<longleftrightarrow> now < t + dur l"
    and banned_other: "k \<noteq> k' \<Longrightarrow> banned now k' (add t k l) = banned now k' l"
    and dur_add: "dur (add t k l) = dur l"
begin

definition adds :: "(time \<times> string) list \<Rightarrow> 'l \<Rightarrow> 'l" where
  "adds as l = foldl (\<lambda>l (t, k). add t k l) l as"

lemma adds_snoc: "adds (as @ [(t, k)]) l = add t k (adds as l)"
  by (simp add: adds_def)

lemma adds_Nil [simp]: "adds [] l = l"
  by (simp add: adds_def)

lemma dur_adds [simp]: "dur (adds as l) = dur l"
  by (induction as arbitrary: l) (auto simp: adds_def dur_add)

lemma banned_only_by_add:
  "banned now k (adds as l) \<Longrightarrow> banned now k l \<or> (\<exists>t. (t, k) \<in> set as \<and> now < t + dur l)"
proof (induction as rule: rev_induct)
  case Nil
  then show ?case by simp
next
  case (snoc a as)
  obtain t k' where a: "a = (t, k')" by (cases a)
  show ?case
  proof (cases "k' = k")
    case True
    with snoc.prems have "now < t + dur l" by (simp add: a adds_snoc banned_add)
    with True show ?thesis by (auto simp: a)
  next
    case False
    with snoc show ?thesis by (auto simp: a adds_snoc banned_other)
  qed
qed

end

interpretation bl: timed_ban BanList_Add BanList_IsBanned banDuration
  by unfold_locales (simp_all add: BanList_Add_def BanList_IsBanned_def)

lemma IsBanned_bad_attempts_other:
  "k' \<noteq> k \<Longrightarrow> IsBanned now k' (bad_attempts k ts l) = IsBanned now k' l"
proof (induction ts rule: rev_induct)
  case Nil
  then show ?case by (simp add: bad_attempts_def)
next
  case (snoc t ts)
  then show ?case by (simp add: bad_attempts_snoc IsBanned_visitor AddBadAttempt_other)
qed

lemma AddDistinctBadAttempt_bans:
  assumes "d \<notin> seenFailures (get_visitor k l)" "badAttempts (get_visitor k l) + 1 = maxBadAttempts l"
  shows "get_visitor k (AddDistinctBadAttempt t k d l)
       = \<lparr>badAttempts = 0, banTime = Some (t + maxBanDuration l), seenFailures = {}\<rparr>"
  using assms by (simp add: AddDistinctBadAttempt_def Let_def)

lemma AddSuccessAttempt_visitor: "get_visitor k (AddSuccessAttempt k l) = new_visitor"
  by (simp add: AddSuccessAttempt_def get_visitor_def put_visitor_def new_visitor_def split: option.splits)

section \<open>Properties\<close>

text \<open>
  C31: Starting from a key without failures, a key is banned by exactly every \<open>m\<close>-th failure
  (\<open>m\<close> the configured maximum), from that failure on and for the configured duration: after the
  failures at the times \<open>ts\<close> it is banned at \<open>now\<close> iff at least \<open>m\<close> failures happened and the last
  one whose number is a multiple of \<open>m\<close> is less than the ban duration ago. No other key is affected.
\<close>

theorem banned_exactly_every_max_failures:
  assumes "maxBadAttempts l = int m" "0 < m" "get_visitor k l = new_visitor"
  shows "(IsBanned now k (bad_attempts k ts l) \<longleftrightarrow>
            m \<le> length ts \<and> now < ts ! (m * (length ts div m) - 1) + maxBanDuration l) \<and>
         (k' \<noteq> k \<longrightarrow> IsBanned now k' (bad_attempts k ts l) = IsBanned now k' l)"
proof -
  have "length ts div m = 0 \<longleftrightarrow> \<not> m \<le> length ts" using assms(2) by (auto simp: div_eq_0_iff)
  with bad_attempts_visitor [OF assms, of ts]
  have "IsBanned now k (bad_attempts k ts l) \<longleftrightarrow>
          m \<le> length ts \<and> now < ts ! (m * (length ts div m) - 1) + maxBanDuration l"
    by (simp add: IsBanned_visitor last_ban_def)
  with IsBanned_bad_attempts_other show ?thesis by blast
qed

theorem banned_exactly_every_max_failures_witness:
  "IsBanned 12 ''10.0.0.1'' (bad_attempts ''10.0.0.1'' [1, 2, 3, 4] (NewMaxBadAttemptsBanList 3 10)) \<and>
   \<not> IsBanned 13 ''10.0.0.1'' (bad_attempts ''10.0.0.1'' [1, 2, 3, 4] (NewMaxBadAttemptsBanList 3 10))"
proof -
  let ?l = "NewMaxBadAttemptsBanList 3 10"
  have fresh: "maxBadAttempts ?l = int 3" "get_visitor ''10.0.0.1'' ?l = new_visitor" "maxBanDuration ?l = 10"
    by (simp_all add: NewMaxBadAttemptsBanList_def get_visitor_def)
  show ?thesis
    using banned_exactly_every_max_failures [OF fresh(1) _ fresh(2), of _ "[1, 2, 3, 4]"] fresh(3)
    by simp
qed

text \<open>With failures counted by credential, retries of credentials already seen never bring a key
  closer to a ban: while fewer than the maximum number of distinct credentials failed, the key is not
  banned at any time and its counter is the number of distinct credentials; the first failure with
  the maximum number of distinct credentials bans it for exactly the configured duration.
\<close>

theorem ban_counts_distinct_credentials:
  assumes "maxBadAttempts l = int m" "get_visitor k l = new_visitor" "card (snd ` set as) < m"
  shows "\<not> IsBanned now k (distinct_bad_attempts k as l) \<and>
         badAttempts (get_visitor k (distinct_bad_attempts k as l)) = int (card (snd ` set as)) \<and>
         (Suc (card (snd ` set as)) = m \<and> d \<notin> snd ` set as \<longrightarrow>
            (IsBanned now k (AddDistinctBadAttempt t k d (distinct_bad_attempts k as l)) \<longleftrightarrow>
             now < t + maxBanDuration l))"
proof -
  note v = distinct_bad_attempts_below [OF assms]
  have "IsBanned now k (AddDistinctBadAttempt t k d (distinct_bad_attempts k as l)) \<longleftrightarrow>
          now < t + maxBanDuration l"
    if "Suc (card (snd ` set as)) = m" "d \<notin> snd ` set as"
    using AddDistinctBadAttempt_bans [of d k "distinct_bad_attempts k as l" t] that assms(1) v
    by (simp add: IsBanned_visitor)
  with v show ?thesis by (simp add: IsBanned_visitor)
qed

theorem ban_counts_distinct_credentials_witness:
  "\<not> IsBanned 5 ''10.0.0.1'' (distinct_bad_attempts ''10.0.0.1'' [(1, ''a''), (2, ''a''), (3, ''a'')]
        (NewMaxBadAttemptsBanList 2 10)) \<and>
   IsBanned 5 ''10.0.0.1'' (AddDistinctBadAttempt 4 ''10.0.0.1'' ''b''
        (distinct_bad_attempts ''10.0.0.1'' [(1, ''a''), (2, ''a''), (3, ''a'')] (NewMaxBadAttemptsBanList 2 10)))"
proof -
  let ?l = "NewMaxBadAttemptsBanList 2 10"
  have fresh: "maxBadAttempts ?l = int 2" "get_visitor ''10.0.0.1'' ?l = new_visitor" "maxBanDuration ?l = 10"
    by (simp_all add: NewMaxBadAttemptsBanList_def get_visitor_def)
  show ?thesis
    using ban_counts_distinct_credentials [OF fresh(1) fresh(2),
        of "[(1, ''a''), (2, ''a''), (3, ''a'')]" 5 "''b''" 4] fresh(3)
    by simp
qed

text \<open>
  The comments of \<open>visitor\<close> and \<open>AddDistinctBadAttempt\<close> say that the seen credentials are forgotten
  on a ban. A ban that \<open>AddBadAttempt\<close> sets does not forget them: a credential seen before such a ban is
  not counted after it.
\<close>

lemma seen_failures_survive_ban:
  assumes "d \<in> seenFailures (get_visitor k l)"
  shows "get_visitor k (AddDistinctBadAttempt t' k d (AddBadAttempt t k l)) =
         get_visitor k (AddBadAttempt t k l)"
  using assms by (simp add: AddDistinctBadAttempt_def AddBadAttempt_visitor)

end
