(* ===== verification/Bytes.thy ===== *)
theory Bytes
  imports Prelude "HOL-Library.Word"
begin

text \<open>
  Go's bytes, the 8-bit words, and the part of \<^verbatim>\<open>encoding/hex\<close> the sources call.
\<close>

section \<open>Bytes and hexadecimal text\<close>

type_synonym byte = "8 word"

lemma unat_byte: "unat (b :: byte) < 256"
proof -
  have "unat b < 2 ^ LENGTH(8)" by (rule unsigned_less)
  then show ?thesis by simp
qed

definition hex_digit :: "nat \<Rightarrow> char" where
  "hex_digit n = ''0123456789abcdef'' ! n"

text \<open>\<^verbatim>\<open>hex.EncodeToString\<close>.\<close>

definition hex_encode :: "byte list \<Rightarrow> string" where
  "hex_encode bs = concat (map (\<lambda>b. [hex_digit (unat b div 16), hex_digit (unat b mod 16)]) bs)"

definition hex_val :: "char \<Rightarrow> nat" where
  "hex_val c = (if of_char c < (58 :: nat) then of_char c - 48 else of_char c - 87)"

lemma hex_val_digit:
  assumes "n < 16"
  shows "hex_val (hex_digit n) = n"
proof -
  have "list_all (\<lambda>n. hex_val (hex_digit n) = n) [0..<16]"
    by code_simp
  moreover have "n \<in> set [0..<16]" using assms by simp
  ultimately show ?thesis unfolding list_all_iff by (rule bspec)
qed

lemma hex_encode_simps [simp]:
  "hex_encode [] = []"
  "hex_encode (b # bs) = hex_digit (unat b div 16) # hex_digit (unat b mod 16) # hex_encode bs"
  by (simp_all add: hex_encode_def)

lemma hex_encode_length [simp]: "length (hex_encode bs) = 2 * length bs"
  by (induction bs) simp_all

lemma hex_byte_inj:
  fixes b c :: byte
  assumes "hex_digit (unat b div 16) = hex_digit (unat c div 16)"
    and "hex_digit (unat b mod 16) = hex_digit (unat c mod 16)"
  shows "b = c"
proof -
  have lt: "unat x div 16 < 16" for x :: byte
    using unat_byte [of x] by (simp add: less_mult_imp_div_less)
  have d: "unat b div 16 = unat c div 16"
    using arg_cong [OF assms(1), of hex_val] by (simp only: hex_val_digit lt)
  have m: "unat b mod 16 = unat c mod 16"
    using arg_cong [OF assms(2), of hex_val] by (simp only: hex_val_digit mod_less_divisor zero_less_numeral)
  have "unat b = unat b div 16 * 16 + unat b mod 16" by (rule div_mult_mod_eq [symmetric])
  also have "\<dots> = unat c" unfolding d m by (rule div_mult_mod_eq)
  finally have "unat b = unat c" .
  then show ?thesis by (simp add: word_unat_eq_iff)
qed

lemma hex_encode_inj: "hex_encode bs = hex_encode cs \<Longrightarrow> bs = cs"
proof (induction bs arbitrary: cs)
  case Nil
  then show ?case by (cases cs) simp_all
next
  case (Cons b bs)
  then show ?case by (cases cs) (auto intro: hex_byte_inj)
qed

end
