(* ===== verification/Tickets.thy ===== *)
theory Tickets
  imports Bytes
begin

text \<open>
  Short-lived grants of the API server: the one-time WebSocket tickets of \<^verbatim>\<open>server/api_ws_ticket.go\<close>, the
  registry of staged uploads of \<^verbatim>\<open>server/staged_uploads.go\<close>, and the random tokens of
  \<^verbatim>\<open>share/security/token.go\<close>. Each store is guarded by a mutex held for the whole operation, so an
  operation is one atomic step. What \<^verbatim>\<open>crypto/rand\<close> returns is an argument.
\<close>

section \<open>WebSocket tickets\<close>

definition wsTicketTTL :: duration where "wsTicketTTL = 30 * Second"
definition maxOutstandingTickets :: nat where "maxOutstandingTickets = 8192"
definition maxTicketsPerUser :: nat where "maxTicketsPerUser = 32"

definition errTooManyTickets :: goerr where
  "errTooManyTickets = GoError ''too many outstanding websocket tickets, retry shortly'' []"

definition errTooManyUserTickets :: goerr where
  "errTooManyUserTickets = GoError ''too many outstanding websocket tickets for this user, retry shortly'' []"

record wsTicketEntry =
  username :: string
  expiresAt :: time

type_synonym wsTicketStore = "(string \<times> wsTicketEntry) list"

definition newWSTicketStore :: wsTicketStore where "newWSTicketStore = []"

definition sweep :: "time \<Rightarrow> wsTicketStore \<Rightarrow> wsTicketStore" where
  "sweep now s = filter (\<lambda>(k, v). \<not> expiresAt v < now) s"

definition held :: "string \<Rightarrow> wsTicketStore \<Rightarrow> nat" where
  "held user s = length (filter (\<lambda>(k, v). username v = user) s)"

definition issue :: "byte list res \<Rightarrow> time \<Rightarrow> string \<Rightarrow> wsTicketStore \<Rightarrow> string res \<times> wsTicketStore" where
  "issue rnd now user s =
     (case rnd of
        Inl e \<Rightarrow> (Inl e, s)
      | Inr raw \<Rightarrow>
          (let ticket = hex_encode raw; s1 = sweep now s in
           if length s1 \<ge> maxOutstandingTickets then (Inl errTooManyTickets, s1)
           else if held user s1 \<ge> maxTicketsPerUser then (Inl errTooManyUserTickets, s1)
           else (Inr ticket,
                 AList.update ticket \<lparr>username = user, expiresAt = now + wsTicketTTL\<rparr> s1)))"

definition redeem :: "time \<Rightarrow> string \<Rightarrow> wsTicketStore \<Rightarrow> string option \<times> wsTicketStore" where
  "redeem now ticket s =
     (if ticket = '''' then (None, s)
      else case map_of s ticket of
             None \<Rightarrow> (None, s)
           | Some entry \<Rightarrow>
               (if expiresAt entry < now then None else Some (username entry),
                AList.delete ticket s))"

definition handleGetWSTicket ::
    "string res \<Rightarrow> byte list res \<Rightarrow> time \<Rightarrow> wsTicketStore \<Rightarrow> string response \<times> wsTicketStore" where
  "handleGetWSTicket user rnd now s =
     (case user of
        Inl e \<Rightarrow> (jsonError e, s)
      | Inr u \<Rightarrow>
          (case issue rnd now u s of
             (Inl e, s1) \<Rightarrow>
               (jsonErrorResponse
                  (if e = errTooManyUserTickets then StatusTooManyRequests
                   else if e = errTooManyTickets then StatusServiceUnavailable
                   else StatusInternalServerError) e, s1)
           | (Inr ticket, s1) \<Rightarrow> (writeJSONResponse StatusOK ticket, s1)))"

section \<open>Staged uploads\<close>

text \<open>
  The nested Go map is an association list of association lists. \<^verbatim>\<open>Allow\<close> returns a closure guarded by
  \<^verbatim>\<open>sync.Once\<close>; the closures handed out so far are the list \<open>grants\<close>, a closure is its position there
  and \<open>once_done\<close> is the state of its \<^verbatim>\<open>sync.Once\<close>. The closure that does nothing is one whose
  \<^verbatim>\<open>sync.Once\<close> is already used up.
\<close>

type_synonym staged_map = "(string \<times> (string \<times> int) list) list"

record grant =
  g_client :: string
  g_path :: string
  once_done :: bool

record stagedUploadRegistry =
  byOwner :: staged_map
  grants :: "grant list"

definition newStagedUploadRegistry :: stagedUploadRegistry where
  "newStagedUploadRegistry = \<lparr>byOwner = [], grants = []\<rparr>"

definition paths_of :: "string \<Rightarrow> staged_map \<Rightarrow> (string \<times> int) list" where
  "paths_of c m = (case map_of m c of None \<Rightarrow> [] | Some ps \<Rightarrow> ps)"

definition path_count :: "string \<Rightarrow> (string \<times> int) list \<Rightarrow> int" where
  "path_count p ps = (case map_of ps p of None \<Rightarrow> 0 | Some n \<Rightarrow> n)"

definition Allow :: "string \<Rightarrow> string \<Rightarrow> stagedUploadRegistry \<Rightarrow> stagedUploadRegistry" where
  "Allow clientID path r =
     (if clientID = '''' \<or> path = ''''
      then r\<lparr>grants := grants r @ [\<lparr>g_client = clientID, g_path = path, once_done = True\<rparr>]\<rparr>
      else let paths = paths_of clientID (byOwner r);
               paths1 = AList.update path (path_count path paths + 1) paths
           in \<lparr>byOwner = AList.update clientID paths1 (byOwner r),
               grants = grants r @ [\<lparr>g_client = clientID, g_path = path, once_done = False\<rparr>]\<rparr>)"

definition release_path :: "string \<Rightarrow> string \<Rightarrow> staged_map \<Rightarrow> staged_map" where
  "release_path clientID path m =
     (case map_of m clientID of
        None \<Rightarrow> m
      | Some paths \<Rightarrow>
          (let n = path_count path paths - 1;
               paths1 = (if n \<le> 0 then AList.delete path paths else AList.update path n paths)
           in if paths1 = [] then AList.delete clientID m
              else AList.update clientID paths1 m))"

definition release :: "nat \<Rightarrow> stagedUploadRegistry \<Rightarrow> stagedUploadRegistry" where
  "release i r =
     (if i < length (grants r) \<and> \<not> once_done (grants r ! i)
      then let g = grants r ! i
           in \<lparr>byOwner = release_path (g_client g) (g_path g) (byOwner r),
               grants = (grants r)[i := g\<lparr>once_done := True\<rparr>]\<rparr>
      else r)"

definition IsStaged :: "string \<Rightarrow> stagedUploadRegistry \<Rightarrow> bool" where
  "IsStaged path r \<longleftrightarrow>
     path \<noteq> '''' \<and> list_ex (\<lambda>(c, paths). map_of paths path \<noteq> None) (byOwner r)"

definition IsAllowed :: "string \<Rightarrow> string \<Rightarrow> stagedUploadRegistry \<Rightarrow> bool" where
  "IsAllowed clientID path r \<longleftrightarrow>
     (case map_of (byOwner r) clientID of None \<Rightarrow> False | Some paths \<Rightarrow> map_of paths path \<noteq> None)"

section \<open>Random tokens\<close>

definition token_chars :: string where
  "token_chars = ''0123456789abcdefghijklmnopqrstuvwxyzABCDEFGHIJKLMNOPQRSTUVWXYZ''"

definition maxByte :: nat where
  "maxByte = 256 - 256 mod length token_chars"

text \<open>The inner loop over one buffer, and the outer loop over the reads \<open>bufs\<close>: \<open>None\<close> says that the
  loop wants another read after those.\<close>

fun token_fill :: "nat \<Rightarrow> string \<Rightarrow> byte list \<Rightarrow> string" where
  "token_fill len out [] = out"
| "token_fill len out (b # buf) =
     (if length out = len then out
      else if unat b < maxByte
           then token_fill len (out @ [token_chars ! (unat b mod length token_chars)]) buf
           else token_fill len out buf)"

fun token_loop :: "nat \<Rightarrow> string \<Rightarrow> byte list res list \<Rightarrow> string res option" where
  "token_loop len out bufs =
     (if \<not> length out < len then Some (Inr out)
      else case bufs of
             [] \<Rightarrow> None
           | Inl e # bufs' \<Rightarrow> Some (Inl e)
           | Inr buf # bufs' \<Rightarrow> token_loop len (token_fill len out buf) bufs')"

declare token_loop.simps [simp del]

definition NewRandomToken :: "nat \<Rightarrow> byte list res list \<Rightarrow> string res option" where
  "NewRandomToken len bufs = token_loop len '''' bufs"

section \<open>Tickets: steps, bounds and history\<close>

datatype ticket_event =
    Issued time string string
  | IssueRefused time string goerr
  | Redeemed time string "string option"

text \<open>\<^verbatim>\<open>rand.Read\<close> fills the 32 byte buffer or fails.\<close>

inductive ticket_step :: "wsTicketStore \<Rightarrow> ticket_event \<Rightarrow> wsTicketStore \<Rightarrow> bool" where
  issued: "issue (Inr raw) at u s = (Inr t, s') \<Longrightarrow> length raw = 32 \<Longrightarrow> ticket_step s (Issued at u t) s'"
| refused: "issue rnd at u s = (Inl e, s') \<Longrightarrow> ticket_step s (IssueRefused at u e) s'"
| redeemed: "redeem now t s = (r, s') \<Longrightarrow> ticket_step s (Redeemed now t r) s'"

inductive_simps ticket_step_issued: "ticket_step s (Issued at u t) s'"
inductive_simps ticket_step_refused: "ticket_step s (IssueRefused at u e) s'"
inductive_simps ticket_step_redeemed: "ticket_step s (Redeemed now t r) s'"

lemmas ticket_step_simps = ticket_step_issued ticket_step_refused ticket_step_redeemed

definition ticket_inv :: "wsTicketStore \<Rightarrow> bool" where
  "ticket_inv s \<longleftrightarrow> distinct (map fst s) \<and> length s \<le> maxOutstandingTickets \<and>
     (\<forall>u. held u s \<le> maxTicketsPerUser)"

lemma map_of_sweep:
  "distinct (map fst s) \<Longrightarrow>
   map_of (sweep now s) t =
     (case map_of s t of None \<Rightarrow> None | Some v \<Rightarrow> if expiresAt v < now then None else Some v)"
  by (induction s) (auto simp: sweep_def map_of_eq_None_iff rev_image_eqI split: option.splits)

lemma sweep_smaller [simp]:
  "length (sweep now s) \<le> length s" "held u (sweep now s) \<le> held u s"
proof -
  show "length (sweep now s) \<le> length s" by (simp add: sweep_def)
  show "held u (sweep now s) \<le> held u s" by (induction s) (auto simp: held_def sweep_def)
qed

lemma distinct_sweep [simp]: "distinct (map fst s) \<Longrightarrow> distinct (map fst (sweep now s))"
  by (simp add: sweep_def distinct_map_filter)

lemma length_update_le: "length (AList.update k v s) \<le> Suc (length s)"
  by (induction s) auto

lemma held_update: "held u (AList.update k v s) \<le> (if username v = u then Suc (held u s) else held u s)"
  by (induction s) (auto simp: held_def split: if_splits)

lemma held_delete: "held u (AList.delete k s) \<le> held u s"
  by (induction s) (auto simp: held_def AList.delete_eq)

lemma length_delete: "length (AList.delete k s) \<le> length s"
  by (simp add: AList.delete_eq)

lemma issue_cases:
  assumes "issue rnd at u s = (r, s')"
  obtains (error) e where "r = Inl e" "s' = s"
  | (refused) e where "r = Inl e" "s' = sweep at s"
  | (issued) raw where "rnd = Inr raw" "r = Inr (hex_encode raw)" "length (sweep at s) < maxOutstandingTickets"
      "held u (sweep at s) < maxTicketsPerUser"
      "s' = AList.update (hex_encode raw) \<lparr>username = u, expiresAt = at + wsTicketTTL\<rparr> (sweep at s)"
  using assms by (auto simp: issue_def Let_def split: sum.splits if_splits)

lemma ticket_inv_sweep: "ticket_inv s \<Longrightarrow> ticket_inv (sweep at s)"
  unfolding ticket_inv_def by (meson distinct_sweep le_trans sweep_smaller)

lemma ticket_inv_issue:
  assumes "ticket_inv s" "issue rnd at u s = (r, s')"
  shows "ticket_inv s'"
  using assms(2)
proof (cases rule: issue_cases)
  case (issued raw)
  note s = ticket_inv_sweep [OF assms(1), of at]
  let ?v = "\<lparr>username = u, expiresAt = at + wsTicketTTL\<rparr>"
  have "held u' s' \<le> maxTicketsPerUser" for u'
    using held_update [of u' "hex_encode raw" ?v "sweep at s"] s issued(4,5)
    by (cases "u' = u") (auto simp: ticket_inv_def intro: le_trans)
  moreover have "length s' \<le> maxOutstandingTickets"
    using length_update_le [of "hex_encode raw" ?v "sweep at s"] issued(3,5) by simp
  ultimately show ?thesis using s issued(5) by (simp add: ticket_inv_def AList.distinct_update)
qed (use assms ticket_inv_sweep in simp_all)

lemma ticket_inv_redeem:
  assumes "ticket_inv s" "redeem now t s = (r, s')"
  shows "ticket_inv s'"
proof -
  have "ticket_inv (AList.delete t s)"
    using assms(1) held_delete [of _ t s] length_delete [of t s]
    unfolding ticket_inv_def by (meson AList.distinct_delete le_trans)
  then show ?thesis using assms by (auto simp: redeem_def split: if_splits option.splits)
qed

interpretation tk: step_invariant ticket_step ticket_inv
  by unfold_locales (auto elim!: ticket_step.cases intro: ticket_inv_issue ticket_inv_redeem)

lemma ticket_inv_new: "ticket_inv newWSTicketStore"
  by (simp add: ticket_inv_def newWSTicketStore_def held_def)

text \<open>An event that hands the ticket \<open>t\<close> out or consumes it.\<close>

fun touches :: "string \<Rightarrow> ticket_event \<Rightarrow> bool" where
  "touches t (Issued at u t') \<longleftrightarrow> t' = t"
| "touches t (IssueRefused at u e) \<longleftrightarrow> False"
| "touches t (Redeemed now t' r) \<longleftrightarrow> t' = t"

fun event_time :: "ticket_event \<Rightarrow> time" where
  "event_time (Issued at u t) = at"
| "event_time (IssueRefused at u e) = at"
| "event_time (Redeemed at t r) = at"

lemma issue_lookup:
  assumes "ticket_inv s" "issue rnd at u s = (r, s')"
  shows "map_of s' t = Some v \<Longrightarrow>
         (r = Inr t \<and> v = \<lparr>username = u, expiresAt = at + wsTicketTTL\<rparr>) \<or> (r \<noteq> Inr t \<and> map_of s t = Some v)"
    and "map_of s t = Some v \<Longrightarrow> r \<noteq> Inr t \<Longrightarrow> at \<le> expiresAt v \<Longrightarrow> map_of s' t = Some v"
    and "r = Inr t \<Longrightarrow> map_of s' t = Some \<lparr>username = u, expiresAt = at + wsTicketTTL\<rparr>"
proof -
  have d: "distinct (map fst s)" using assms(1) by (simp add: ticket_inv_def)
  show "map_of s' t = Some v \<Longrightarrow>
      (r = Inr t \<and> v = \<lparr>username = u, expiresAt = at + wsTicketTTL\<rparr>) \<or> (r \<noteq> Inr t \<and> map_of s t = Some v)"
    using assms(2) by (cases rule: issue_cases)
      (auto simp: map_of_sweep [OF d] AList.update_conv' split: option.splits if_splits)
  show "map_of s t = Some v \<Longrightarrow> r \<noteq> Inr t \<Longrightarrow> at \<le> expiresAt v \<Longrightarrow> map_of s' t = Some v"
    using assms(2) by (cases rule: issue_cases) (auto simp: map_of_sweep [OF d] AList.update_conv')
  show "r = Inr t \<Longrightarrow> map_of s' t = Some \<lparr>username = u, expiresAt = at + wsTicketTTL\<rparr>"
    using assms(2) by (cases rule: issue_cases) (auto simp: AList.update_conv')
qed

lemma redeem_lookup:
  assumes "redeem now t s = (r, s')"
  shows "map_of s' t' = (if t' = t \<and> t \<noteq> '''' then None else map_of s t')"
  using assms by (auto simp: redeem_def AList.delete_conv' split: if_splits option.splits)

text \<open>A ticket in the store was issued by an event after which nothing touched it.\<close>

lemma ticket_history:
  assumes "run ticket_step newWSTicketStore es s" "map_of s t = Some v"
  shows "\<exists>pre at post. es = pre @ Issued at (username v) t # post \<and>
           expiresAt v = at + wsTicketTTL \<and> (\<forall>e \<in> set post. touches t e \<longrightarrow> t = '''')"
  using assms
proof (induction es arbitrary: s v rule: rev_induct)
  case Nil
  then show ?case by (simp add: newWSTicketStore_def)
next
  case (snoc e es)
  then obtain s0 where r0: "run ticket_step newWSTicketStore es s0" and st: "ticket_step s0 e s"
    by (auto simp: run_append_iff run_Cons_iff)
  note inv0 = tk.run_keeps [OF r0 ticket_inv_new]
  have old: ?case if m: "map_of s0 t = Some v" and nt: "touches t e \<longrightarrow> t = ''''"
  proof -
    from snoc.IH [OF r0 m] obtain pre at post where
      "es = pre @ Issued at (username v) t # post" "expiresAt v = at + wsTicketTTL"
      "\<forall>e \<in> set post. touches t e \<longrightarrow> t = ''''" by blast
    with nt show ?thesis
      by (intro exI [of _ pre] exI [of _ at] exI [of _ "post @ [e]"]) auto
  qed
  from st show ?case
  proof cases
    case (issued raw at u t')
    from issue_lookup(1) [OF inv0 issued(2) snoc.prems(2)] show ?thesis
    proof (elim disjE conjE)
      assume "Inr t' = Inr t" "v = \<lparr>username = u, expiresAt = at + wsTicketTTL\<rparr>"
      with issued(1) show ?thesis by (intro exI [of _ es] exI [of _ at] exI [of _ "[]"]) simp
    qed (use issued(1) old in auto)
  next
    case (refused rnd at u err)
    from issue_lookup(1) [OF inv0 refused(2) snoc.prems(2)] refused(1) old show ?thesis by auto
  next
    case (redeemed now t' r)
    from redeem_lookup [OF redeemed(2)] snoc.prems(2) redeemed(1) old show ?thesis
      by (auto split: if_splits)
  qed
qed

lemma ticket_stays:
  assumes "run ticket_step s es s'" "ticket_inv s" "map_of s t = Some v"
    and "\<forall>e \<in> set es. \<not> touches t e \<and> event_time e \<le> expiresAt v"
  shows "map_of s' t = Some v"
  using assms
proof (induction rule: run.induct)
  case (run_Cons s e s1 es s2)
  then have inv1: "ticket_inv s1" by (auto dest: tk.step_keeps)
  from run_Cons.hyps(1) have "map_of s1 t = Some v"
  proof cases
    case (issued raw at u t')
    with run_Cons.prems show ?thesis by (intro issue_lookup(2) [OF run_Cons.prems(1) issued(2)]) auto
  next
    case (refused rnd at u err)
    with run_Cons.prems show ?thesis by (intro issue_lookup(2) [OF run_Cons.prems(1) refused(2)]) auto
  next
    case (redeemed now t' r)
    with run_Cons.prems redeem_lookup [OF redeemed(2), of t] show ?thesis by auto
  qed
  with run_Cons inv1 show ?case by simp
qed simp

section \<open>Staged uploads: the registry is the live grants\<close>

text \<open>The closures for a client and a path that were not called yet.\<close>

definition live :: "string \<Rightarrow> string \<Rightarrow> grant list \<Rightarrow> nat" where
  "live c p gs = length (filter (\<lambda>g. g_client g = c \<and> g_path g = p \<and> \<not> once_done g) gs)"

definition staged_count :: "staged_map \<Rightarrow> string \<Rightarrow> string \<Rightarrow> int" where
  "staged_count m c p = path_count p (paths_of c m)"

text \<open>No count is zero or less, no owner is kept without a path, and keys are distinct.\<close>

definition paths_ok :: "(string \<times> int) list \<Rightarrow> bool" where
  "paths_ok ps \<longleftrightarrow> distinct (map fst ps) \<and> (\<forall>n \<in> snd ` set ps. 0 < n)"

definition staged_ok :: "staged_map \<Rightarrow> bool" where
  "staged_ok m \<longleftrightarrow> distinct (map fst m) \<and> (\<forall>ps \<in> snd ` set m. ps \<noteq> [] \<and> paths_ok ps)"

definition staged_inv :: "stagedUploadRegistry \<Rightarrow> bool" where
  "staged_inv r \<longleftrightarrow> staged_ok (byOwner r) \<and>
     (\<forall>c p. staged_count (byOwner r) c p = int (live c p (grants r))) \<and>
     (\<forall>g \<in> set (grants r). \<not> once_done g \<longrightarrow> g_path g \<noteq> '''')"

datatype staged_event = Allowed string string | Released nat

inductive staged_step :: "stagedUploadRegistry \<Rightarrow> staged_event \<Rightarrow> stagedUploadRegistry \<Rightarrow> bool" where
  "staged_step r (Allowed c p) (Allow c p r)"
| "staged_step r (Released i) (release i r)"

inductive_simps staged_step_simps: "staged_step r (Allowed c p) r'" "staged_step r (Released i) r'"

lemma path_count_update: "path_count p (AList.update p' n ps) = (if p = p' then n else path_count p ps)"
  by (simp add: path_count_def AList.update_conv')

lemma path_count_delete: "path_count p (AList.delete p' ps) = (if p = p' then 0 else path_count p ps)"
  by (simp add: path_count_def AList.delete_conv')

lemma paths_of_update: "paths_of c (AList.update c' ps m) = (if c = c' then ps else paths_of c m)"
  by (simp add: paths_of_def AList.update_conv')

lemma paths_of_delete: "paths_of c (AList.delete c' m) = (if c = c' then [] else paths_of c m)"
  by (simp add: paths_of_def AList.delete_conv')

lemmas staged_lookup = path_count_update path_count_delete paths_of_update paths_of_delete

lemma set_update_subset: "set (AList.update k v al) \<subseteq> insert (k, v) (set al)"
  by (induction al) auto

lemma set_delete_subset: "set (AList.delete k al) \<subseteq> set al"
  by (auto simp: AList.delete_eq)

lemma update_not_Nil: "AList.update k v al \<noteq> []"
  by (cases al) auto

lemma paths_ok_update: "paths_ok ps \<Longrightarrow> 0 < n \<Longrightarrow> paths_ok (AList.update p n ps)"
  using set_update_subset [of p n ps] by (fastforce simp: paths_ok_def AList.distinct_update)

lemma paths_ok_delete: "paths_ok ps \<Longrightarrow> paths_ok (AList.delete p ps)"
  using set_delete_subset [of p ps] by (fastforce simp: paths_ok_def AList.distinct_delete)

lemma staged_ok_paths:
  assumes "staged_ok m"
  shows "paths_ok (paths_of c m)"
proof (cases "map_of m c")
  case None
  then show ?thesis by (simp add: paths_of_def paths_ok_def)
next
  case (Some ps)
  then have "ps \<in> snd ` set m" by (force dest: map_of_SomeD)
  with assms have "paths_ok ps" unfolding staged_ok_def by blast
  with Some show ?thesis by (simp add: paths_of_def)
qed

lemma staged_ok_update:
  assumes "staged_ok m" "ps \<noteq> []" "paths_ok ps"
  shows "staged_ok (AList.update c ps m)"
proof -
  have "snd ` set (AList.update c ps m) \<subseteq> insert ps (snd ` set m)"
    using set_update_subset [of c ps m] by auto
  with assms show ?thesis unfolding staged_ok_def by (blast intro: AList.distinct_update)
qed

lemma staged_ok_delete:
  assumes "staged_ok m"
  shows "staged_ok (AList.delete c m)"
proof -
  have "snd ` set (AList.delete c m) \<subseteq> snd ` set m" using set_delete_subset [of c m] by auto
  with assms show ?thesis unfolding staged_ok_def by (blast intro: AList.distinct_delete)
qed

lemma path_count_cases:
  assumes "paths_ok ps"
  shows "map_of ps p = None \<and> path_count p ps = 0 \<or> map_of ps p \<noteq> None \<and> 0 < path_count p ps"
proof (cases "map_of ps p")
  case None
  then show ?thesis by (simp add: path_count_def)
next
  case (Some n)
  then have "n \<in> snd ` set ps" by (force dest: map_of_SomeD)
  with assms have "0 < n" unfolding paths_ok_def by blast
  with Some show ?thesis by (simp add: path_count_def)
qed

lemma live_pos_iff:
  "0 < live c p gs \<longleftrightarrow> (\<exists>g \<in> set gs. g_client g = c \<and> g_path g = p \<and> \<not> once_done g)"
  by (auto simp: live_def filter_empty_conv)

lemma live_append: "live c p (gs @ [g]) = live c p gs + (if g_client g = c \<and> g_path g = p \<and> \<not> once_done g then 1 else 0)"
  by (simp add: live_def)

lemma live_done:
  assumes "i < length gs" "\<not> once_done (gs ! i)"
  shows "int (live c p (gs[i := (gs ! i)\<lparr>once_done := True\<rparr>])) =
         int (live c p gs) - (if g_client (gs ! i) = c \<and> g_path (gs ! i) = p then 1 else 0)"
  using assms
proof (induction gs arbitrary: i)
  case (Cons g gs)
  have live_Cons: "live c p (g # gs) = live c p gs + (if g_client g = c \<and> g_path g = p \<and> \<not> once_done g then 1 else 0)" for g gs
    by (simp add: live_def)
  show ?case
  proof (cases i)
    case 0
    with Cons.prems show ?thesis by (simp add: live_Cons)
  next
    case (Suc j)
    with Cons.prems Cons.IH [of j] show ?thesis by (simp add: live_Cons)
  qed
qed simp

lemma staged_inv_Allow:
  assumes "staged_inv r"
  shows "staged_inv (Allow c p r)"
proof (cases "c = '''' \<or> p = ''''")
  case True
  with assms show ?thesis by (auto simp: Allow_def staged_inv_def live_append)
next
  case False
  let ?ps = "paths_of c (byOwner r)" and ?m = "byOwner r"
  have ok: "staged_ok ?m" and cnt: "\<And>c p. staged_count ?m c p = int (live c p (grants r))"
    and ne: "\<forall>g \<in> set (grants r). \<not> once_done g \<longrightarrow> g_path g \<noteq> ''''"
    using assms by (auto simp: staged_inv_def)
  let ?n = "path_count p ?ps + 1"
  note ps = staged_ok_paths [OF ok, of c]
  have "staged_ok (AList.update c (AList.update p ?n ?ps) ?m)"
    using path_count_cases [OF ps, of p] by (intro staged_ok_update ok paths_ok_update ps update_not_Nil) linarith
  moreover have "staged_count (AList.update c (AList.update p ?n ?ps) ?m) c' p' =
      int (live c' p' (grants r @ [\<lparr>g_client = c, g_path = p, once_done = False\<rparr>]))" for c' p'
    using cnt [of c' p'] by (auto simp: staged_count_def staged_lookup live_append)
  ultimately show ?thesis using False ne by (simp add: Allow_def staged_inv_def Let_def)
qed

lemma release_path_count:
  assumes "staged_ok m" "0 < staged_count m c p"
  shows "staged_ok (release_path c p m)"
    and "staged_count (release_path c p m) c' p' = staged_count m c' p' - (if c' = c \<and> p' = p then 1 else 0)"
proof -
  from assms(2) obtain ps where ps: "map_of m c = Some ps"
    by (cases "map_of m c") (auto simp: staged_count_def path_count_def paths_of_def)
  then have pso: "paths_of c m = ps" by (simp add: paths_of_def)
  let ?n = "path_count p ps - 1"
  let ?ps1 = "if ?n \<le> 0 then AList.delete p ps else AList.update p ?n ps"
  have "paths_ok ?ps1"
    using staged_ok_paths [OF assms(1), of c] pso by (simp add: paths_ok_update paths_ok_delete)
  then have "?ps1 \<noteq> [] \<Longrightarrow> staged_ok (AList.update c ?ps1 m)" by (intro staged_ok_update assms(1))
  then show "staged_ok (release_path c p m)"
    using staged_ok_delete [OF assms(1), of c] by (simp add: release_path_def ps Let_def)
  have c1: "path_count p' ?ps1 = path_count p' ps - (if p' = p then 1 else 0)"
    using assms(2) pso by (auto simp: staged_lookup staged_count_def)
  have "paths_of c' (release_path c p m) = (if c' = c then ?ps1 else paths_of c' m)"
    by (auto simp: release_path_def ps Let_def staged_lookup)
  then show "staged_count (release_path c p m) c' p' =
      staged_count m c' p' - (if c' = c \<and> p' = p then 1 else 0)"
    using c1 pso by (auto simp: staged_count_def)
qed

lemma staged_inv_release:
  assumes "staged_inv r"
  shows "staged_inv (release i r)"
proof (cases "i < length (grants r) \<and> \<not> once_done (grants r ! i)")
  case False
  with assms show ?thesis by (auto simp: release_def)
next
  case True
  let ?g = "grants r ! i"
  have cnt: "\<And>c p. staged_count (byOwner r) c p = int (live c p (grants r))" and ok: "staged_ok (byOwner r)"
    and ne: "\<forall>g \<in> set (grants r). \<not> once_done g \<longrightarrow> g_path g \<noteq> ''''"
    using assms by (auto simp: staged_inv_def)
  have "0 < live (g_client ?g) (g_path ?g) (grants r)"
    unfolding live_pos_iff using True nth_mem by blast
  then have "0 < staged_count (byOwner r) (g_client ?g) (g_path ?g)" by (simp add: cnt)
  note rel = release_path_count [OF ok this]
  have "\<forall>g \<in> set ((grants r)[i := ?g\<lparr>once_done := True\<rparr>]). \<not> once_done g \<longrightarrow> g_path g \<noteq> ''''"
    using ne by (auto dest!: set_update_subset_insert [THEN subsetD])
  with rel live_done [of i "grants r"] True cnt show ?thesis
    by (simp add: release_def staged_inv_def Let_def)
qed

interpretation su: step_invariant staged_step staged_inv
  by unfold_locales (auto elim!: staged_step.cases intro: staged_inv_Allow staged_inv_release)

lemma staged_inv_new: "staged_inv newStagedUploadRegistry"
  by (simp add: staged_inv_def newStagedUploadRegistry_def staged_ok_def staged_count_def paths_of_def path_count_def live_def)

lemma IsAllowed_count: "staged_ok (byOwner r) \<Longrightarrow> IsAllowed c p r \<longleftrightarrow> 0 < staged_count (byOwner r) c p"
  using path_count_cases [OF staged_ok_paths, of "byOwner r" c p]
  by (auto simp: IsAllowed_def staged_count_def paths_of_def split: option.splits)

lemma IsAllowed_iff:
  "IsAllowed c p r \<longleftrightarrow> (\<exists>ps. map_of (byOwner r) c = Some ps \<and> map_of ps p \<noteq> None)"
  by (cases "map_of (byOwner r) c") (simp_all add: IsAllowed_def)

lemma IsStaged_IsAllowed:
  assumes "staged_ok (byOwner r)"
  shows "IsStaged p r \<longleftrightarrow> p \<noteq> '''' \<and> (\<exists>c. IsAllowed c p r)"
proof -
  have d: "distinct (map fst (byOwner r))" using assms by (simp add: staged_ok_def)
  have "(\<exists>c. IsAllowed c p r) \<longleftrightarrow> (\<exists>c ps. map_of (byOwner r) c = Some ps \<and> map_of ps p \<noteq> None)"
    by (simp only: IsAllowed_iff)
  then have "(\<exists>c. IsAllowed c p r) \<longleftrightarrow> (\<exists>(c, ps) \<in> set (byOwner r). map_of ps p \<noteq> None)"
    unfolding map_of_eq_Some_iff [OF d] by blast
  then show ?thesis by (auto simp: IsStaged_def list_ex_iff)
qed

section \<open>Random tokens: rejection sampling\<close>

definition accepted :: "byte list \<Rightarrow> byte list" where
  "accepted bs = filter (\<lambda>b. unat b < maxByte) bs"

definition token_char :: "byte \<Rightarrow> char" where
  "token_char b = token_chars ! (unat b mod length token_chars)"

lemma token_chars_length [simp]: "length token_chars = 62"
  by (simp add: token_chars_def)

lemma maxByte_val [simp]: "maxByte = 248"
  by (simp add: maxByte_def)

lemma distinct_token_chars: "distinct token_chars"
  by (simp add: token_chars_def)

lemma token_fill_eq:
  "length out \<le> len \<Longrightarrow>
   token_fill len out buf = out @ take (len - length out) (map token_char (accepted buf))"
proof (induction len out buf rule: token_fill.induct)
  case (2 len out b buf)
  show ?case
  proof (cases "length out = len")
    case False
    with 2 have "len - length out = Suc (len - Suc (length out))" by simp
    with 2 False show ?thesis by (auto simp: accepted_def token_char_def)
  qed simp
qed (simp add: accepted_def)

lemma token_loop_eq:
  "length out \<le> len \<Longrightarrow>
   token_loop len out (map Inr bufs) =
     (let text = out @ map token_char (accepted (concat bufs)) in
      if len \<le> length text then Some (Inr (take len text)) else None)"
proof (induction bufs arbitrary: out)
  case Nil
  then show ?case by (subst token_loop.simps) (auto simp: accepted_def)
next
  case (Cons buf bufs)
  show ?case
  proof (cases "length out < len")
    case False
    with Cons.prems show ?thesis by (subst token_loop.simps) simp
  next
    case True
    let ?out = "out @ take (len - length out) (map token_char (accepted buf))"
    have "token_loop len out (map Inr (buf # bufs)) = token_loop len ?out (map Inr bufs)"
      using True by (subst token_loop.simps) (simp add: token_fill_eq)
    also have "\<dots> = (let text = ?out @ map token_char (accepted (concat bufs)) in
        if len \<le> length text then Some (Inr (take len text)) else None)"
      using True by (intro Cons.IH) simp
    also have "\<dots> = (let text = out @ map token_char (accepted (concat (buf # bufs))) in
        if len \<le> length text then Some (Inr (take len text)) else None)"
      using True by (cases "length (accepted buf) \<le> len - length out") (auto simp: Let_def accepted_def)
    finally show ?thesis .
  qed
qed

lemma residues_248:
  fixes i n :: nat
  assumes "i < 62"
  shows "n < 248 \<and> n mod 62 = i \<longleftrightarrow> n = i \<or> n = i + 62 \<or> n = i + 124 \<or> n = i + 186"
proof
  assume n: "n < 248 \<and> n mod 62 = i"
  then have "n div 62 < 4" by (simp add: less_mult_imp_div_less)
  then have "n div 62 = 0 \<or> n div 62 = 1 \<or> n div 62 = 2 \<or> n div 62 = 3" by linarith
  moreover have "n = n div 62 * 62 + i" using n div_mult_mod_eq [of n 62] by simp
  ultimately show "n = i \<or> n = i + 62 \<or> n = i + 124 \<or> n = i + 186" by auto
next
  have "(i + 62 * q) mod 62 = i" for q using assms by simp
  from this [of 0] this [of 1] this [of 2] this [of 3] assms
  show "n = i \<or> n = i + 62 \<or> n = i + 124 \<or> n = i + 186 \<Longrightarrow> n < 248 \<and> n mod 62 = i" by auto
qed

lemma token_char_preimage:
  assumes "c \<in> set token_chars"
  shows "card {b. unat b < maxByte \<and> token_char b = c} = 4"
proof -
  from assms obtain i where i: "i < 62" "token_chars ! i = c" by (auto simp: in_set_conv_nth)
  have inj: "token_char b = c \<longleftrightarrow> unat b mod 62 = i" for b
    using i nth_eq_iff_index_eq [OF distinct_token_chars, of "unat b mod 62" i]
    by (simp add: token_char_def)
  let ?S = "{i, i + 62, i + 124, i + 186}"
  have "{b :: byte. unat b < maxByte \<and> token_char b = c} = word_of_nat ` ?S"
  proof (intro set_eqI iffI)
    fix b :: byte
    assume "b \<in> {b. unat b < maxByte \<and> token_char b = c}"
    then have "unat b \<in> ?S" using residues_248 [OF i(1), of "unat b"] by (simp add: inj)
    then have "word_of_nat (unat b) \<in> (word_of_nat ` ?S :: byte set)" by (rule imageI)
    then show "b \<in> word_of_nat ` ?S" by simp
  next
    fix b :: byte
    assume "b \<in> word_of_nat ` ?S"
    then obtain n where n: "b = word_of_nat n" "n \<in> ?S" by blast
    then have "n < 248 \<and> n mod 62 = i" using residues_248 [OF i(1), of n] by simp
    with n show "b \<in> {b. unat b < maxByte \<and> token_char b = c}" by (simp add: inj unat_of_nat)
  qed
  moreover have "inj_on (word_of_nat :: nat \<Rightarrow> byte) ?S"
  proof (rule inj_onI)
    fix m n assume "m \<in> ?S" "n \<in> ?S" and e: "(word_of_nat m :: byte) = word_of_nat n"
    then have "m < 256" "n < 256" using i(1) by auto
    with arg_cong [OF e, of unat] show "m = n" by (simp add: unat_of_nat)
  qed
  moreover have "card ?S = 4" by simp
  ultimately show ?thesis by (simp only: card_image)
qed

definition example_ticket :: string where
  "example_ticket = hex_encode (replicate 32 7)"

lemma issue_first:
  "issue (Inr raw) at u newWSTicketStore =
     (Inr (hex_encode raw), [(hex_encode raw, \<lparr>username = u, expiresAt = at + wsTicketTTL\<rparr>)])"
  by (simp add: issue_def newWSTicketStore_def sweep_def held_def maxOutstandingTickets_def
      maxTicketsPerUser_def Let_def)

lemma example_ticket_run:
  "run ticket_step newWSTicketStore
     [Issued 5 ''alice'' example_ticket, Redeemed 8 example_ticket (Some ''alice'')] []"
proof -
  have "length example_ticket = 64" unfolding example_ticket_def hex_encode_length by simp
  then have ne: "example_ticket \<noteq> ''''" by force
  let ?s = "[(example_ticket, \<lparr>username = ''alice'', expiresAt = 5 + wsTicketTTL\<rparr>)]"
  have a: "ticket_step newWSTicketStore (Issued 5 ''alice'' example_ticket) ?s"
    unfolding example_ticket_def by (rule issued [OF issue_first]) simp
  have "redeem 8 example_ticket ?s = (Some ''alice'', [])"
    using ne by (simp add: redeem_def wsTicketTTL_def AList.delete_eq)
  then have b: "ticket_step ?s (Redeemed 8 example_ticket (Some ''alice'')) []" by (rule redeemed)
  show ?thesis by (rule run_Cons, rule a, rule run_Cons, rule b, rule run_Nil)
qed

section \<open>Properties\<close>

text \<open>
  C21: A WebSocket ticket authenticates one connection of the user it was issued to. In every run of
  the store from the empty one, a redemption that succeeds for user \<open>u\<close> redeems a ticket that was
  issued to \<open>u\<close> at most 30 seconds ago, and since then the ticket was neither issued again nor
  presented by any other redemption, successful or not.
\<close>

theorem ws_ticket_single_use:
  assumes "run ticket_step newWSTicketStore (es @ [Redeemed now t (Some u)]) s"
  shows "\<exists>pre at post. es = pre @ Issued at u t # post \<and> now \<le> at + wsTicketTTL \<and>
           (\<forall>e \<in> set post. \<not> touches t e)"
proof -
  from assms obtain s0 where r0: "run ticket_step newWSTicketStore es s0"
    and st: "redeem now t s0 = (Some u, s)"
    by (auto simp: run_append_iff run_Cons_iff ticket_step_redeemed)
  from st obtain v where "t \<noteq> ''''" and v: "map_of s0 t = Some v" "username v = u" "now \<le> expiresAt v"
    by (auto simp: redeem_def split: if_splits option.splits)
  from ticket_history [OF r0 v(1)] obtain pre at post where "es = pre @ Issued at u t # post"
      "now \<le> at + wsTicketTTL" "\<forall>e \<in> set post. \<not> touches t e"
    using v(2,3) \<open>t \<noteq> ''''\<close> by auto
  then show ?thesis by blast
qed

theorem ws_ticket_single_use_witness:
  "\<exists>pre at post. [Issued 5 ''alice'' example_ticket] =
       pre @ Issued at ''alice'' example_ticket # post \<and> 8 \<le> at + wsTicketTTL \<and>
       (\<forall>e \<in> set post. \<not> touches example_ticket e)"
  by (rule ws_ticket_single_use [where s = "[]"]) (use example_ticket_run in simp)

text \<open>
  C35: A ticket just issued works: whatever other requests for and redemptions of other tickets are
  processed in the next 30 seconds, its redemption within them returns its user. In every reachable
  state the store holds at most 8192 tickets and at most 32 of any one user.
\<close>

theorem ws_ticket_redeemable:
  assumes "run ticket_step newWSTicketStore (es @ Issued at u t # post @ [Redeemed now t r]) s"
    and "\<forall>e \<in> set post. \<not> touches t e \<and> event_time e \<le> at + wsTicketTTL"
    and "now \<le> at + wsTicketTTL"
  shows "r = Some u \<and> length s \<le> 8192 \<and> held u' s \<le> 32"
proof -
  from assms(1) obtain s0 s1 s2 where r0: "run ticket_step newWSTicketStore es s0"
    and st: "ticket_step s0 (Issued at u t) s1" and r1: "run ticket_step s1 post s2"
    and rd: "redeem now t s2 = (r, s)"
    by (auto simp: run_append_iff run_Cons_iff ticket_step_redeemed)
  note inv0 = tk.run_keeps [OF r0 ticket_inv_new]
  note inv1 = tk.step_keeps [OF inv0 st]
  from st obtain raw where raw: "length raw = 32" "issue (Inr raw) at u s0 = (Inr t, s1)"
    by (auto simp: ticket_step_issued)
  then have "t = hex_encode raw" by (auto simp: issue_def Let_def split: if_splits)
  then have ne: "t \<noteq> ''''" using raw(1) hex_encode_length [of raw] by (metis length_0_conv mult_is_0 zero_neq_numeral)
  let ?v = "\<lparr>username = u, expiresAt = at + wsTicketTTL\<rparr>"
  have "map_of s1 t = Some ?v" by (rule issue_lookup(3) [OF inv0 raw(2)]) simp
  from ticket_stays [OF r1 inv1 this] assms(2) have "map_of s2 t = Some ?v" by simp
  with rd ne assms(3) have "r = Some u" by (simp add: redeem_def)
  moreover have "ticket_inv s" by (rule tk.run_keeps [OF assms(1) ticket_inv_new])
  ultimately show ?thesis
    by (simp add: ticket_inv_def maxOutstandingTickets_def maxTicketsPerUser_def)
qed

theorem ws_ticket_redeemable_witness:
  "run ticket_step newWSTicketStore
     ([] @ Issued 5 ''alice'' example_ticket # [] @ [Redeemed 8 example_ticket (Some ''alice'')]) [] \<and>
   held ''alice'' [] \<le> 32"
proof -
  have r: "run ticket_step newWSTicketStore
      ([] @ Issued 5 ''alice'' example_ticket # [] @ [Redeemed 8 example_ticket (Some ''alice'')]) []"
    using example_ticket_run by simp
  with ws_ticket_redeemable [OF r, of "''alice''"] show ?thesis by (simp add: wsTicketTTL_def)
qed

text \<open>
  C32: The staged-upload registry is exactly the set of grants in force. After any sequence of grants
  and releases, where a release may be called any number of times, an agent may read a path iff a
  grant of that path to that agent was not released yet; a path counts as staged iff some agent may
  read it; and once every grant is released the registry is empty, nothing is leaked.
\<close>

theorem staged_registry_is_live_grants:
  assumes "run staged_step newStagedUploadRegistry es r"
  shows "(IsAllowed c p r \<longleftrightarrow> (\<exists>g \<in> set (grants r). g_client g = c \<and> g_path g = p \<and> \<not> once_done g)) \<and>
         (IsStaged p r \<longleftrightarrow> (\<exists>g \<in> set (grants r). g_path g = p \<and> \<not> once_done g)) \<and>
         ((\<forall>g \<in> set (grants r). once_done g) \<longrightarrow> byOwner r = [])"
proof -
  have inv: "staged_inv r" by (rule su.run_keeps [OF assms staged_inv_new])
  then have ok: "staged_ok (byOwner r)" and cnt: "staged_count (byOwner r) c p = int (live c p (grants r))" for c p
    by (simp_all add: staged_inv_def)
  have ia: "IsAllowed c p r \<longleftrightarrow> (\<exists>g \<in> set (grants r). g_client g = c \<and> g_path g = p \<and> \<not> once_done g)" for c p
    unfolding IsAllowed_count [OF ok] cnt live_pos_iff [symmetric] by simp
  moreover have "IsStaged p r \<longleftrightarrow> (\<exists>g \<in> set (grants r). g_path g = p \<and> \<not> once_done g)"
    unfolding IsStaged_IsAllowed [OF ok] ia using inv by (auto simp: staged_inv_def)
  moreover have "byOwner r = []" if "\<forall>g \<in> set (grants r). once_done g"
  proof (rule ccontr)
    assume "byOwner r \<noteq> []"
    then obtain c ps m where m: "byOwner r = (c, ps) # m" by (metis neq_Nil_conv surj_pair)
    with ok obtain p n ps' where "ps = (p, n) # ps'" by (cases ps) (auto simp: staged_ok_def)
    with m have "IsAllowed c p r" by (simp add: IsAllowed_def)
    with ia that show False by blast
  qed
  ultimately show ?thesis by blast
qed

theorem staged_registry_is_live_grants_witness:
  "\<exists>r. run staged_step newStagedUploadRegistry
         [Allowed ''c1'' ''/f'', Allowed ''c1'' ''/f'', Released 0, Released 0] r \<and>
       IsAllowed ''c1'' ''/f'' r \<and> \<not> IsAllowed ''c2'' ''/f'' r"
proof -
  let ?r = "release 0 (release 0 (Allow ''c1'' ''/f'' (Allow ''c1'' ''/f'' newStagedUploadRegistry)))"
  have r: "run staged_step newStagedUploadRegistry
      [Allowed ''c1'' ''/f'', Allowed ''c1'' ''/f'', Released 0, Released 0] ?r"
    by (simp add: run_Cons_iff staged_step_simps)
  have "grants ?r = [\<lparr>g_client = ''c1'', g_path = ''/f'', once_done = True\<rparr>,
                     \<lparr>g_client = ''c1'', g_path = ''/f'', once_done = False\<rparr>]"
    by (simp add: release_def Allow_def newStagedUploadRegistry_def Let_def)
  with staged_registry_is_live_grants [OF r] r show ?thesis by (intro exI [of _ ?r]) auto
qed

text \<open>\<open>NewRandomToken\<close> returns the first \<open>len\<close> accepted bytes of what it reads, mapped to the alphabet,
  as soon as the reads hold that many accepted bytes, and asks for more otherwise. A returned token
  has exactly \<open>len\<close> characters of the alphabet, and every character of the alphabet stands for
  exactly four accepted byte values, so uniform bytes give uniform characters.
\<close>

theorem random_token_uniform:
  "NewRandomToken len (map Inr bufs) =
     (if len \<le> length (accepted (concat bufs))
      then Some (Inr (map token_char (take len (accepted (concat bufs))))) else None) \<and>
   set (map token_char (take len (accepted (concat bufs)))) \<subseteq> set token_chars \<and>
   (c \<in> set token_chars \<longrightarrow> card {b. unat b < maxByte \<and> token_char b = c} = 4)"
proof -
  have "token_char b \<in> set token_chars" for b by (simp add: token_char_def)
  then show ?thesis
    using token_loop_eq [of "''''" len bufs] token_char_preimage [of c]
    by (auto simp: NewRandomToken_def Let_def take_map)
qed

theorem random_token_uniform_witness:
  "NewRandomToken 2 (map Inr [[255, 0], [61, 9]]) = Some (Inr ''0Z'') \<and>
   card {b. unat b < maxByte \<and> token_char b = CHR ''a''} = 4"
  using random_token_uniform [of 2 "[[255, 0], [61, 9]]" "CHR ''a''"]
  by (simp add: accepted_def token_char_def token_chars_def)

end
