(* ===== verification/Enc.thy ===== *)
theory Enc
  imports Prelude
begin

text \<open>
  Encryption of fields at rest: \<^verbatim>\<open>share/enc/aes.go\<close> and \<^verbatim>\<open>share/enc/envelope.go\<close>. Byte slices are
  strings, as Go converts one into the other byte by byte. The AEAD cipher (AES-GCM) is a parameter
  with the two operations of \<^verbatim>\<open>cipher.AEAD\<close>; \<open>aead_spec\<close> states what its documentation promises. The
  nonce read from \<^verbatim>\<open>crypto/rand\<close> is an argument. Base64 is the standard alphabet with padding of
  \<^verbatim>\<open>encoding/base64\<close>; the position in its error message is left out.
\<close>

section \<open>Base64\<close>

definition b64_alphabet :: string where
  "b64_alphabet = ''ABCDEFGHIJKLMNOPQRSTUVWXYZabcdefghijklmnopqrstuvwxyz0123456789+/''"

definition b64_digit :: "nat \<Rightarrow> char" where
  "b64_digit n = b64_alphabet ! n"

definition b64_val :: "char \<Rightarrow> nat option" where
  "b64_val c = (if c \<in> set b64_alphabet then Some (length (takeWhile (\<lambda>d. d \<noteq> c) b64_alphabet)) else None)"

definition byte_val :: "char \<Rightarrow> nat" where
  "byte_val c = of_char c"

definition byte_chr :: "nat \<Rightarrow> char" where
  "byte_chr n = char_of n"

fun b64_encode :: "string \<Rightarrow> string" where
  "b64_encode [] = []"
| "b64_encode [a] =
     (let n = byte_val a * 65536 in [b64_digit (n div 262144), b64_digit (n div 4096 mod 64), CHR ''='', CHR ''=''])"
| "b64_encode [a, b] =
     (let n = byte_val a * 65536 + byte_val b * 256 in
      [b64_digit (n div 262144), b64_digit (n div 4096 mod 64), b64_digit (n div 64 mod 64), CHR ''=''])"
| "b64_encode (a # b # c # s) =
     (let n = byte_val a * 65536 + byte_val b * 256 + byte_val c in
      [b64_digit (n div 262144), b64_digit (n div 4096 mod 64), b64_digit (n div 64 mod 64), b64_digit (n mod 64)])
     @ b64_encode s"

fun b64_quanta :: "string \<Rightarrow> string option" where
  "b64_quanta [] = Some []"
| "b64_quanta (a # b # c # d # s) =
     (case (b64_val a, b64_val b) of
        (Some x, Some y) \<Rightarrow>
          (if c = CHR ''='' \<and> d = CHR ''='' \<and> s = []
           then Some [byte_chr ((x * 262144 + y * 4096) div 65536)]
           else case b64_val c of
                  None \<Rightarrow> None
                | Some z \<Rightarrow>
                    (if d = CHR ''='' \<and> s = []
                     then let n = x * 262144 + y * 4096 + z * 64
                          in Some [byte_chr (n div 65536), byte_chr (n div 256 mod 256)]
                     else case b64_val d of
                            None \<Rightarrow> None
                          | Some w \<Rightarrow>
                              let n = x * 262144 + y * 4096 + z * 64 + w
                              in map_option (\<lambda>t. [byte_chr (n div 65536), byte_chr (n div 256 mod 256), byte_chr (n mod 256)] @ t)
                                   (b64_quanta s)))
      | _ \<Rightarrow> None)"
| "b64_quanta s = None"

definition b64_decode :: "string \<Rightarrow> string res" where
  "b64_decode s =
     (case b64_quanta (filter (\<lambda>c. c \<noteq> CHR 0x0D \<and> c \<noteq> CHR 0x0A) s) of
        None \<Rightarrow> Inl (GoError ''illegal base64 data'' [])
      | Some t \<Rightarrow> Inr t)"

section \<open>AES-GCM with a prefixed nonce\<close>

record aead =
  Seal :: "string \<Rightarrow> string \<Rightarrow> string \<Rightarrow> string"
  Open :: "string \<Rightarrow> string \<Rightarrow> string \<Rightarrow> string option"

definition NonceSize :: nat where "NonceSize = 12"

definition NewCipher :: "string \<Rightarrow> unit res" where
  "NewCipher key =
     (if length key \<in> {16, 24, 32} then Inr ()
      else Inl (GoError ''crypto/aes: invalid key size %d'' [AI (int (length key))]))"

definition Aes256Encrypt :: "aead \<Rightarrow> string res \<Rightarrow> string \<Rightarrow> string \<Rightarrow> string res" where
  "Aes256Encrypt gcm rnd payload aes32Key =
     (if length aes32Key \<noteq> 32
      then Inl (GoError ''invalid aes32Key length: a 32 bytes key is expected but %d byts key is provided''
                  [AI (int (length aes32Key))])
      else bind_res (NewCipher aes32Key) (\<lambda>_.
           bind_res rnd (\<lambda>nonce. Inr (nonce @ Seal gcm aes32Key nonce payload))))"

definition AesDecrypt :: "aead \<Rightarrow> string \<Rightarrow> string \<Rightarrow> string res" where
  "AesDecrypt gcm encryptedData key =
     bind_res (NewCipher key) (\<lambda>_.
       if length encryptedData \<le> NonceSize
       then Inl (GoError ''invalid encrypted value provided: invalid nonce length'' [])
       else case Open gcm key (take NonceSize encryptedData) (drop NonceSize encryptedData) of
              None \<Rightarrow> Inl (GoError ''cipher: message authentication failed'' [])
            | Some plaintext \<Rightarrow> Inr plaintext)"

definition Aes256EncryptByKeyToBase64String :: "aead \<Rightarrow> string res \<Rightarrow> string \<Rightarrow> string \<Rightarrow> string res" where
  "Aes256EncryptByKeyToBase64String gcm rnd payload key =
     bind_res (Aes256Encrypt gcm rnd payload key) (\<lambda>b. Inr (b64_encode b))"

definition Aes256DecryptByKeyFromBase64String :: "aead \<Rightarrow> string \<Rightarrow> string \<Rightarrow> string res" where
  "Aes256DecryptByKeyFromBase64String gcm encryptedBase64Data key =
     bind_res (b64_decode encryptedBase64Data) (\<lambda>b. AesDecrypt gcm b key)"

section \<open>Envelopes\<close>

definition envelopePrefix :: string where "envelopePrefix = ''enc:''"
definition envelopeV1Prefix :: string where "envelopeV1Prefix = ''enc:v1:''"

record Envelope =
  dek :: string

definition NewEnvelope :: "string \<Rightarrow> Envelope" where
  "NewEnvelope k = \<lparr>dek = k\<rparr>"

definition Enabled :: "Envelope \<Rightarrow> bool" where
  "Enabled e \<longleftrightarrow> dek e \<noteq> []"

text \<open>The regular expression \<^verbatim>\<open>^enc:v[0-9]+:\<close>.\<close>

definition IsEncrypted :: "string \<Rightarrow> bool" where
  "IsEncrypted stored \<longleftrightarrow>
     has_prefix stored (envelopePrefix @ ''v'') \<and>
     (let rest = drop 5 stored; ds = takeWhile is_digit rest
      in ds \<noteq> [] \<and> has_prefix (drop (length ds) rest) '':'')"

definition Encrypt :: "aead \<Rightarrow> string res \<Rightarrow> Envelope \<Rightarrow> string \<Rightarrow> string res" where
  "Encrypt gcm rnd e plaintext =
     (if \<not> Enabled e then Inr plaintext
      else case Aes256EncryptByKeyToBase64String gcm rnd plaintext (dek e) of
             Inl err \<Rightarrow> Inl (GoError (''envelope encrypt: '' @ err_format err) (err_args err))
           | Inr b64 \<Rightarrow> Inr (envelopeV1Prefix @ b64))"

definition Decrypt :: "aead \<Rightarrow> Envelope \<Rightarrow> string \<Rightarrow> string res" where
  "Decrypt gcm e stored =
     (if \<not> IsEncrypted stored then Inr stored
      else if \<not> has_prefix stored envelopeV1Prefix
      then Inl (GoError ''envelope decrypt: unsupported encrypted value version'' [])
      else if \<not> Enabled e
      then Inl (GoError ''envelope decrypt: value is encrypted but no key provider is configured'' [])
      else case Aes256DecryptByKeyFromBase64String gcm (trim_prefix stored envelopeV1Prefix) (dek e) of
             Inl err \<Rightarrow> Inl (GoError (''envelope decrypt: '' @ err_format err) (err_args err))
           | Inr plaintext \<Rightarrow> Inr plaintext)"

definition IsEncryptedBy :: "aead \<Rightarrow> Envelope \<Rightarrow> string \<Rightarrow> bool" where
  "IsEncryptedBy gcm e stored \<longleftrightarrow>
     Enabled e \<and> IsEncrypted stored \<and> \<not> is_err (Decrypt gcm e stored)"

section \<open>What the cipher promises\<close>

text \<open>
  \<^verbatim>\<open>Open\<close> undoes \<^verbatim>\<open>Seal\<close> under the same key and nonce, accepts nothing else, and a sealed message is
  never empty (it carries the authentication tag).
\<close>

definition aead_spec :: "aead \<Rightarrow> bool" where
  "aead_spec gcm \<longleftrightarrow>
     (\<forall>k n m. length n = NonceSize \<longrightarrow> Open gcm k n (Seal gcm k n m) = Some m) \<and>
     (\<forall>k n c m. Open gcm k n c = Some m \<longrightarrow> c = Seal gcm k n m) \<and>
     (\<forall>k n m. Seal gcm k n m \<noteq> [])"

lemma aead_spec_open_seal: "aead_spec gcm \<Longrightarrow> length n = NonceSize \<Longrightarrow> Open gcm k n (Seal gcm k n m) = Some m"
  by (simp add: aead_spec_def)

lemma aead_spec_open: "aead_spec gcm \<Longrightarrow> Open gcm k n c = Some m \<Longrightarrow> c = Seal gcm k n m"
  by (simp add: aead_spec_def)

lemma aead_spec_nonempty: "aead_spec gcm \<Longrightarrow> Seal gcm k n m \<noteq> []"
  by (simp add: aead_spec_def)

section \<open>Base64 round trip\<close>

lemma b64_alphabet_length [simp]: "length b64_alphabet = 64"
  by (simp add: b64_alphabet_def)

lemma b64_val_digit [simp]:
  assumes "n < 64"
  shows "b64_val (b64_digit n) = Some n"
proof -
  have "list_all (\<lambda>n. b64_val (b64_digit n) = Some n) [0..<64]" by code_simp
  moreover have "n \<in> set [0..<64]" using assms by simp
  ultimately show ?thesis unfolding list_all_iff by (rule bspec)
qed

lemma b64_digit_plain [simp]:
  assumes "n < 64"
  shows "b64_digit n \<noteq> CHR ''=''" "b64_digit n \<noteq> CHR 0x0D" "b64_digit n \<noteq> CHR 0x0A"
proof -
  have "list_all (\<lambda>n. b64_digit n \<notin> {CHR ''='', CHR 0x0D, CHR 0x0A}) [0..<64]" by code_simp
  moreover have "n \<in> set [0..<64]" using assms by simp
  ultimately have "b64_digit n \<notin> {CHR ''='', CHR 0x0D, CHR 0x0A}" unfolding list_all_iff by (rule bspec)
  then show "b64_digit n \<noteq> CHR ''=''" "b64_digit n \<noteq> CHR 0x0D" "b64_digit n \<noteq> CHR 0x0A" by auto
qed

lemma byte_val_less: "byte_val c < 256"
  by (simp add: byte_val_def)

lemma byte_chr_val [simp]: "byte_chr (byte_val c) = c"
  by (simp add: byte_chr_def byte_val_def)

lemma b64_split:
  fixes n :: nat
  shows "n div 262144 * 262144 + n div 4096 mod 64 * 4096 + n div 64 mod 64 * 64 + n mod 64 = n"
proof -
  have "n div 4096 = n div 262144 * 64 + n div 4096 mod 64"
    using div_mult_mod_eq [of "n div 4096" 64] by (simp add: div_mult2_eq [symmetric])
  moreover have "n div 64 = n div 4096 * 64 + n div 64 mod 64"
    using div_mult_mod_eq [of "n div 64" 64] by (simp add: div_mult2_eq [symmetric])
  moreover have "n = n div 64 * 64 + n mod 64" by simp
  ultimately show ?thesis by linarith
qed

lemma b64_bytes:
  fixes a b c :: nat
  assumes "a < 256" "b < 256" "c < 256"
  defines "n \<equiv> a * 65536 + b * 256 + c"
  shows "n div 65536 = a" "n div 256 mod 256 = b" "n mod 256 = c" "n div 262144 < 64"
proof -
  have bc: "b * 256 + c < 65536" using assms(2,3) by simp
  have n: "n = (b * 256 + c) + a * 65536" "n = c + (a * 256 + b) * 256" by (simp_all add: n_def)
  show "n div 65536 = a" unfolding n(1) using bc by simp
  obtain q where q: "q = a * 256 + b" by simp
  have "n div 256 = q" unfolding n(2) q [symmetric] using assms(3) by simp
  then show "n div 256 mod 256 = b" using assms(2) by (simp add: q)
  show "n mod 256 = c" unfolding n(2) q [symmetric] using assms(3) by simp
  have "n < 256 * 65536" using assms(1) bc by (simp add: n(1))
  then show "n div 262144 < 64" by (simp add: less_mult_imp_div_less)
qed

lemma b64_quantum:
  assumes "x < 64" "y < 64" "z < 64" "w < 64"
  shows "b64_quanta [b64_digit x, b64_digit y, CHR ''='', CHR ''=''] =
           Some [byte_chr ((x * 262144 + y * 4096) div 65536)]"
    and "b64_quanta [b64_digit x, b64_digit y, b64_digit z, CHR ''=''] =
           Some [byte_chr ((x * 262144 + y * 4096 + z * 64) div 65536),
                 byte_chr ((x * 262144 + y * 4096 + z * 64) div 256 mod 256)]"
    and "b64_quanta (b64_digit x # b64_digit y # b64_digit z # b64_digit w # s) =
           map_option (\<lambda>t. [byte_chr ((x * 262144 + y * 4096 + z * 64 + w) div 65536),
                            byte_chr ((x * 262144 + y * 4096 + z * 64 + w) div 256 mod 256),
                            byte_chr ((x * 262144 + y * 4096 + z * 64 + w) mod 256)] @ t) (b64_quanta s)"
  using assms by (simp_all add: Let_def) (cases "b64_quanta s", simp_all)

lemma b64_quanta_encode: "b64_quanta (b64_encode s) = Some s"
proof (induction s rule: b64_encode.induct)
  case (2 a)
  obtain n where n: "n = byte_val a * 65536 + 0 * 256 + 0" by simp
  note b = b64_bytes [OF byte_val_less [of a], of 0 0, folded n]
  have "n = 64 * (byte_val a * 1024)" "n = 4096 * (byte_val a * 16)" by (simp_all add: n)
  then have z: "n div 64 mod 64 = 0" "n mod 64 = 0" by simp_all
  then have s: "n div 262144 * 262144 + n div 4096 mod 64 * 4096 = n" using b64_split [of n] by linarith
  have e: "b64_encode [a] = [b64_digit (n div 262144), b64_digit (n div 4096 mod 64), CHR ''='', CHR ''='']"
    by (simp add: n Let_def)
  show ?case unfolding e by (subst b64_quantum(1) [where z = 0 and w = 0]) (simp_all add: s b)
next
  case (3 a b)
  obtain n where n: "n = byte_val a * 65536 + byte_val b * 256 + 0" by simp
  note b = b64_bytes [OF byte_val_less [of a] byte_val_less [of b], of 0, folded n]
  have "n = 64 * (byte_val a * 1024 + byte_val b * 4)" by (simp add: n)
  then have "n mod 64 = 0" by simp
  then have s: "n div 262144 * 262144 + n div 4096 mod 64 * 4096 + n div 64 mod 64 * 64 = n"
    using b64_split [of n] by linarith
  have e: "b64_encode [a, b] = [b64_digit (n div 262144), b64_digit (n div 4096 mod 64), b64_digit (n div 64 mod 64), CHR ''='']"
    by (simp add: n Let_def)
  show ?case unfolding e by (subst b64_quantum(2) [where w = 0]) (simp_all add: s b)
next
  case (4 a b c s)
  obtain n where n: "n = byte_val a * 65536 + byte_val b * 256 + byte_val c" by simp
  note b = b64_bytes [OF byte_val_less [of a] byte_val_less [of b] byte_val_less [of c], folded n]
  have e: "b64_encode (a # b # c # s) = b64_digit (n div 262144) # b64_digit (n div 4096 mod 64) #
      b64_digit (n div 64 mod 64) # b64_digit (n mod 64) # b64_encode s"
    by (simp add: n Let_def)
  show ?case unfolding e by (subst b64_quantum(3)) (simp_all add: b64_split b 4)
qed simp

definition no_newline :: "char \<Rightarrow> bool" where
  "no_newline c \<longleftrightarrow> c \<noteq> CHR 0x0D \<and> c \<noteq> CHR 0x0A"

lemma no_newline_digit: "n < 64 \<Longrightarrow> no_newline (b64_digit n)" "no_newline (CHR ''='')"
  by (simp_all add: no_newline_def)

lemma b64_encode_all:
  assumes "\<And>n. n < 64 \<Longrightarrow> P (b64_digit n)" "P (CHR ''='')"
  shows "list_all P (b64_encode s)"
proof (induction s rule: b64_encode.induct)
  case (2 a)
  from b64_bytes(4) [OF byte_val_less [of a], of 0 0] show ?case
    by (simp add: Let_def assms)
next
  case (3 a b)
  from b64_bytes(4) [OF byte_val_less [of a] byte_val_less [of b], of 0] show ?case
    by (simp add: Let_def assms)
next
  case (4 a b c s)
  from b64_bytes(4) [OF byte_val_less [of a] byte_val_less [of b] byte_val_less [of c]] 4 show ?case
    by (simp add: Let_def assms)
qed simp

lemma b64_encode_no_newline: "list_all no_newline (b64_encode s)"
  by (rule b64_encode_all) (simp_all add: no_newline_digit)

lemma b64_encode_set: "c \<in> set (b64_encode s) \<Longrightarrow> c \<in> set b64_alphabet \<or> c = CHR ''=''"
  using b64_encode_all [of "\<lambda>c. c \<in> set b64_alphabet \<or> c = CHR ''=''" s] by (auto simp: list_all_iff b64_digit_def)

lemma b64_encode_Nil [simp]: "b64_encode s = [] \<longleftrightarrow> s = []"
  by (induction s rule: b64_encode.induct) (simp_all add: Let_def)

lemma b64_not_encrypted: "\<not> IsEncrypted (b64_encode s)"
proof
  assume e: "IsEncrypted (b64_encode s)"
  then have "CHR '':'' \<in> set (b64_encode s)"
    unfolding IsEncrypted_def Let_def by (auto simp: has_prefix_iff envelopePrefix_def)
  then show False using b64_encode_set by (fastforce simp: b64_alphabet_def)
qed

lemma b64_decode_encode: "b64_decode (b64_encode s) = Inr s"
proof -
  have "filter no_newline (b64_encode s) = b64_encode s"
    using b64_encode_no_newline by (simp add: list_all_iff)
  then show ?thesis by (simp add: b64_decode_def b64_quanta_encode no_newline_def [abs_def])
qed

section \<open>Encryption round trips\<close>

lemma Aes256_roundtrip:
  assumes "aead_spec gcm" "length nonce = NonceSize" "length key = 32"
  shows "Aes256Encrypt gcm (Inr nonce) p key = Inr (nonce @ Seal gcm key nonce p)"
    and "AesDecrypt gcm (nonce @ Seal gcm key nonce p) key = Inr p"
  using assms aead_spec_nonempty [OF assms(1), of key nonce p] aead_spec_open_seal [OF assms(1,2), of key p]
  by (simp_all add: Aes256Encrypt_def AesDecrypt_def NewCipher_def)

lemma AesDecrypt_authentic:
  assumes "aead_spec gcm" "AesDecrypt gcm d key = Inr p"
  shows "d = take NonceSize d @ Seal gcm key (take NonceSize d) p"
proof -
  from assms(2) have "Open gcm key (take NonceSize d) (drop NonceSize d) = Some p"
    by (auto simp: AesDecrypt_def bind_res_eq_Inr split: if_splits option.splits)
  from aead_spec_open [OF assms(1) this] show ?thesis by (metis append_take_drop_id)
qed

lemma IsEncrypted_v1: "IsEncrypted (envelopeV1Prefix @ s)"
  by (simp add: IsEncrypted_def envelopeV1Prefix_def envelopePrefix_def Let_def is_digit_def)

lemma trim_v1 [simp]: "trim_prefix (envelopeV1Prefix @ s) envelopeV1Prefix = s"
  by (simp add: trim_prefix_def has_prefix_iff)

definition sealed :: "aead \<Rightarrow> Envelope \<Rightarrow> string \<Rightarrow> string \<Rightarrow> string" where
  "sealed gcm e nonce p = envelopeV1Prefix @ b64_encode (nonce @ Seal gcm (dek e) nonce p)"

lemma Envelope_sealed:
  assumes "aead_spec gcm" "length nonce = NonceSize" "length (dek e) = 32"
  shows "Encrypt gcm (Inr nonce) e p = Inr (sealed gcm e nonce p)"
    and "IsEncrypted (sealed gcm e nonce p)"
    and "Decrypt gcm e (sealed gcm e nonce p) = Inr p"
proof -
  have en: "Enabled e" using assms(3) by (auto simp: Enabled_def)
  have px: "has_prefix (envelopeV1Prefix @ s) envelopeV1Prefix" for s by (simp add: has_prefix_iff)
  show "IsEncrypted (sealed gcm e nonce p)" by (simp add: sealed_def IsEncrypted_v1)
  with en px Aes256_roundtrip [OF assms, of p]
  show "Encrypt gcm (Inr nonce) e p = Inr (sealed gcm e nonce p)"
    and "Decrypt gcm e (sealed gcm e nonce p) = Inr p"
    by (simp_all add: Encrypt_def Decrypt_def b64_decode_encode sealed_def
        Aes256EncryptByKeyToBase64String_def Aes256DecryptByKeyFromBase64String_def)
qed

section \<open>Properties\<close>

text \<open>What \<open>Encrypt\<close> writes, \<open>Decrypt\<close> reads back: with a 32 byte key every string survives the round
  trip and the stored form carries the envelope prefix; with encryption switched off a string survives
  it exactly if it does not itself look like an envelope.
\<close>

theorem envelope_roundtrip:
  assumes "aead_spec gcm" "length nonce = NonceSize"
  shows "(length (dek e) = 32 \<longrightarrow>
           (\<exists>s. Encrypt gcm (Inr nonce) e p = Inr s \<and> IsEncrypted s \<and> IsEncryptedBy gcm e s \<and>
                Decrypt gcm e s = Inr p)) \<and>
         (dek e = [] \<longrightarrow>
           Encrypt gcm (Inr nonce) e p = Inr p \<and> (Decrypt gcm e p = Inr p \<longleftrightarrow> \<not> IsEncrypted p))"
proof (intro conjI impI)
  assume k: "length (dek e) = 32"
  then have "Enabled e" by (auto simp: Enabled_def)
  with Envelope_sealed [OF assms k, of p]
  show "\<exists>s. Encrypt gcm (Inr nonce) e p = Inr s \<and> IsEncrypted s \<and> IsEncryptedBy gcm e s \<and> Decrypt gcm e s = Inr p"
    by (simp add: IsEncryptedBy_def)
qed (simp_all add: Encrypt_def Decrypt_def Enabled_def)

text \<open>A cipher that meets the specification: it appends key and nonce to the message.\<close>

definition toy_aead :: aead where
  "toy_aead =
     \<lparr>Seal = (\<lambda>k n m. m @ k @ n @ ''t''),
      Open = (\<lambda>k n c. if has_suffix c (k @ n @ ''t'') then Some (take (length c - length (k @ n @ ''t'')) c) else None)\<rparr>"

lemma toy_aead_spec: "aead_spec toy_aead"
  by (auto simp: aead_spec_def toy_aead_def has_suffix_iff split: if_splits)

theorem envelope_roundtrip_witness:
  "\<exists>s. Encrypt toy_aead (Inr (replicate 12 CHR ''n'')) (NewEnvelope (replicate 32 CHR ''k'')) ''secret'' = Inr s \<and>
       Decrypt toy_aead (NewEnvelope (replicate 32 CHR ''k'')) s = Inr ''secret''"
proof -
  have "length (replicate 12 CHR ''n'') = NonceSize" by (simp add: NonceSize_def)
  moreover have "length (dek (NewEnvelope (replicate 32 CHR ''k''))) = 32" by (simp add: NewEnvelope_def)
  ultimately show ?thesis using envelope_roundtrip [OF toy_aead_spec] by blast
qed

text \<open>
  C20: Reading is fail-closed. A stored value that looks like an envelope is returned only if the
  envelope has a key and the value is the \<open>v1\<close> prefix followed by base64 of a nonce and the sealing of
  exactly the returned plaintext under that key and nonce; in particular it is never returned as it is
  stored by an envelope without a key. Every other value is returned unchanged.
\<close>

theorem envelope_fail_closed:
  assumes "aead_spec gcm" "Decrypt gcm e stored = Inr p"
  shows "if IsEncrypted stored
         then Enabled e \<and>
              (\<exists>b64 d. stored = envelopeV1Prefix @ b64 \<and> b64_decode b64 = Inr d \<and>
                 d = take NonceSize d @ Seal gcm (dek e) (take NonceSize d) p)
         else p = stored"
proof (cases "IsEncrypted stored")
  case True
  with assms(2) have en: "Enabled e" and px: "has_prefix stored envelopeV1Prefix"
    and dec: "Aes256DecryptByKeyFromBase64String gcm (trim_prefix stored envelopeV1Prefix) (dek e) = Inr p"
    by (auto simp: Decrypt_def split: if_splits sum.splits)
  from px obtain b64 where st: "stored = envelopeV1Prefix @ b64" by (auto simp: has_prefix_iff prefix_def)
  with dec obtain d where d: "b64_decode b64 = Inr d" "AesDecrypt gcm d (dek e) = Inr p"
    by (auto simp: Aes256DecryptByKeyFromBase64String_def bind_res_eq_Inr)
  from AesDecrypt_authentic [OF assms(1) d(2)] st d(1) en True show ?thesis by auto
next
  case False
  with assms(2) show ?thesis by (simp add: Decrypt_def)
qed

theorem envelope_fail_closed_witness:
  "\<exists>stored. Decrypt toy_aead (NewEnvelope (replicate 32 CHR ''k'')) stored = Inr ''secret'' \<and>
      (\<exists>b64 d. stored = envelopeV1Prefix @ b64 \<and> b64_decode b64 = Inr d \<and>
         d = take NonceSize d @ Seal toy_aead (replicate 32 CHR ''k'') (take NonceSize d) ''secret'')"
proof -
  let ?e = "NewEnvelope (replicate 32 CHR ''k'')"
  have n: "length (replicate 12 CHR ''n'') = NonceSize" by (simp add: NonceSize_def)
  have k: "length (dek ?e) = 32" "dek ?e = replicate 32 CHR ''k''" by (simp_all add: NewEnvelope_def)
  note s = Envelope_sealed [OF toy_aead_spec n k(1), of "''secret''"]
  from envelope_fail_closed [OF toy_aead_spec s(3)] s(2,3) show ?thesis unfolding k(2) by auto
qed

end
