(* ===== verification/UserStore.thy ===== *)
theory UserStore
  imports Enc "HOL-Library.List_Lexorder" "HOL-Library.Char_ord"
begin

text \<open>
  The three user providers of \<^verbatim>\<open>server/api/users\<close>: the single static user (\<^verbatim>\<open>single_user.go\<close>), the
  JSON file with its cache (\<^verbatim>\<open>file_adapter.go\<close>, \<^verbatim>\<open>file.go\<close>, \<^verbatim>\<open>cache.go\<close>) and the database
  (\<^verbatim>\<open>database.go\<close>), with users, groups and permissions.

  The database is the three tables of the shipped schema, in which user names, pairs of user and
  group, and group names are unique. Every SQL statement of the source is one table operation; the
  driver may refuse any of them, which is the argument \<open>env_db\<close>. A transaction that fails is rolled
  back, so its operations return the new tables or an error. Reading and writing the users file may
  fail (\<open>env_read\<close>, \<open>env_save\<close>); a failed write leaves the file as it was, and JSON encoding and decoding
  of a user are inverse.
\<close>

section \<open>Users, permissions and groups\<close>

record user =
  uUsername :: string
  uPassword :: string
  uPasswordExpired :: "bool option"
  uGroups :: "string list option"
  uTwoFASendTo :: string
  uTotP :: string

definition Administrators :: string where "Administrators = ''Administrators''"

definition groups_of :: "user \<Rightarrow> string list" where
  "groups_of u = (case uGroups u of None \<Rightarrow> [] | Some gs \<Rightarrow> gs)"

definition IsAdmin :: "user \<Rightarrow> bool" where
  "IsAdmin u \<longleftrightarrow> Administrators \<in> set (groups_of u)"

definition AllPermissions :: "string list" where
  "AllPermissions = [''tunnels'', ''scripts'', ''commands'', ''vault'', ''scheduler'', ''monitoring'', ''uploads'', ''auditlog'']"

type_synonym permissions = "string \<rightharpoonup> bool"

definition NewPermissions :: "string list \<Rightarrow> permissions" where
  "NewPermissions perms = (\<lambda>p. if p \<in> set perms then Some True else None)"

definition Permissions_Has :: "permissions \<Rightarrow> string \<Rightarrow> bool" where
  "Permissions_Has data p \<longleftrightarrow> data p = Some True"

definition Permissions_All :: "permissions \<Rightarrow> permissions" where
  "Permissions_All data = (\<lambda>p. if p \<in> set AllPermissions then Some (Permissions_Has data p) else None)"

text \<open>The checks of \<^verbatim>\<open>UnmarshalJSON\<close> on the decoded object.\<close>

definition Permissions_UnmarshalJSON :: "(string \<times> bool) list res \<Rightarrow> permissions res" where
  "Permissions_UnmarshalJSON parsed =
     bind_res parsed (\<lambda>result.
       case find (\<lambda>(key, _). key \<notin> set AllPermissions) result of
         Some (key, _) \<Rightarrow> Inl (GoError ''invalid permission: %v'' [AS key])
       | None \<Rightarrow> Inr (map_of result))"

type_synonym permission_params = "(string \<times> json) list"

record group =
  gName :: string
  gPermissions :: permissions
  gTunnelsRestricted :: "permission_params option"
  gCommandsRestricted :: "permission_params option"

definition AdministratorsGroup :: group where
  "AdministratorsGroup =
     \<lparr>gName = Administrators, gPermissions = NewPermissions AllPermissions,
      gTunnelsRestricted = None, gCommandsRestricted = None\<rparr>"

definition NewGroup ::
    "string \<Rightarrow> permission_params option \<Rightarrow> permission_params option \<Rightarrow> string list \<Rightarrow> group" where
  "NewGroup name tr cr perms =
     (if name = Administrators then AdministratorsGroup
      else \<lparr>gName = name, gPermissions = NewPermissions perms,
            gTunnelsRestricted = tr, gCommandsRestricted = cr\<rparr>)"

definition IsBcryptHash :: "string \<Rightarrow> bool" where
  "IsBcryptHash s \<longleftrightarrow> has_prefix s ''$2y$'' \<or> has_prefix s ''$2a$'' \<or> has_prefix s ''$2b$''"

section \<open>What the providers call\<close>

datatype db_stmt =
    SelUser | SelUserGroups | SelUsers | SelAllGroups | SelDetails | SelGroupNames | SelDetail
  | SelPasswords | SelTotP | UpdTotP | ReplaceDetail | ReplaceDetailLegacy
  | BeginTx | InsUser | InsGroup | UpdUser | RenameGroups | DelUser | DelUserGroups | DelGroupMembers | DelDetail
  | CommitTx

record users_env =
  env_db :: "db_stmt \<Rightarrow> goerr option"
  env_read :: "goerr option"
  env_save :: "goerr option"
  env_gcm :: aead
  env_nonce :: "string res"
  env_bcrypt :: "string \<Rightarrow> string res"
  env_zxcvbn :: "string \<Rightarrow> string list \<Rightarrow> int"
  env_receiver :: "(string \<Rightarrow> goerr option) option"

definition exec :: "users_env \<Rightarrow> db_stmt \<Rightarrow> 'a res \<Rightarrow> 'a res" where
  "exec env st r = (case env_db env st of Some e \<Rightarrow> Inl e | None \<Rightarrow> r)"

definition unique_failed :: goerr where
  "unique_failed = GoError ''UNIQUE constraint failed'' []"

section \<open>The cache of users\<close>

type_synonym user_cache = "(string \<times> user) list"

definition UserCache_Load :: "user list \<Rightarrow> user_cache" where
  "UserCache_Load us = foldl (\<lambda>m u. AList.update (uUsername u) u m) [] us"

definition UserCache_GetByUsername :: "user_cache \<Rightarrow> string \<Rightarrow> user option" where
  "UserCache_GetByUsername c username = map_of c username"

definition UserCache_GetAll :: "user_cache \<Rightarrow> user list" where
  "UserCache_GetAll c = map snd c"

section \<open>Static users\<close>

definition static_unsupported :: "string \<Rightarrow> goerr" where
  "static_unsupported what = APIError StatusBadRequest (''The single user authentication doesn't support this '' @ what @ ''.'') []"

section \<open>Users from a file\<close>

record file_adapter =
  fa_cache :: user_cache
  fa_file :: "user list"

fun parseUsers :: "string list \<Rightarrow> user list \<Rightarrow> user list res" where
  "parseUsers seen [] = Inr []"
| "parseUsers seen (user # rest) =
     (let u = trim_space (uUsername user); p = trim_space (uPassword user) in
      if u = '''' then Inl (GoError ''username can not be empty'' [])
      else if p = '''' then Inl (GoError ''password can not be empty'' [])
      else if \<not> IsBcryptHash p then Inl (GoError ''username %q: require passwords to be bcrypt hashed'' [AS u])
      else if u \<in> set seen then Inl (GoError ''non unique username: %q'' [AS u])
      else bind_res (parseUsers (u # seen) rest) (\<lambda>us. Inr (user\<lparr>uUsername := u, uPassword := p\<rparr> # us)))"

definition ReadUsersFromFile :: "users_env \<Rightarrow> user list \<Rightarrow> user list res" where
  "ReadUsersFromFile env file = (case env_read env of Some e \<Rightarrow> Inl e | None \<Rightarrow> parseUsers [] file)"

definition SaveUsersToFile :: "users_env \<Rightarrow> user list \<Rightarrow> file_adapter \<Rightarrow> file_adapter res" where
  "SaveUsersToFile env us fa = (case env_save env of Some e \<Rightarrow> Inl e | None \<Rightarrow> Inr (fa\<lparr>fa_file := us\<rparr>))"

definition FileAdapter_load :: "users_env \<Rightarrow> file_adapter \<Rightarrow> goerr option \<times> file_adapter" where
  "FileAdapter_load env fa =
     (case ReadUsersFromFile env (fa_file fa) of
        Inl e \<Rightarrow> (Some e, fa)
      | Inr us \<Rightarrow> (None, fa\<lparr>fa_cache := UserCache_Load us\<rparr>))"

definition save_and_load :: "users_env \<Rightarrow> user list \<Rightarrow> file_adapter \<Rightarrow> goerr option \<times> file_adapter" where
  "save_and_load env us fa =
     (case SaveUsersToFile env us fa of
        Inl e \<Rightarrow> (Some e, fa)
      | Inr fa1 \<Rightarrow> FileAdapter_load env fa1)"

definition user_exists_error :: goerr where
  "user_exists_error = APIError StatusBadRequest ''Another user with this username already exists'' []"

definition user_missing_error :: "string \<Rightarrow> goerr" where
  "user_missing_error name = APIError StatusNotFound (''cannot find user by username '' @ [CHR 0x27] @ ''%s'' @ [CHR 0x27]) [AS name]"

fun find_index :: "('a \<Rightarrow> bool) \<Rightarrow> 'a list \<Rightarrow> nat option" where
  "find_index P [] = None"
| "find_index P (x # xs) = (if P x then Some 0 else map_option Suc (find_index P xs))"

definition FileAdapter_Delete :: "users_env \<Rightarrow> string \<Rightarrow> file_adapter \<Rightarrow> goerr option \<times> file_adapter" where
  "FileAdapter_Delete env usernameToDelete fa =
     (case ReadUsersFromFile env (fa_file fa) of
        Inl e \<Rightarrow> (Some e, fa)
      | Inr us \<Rightarrow>
          (case find_index (\<lambda>u. uUsername u = usernameToDelete) us of
             None \<Rightarrow> (Some (user_missing_error usernameToDelete), fa)
           | Some i \<Rightarrow> save_and_load env (take i us @ drop (Suc i) us) fa))"

text \<open>The scan of \<^verbatim>\<open>Update\<close>: the last user with the name, unless the new name is taken.\<close>

fun update_scan :: "string \<Rightarrow> string \<Rightarrow> nat \<Rightarrow> nat option \<Rightarrow> user list \<Rightarrow> nat option res" where
  "update_scan newName name i found [] = Inr found"
| "update_scan newName name i found (u # us) =
     (let found1 = (if uUsername u = name then Some i else found) in
      if newName \<noteq> '''' \<and> uUsername u = newName \<and> newName \<noteq> name then Inl user_exists_error
      else update_scan newName name (Suc i) found1 us)"

definition apply_change :: "user \<Rightarrow> user \<Rightarrow> user" where
  "apply_change dataToChange u =
     (let u1 = (if uPassword dataToChange \<noteq> '''' then u\<lparr>uPassword := uPassword dataToChange, uPasswordExpired := Some False\<rparr> else u);
          u2 = (if uPasswordExpired dataToChange \<noteq> None then u1\<lparr>uPasswordExpired := uPasswordExpired dataToChange\<rparr> else u1);
          u3 = (if uGroups dataToChange \<noteq> None then u2\<lparr>uGroups := uGroups dataToChange\<rparr> else u2);
          u4 = (if uUsername dataToChange \<noteq> '''' then u3\<lparr>uUsername := uUsername dataToChange\<rparr> else u3);
          u5 = (if uTotP dataToChange \<noteq> '''' then u4\<lparr>uTotP := uTotP dataToChange\<rparr> else u4)
      in if uTwoFASendTo dataToChange \<noteq> '''' then u5\<lparr>uTwoFASendTo := uTwoFASendTo dataToChange\<rparr> else u5)"

definition FileAdapter_Update :: "users_env \<Rightarrow> user \<Rightarrow> string \<Rightarrow> file_adapter \<Rightarrow> goerr option \<times> file_adapter" where
  "FileAdapter_Update env dataToChange usernameToFind fa =
     (case ReadUsersFromFile env (fa_file fa) of
        Inl e \<Rightarrow> (Some e, fa)
      | Inr us \<Rightarrow>
          (case update_scan (uUsername dataToChange) usernameToFind 0 None us of
             Inl e \<Rightarrow> (Some e, fa)
           | Inr None \<Rightarrow> (Some (user_missing_error usernameToFind), fa)
           | Inr (Some i) \<Rightarrow> save_and_load env (us[i := apply_change dataToChange (us ! i)]) fa))"

definition FileAdapter_Add :: "users_env \<Rightarrow> user \<Rightarrow> file_adapter \<Rightarrow> goerr option \<times> file_adapter" where
  "FileAdapter_Add env dataToChange fa =
     (case ReadUsersFromFile env (fa_file fa) of
        Inl e \<Rightarrow> (Some e, fa)
      | Inr us \<Rightarrow>
          if list_ex (\<lambda>u. uUsername u = uUsername dataToChange) us then (Some user_exists_error, fa)
          else save_and_load env (us @ [dataToChange]) fa)"

section \<open>Users from a database\<close>

record user_row =
  rUsername :: string
  rPassword :: string
  rPasswordExpired :: bool
  rTwoFASendTo :: string
  rTotP :: string

record user_database =
  usersTable :: "user_row list"
  groupsTable :: "(string \<times> string) list"
  detailsTable :: "group list"
  hasDetailsTable :: bool
  twoFAOn :: bool
  totPOn :: bool
  db_enc :: Envelope

definition rejectPlaintextPasswords :: "users_env \<Rightarrow> user_database \<Rightarrow> unit res" where
  "rejectPlaintextPasswords env d =
     exec env SelPasswords
       (case find (\<lambda>r. rPassword r \<noteq> '''' \<and> \<not> IsBcryptHash (rPassword r)) (usersTable d) of
          Some r \<Rightarrow> Inl (GoError ''API user %q has a non-bcrypt password stored'' [AS (rUsername r)])
        | None \<Rightarrow> Inr ())"

definition encryptTotP :: "users_env \<Rightarrow> user_database \<Rightarrow> string \<Rightarrow> string res" where
  "encryptTotP env d v =
     (if trim_space v = '''' then Inr v else Encrypt (env_gcm env) (env_nonce env) (db_enc d) v)"

definition decryptTotP :: "users_env \<Rightarrow> user_database \<Rightarrow> string \<Rightarrow> string res" where
  "decryptTotP env d v = Decrypt (env_gcm env) (db_enc d) v"

text \<open>The rows are read first; every row is then updated by its user name.\<close>

fun encrypt_rows :: "users_env \<Rightarrow> Envelope \<Rightarrow> user_row list \<Rightarrow> user_row list \<Rightarrow> user_row list res" where
  "encrypt_rows env e [] table = Inr table"
| "encrypt_rows env e (r # rs) table =
     (if trim_space (rTotP r) = '''' \<or> IsEncrypted (rTotP r) then encrypt_rows env e rs table
      else bind_res (Encrypt (env_gcm env) (env_nonce env) e (rTotP r)) (\<lambda>ciphertext.
           exec env UpdTotP
             (encrypt_rows env e rs
                (map (\<lambda>x. if rUsername x = rUsername r then x\<lparr>rTotP := ciphertext\<rparr> else x) table))))"

definition encryptExistingTotP :: "users_env \<Rightarrow> user_database \<Rightarrow> user_database res" where
  "encryptExistingTotP env d =
     (if \<not> totPOn d \<or> \<not> Enabled (db_enc d) then Inr d
      else exec env SelTotP
             (bind_res (encrypt_rows env (db_enc d) (usersTable d) (usersTable d))
                (\<lambda>t. Inr (d\<lparr>usersTable := t\<rparr>))))"

definition row_user :: "user_database \<Rightarrow> user_row \<Rightarrow> user" where
  "row_user d r =
     \<lparr>uUsername = rUsername r, uPassword = rPassword r, uPasswordExpired = Some (rPasswordExpired r),
      uGroups = None,
      uTwoFASendTo = (if twoFAOn d then rTwoFASendTo r else ''''),
      uTotP = (if totPOn d then rTotP r else '''')\<rparr>"

definition member_groups :: "string \<Rightarrow> (string \<times> string) list \<Rightarrow> string list option" where
  "member_groups u rows =
     (let gs = map snd (filter (\<lambda>(n, g). n = u) rows) in if gs = [] then None else Some (remdups gs))"

definition UserDatabase_GetByUsername :: "users_env \<Rightarrow> user_database \<Rightarrow> string \<Rightarrow> user option res" where
  "UserDatabase_GetByUsername env d name =
     exec env SelUser
       (case find (\<lambda>r. rUsername r = name) (usersTable d) of
          None \<Rightarrow> Inr None
        | Some r \<Rightarrow>
            exec env SelUserGroups
              (let u = (row_user d r)\<lparr>uGroups := member_groups name (groupsTable d)\<rparr> in
               bind_res (decryptTotP env d (uTotP u)) (\<lambda>t. Inr (Some (u\<lparr>uTotP := t\<rparr>)))))"

fun decrypt_users :: "users_env \<Rightarrow> user_database \<Rightarrow> user list \<Rightarrow> user list res" where
  "decrypt_users env d [] = Inr []"
| "decrypt_users env d (u # us) =
     bind_res (decryptTotP env d (uTotP u)) (\<lambda>t.
     bind_res (decrypt_users env d us) (\<lambda>us1. Inr (u\<lparr>uTotP := t\<rparr> # us1)))"

definition add_group :: "string \<Rightarrow> string \<Rightarrow> user list \<Rightarrow> user list" where
  "add_group name g us =
     map (\<lambda>u. if uUsername u = name then u\<lparr>uGroups := Some (groups_of u @ [g])\<rparr> else u) us"

definition UserDatabase_GetAll :: "users_env \<Rightarrow> user_database \<Rightarrow> user list res" where
  "UserDatabase_GetAll env d =
     exec env SelUsers
       (bind_res (decrypt_users env d (map (row_user d) (sort_key rUsername (usersTable d)))) (\<lambda>us.
        exec env SelAllGroups
          (Inr (foldl (\<lambda>us (n, g). add_group n g us) us (sort_key snd (groupsTable d))))))"

definition UserDatabase_ListGroups :: "users_env \<Rightarrow> user_database \<Rightarrow> group list res" where
  "UserDatabase_ListGroups env d =
     bind_res (if hasDetailsTable d then exec env SelDetails (Inr (sort_key gName (detailsTable d))) else Inr [])
       (\<lambda>gs. exec env SelGroupNames
          (let userGroups = sort (remdups (map snd (groupsTable d)));
               all = foldl (\<lambda>gs ug. if list_ex (\<lambda>g. ug = gName g) gs then gs else gs @ [NewGroup ug None None []])
                       gs userGroups
           in Inr (map (\<lambda>g. if gName g = Administrators then AdministratorsGroup else g) all)))"

definition UserDatabase_GetGroup :: "users_env \<Rightarrow> user_database \<Rightarrow> string \<Rightarrow> group res" where
  "UserDatabase_GetGroup env d name =
     (if name = Administrators then Inr AdministratorsGroup
      else if \<not> hasDetailsTable d then Inr (NewGroup name None None [])
      else exec env SelDetail
             (case find (\<lambda>g. gName g = name) (detailsTable d) of
                None \<Rightarrow> Inr (NewGroup name None None [])
              | Some g \<Rightarrow> Inr g))"

definition no_details_error :: goerr where
  "no_details_error = APIError StatusBadRequest ''User group details table must be configured for this operation.'' []"

definition replace_detail :: "group \<Rightarrow> group list \<Rightarrow> group list" where
  "replace_detail g t = filter (\<lambda>x. gName x \<noteq> gName g) t @ [g]"

text \<open>
  \<^verbatim>\<open>REPLACE INTO\<close> writes the named columns and leaves the others at their default, which is null. Any
  error of the first statement makes the second one run, which names no restriction.
\<close>

definition UserDatabase_UpdateGroup :: "users_env \<Rightarrow> string \<Rightarrow> group \<Rightarrow> user_database \<Rightarrow> user_database res" where
  "UserDatabase_UpdateGroup env name g d =
     (if \<not> hasDetailsTable d then Inl no_details_error
      else let g1 = g\<lparr>gName := name\<rparr> in
           case env_db env ReplaceDetail of
             None \<Rightarrow> Inr (d\<lparr>detailsTable := replace_detail g1 (detailsTable d)\<rparr>)
           | Some _ \<Rightarrow>
               exec env ReplaceDetailLegacy
                 (Inr (d\<lparr>detailsTable :=
                    replace_detail (g1\<lparr>gTunnelsRestricted := None, gCommandsRestricted := None\<rparr>) (detailsTable d)\<rparr>)))"

definition UserDatabase_DeleteGroup :: "users_env \<Rightarrow> string \<Rightarrow> user_database \<Rightarrow> user_database res" where
  "UserDatabase_DeleteGroup env name d =
     (if \<not> hasDetailsTable d then Inl no_details_error
      else exec env BeginTx (exec env DelGroupMembers (exec env DelDetail (exec env CommitTx
             (Inr (d\<lparr>groupsTable := filter (\<lambda>(n, g). g \<noteq> name) (groupsTable d),
                     detailsTable := filter (\<lambda>g. gName g \<noteq> name) (detailsTable d)\<rparr>))))))"

fun insert_groups :: "users_env \<Rightarrow> string \<Rightarrow> string list \<Rightarrow> (string \<times> string) list \<Rightarrow> (string \<times> string) list res" where
  "insert_groups env name [] rows = Inr rows"
| "insert_groups env name (g # gs) rows =
     exec env InsGroup
       (if (name, g) \<in> set rows then Inl unique_failed
        else insert_groups env name gs (rows @ [(name, g)]))"

text \<open>The inserted row: a column that the statement does not name gets its default.\<close>

definition new_row :: "user_database \<Rightarrow> user \<Rightarrow> string \<Rightarrow> user_row" where
  "new_row d usr totp =
     \<lparr>rUsername = uUsername usr, rPassword = uPassword usr,
      rPasswordExpired = (case uPasswordExpired usr of None \<Rightarrow> False | Some b \<Rightarrow> b),
      rTwoFASendTo = (if twoFAOn d then uTwoFASendTo usr else ''''),
      rTotP = totp\<rparr>"

definition UserDatabase_Add :: "users_env \<Rightarrow> user \<Rightarrow> user_database \<Rightarrow> user_database res" where
  "UserDatabase_Add env usr d =
     exec env BeginTx
       (bind_res (if totPOn d then encryptTotP env d (uTotP usr) else Inr '''') (\<lambda>totp.
        exec env InsUser
          (if list_ex (\<lambda>r. rUsername r = uUsername usr) (usersTable d) then Inl unique_failed
           else bind_res (insert_groups env (uUsername usr) (groups_of usr) (groupsTable d)) (\<lambda>gt.
                exec env CommitTx
                  (Inr (d\<lparr>usersTable := usersTable d @ [new_row d usr totp], groupsTable := gt\<rparr>))))))"

definition change_row :: "user \<Rightarrow> string \<Rightarrow> string \<Rightarrow> user_row \<Rightarrow> user_row" where
  "change_row usr totp name r =
     (let r1 = (if uPassword usr \<noteq> '''' then r\<lparr>rPassword := uPassword usr\<rparr> else r);
          r2 = (case uPasswordExpired usr of None \<Rightarrow> r1 | Some b \<Rightarrow> r1\<lparr>rPasswordExpired := b\<rparr>);
          r3 = (if uTwoFASendTo usr \<noteq> '''' then r2\<lparr>rTwoFASendTo := uTwoFASendTo usr\<rparr> else r2);
          r4 = (if uTotP usr \<noteq> '''' then r3\<lparr>rTotP := totp\<rparr> else r3)
      in if uUsername usr \<noteq> '''' \<and> uUsername usr \<noteq> name then r4\<lparr>rUsername := uUsername usr\<rparr> else r4)"

definition update_users :: "users_env \<Rightarrow> user \<Rightarrow> string \<Rightarrow> string \<Rightarrow> user_row list \<Rightarrow> user_row list res" where
  "update_users env usr totp name rows =
     (if uPassword usr = '''' \<and> uPasswordExpired usr = None \<and> uTwoFASendTo usr = '''' \<and> uTotP usr = '''' \<and>
         (uUsername usr = '''' \<or> uUsername usr = name)
      then Inr rows
      else exec env UpdUser
             (if uUsername usr \<noteq> '''' \<and> uUsername usr \<noteq> name \<and>
                 list_ex (\<lambda>r. rUsername r = name) rows \<and> list_ex (\<lambda>r. rUsername r = uUsername usr) rows
              then Inl unique_failed
              else Inr (map (\<lambda>r. if rUsername r = name then change_row usr totp name r else r) rows)))"

definition rename_groups :: "users_env \<Rightarrow> string \<Rightarrow> string \<Rightarrow> (string \<times> string) list \<Rightarrow> (string \<times> string) list res" where
  "rename_groups env old new rows =
     (if new = '''' \<or> old = new then Inr rows
      else exec env RenameGroups
             (let rows1 = map (\<lambda>(n, g). if n = old then (new, g) else (n, g)) rows
              in if distinct rows1 then Inr rows1 else Inl unique_failed))"

definition UserDatabase_Update :: "users_env \<Rightarrow> user \<Rightarrow> string \<Rightarrow> user_database \<Rightarrow> user_database res" where
  "UserDatabase_Update env usr usernameToUpdate d =
     (if usernameToUpdate = '''' then Inl (GoError ''cannot update user with empty username'' [])
      else
        bind_res (if uTotP usr \<noteq> '''' then encryptTotP env d (uTotP usr) else Inr '''') (\<lambda>totp.
        exec env BeginTx
          (bind_res (update_users env usr totp usernameToUpdate (usersTable d)) (\<lambda>ut.
           bind_res (rename_groups env usernameToUpdate (uUsername usr) (groupsTable d)) (\<lambda>gt.
           let groupUserName = (if uUsername usr \<noteq> '''' then uUsername usr else usernameToUpdate) in
           bind_res (case uGroups usr of
                       None \<Rightarrow> Inr gt
                     | Some _ \<Rightarrow> exec env DelUserGroups (Inr (filter (\<lambda>(n, g). n \<noteq> groupUserName) gt))) (\<lambda>gt1.
           bind_res (insert_groups env groupUserName (groups_of usr) gt1) (\<lambda>gt2.
           exec env CommitTx (Inr (d\<lparr>usersTable := ut, groupsTable := gt2\<rparr>)))))))))"

definition UserDatabase_Delete :: "users_env \<Rightarrow> string \<Rightarrow> user_database \<Rightarrow> user_database res" where
  "UserDatabase_Delete env name d =
     exec env BeginTx (exec env DelUser (exec env DelUserGroups (exec env CommitTx
       (Inr (d\<lparr>usersTable := filter (\<lambda>r. rUsername r \<noteq> name) (usersTable d),
               groupsTable := filter (\<lambda>(n, g). n \<noteq> name) (groupsTable d)\<rparr>)))))"

section \<open>The provider interface\<close>

datatype provider = StaticProvider user_cache | FileAdapter file_adapter | UserDatabase user_database

definition from_db :: "user_database \<Rightarrow> user_database res \<Rightarrow> goerr option \<times> provider" where
  "from_db d r = (case r of Inl e \<Rightarrow> (Some e, UserDatabase d) | Inr d1 \<Rightarrow> (None, UserDatabase d1))"

definition from_file :: "goerr option \<times> file_adapter \<Rightarrow> goerr option \<times> provider" where
  "from_file r = (fst r, FileAdapter (snd r))"

definition file_unsupported :: goerr where
  "file_unsupported = APIError StatusBadRequest ''The json file authentication backend doesn't support this feature.'' []"

fun SupportsGroupPermissions :: "provider \<Rightarrow> bool" where
  "SupportsGroupPermissions (StaticProvider c) = False"
| "SupportsGroupPermissions (FileAdapter fa) = False"
| "SupportsGroupPermissions (UserDatabase d) = hasDetailsTable d"

fun GetByUsername :: "users_env \<Rightarrow> provider \<Rightarrow> string \<Rightarrow> user option res" where
  "GetByUsername env (StaticProvider c) name = Inr (UserCache_GetByUsername c name)"
| "GetByUsername env (FileAdapter fa) name = Inr (UserCache_GetByUsername (fa_cache fa) name)"
| "GetByUsername env (UserDatabase d) name = UserDatabase_GetByUsername env d name"

fun GetAll :: "users_env \<Rightarrow> provider \<Rightarrow> user list res" where
  "GetAll env (StaticProvider c) = Inr (UserCache_GetAll c)"
| "GetAll env (FileAdapter fa) = Inr (UserCache_GetAll (fa_cache fa))"
| "GetAll env (UserDatabase d) = UserDatabase_GetAll env d"

fun ListGroups :: "users_env \<Rightarrow> provider \<Rightarrow> group list res" where
  "ListGroups env (StaticProvider c) = Inl (static_unsupported ''feature'')"
| "ListGroups env (FileAdapter fa) = Inl file_unsupported"
| "ListGroups env (UserDatabase d) = UserDatabase_ListGroups env d"

fun GetGroup :: "users_env \<Rightarrow> provider \<Rightarrow> string \<Rightarrow> group res" where
  "GetGroup env (StaticProvider c) name = Inl (static_unsupported ''feature'')"
| "GetGroup env (FileAdapter fa) name = Inl file_unsupported"
| "GetGroup env (UserDatabase d) name = UserDatabase_GetGroup env d name"

fun Provider_UpdateGroup :: "users_env \<Rightarrow> string \<Rightarrow> group \<Rightarrow> provider \<Rightarrow> goerr option \<times> provider" where
  "Provider_UpdateGroup env name g (StaticProvider c) = (Some (static_unsupported ''feature''), StaticProvider c)"
| "Provider_UpdateGroup env name g (FileAdapter fa) = (Some file_unsupported, FileAdapter fa)"
| "Provider_UpdateGroup env name g (UserDatabase d) = from_db d (UserDatabase_UpdateGroup env name g d)"

fun Provider_DeleteGroup :: "users_env \<Rightarrow> string \<Rightarrow> provider \<Rightarrow> goerr option \<times> provider" where
  "Provider_DeleteGroup env name (StaticProvider c) = (Some (static_unsupported ''feature''), StaticProvider c)"
| "Provider_DeleteGroup env name (FileAdapter fa) = (Some file_unsupported, FileAdapter fa)"
| "Provider_DeleteGroup env name (UserDatabase d) = from_db d (UserDatabase_DeleteGroup env name d)"

fun Provider_Add :: "users_env \<Rightarrow> user \<Rightarrow> provider \<Rightarrow> goerr option \<times> provider" where
  "Provider_Add env u (StaticProvider c) = (Some (static_unsupported ''operation''), StaticProvider c)"
| "Provider_Add env u (FileAdapter fa) = from_file (FileAdapter_Add env u fa)"
| "Provider_Add env u (UserDatabase d) = from_db d (UserDatabase_Add env u d)"

fun Provider_Update :: "users_env \<Rightarrow> user \<Rightarrow> string \<Rightarrow> provider \<Rightarrow> goerr option \<times> provider" where
  "Provider_Update env u name (StaticProvider c) = (Some (static_unsupported ''operation''), StaticProvider c)"
| "Provider_Update env u name (FileAdapter fa) = from_file (FileAdapter_Update env u name fa)"
| "Provider_Update env u name (UserDatabase d) = from_db d (UserDatabase_Update env u name d)"

fun Provider_Delete :: "users_env \<Rightarrow> string \<Rightarrow> provider \<Rightarrow> goerr option \<times> provider" where
  "Provider_Delete env name (StaticProvider c) = (Some (static_unsupported ''operation''), StaticProvider c)"
| "Provider_Delete env name (FileAdapter fa) = from_file (FileAdapter_Delete env name fa)"
| "Provider_Delete env name (UserDatabase d) = from_db d (UserDatabase_Delete env name d)"

end
