(* ===== verification/Users.thy ===== *)
theory Users
  imports UserStore
begin

text \<open>
  The user service of \<^verbatim>\<open>server/api/users/service.go\<close> over the providers of \<open>UserStore\<close>: creation,
  change and deletion of users, groups, and the permission checks every API route makes. bcrypt, the
  zxcvbn password score and the check of a delivery address are parameters (\<open>users_env\<close>). A list of
  validation errors is reported by its first one, which is the one the API answers with.
\<close>

record api_service =
  asProvider :: provider
  asTwoFAOn :: bool
  asPasswordMinLength :: int
  asZxcvbnMinscore :: int

definition UpdateGroup :: "users_env \<Rightarrow> string \<Rightarrow> group \<Rightarrow> api_service \<Rightarrow> group res \<times> api_service" where
  "UpdateGroup env name g as =
     (if name = Administrators
      then (Inl (APIError StatusBadRequest
              ''The built-in Administrators group grants every permission and cannot be modified.'' []), as)
      else case Provider_UpdateGroup env name g (asProvider as) of
             (Some e, p) \<Rightarrow> (Inl e, as\<lparr>asProvider := p\<rparr>)
           | (None, p) \<Rightarrow> (GetGroup env p name, as\<lparr>asProvider := p\<rparr>))"

definition DeleteGroup :: "users_env \<Rightarrow> string \<Rightarrow> api_service \<Rightarrow> goerr option \<times> api_service" where
  "DeleteGroup env name as =
     (if name = Administrators
      then (Some (APIError StatusBadRequest ''The built-in Administrators group cannot be deleted.'' []), as)
      else case Provider_DeleteGroup env name (asProvider as) of (e, p) \<Rightarrow> (e, as\<lparr>asProvider := p\<rparr>))"

fun check_groups :: "users_env \<Rightarrow> provider \<Rightarrow> string \<Rightarrow> string list \<Rightarrow> goerr option" where
  "check_groups env p permission [] =
     Some (APIError StatusForbidden ''user does not have %q permission'' [AS permission])"
| "check_groups env p permission (groupName # gs) =
     (case GetGroup env p groupName of
        Inl e \<Rightarrow> Some e
      | Inr g \<Rightarrow> if Permissions_Has (gPermissions g) permission then None
                else check_groups env p permission gs)"

definition CheckPermission :: "users_env \<Rightarrow> api_service \<Rightarrow> user \<Rightarrow> string \<Rightarrow> goerr option" where
  "CheckPermission env as user permission = check_groups env (asProvider as) permission (groups_of user)"

definition GetEffectiveUserExtendedPermissions ::
    "users_env \<Rightarrow> api_service \<Rightarrow> user \<Rightarrow> permission_params list \<times> permission_params list" where
  "GetEffectiveUserExtendedPermissions env as user =
     (let gs = concat (map (\<lambda>n. case GetGroup env (asProvider as) n of Inl _ \<Rightarrow> [] | Inr g \<Rightarrow> [g]) (groups_of user))
      in (concat (map (\<lambda>g. case gTunnelsRestricted g of None \<Rightarrow> [] | Some r \<Rightarrow> [r]) gs),
          concat (map (\<lambda>g. case gCommandsRestricted g of None \<Rightarrow> [] | Some r \<Rightarrow> [r]) gs)))"

fun effective_loop :: "users_env \<Rightarrow> provider \<Rightarrow> string list \<Rightarrow> permissions \<Rightarrow> permissions res" where
  "effective_loop env p [] perms = Inr perms"
| "effective_loop env p (groupName # gs) perms =
     bind_res (GetGroup env p groupName) (\<lambda>g.
       effective_loop env p gs
         (foldl (\<lambda>perms q. if Permissions_Has (gPermissions g) q \<and> perms q \<noteq> Some True then perms(q \<mapsto> True) else perms)
            perms AllPermissions))"

definition GetEffectiveUserPermissions :: "users_env \<Rightarrow> api_service \<Rightarrow> user \<Rightarrow> permissions res" where
  "GetEffectiveUserPermissions env as user =
     (if \<not> SupportsGroupPermissions (asProvider as)
      then Inr (Permissions_All (NewPermissions AllPermissions))
      else effective_loop env (asProvider as) (groups_of user) (Permissions_All (NewPermissions [])))"

definition ExistGroups :: "users_env \<Rightarrow> api_service \<Rightarrow> string list \<Rightarrow> goerr option" where
  "ExistGroups env as gs =
     (case ListGroups env (asProvider as) of
        Inl e \<Rightarrow> Some e
      | Inr existing \<Rightarrow>
          (let groupsNotFound = filter (\<lambda>g. \<not> list_ex (\<lambda>x. gName x = g) existing) gs
           in if groupsNotFound \<noteq> []
              then Some (APIError StatusNotFound ''user groups not found: %v'' [AS (join '', '' groupsNotFound)])
              else None))"

section \<open>Changing users\<close>

definition GenerateTokenHash :: "users_env \<Rightarrow> string \<Rightarrow> string res" where
  "GenerateTokenHash env clear =
     bind_res (env_bcrypt env clear) (\<lambda>h. Inr (replace_first h ''$2a$'' ''$2y$''))"

definition bad_request :: "string \<Rightarrow> err_arg list \<Rightarrow> goerr" where
  "bad_request msg args = APIError StatusBadRequest msg args"

definition validate_identity :: "api_service \<Rightarrow> user \<Rightarrow> string \<Rightarrow> goerr list" where
  "validate_identity as dataToChange usernameToFind =
     (if usernameToFind = ''''
      then (if uUsername dataToChange = '''' then [bad_request ''username is required'' []] else []) @
           (if uPassword dataToChange = '''' then [bad_request ''password is required'' []] else []) @
           (if asTwoFAOn as \<and> uTwoFASendTo dataToChange = '''' then [bad_request ''two_fa_send_to is required'' []] else [])
      else if (uUsername dataToChange = '''' \<or> uUsername dataToChange = usernameToFind) \<and>
              uPassword dataToChange = '''' \<and> uPasswordExpired dataToChange = None \<and>
              uGroups dataToChange = None \<and>
              (\<not> asTwoFAOn as \<or> uTwoFASendTo dataToChange = '''') \<and> uTotP dataToChange = ''''
           then [bad_request ''nothing to change'' []] else [])"

definition validate_password :: "users_env \<Rightarrow> api_service \<Rightarrow> user \<Rightarrow> string list \<Rightarrow> goerr list" where
  "validate_password env as dataToChange inputs =
     (if uPassword dataToChange = '''' then []
      else (if int (length (uPassword dataToChange)) < asPasswordMinLength as
            then [bad_request ''password must be at least %v characters'' [AI (asPasswordMinLength as)]] else []) @
           (if asZxcvbnMinscore as \<ge> 0 \<and> env_zxcvbn env (uPassword dataToChange) inputs < asZxcvbnMinscore as
            then [bad_request ''zxcvbn score is %v, must be at least %v''
                    [AI (env_zxcvbn env (uPassword dataToChange) inputs), AI (asZxcvbnMinscore as)]] else []))"

definition validate_receiver :: "users_env \<Rightarrow> user \<Rightarrow> goerr list" where
  "validate_receiver env dataToChange =
     (if uTwoFASendTo dataToChange = '''' then []
      else case env_receiver env of
             None \<Rightarrow> []
           | Some check \<Rightarrow>
               (case check (uTwoFASendTo dataToChange) of
                  None \<Rightarrow> []
                | Some e \<Rightarrow> [bad_request (''invalid two_fa_send_to: '' @ err_format e) (err_args e)]))"

definition validate :: "users_env \<Rightarrow> api_service \<Rightarrow> user \<Rightarrow> string \<Rightarrow> goerr list" where
  "validate env as dataToChange usernameToFind =
     (let inputs = (if usernameToFind = '''' then [] else [usernameToFind]) @
                   (if uUsername dataToChange = '''' then [] else [uUsername dataToChange])
      in validate_identity as dataToChange usernameToFind @
         (if uUsername dataToChange \<noteq> '''' \<and> trim_space (uUsername dataToChange) \<noteq> uUsername dataToChange
          then [bad_request ''username must not start or end with whitespace'' []] else []) @
         validate_password env as dataToChange inputs @
         validate_receiver env dataToChange)"

definition addUser :: "users_env \<Rightarrow> user \<Rightarrow> provider \<Rightarrow> goerr option \<times> provider" where
  "addUser env dataToChange p =
     (case GetByUsername env p (uUsername dataToChange) of
        Inl e \<Rightarrow> (Some e, p)
      | Inr (Some _) \<Rightarrow> (Some user_exists_error, p)
      | Inr None \<Rightarrow> Provider_Add env dataToChange p)"

definition updateUser :: "users_env \<Rightarrow> user \<Rightarrow> string \<Rightarrow> provider \<Rightarrow> goerr option \<times> provider" where
  "updateUser env dataToChange usernameToFind p =
     (case GetByUsername env p usernameToFind of
        Inl e \<Rightarrow> (Some e, p)
      | Inr None \<Rightarrow> (Some (user_missing_error usernameToFind), p)
      | Inr (Some _) \<Rightarrow>
          if uUsername dataToChange \<noteq> '''' \<and> uUsername dataToChange \<noteq> usernameToFind
          then (case GetByUsername env p (uUsername dataToChange) of
                  Inl e \<Rightarrow> (Some e, p)
                | Inr (Some _) \<Rightarrow> (Some user_exists_error, p)
                | Inr None \<Rightarrow> Provider_Update env dataToChange usernameToFind p)
          else Provider_Update env dataToChange usernameToFind p)"

definition change_hashed :: "users_env \<Rightarrow> user \<Rightarrow> string \<Rightarrow> provider \<Rightarrow> goerr option \<times> provider" where
  "change_hashed env usr name p = (if name \<noteq> '''' then updateUser env usr name p else addUser env usr p)"

definition Change :: "users_env \<Rightarrow> user \<Rightarrow> string \<Rightarrow> api_service \<Rightarrow> goerr option \<times> api_service" where
  "Change env usr name as =
     (case validate env as usr name of
        e # _ \<Rightarrow> (Some e, as)
      | [] \<Rightarrow>
          (case (if uPassword usr = '''' then Inr '''' else GenerateTokenHash env (uPassword usr)) of
             Inl e \<Rightarrow> (Some e, as)
           | Inr passHash \<Rightarrow>
               (case change_hashed env (usr\<lparr>uPassword := passHash\<rparr>) name (asProvider as) of
                  (e, p) \<Rightarrow> (e, as\<lparr>asProvider := p\<rparr>))))"

definition DeleteUser :: "users_env \<Rightarrow> string \<Rightarrow> api_service \<Rightarrow> goerr option \<times> api_service" where
  "DeleteUser env usernameToDelete as =
     (case GetByUsername env (asProvider as) usernameToDelete of
        Inl e \<Rightarrow> (Some e, as)
      | Inr None \<Rightarrow> (Some (user_missing_error usernameToDelete), as)
      | Inr (Some _) \<Rightarrow>
          (case Provider_Delete env usernameToDelete (asProvider as) of (e, p) \<Rightarrow> (e, as\<lparr>asProvider := p\<rparr>)))"

section \<open>Start-up\<close>

definition ParseAuth :: "string \<Rightarrow> string \<times> string" where
  "ParseAuth auth = (case split_n2 CHR '':'' auth of [a, b] \<Rightarrow> (a, b) | _ \<Rightarrow> ('''', ''''))"

definition parseHTTPAuthStr :: "string \<Rightarrow> user option res" where
  "parseHTTPAuthStr basicAuth =
     (if basicAuth = '''' then Inr None
      else case ParseAuth basicAuth of (user, pass) \<Rightarrow>
             if user = '''' \<or> pass = ''''
             then Inl (GoError ''invalid auth format: expected <user>:<password>, actual %s'' [AS basicAuth])
             else Inr (Some \<lparr>uUsername = user, uPassword = pass, uPasswordExpired = None, uGroups = None,
                             uTwoFASendTo = '''', uTotP = ''''\<rparr>))"

text \<open>The branch of \<^verbatim>\<open>NewAPIServiceFromConfig\<close> for an inline user name and password.\<close>

definition static_provider :: "users_env \<Rightarrow> string \<Rightarrow> provider res" where
  "static_provider env auth =
     bind_res (parseHTTPAuthStr auth) (\<lambda>u.
       case u of
         None \<Rightarrow> Inr (StaticProvider [])
       | Some authUser \<Rightarrow>
           bind_res (if IsBcryptHash (uPassword authUser) then Inr (uPassword authUser)
                     else GenerateTokenHash env (uPassword authUser)) (\<lambda>hashed.
             Inr (StaticProvider (UserCache_Load
               [authUser\<lparr>uPassword := hashed, uGroups := Some [Administrators]\<rparr>]))))"

text \<open>\<^verbatim>\<open>NewUserDatabase\<close> after its schema check, and the refusal of plaintext passwords.\<close>

definition newAPIAuthDatabase :: "users_env \<Rightarrow> user_database \<Rightarrow> provider res" where
  "newAPIAuthDatabase env d =
     bind_res (encryptExistingTotP env d) (\<lambda>d1.
     bind_res (rejectPlaintextPasswords env d1) (\<lambda>_. Inr (UserDatabase d1)))"

definition NewFileAdapter :: "users_env \<Rightarrow> user list \<Rightarrow> provider res" where
  "NewFileAdapter env file =
     (case FileAdapter_load env \<lparr>fa_cache = [], fa_file = file\<rparr> of
        (Some e, _) \<Rightarrow> Inl e
      | (None, fa) \<Rightarrow> Inr (FileAdapter fa))"

section \<open>The contract of a password store\<close>

text \<open>
  What the service relies on to keep plaintext out of the store: writing a hash, or nothing, into a store
  that holds hashes only leaves it so, whether the operation succeeds or fails.
\<close>

locale password_store =
  fixes safe :: "'p \<Rightarrow> bool"
    and ok :: "string \<Rightarrow> bool"
    and get :: "'e \<Rightarrow> 'p \<Rightarrow> string \<Rightarrow> user option res"
    and add :: "'e \<Rightarrow> user \<Rightarrow> 'p \<Rightarrow> goerr option \<times> 'p"
    and upd :: "'e \<Rightarrow> user \<Rightarrow> string \<Rightarrow> 'p \<Rightarrow> goerr option \<times> 'p"
    and del :: "'e \<Rightarrow> string \<Rightarrow> 'p \<Rightarrow> goerr option \<times> 'p"
  assumes get_safe: "safe p \<Longrightarrow> get env p n = Inr (Some u) \<Longrightarrow> ok (uPassword u) \<or> uPassword u = ''''"
    and add_safe: "safe p \<Longrightarrow> ok (uPassword u) \<Longrightarrow> safe (snd (add env u p))"
    and upd_safe: "safe p \<Longrightarrow> ok (uPassword u) \<or> uPassword u = '''' \<Longrightarrow> safe (snd (upd env u n p))"
    and del_safe: "safe p \<Longrightarrow> safe (snd (del env n p))"
begin

text \<open>The shape of every write of the service: some look-ups, then at most one write.\<close>

lemma guarded_add_safe:
  assumes "safe p" "ok (uPassword u)"
  shows "safe (snd (case get env p n of
      Inl e \<Rightarrow> (Some e, p) | Inr (Some x) \<Rightarrow> (Some err, p) | Inr None \<Rightarrow> add env u p))"
  using assms by (simp add: add_safe split: sum.splits option.splits)

lemma guarded_update_safe:
  assumes "safe p" "ok (uPassword u) \<or> uPassword u = ''''"
  shows "safe (snd (case get env p n of
      Inl e \<Rightarrow> (Some e, p) | Inr (Some x) \<Rightarrow> (Some err, p) | Inr None \<Rightarrow> upd env u m p))"
  using assms upd_safe by (simp split: sum.splits option.splits)

end

definition only_bcrypt :: "provider \<Rightarrow> bool" where
  "only_bcrypt p =
     (case p of
        StaticProvider c \<Rightarrow> list_all (\<lambda>(n, u). IsBcryptHash (uPassword u)) c
      | FileAdapter fa \<Rightarrow> list_all (\<lambda>(n, u). IsBcryptHash (uPassword u)) (fa_cache fa)
      | UserDatabase d \<Rightarrow> list_all (\<lambda>r. IsBcryptHash (rPassword r) \<or> rPassword r = '''') (usersTable d))"

lemma not_bcrypt_Nil [simp]: "\<not> IsBcryptHash []"
  by (simp add: IsBcryptHash_def)

lemma exec_eq_Inr: "exec env st r = Inr x \<longleftrightarrow> env_db env st = None \<and> r = Inr x"
  by (auto simp: exec_def split: option.splits)

lemma parseUsers_bcrypt: "parseUsers seen raw = Inr us \<Longrightarrow> list_all (\<lambda>u. IsBcryptHash (uPassword u)) us"
  by (induction seen raw arbitrary: us rule: parseUsers.induct)
    (auto simp: Let_def bind_res_eq_Inr split: if_splits)

lemma UserCache_Load_all:
  assumes "list_all (\<lambda>u. P (uPassword u)) us"
  shows "list_all (\<lambda>(n, u). P (uPassword u)) (UserCache_Load us)"
proof -
  have upd: "list_all (\<lambda>(n, u). P (uPassword u)) (AList.update n u m)"
    if "list_all (\<lambda>(n, u). P (uPassword u)) m" "P (uPassword u)" for n u m
    using that by (induction m) auto
  have "list_all (\<lambda>(n, u). P (uPassword u)) (foldl (\<lambda>m u. AList.update (uUsername u) u m) m us)"
    if "list_all (\<lambda>(n, u). P (uPassword u)) m" for m
    using assms that
  proof (induction us arbitrary: m)
    case (Cons u us)
    then show ?case using upd [of m u] by simp
  qed simp
  from this [of "[]"]
  show ?thesis by (simp add: UserCache_Load_def)
qed

lemma FileAdapter_load_safe:
  assumes "only_bcrypt (FileAdapter fa)"
  shows "only_bcrypt (FileAdapter (snd (FileAdapter_load env fa)))"
  using assms parseUsers_bcrypt UserCache_Load_all [of IsBcryptHash]
  by (auto simp: FileAdapter_load_def ReadUsersFromFile_def only_bcrypt_def split: sum.splits option.splits)

lemma save_and_load_safe:
  assumes "only_bcrypt (FileAdapter fa)"
  shows "only_bcrypt (FileAdapter (snd (save_and_load env us fa)))"
  using assms FileAdapter_load_safe [of "fa\<lparr>fa_file := us\<rparr>" env]
  by (auto simp: save_and_load_def SaveUsersToFile_def only_bcrypt_def split: option.splits)

lemma file_ops_safe:
  assumes "only_bcrypt (FileAdapter fa)"
  shows "only_bcrypt (FileAdapter (snd (FileAdapter_Add env u fa)))"
    and "only_bcrypt (FileAdapter (snd (FileAdapter_Update env u n fa)))"
    and "only_bcrypt (FileAdapter (snd (FileAdapter_Delete env n fa)))"
  using assms save_and_load_safe
  by (auto simp: FileAdapter_Add_def FileAdapter_Update_def FileAdapter_Delete_def split: sum.splits option.splits)

lemma only_bcrypt_from_db:
  assumes "only_bcrypt (UserDatabase d)" "\<And>d1. r = Inr d1 \<Longrightarrow> only_bcrypt (UserDatabase d1)"
  shows "only_bcrypt (snd (from_db d r))"
  using assms by (auto simp: from_db_def split: sum.splits)

lemma change_row_password:
  "rPassword (change_row u totp n r) = (if uPassword u = '''' then rPassword r else uPassword u)"
  by (simp add: change_row_def Let_def split: option.splits)

lemma UserDatabase_Add_Inr:
  assumes "UserDatabase_Add env u d = Inr d1"
  obtains totp gt where "d1 = d\<lparr>usersTable := usersTable d @ [new_row d u totp], groupsTable := gt\<rparr>"
    "totPOn d \<longrightarrow> encryptTotP env d (uTotP u) = Inr totp" "\<forall>r \<in> set (usersTable d). rUsername r \<noteq> uUsername u"
    "insert_groups env (uUsername u) (groups_of u) (groupsTable d) = Inr gt"
  using assms by (auto simp: UserDatabase_Add_def exec_eq_Inr bind_res_eq_Inr list_ex_iff split: if_splits)

lemma UserDatabase_Update_Inr:
  assumes "UserDatabase_Update env u n d = Inr d1"
  obtains totp ut gt gt1 gt2 where "update_users env u totp n (usersTable d) = Inr ut" "n \<noteq> ''''"
    "(if uTotP u \<noteq> '''' then encryptTotP env d (uTotP u) else Inr '''') = Inr totp"
    "rename_groups env n (uUsername u) (groupsTable d) = Inr gt"
    "(case uGroups u of None \<Rightarrow> Inr gt
      | Some _ \<Rightarrow> exec env DelUserGroups
          (Inr (filter (\<lambda>(x, g). x \<noteq> (if uUsername u \<noteq> '''' then uUsername u else n)) gt))) = Inr gt1"
    "insert_groups env (if uUsername u \<noteq> '''' then uUsername u else n) (groups_of u) gt1 = Inr gt2"
    "d1 = d\<lparr>usersTable := ut, groupsTable := gt2\<rparr>"
proof (cases "n = ''''")
  case True
  with assms show ?thesis by (simp add: UserDatabase_Update_def)
next
  case False
  from assms show ?thesis
    unfolding UserDatabase_Update_def if_not_P [OF False] bind_res_eq_Inr exec_eq_Inr Let_def
    by (elim exE conjE) (use that False in blast)
qed

lemma update_users_Inr:
  assumes "update_users env u totp n rows = Inr ut" "n \<noteq> ''''"
  shows "ut = map (\<lambda>r. if rUsername r = n then change_row u totp n r else r) rows"
proof (cases "uPassword u = '''' \<and> uPasswordExpired u = None \<and> uTwoFASendTo u = '''' \<and> uTotP u = '''' \<and>
         (uUsername u = '''' \<or> uUsername u = n)")
  case True
  then have "change_row u totp n r = r" for r by (auto simp: change_row_def Let_def)
  then have "map (\<lambda>r. if rUsername r = n then change_row u totp n r else r) rows = rows" by (simp add: map_idI)
  with True assms show ?thesis by (simp add: update_users_def)
next
  case False
  with assms show ?thesis by (auto simp: update_users_def exec_eq_Inr split: if_splits)
qed

lemma db_Add_safe:
  assumes "only_bcrypt (UserDatabase d)" "IsBcryptHash (uPassword u)" "UserDatabase_Add env u d = Inr d1"
  shows "only_bcrypt (UserDatabase d1)"
  using assms(3) by (elim UserDatabase_Add_Inr) (use assms in \<open>simp add: only_bcrypt_def new_row_def\<close>)

lemma db_Update_safe:
  assumes "only_bcrypt (UserDatabase d)" "IsBcryptHash (uPassword u) \<or> uPassword u = ''''"
    and "UserDatabase_Update env u n d = Inr d1"
  shows "only_bcrypt (UserDatabase d1)"
proof -
  from assms(3) obtain totp ut gt where ut: "update_users env u totp n (usersTable d) = Inr ut"
    and d1: "d1 = d\<lparr>usersTable := ut, groupsTable := gt\<rparr>" and n: "n \<noteq> ''''" by (rule UserDatabase_Update_Inr)
  from update_users_Inr [OF ut n] assms(1,2) d1 show ?thesis
    by (auto simp: only_bcrypt_def list_all_iff change_row_password)
qed

lemma db_Delete_safe:
  assumes "only_bcrypt (UserDatabase d)" "UserDatabase_Delete env n d = Inr d1"
  shows "only_bcrypt (UserDatabase d1)"
  using assms by (auto simp: UserDatabase_Delete_def exec_eq_Inr only_bcrypt_def list_all_iff)

lemma GetByUsername_safe:
  assumes "only_bcrypt p" "GetByUsername env p n = Inr (Some u)"
  shows "IsBcryptHash (uPassword u) \<or> uPassword u = ''''"
proof (cases p)
  case (UserDatabase d)
  with assms(2) obtain r where "find (\<lambda>r. rUsername r = n) (usersTable d) = Some r" "uPassword u = rPassword r"
    by (auto simp: UserDatabase_GetByUsername_def exec_eq_Inr bind_res_eq_Inr row_user_def Let_def split: option.splits)
  then have "r \<in> set (usersTable d)" "uPassword u = rPassword r" by (auto simp: find_Some_iff)
  with assms(1) UserDatabase show ?thesis by (auto simp: only_bcrypt_def list_all_iff)
qed (use assms in \<open>auto simp: only_bcrypt_def list_all_iff UserCache_GetByUsername_def dest!: map_of_SomeD\<close>)

interpretation ps: password_store only_bcrypt IsBcryptHash GetByUsername Provider_Add Provider_Update Provider_Delete
proof
  show "only_bcrypt p \<Longrightarrow> GetByUsername env p n = Inr (Some u) \<Longrightarrow> IsBcryptHash (uPassword u) \<or> uPassword u = ''''"
    for p env n u by (rule GetByUsername_safe)
  show "only_bcrypt p \<Longrightarrow> IsBcryptHash (uPassword u) \<Longrightarrow> only_bcrypt (snd (Provider_Add env u p))" for p env u
    by (cases p) (auto simp: from_file_def file_ops_safe intro: only_bcrypt_from_db db_Add_safe)
  show "only_bcrypt p \<Longrightarrow> IsBcryptHash (uPassword u) \<or> uPassword u = '''' \<Longrightarrow>
      only_bcrypt (snd (Provider_Update env u n p))" for p env u n
    by (cases p) (auto simp: from_file_def file_ops_safe intro: only_bcrypt_from_db db_Update_safe)
  show "only_bcrypt p \<Longrightarrow> only_bcrypt (snd (Provider_Delete env n p))" for p env n
    by (cases p) (auto simp: from_file_def file_ops_safe intro: only_bcrypt_from_db db_Delete_safe)
qed

section \<open>Runs of the service\<close>

text \<open>What Go's bcrypt documents of its hashes.\<close>

definition bcrypt_spec :: "users_env \<Rightarrow> bool" where
  "bcrypt_spec env \<longleftrightarrow> (\<forall>pw h. env_bcrypt env pw = Inr h \<longrightarrow> has_prefix h ''$2a$'')"

datatype service_event =
    Changed users_env user string
  | UserDeleted users_env string
  | GroupUpdated users_env string group
  | GroupDeleted users_env string

inductive service_step :: "api_service \<Rightarrow> service_event \<Rightarrow> api_service \<Rightarrow> bool" where
  changed: "bcrypt_spec env \<Longrightarrow> service_step as (Changed env usr name) (snd (Change env usr name as))"
| user_deleted: "service_step as (UserDeleted env name) (snd (DeleteUser env name as))"
| group_updated: "service_step as (GroupUpdated env name g) (snd (UpdateGroup env name g as))"
| group_deleted: "service_step as (GroupDeleted env name) (snd (DeleteGroup env name as))"

inductive_simps service_step_changed: "service_step as (Changed env usr name) as'"
inductive_simps service_step_other: "service_step as (UserDeleted env name) as'"
  "service_step as (GroupUpdated env name g) as'" "service_step as (GroupDeleted env name) as'"

lemma has_prefix_decomp: "has_prefix s p \<longleftrightarrow> (\<exists>t. s = p @ t)"
  by (simp add: has_prefix_iff prefix_def)

lemma GenerateTokenHash_bcrypt:
  assumes "bcrypt_spec env" "GenerateTokenHash env pw = Inr h"
  shows "IsBcryptHash h"
proof -
  from assms obtain h0 where "has_prefix h0 ''$2a$''" "h = replace_first h0 ''$2a$'' ''$2y$''"
    by (auto simp: GenerateTokenHash_def bind_res_eq_Inr bcrypt_spec_def)
  then show ?thesis by (simp add: replace_first_def index_of_prefix IsBcryptHash_def)
qed

lemma change_hashed_safe:
  assumes "only_bcrypt p" "IsBcryptHash (uPassword u) \<or> (uPassword u = '''' \<and> name \<noteq> '''')"
  shows "only_bcrypt (snd (change_hashed env u name p))"
proof (cases "name = ''''")
  case True
  with assms show ?thesis by (simp add: change_hashed_def addUser_def ps.guarded_add_safe)
next
  case False
  with assms have "only_bcrypt (snd (Provider_Update env u name p))" by (intro ps.upd_safe) auto
  with False assms ps.guarded_update_safe [of p u] show ?thesis
    by (auto simp: change_hashed_def updateUser_def split: sum.splits option.splits)
qed

lemma Change_safe:
  assumes "bcrypt_spec env" "only_bcrypt (asProvider as)"
  shows "only_bcrypt (asProvider (snd (Change env usr name as)))"
proof -
  have "only_bcrypt (snd (change_hashed env (usr\<lparr>uPassword := h\<rparr>) name (asProvider as)))"
    if v: "validate env as usr name = []"
      and h: "(if uPassword usr = '''' then Inr '''' else GenerateTokenHash env (uPassword usr)) = Inr h" for h
  proof (rule change_hashed_safe [OF assms(2)])
    have "name = '''' \<Longrightarrow> uPassword usr \<noteq> ''''"
      using v by (auto simp: validate_def validate_identity_def Let_def split: if_splits)
    with h GenerateTokenHash_bcrypt [OF assms(1)]
    show "IsBcryptHash (uPassword (usr\<lparr>uPassword := h\<rparr>)) \<or> uPassword (usr\<lparr>uPassword := h\<rparr>) = '''' \<and> name \<noteq> ''''"
      by (auto split: if_splits)
  qed
  with assms(2) show ?thesis by (auto simp: Change_def split: list.splits sum.splits prod.splits)
qed

lemma group_ops_safe:
  assumes "only_bcrypt p"
  shows "only_bcrypt (snd (Provider_UpdateGroup env name g p))" "only_bcrypt (snd (Provider_DeleteGroup env name p))"
  using assms
  by (cases p; auto simp: from_db_def UserDatabase_UpdateGroup_def UserDatabase_DeleteGroup_def exec_def only_bcrypt_def
      Let_def split: sum.splits option.splits if_splits)+

lemma service_step_safe:
  assumes "only_bcrypt (asProvider as)" "service_step as e as'"
  shows "only_bcrypt (asProvider as')"
  using assms(2)
proof cases
  case (changed env usr name)
  with assms(1) show ?thesis by (simp add: Change_safe)
next
  case (user_deleted env name)
  with assms(1) ps.del_safe [of "asProvider as" env name] show ?thesis
    by (auto simp: DeleteUser_def split: sum.splits option.splits prod.splits)
next
  case (group_updated env name g)
  with assms(1) group_ops_safe(1) [of "asProvider as" env name g] show ?thesis
    by (auto simp: UpdateGroup_def split: option.splits prod.splits)
next
  case (group_deleted env name)
  with assms(1) group_ops_safe(2) [of "asProvider as" env name] show ?thesis
    by (auto simp: DeleteGroup_def split: prod.splits)
qed

interpretation us: step_invariant service_step "\<lambda>as. only_bcrypt (asProvider as)"
  by unfold_locales (rule service_step_safe)

text \<open>A provider as it is after a successful start.\<close>

definition started :: "users_env \<Rightarrow> provider \<Rightarrow> bool" where
  "started env p \<longleftrightarrow>
     (\<exists>d. newAPIAuthDatabase env d = Inr p) \<or> (\<exists>us. NewFileAdapter env us = Inr p) \<or>
     (\<exists>auth. auth \<noteq> '''' \<and> static_provider env auth = Inr p)"

lemma started_safe:
  assumes "bcrypt_spec env" "started env p"
  shows "only_bcrypt p"
proof -
  have "only_bcrypt p" if "newAPIAuthDatabase env d = Inr p" for d
    using that by (auto simp: newAPIAuthDatabase_def rejectPlaintextPasswords_def bind_res_eq_Inr exec_eq_Inr
        only_bcrypt_def list_all_iff find_None_iff split: option.splits)
  moreover have "only_bcrypt p" if "NewFileAdapter env us = Inr p" for us
    using that FileAdapter_load_safe [of "\<lparr>fa_cache = [], fa_file = us\<rparr>" env]
    by (auto simp: NewFileAdapter_def only_bcrypt_def split: prod.splits option.splits)
  moreover have "only_bcrypt p" if "static_provider env auth = Inr p" for auth
    using that GenerateTokenHash_bcrypt [OF assms(1)]
    by (auto simp: static_provider_def bind_res_eq_Inr only_bcrypt_def UserCache_Load_def split: option.splits if_splits)
  ultimately show ?thesis using assms(2) by (auto simp: started_def)
qed

section \<open>Permissions\<close>

lemma check_groups_None:
  assumes "\<forall>g \<in> set gs. \<not> is_err (GetGroup env p g)"
  shows "check_groups env p q gs = None \<longleftrightarrow>
         (\<exists>g \<in> set gs. \<exists>gr. GetGroup env p g = Inr gr \<and> Permissions_Has (gPermissions gr) q)"
  using assms by (induction gs) (auto split: sum.splits)

lemma grant_all:
  "foldl (\<lambda>perms q. if f q \<and> perms q \<noteq> Some True then perms(q \<mapsto> True) else perms) perms qs q =
     (if q \<in> set qs \<and> f q then Some True else perms q)"
  by (induction qs arbitrary: perms) auto

lemma effective_loop_eq:
  assumes "\<forall>g \<in> set gs. \<not> is_err (GetGroup env p g)" "q \<in> set AllPermissions"
  shows "\<exists>m. effective_loop env p gs perms = Inr m \<and>
             m q = (if check_groups env p q gs = None then Some True else perms q)"
  using assms(1)
proof (induction gs arbitrary: perms)
  case (Cons g gs)
  then obtain gr where g: "GetGroup env p g = Inr gr" by (cases "GetGroup env p g") auto
  let ?perms = "foldl (\<lambda>perms q. if Permissions_Has (gPermissions gr) q \<and> perms q \<noteq> Some True then perms(q \<mapsto> True) else perms)
                  perms AllPermissions"
  from Cons.IH [of ?perms] Cons.prems obtain m where
    m: "effective_loop env p gs ?perms = Inr m" "m q = (if check_groups env p q gs = None then Some True else ?perms q)"
    by auto
  with g assms(2) grant_all [of "Permissions_Has (gPermissions gr)" perms AllPermissions q] show ?case by auto
qed simp

lemma GetGroup_admin: "GetGroup env (UserDatabase d) Administrators = Inr AdministratorsGroup"
  by (simp add: UserDatabase_GetGroup_def)

lemma admin_has: "q \<in> set AllPermissions \<Longrightarrow> Permissions_Has (gPermissions AdministratorsGroup) q"
  by (simp add: AdministratorsGroup_def Permissions_Has_def NewPermissions_def)

section \<open>Changing a user of the database\<close>

definition db_row :: "user_database \<Rightarrow> string \<Rightarrow> user_row option" where
  "db_row d n = find (\<lambda>r. rUsername r = n) (usersTable d)"

definition db_groups :: "user_database \<Rightarrow> string \<Rightarrow> string set" where
  "db_groups d n = {g. (n, g) \<in> set (groupsTable d)}"

lemma find_map_rename:
  assumes "\<And>r. rUsername r = n \<Longrightarrow> rUsername (f r) = n'" "n' \<noteq> n \<longrightarrow> find (\<lambda>r. rUsername r = n') rows = None"
  shows "find (\<lambda>r. rUsername r = m) (map (\<lambda>r. if rUsername r = n then f r else r) rows) =
         (if m = n' then map_option f (find (\<lambda>r. rUsername r = n) rows)
          else if m = n then None else find (\<lambda>r. rUsername r = m) rows)"
  using assms(2) by (induction rows) (auto simp: assms(1))

lemma change_row_username:
  "rUsername (change_row u totp n r) =
     (if uUsername u = '''' \<or> uUsername u = n then rUsername r else uUsername u)"
  by (simp add: change_row_def Let_def split: option.splits)

lemma change_row_fields:
  "rPasswordExpired (change_row u totp n r) = (case uPasswordExpired u of None \<Rightarrow> rPasswordExpired r | Some b \<Rightarrow> b)"
  "rTwoFASendTo (change_row u totp n r) = (if uTwoFASendTo u = '''' then rTwoFASendTo r else uTwoFASendTo u)"
  "rTotP (change_row u totp n r) = (if uTotP u = '''' then rTotP r else totp)"
  by (simp_all add: change_row_def Let_def split: option.splits)

lemma insert_groups_Inr:
  "insert_groups env n gs rows = Inr rows' \<Longrightarrow> set rows' = set rows \<union> {n} \<times> set gs"
  by (induction gs arbitrary: rows) (auto simp: exec_eq_Inr split: if_splits)

lemma rename_groups_Inr:
  "rename_groups env old new rows = Inr rows' \<Longrightarrow>
   set rows' = (if new = '''' \<or> old = new then set rows
                else (\<lambda>(n, g). if n = old then (new, g) else (n, g)) ` set rows)"
  by (cases "new = '''' \<or> old = new")
    (simp_all add: rename_groups_def exec_eq_Inr Let_def split: if_split_asm, metis list.set_map)

lemma UserDatabase_Update_groups:
  assumes "UserDatabase_Update env u n d = Inr d1"
  defines "n' \<equiv> (if uUsername u \<noteq> '''' then uUsername u else n)"
  shows "uGroups u = Some gs \<Longrightarrow> db_groups d1 n' = set gs"
    and "m \<noteq> n \<Longrightarrow> m \<noteq> n' \<Longrightarrow> db_groups d1 m = db_groups d m"
proof -
  from assms(1) obtain ut gt gt1 gt2 where
      gt: "rename_groups env n (uUsername u) (groupsTable d) = Inr gt"
    and gt1: "(case uGroups u of None \<Rightarrow> Inr gt
               | Some _ \<Rightarrow> exec env DelUserGroups (Inr (filter (\<lambda>(x, g). x \<noteq> n') gt))) = Inr gt1"
    and gt2: "insert_groups env n' (groups_of u) gt1 = Inr gt2"
    and d1: "d1 = d\<lparr>usersTable := ut, groupsTable := gt2\<rparr>"
    unfolding n'_def by (rule UserDatabase_Update_Inr)
  have t: "groupsTable d1 = gt2" by (simp add: d1)
  note r = rename_groups_Inr [OF gt] and i = insert_groups_Inr [OF gt2]
  show "uGroups u = Some gs \<Longrightarrow> db_groups d1 n' = set gs"
    using gt1 i t by (auto simp: db_groups_def groups_of_def exec_eq_Inr)
  have "(m, g) \<in> set gt1 \<longleftrightarrow> (m, g) \<in> set gt" if "m \<noteq> n'" for g
    using gt1 that by (cases "uGroups u") (auto simp: exec_eq_Inr)
  moreover have "(m, g) \<in> set gt \<longleftrightarrow> (m, g) \<in> set (groupsTable d)" if "m \<noteq> n" "m \<noteq> n'" for g
    using r that by (force simp: n'_def split: if_splits)
  ultimately show "m \<noteq> n \<Longrightarrow> m \<noteq> n' \<Longrightarrow> db_groups d1 m = db_groups d m"
    using i t by (auto simp: db_groups_def)
qed

lemma UserDatabase_Update_rows:
  assumes "UserDatabase_Update env u n d = Inr d1"
  defines "n' \<equiv> (if uUsername u \<noteq> '''' then uUsername u else n)"
  assumes free: "n' \<noteq> n \<longrightarrow> db_row d n' = None"
  obtains totp where "uTotP u \<noteq> '''' \<longrightarrow> encryptTotP env d (uTotP u) = Inr totp"
    "\<forall>m. db_row d1 m = (if m = n' then map_option (change_row u totp n) (db_row d n)
                        else if m = n then None else db_row d m)"
proof -
  from assms(1) obtain totp ut gt where ut: "update_users env u totp n (usersTable d) = Inr ut"
    and e: "(if uTotP u \<noteq> '''' then encryptTotP env d (uTotP u) else Inr '''') = Inr totp"
    and d1: "d1 = d\<lparr>usersTable := ut, groupsTable := gt\<rparr>" and n: "n \<noteq> ''''"
    by (rule UserDatabase_Update_Inr)
  have "db_row d1 m = (if m = n' then map_option (change_row u totp n) (db_row d n)
                        else if m = n then None else db_row d m)" for m
    using find_map_rename [of n "change_row u totp n" n' "usersTable d" m] free d1
    by (auto simp: db_row_def update_users_Inr [OF ut n] change_row_username n'_def)
  moreover have "uTotP u \<noteq> '''' \<longrightarrow> encryptTotP env d (uTotP u) = Inr totp" using e by (auto split: if_splits)
  ultimately show ?thesis using that by blast
qed

lemma updateUser_db:
  assumes "updateUser env u n (UserDatabase d) = (None, p)"
  defines "n' \<equiv> (if uUsername u \<noteq> '''' then uUsername u else n)"
  obtains d1 where "p = UserDatabase d1" "UserDatabase_Update env u n d = Inr d1"
    "db_row d n \<noteq> None" "n' \<noteq> n \<longrightarrow> db_row d n' = None"
proof -
  have get_None: "UserDatabase_GetByUsername env d m = Inr None \<Longrightarrow> db_row d m = None" for m
    by (auto simp: UserDatabase_GetByUsername_def db_row_def exec_eq_Inr bind_res_eq_Inr Let_def split: option.splits)
  have get_Some: "UserDatabase_GetByUsername env d m = Inr (Some x) \<Longrightarrow> db_row d m \<noteq> None" for m x
    by (auto simp: UserDatabase_GetByUsername_def db_row_def exec_eq_Inr split: option.splits)
  from assms(1) show ?thesis using that get_None get_Some
    by (auto simp: updateUser_def from_db_def n'_def split: sum.splits option.splits if_splits)
qed

section \<open>Properties\<close>

text \<open>
  C12: No plaintext password is ever stored or served. Started from any of the three configurations, and
  after any sequence of user and group operations, of which each may fail at any database statement or
  file access, every user the service returns has a bcrypt hash as password, or an empty one, which no
  login accepts.
\<close>

theorem no_plaintext_passwords:
  assumes "bcrypt_spec env" "started env (asProvider as)" "run service_step as es as'"
    and "GetByUsername env' (asProvider as') name = Inr (Some u)"
  shows "IsBcryptHash (uPassword u) \<or> uPassword u = ''''"
  using us.run_keeps [OF assms(3) started_safe [OF assms(1,2)]] assms(4) by (rule ps.get_safe)

definition example_env :: users_env where
  "example_env = \<lparr>env_db = (\<lambda>_. None), env_read = None, env_save = None, env_gcm = toy_aead, env_nonce = Inr (replicate 12 CHR ''n''),
     env_bcrypt = (\<lambda>pw. Inr (''$2a$10$'' @ pw)), env_zxcvbn = (\<lambda>_ _. 4), env_receiver = None\<rparr>"

definition example_user :: user where
  "example_user = \<lparr>uUsername = ''bob'', uPassword = ''correct horse'', uPasswordExpired = None,
     uGroups = Some [''ops''], uTwoFASendTo = '''', uTotP = ''''\<rparr>"

definition example_db :: user_database where
  "example_db = \<lparr>usersTable = [], groupsTable = [], detailsTable = [], hasDetailsTable = True,
     twoFAOn = False, totPOn = False, db_enc = NewEnvelope ''''\<rparr>"

definition example_service :: api_service where
  "example_service = \<lparr>asProvider = UserDatabase example_db, asTwoFAOn = False, asPasswordMinLength = 8, asZxcvbnMinscore = 0\<rparr>"

lemmas example_defs = example_env_def example_user_def example_db_def example_service_def

lemma example_bcrypt: "bcrypt_spec example_env"
  by (simp add: bcrypt_spec_def example_env_def)

lemmas db_defs = UserDatabase_GetByUsername_def UserDatabase_Add_def UserDatabase_GetGroup_def exec_def
  encryptTotP_def decryptTotP_def Decrypt_def IsEncrypted_def envelopePrefix_def row_user_def member_groups_def new_row_def
  groups_of_def

lemmas change_defs = Change_def validate_def validate_identity_def validate_password_def validate_receiver_def
  change_hashed_def addUser_def updateUser_def from_db_def GenerateTokenHash_def replace_first_def trim_space_def is_space_def

theorem no_plaintext_passwords_witness:
  "\<exists>u. GetByUsername example_env (asProvider (snd (Change example_env example_user '''' example_service))) ''bob'' = Inr (Some u) \<and>
       uPassword u = ''$2y$10$correct horse'' \<and> (IsBcryptHash (uPassword u) \<or> uPassword u = '''')"
proof -
  let ?as = "snd (Change example_env example_user '''' example_service)"
  have st: "started example_env (asProvider example_service)"
    unfolding started_def
    by (rule disjI1, rule exI [of _ example_db])
      (simp add: newAPIAuthDatabase_def encryptExistingTotP_def rejectPlaintextPasswords_def exec_def example_defs)
  have r: "run service_step example_service [Changed example_env example_user ''''] ?as"
    by (simp add: run_Cons_iff service_step_changed example_bcrypt)
  have "\<exists>u. GetByUsername example_env (asProvider ?as) ''bob'' = Inr (Some u) \<and> uPassword u = ''$2y$10$correct horse''"
    by (simp add: example_defs change_defs db_defs)
  with no_plaintext_passwords [OF example_bcrypt st r] show ?thesis by blast
qed

lemma Change_Some:
  assumes "asProvider as = UserDatabase d" "name \<noteq> ''''" "Change env usr name as = (None, as')"
  obtains h where "(if uPassword usr = '''' then Inr '''' else GenerateTokenHash env (uPassword usr)) = Inr h"
    "updateUser env (usr\<lparr>uPassword := h\<rparr>) name (UserDatabase d) = (None, asProvider as')"
  using assms by (auto simp: Change_def change_hashed_def split: list.splits sum.splits prod.splits)

text \<open>Changing a user of the database changes that user and nobody else. If \<open>Change\<close> succeeds on an existing
  user, the row under the new name is the old row with exactly the given fields replaced, the password by
  its hash and the TOTP secret by its encryption; the old name is free if it changed; given groups replace
  the old ones; and the rows and groups of all other users are the same as before.
\<close>

theorem Change_user_exact:
  assumes "bcrypt_spec env" "asProvider as = UserDatabase d" "name \<noteq> ''''" "Change env usr name as = (None, as')"
    and new: "new = (if uUsername usr \<noteq> '''' then uUsername usr else name)"
  shows "\<exists>d' r r'. asProvider as' = UserDatabase d' \<and> db_row d name = Some r \<and> db_row d' new = Some r' \<and>
           (if uPassword usr = '''' then rPassword r' = rPassword r
            else GenerateTokenHash env (uPassword usr) = Inr (rPassword r')) \<and>
           rPasswordExpired r' = (case uPasswordExpired usr of None \<Rightarrow> rPasswordExpired r | Some b \<Rightarrow> b) \<and>
           rTwoFASendTo r' = (if uTwoFASendTo usr = '''' then rTwoFASendTo r else uTwoFASendTo usr) \<and>
           (if uTotP usr = '''' then rTotP r' = rTotP r else encryptTotP env d (uTotP usr) = Inr (rTotP r')) \<and>
           (new \<noteq> name \<longrightarrow> db_row d' name = None) \<and>
           (\<forall>gs. uGroups usr = Some gs \<longrightarrow> db_groups d' new = set gs) \<and>
           (\<forall>m. m \<noteq> name \<and> m \<noteq> new \<longrightarrow> db_row d' m = db_row d m \<and> db_groups d' m = db_groups d m)"
proof -
  from assms(2-4) obtain h where
      h: "(if uPassword usr = '''' then Inr '''' else GenerateTokenHash env (uPassword usr)) = Inr h"
    and up: "updateUser env (usr\<lparr>uPassword := h\<rparr>) name (UserDatabase d) = (None, asProvider as')"
    by (rule Change_Some)
  let ?u = "usr\<lparr>uPassword := h\<rparr>"
  have n': "(if uUsername ?u \<noteq> '''' then uUsername ?u else name) = new" by (simp add: new)
  obtain d' where d': "asProvider as' = UserDatabase d'" "UserDatabase_Update env ?u name d = Inr d'"
      "db_row d name \<noteq> None" "new \<noteq> name \<longrightarrow> db_row d new = None"
    by (rule updateUser_db [OF up, unfolded n'])
  obtain totp where totp: "uTotP ?u \<noteq> '''' \<longrightarrow> encryptTotP env d (uTotP ?u) = Inr totp"
      and rows: "\<forall>m. db_row d' m = (if m = new then map_option (change_row ?u totp name) (db_row d name)
                        else if m = name then None else db_row d m)"
    by (rule UserDatabase_Update_rows [OF d'(2), unfolded n', OF d'(4)])
  from d'(3) obtain r where r: "db_row d name = Some r" by blast
  have grp: "uGroups usr = Some gs \<Longrightarrow> db_groups d' new = set gs"
      "m \<noteq> name \<Longrightarrow> m \<noteq> new \<Longrightarrow> db_groups d' m = db_groups d m" for gs m
    using UserDatabase_Update_groups [OF d'(2), unfolded n'] by simp_all
  have "uPassword usr \<noteq> '''' \<Longrightarrow> h \<noteq> ''''" using h GenerateTokenHash_bcrypt [OF assms(1)] by fastforce
  then have pw: "if uPassword usr = '''' then rPassword (change_row ?u totp name r) = rPassword r
            else GenerateTokenHash env (uPassword usr) = Inr (rPassword (change_row ?u totp name r))"
    using h by (simp add: change_row_password split: if_splits)
  show ?thesis
    by (intro exI [of _ d'] exI [of _ r] exI [of _ "change_row ?u totp name r"] conjI)
      (use d'(1) r rows grp pw totp in \<open>simp_all add: change_row_fields\<close>)
qed

definition bob_db :: user_database where
  "bob_db = example_db\<lparr>usersTable := [\<lparr>rUsername = ''bob'', rPassword = ''$2y$10$old'', rPasswordExpired = True,
       rTwoFASendTo = '''', rTotP = ''''\<rparr>], groupsTable := [(''bob'', ''ops'')]\<rparr>"

definition rename_bob :: user where
  "rename_bob = example_user\<lparr>uUsername := ''rob'', uPassword := ''battery staple'', uGroups := Some [''dev'']\<rparr>"

lemma rename_bob_succeeds:
  "fst (Change example_env rename_bob ''bob'' (example_service\<lparr>asProvider := UserDatabase bob_db\<rparr>)) = None"
  by (simp add: bob_db_def rename_bob_def example_defs change_defs db_defs UserDatabase_Update_def update_users_def
      rename_groups_def)

theorem Change_user_exact_witness:
  "\<exists>d' r'. asProvider (snd (Change example_env rename_bob ''bob'' (example_service\<lparr>asProvider := UserDatabase bob_db\<rparr>))) = UserDatabase d' \<and>
     db_row d' ''rob'' = Some r' \<and> rPassword r' = ''$2y$10$battery staple'' \<and> db_groups d' ''rob'' = {''dev''} \<and>
     db_row d' ''bob'' = None"
proof -
  let ?as = "example_service\<lparr>asProvider := UserDatabase bob_db\<rparr>"
  let ?as' = "snd (Change example_env rename_bob ''bob'' ?as)"
  have c: "Change example_env rename_bob ''bob'' ?as = (None, ?as')"
    using rename_bob_succeeds by (metis prod.collapse)
  have f: "uPassword rename_bob = ''battery staple''" "uGroups rename_bob = Some [''dev'']" "uUsername rename_bob = ''rob''"
    by (simp_all add: rename_bob_def)
  have h: "GenerateTokenHash example_env ''battery staple'' = Inr ''$2y$10$battery staple''"
    by (simp add: GenerateTokenHash_def replace_first_def example_env_def)
  have ne: "''bob'' \<noteq> ''''" and new: "''rob'' = (if uUsername rename_bob \<noteq> '''' then uUsername rename_bob else ''bob'')"
    by (simp_all add: f)
  have p: "asProvider ?as = UserDatabase bob_db" by simp
  from Change_user_exact [OF example_bcrypt p ne c new] show ?thesis
  proof (elim exE conjE)
    fix d' r r'
    assume d': "asProvider ?as' = UserDatabase d'" and r': "db_row d' ''rob'' = Some r'"
      and pw: "if uPassword rename_bob = '''' then rPassword r' = rPassword r
               else GenerateTokenHash example_env (uPassword rename_bob) = Inr (rPassword r')"
      and old: "''rob'' \<noteq> ''bob'' \<longrightarrow> db_row d' ''bob'' = None"
      and gs: "\<forall>gs. uGroups rename_bob = Some gs \<longrightarrow> db_groups d' ''rob'' = set gs"
    from pw h f(1) have "rPassword r' = ''$2y$10$battery staple''" by simp
    with d' r' old gs f(2) show ?thesis by (intro exI [of _ d'] exI [of _ r']) simp
  qed
qed

text \<open>
  C27: The permission check of a route and the effective permissions shown to the user agree: a known permission
  is granted exactly if one of the user's groups has it, and the effective permissions say so. A member of
  the Administrators group passes every check whatever the group tables hold, and no group operation changes
  who is a member of it.
\<close>

theorem permission_checks_agree:
  assumes "asProvider as = UserDatabase d" "hasDetailsTable d" "q \<in> set AllPermissions"
    and "\<forall>g \<in> set (groups_of u). \<not> is_err (GetGroup env (asProvider as) g)"
  shows "(CheckPermission env as u q = None \<longleftrightarrow>
            (\<exists>g \<in> set (groups_of u). \<exists>gr. GetGroup env (asProvider as) g = Inr gr \<and> Permissions_Has (gPermissions gr) q)) \<and>
         (\<exists>m. GetEffectiveUserPermissions env as u = Inr m \<and> m q = Some (CheckPermission env as u q = None)) \<and>
         (IsAdmin u \<longrightarrow> CheckPermission env as u q = None) \<and>
         (\<exists>d'. asProvider (snd (UpdateGroup env' n gr as)) = UserDatabase d' \<and>
               {x. (x, Administrators) \<in> set (groupsTable d')} = {x. (x, Administrators) \<in> set (groupsTable d)}) \<and>
         (\<exists>d'. asProvider (snd (DeleteGroup env' n as)) = UserDatabase d' \<and>
               {x. (x, Administrators) \<in> set (groupsTable d')} = {x. (x, Administrators) \<in> set (groupsTable d)})"
proof (intro conjI)
  let ?p = "asProvider as"
  show iff: "CheckPermission env as u q = None \<longleftrightarrow>
      (\<exists>g \<in> set (groups_of u). \<exists>gr. GetGroup env ?p g = Inr gr \<and> Permissions_Has (gPermissions gr) q)"
    unfolding CheckPermission_def by (rule check_groups_None [OF assms(4)])
  obtain m where "effective_loop env ?p (groups_of u) (Permissions_All (NewPermissions [])) = Inr m"
      "m q = (if check_groups env ?p q (groups_of u) = None then Some True else Permissions_All (NewPermissions []) q)"
    using effective_loop_eq [OF assms(4,3)] by blast
  then show "\<exists>m. GetEffectiveUserPermissions env as u = Inr m \<and> m q = Some (CheckPermission env as u q = None)"
    using assms(1-3) by (auto simp: GetEffectiveUserPermissions_def CheckPermission_def Permissions_All_def
        Permissions_Has_def NewPermissions_def)
  show "IsAdmin u \<longrightarrow> CheckPermission env as u q = None"
    unfolding iff IsAdmin_def using assms(1) GetGroup_admin admin_has [OF assms(3)] by metis
  show "\<exists>d'. asProvider (snd (UpdateGroup env' n gr as)) = UserDatabase d' \<and>
      {x. (x, Administrators) \<in> set (groupsTable d')} = {x. (x, Administrators) \<in> set (groupsTable d)}"
    using assms(1,2) by (simp add: UpdateGroup_def from_db_def UserDatabase_UpdateGroup_def exec_def Let_def split: option.splits)
  show "\<exists>d'. asProvider (snd (DeleteGroup env' n as)) = UserDatabase d' \<and>
      {x. (x, Administrators) \<in> set (groupsTable d')} = {x. (x, Administrators) \<in> set (groupsTable d)}"
    using assms(1,2) by (auto simp: DeleteGroup_def from_db_def UserDatabase_DeleteGroup_def exec_def split: option.splits)
qed

theorem permission_checks_agree_witness:
  "\<exists>m. GetEffectiveUserPermissions example_env example_service (example_user\<lparr>uGroups := Some [Administrators]\<rparr>) = Inr m \<and>
       m ''vault'' = Some True"
proof -
  let ?u = "example_user\<lparr>uGroups := Some [Administrators]\<rparr>"
  have "asProvider example_service = UserDatabase example_db" "hasDetailsTable example_db" "''vault'' \<in> set AllPermissions"
    by (simp_all add: example_service_def example_db_def AllPermissions_def)
  moreover have "\<forall>g \<in> set (groups_of ?u). \<not> is_err (GetGroup example_env (asProvider example_service) g)"
    by (simp add: groups_of_def example_service_def UserDatabase_GetGroup_def)
  moreover have "IsAdmin ?u" by (simp add: IsAdmin_def groups_of_def)
  ultimately obtain m where "GetEffectiveUserPermissions example_env example_service ?u = Inr m"
      "m ''vault'' = Some (CheckPermission example_env example_service ?u ''vault'' = None)"
      "CheckPermission example_env example_service ?u ''vault'' = None"
    using permission_checks_agree [of example_service example_db "''vault''" ?u example_env] by blast
  then show ?thesis by simp
qed

end
