(* ===== verification/Auth.thy ===== *)
theory Auth
  imports Bearer BanList Tickets Users
begin

text \<open>
  Authentication of API requests: \<^verbatim>\<open>server/api_listener.go\<close> (\<^verbatim>\<open>lookupUser\<close> to \<^verbatim>\<open>wsAuth\<close>),
  \<^verbatim>\<open>server/api_middleware.go\<close>, \<^verbatim>\<open>server/api_helper_authorization.go\<close>, \<^verbatim>\<open>server/api_helper_users.go\<close> and the API
  tokens of \<^verbatim>\<open>server/api/authorization\<close>. The state \<open>api_listener\<close> composes the user service, the session cache,
  the two ban lists, the WebSocket tickets and the table of API tokens. What a request meets outside the
  program (the clock, statements the databases refuse, bcrypt, SHA-256, the JWT library) is \<open>auth_env\<close>.
\<close>

section \<open>API tokens\<close>

record api_token =
  atUsername :: string
  atPrefix :: string
  atName :: string
  atCreatedAt :: "time option"
  atExpiresAt :: "time option"
  atScope :: string
  atToken :: string

definition APITokenPrefixLength :: nat where "APITokenPrefixLength = 8"
definition APITokenRead :: string where "APITokenRead = ''read''"
definition APITokenReadWrite :: string where "APITokenReadWrite = ''read+write''"
definition APITokenClientsAuth :: string where "APITokenClientsAuth = ''clients-auth''"

definition Extract :: "string \<Rightarrow> (string \<times> string) res" where
  "Extract prefixedpwd =
     (case split_n2 (CHR ''_'') prefixedpwd of
        [pre, token] \<Rightarrow> if length pre \<noteq> APITokenPrefixLength then Inl (GoError ''invalid token'' []) else Inr (pre, token)
      | _ \<Rightarrow> Inl (GoError (''token should be in the format 'prefix_token'' @ [CHR 0x27]) []))"

definition IsValidScope :: "string \<Rightarrow> bool" where
  "IsValidScope scope \<longleftrightarrow> scope \<in> {APITokenRead, APITokenReadWrite, APITokenClientsAuth}"

definition token_db_error :: "goerr \<Rightarrow> goerr" where
  "token_db_error e = db_failed ''unable to get api token from DB'' e"

definition Tokens_Get :: "goerr option \<Rightarrow> string \<Rightarrow> string \<Rightarrow> api_token list \<Rightarrow> api_token option res" where
  "Tokens_Get err user pre rows =
     (case err of
        Some e \<Rightarrow> Inl (token_db_error e)
      | None \<Rightarrow> Inr (find (\<lambda>t. atUsername t = user \<and> atPrefix t = pre) rows))"

definition Tokens_GetByName :: "goerr option \<Rightarrow> string \<Rightarrow> string \<Rightarrow> api_token list \<Rightarrow> api_token option res" where
  "Tokens_GetByName err user name rows =
     (case err of
        Some e \<Rightarrow> Inl (token_db_error e)
      | None \<Rightarrow> Inr (find (\<lambda>t. atUsername t = user \<and> atName t = name) rows))"

definition Tokens_GetAll :: "goerr option \<Rightarrow> string \<Rightarrow> api_token list \<Rightarrow> api_token list res" where
  "Tokens_GetAll err user rows =
     (case err of
        Some e \<Rightarrow> Inl (db_failed ''unable to get api_token from DB'' e)
      | None \<Rightarrow> Inr (filter (\<lambda>t. atUsername t = user) rows))"

text \<open>An upsert on (username, prefix): a conflicting row only takes a new expiry and a new name.\<close>

definition Tokens_Save :: "goerr option \<Rightarrow> time \<Rightarrow> api_token \<Rightarrow> api_token list \<Rightarrow> goerr option \<times> api_token list" where
  "Tokens_Save err now tokenLine rows =
     (case err of
        Some e \<Rightarrow> (Some e, rows)
      | None \<Rightarrow>
          if list_ex (\<lambda>t. atUsername t = atUsername tokenLine \<and> atPrefix t = atPrefix tokenLine) rows
          then (None, map (\<lambda>t. if atUsername t = atUsername tokenLine \<and> atPrefix t = atPrefix tokenLine
                               then t\<lparr>atExpiresAt := (if atExpiresAt tokenLine \<noteq> None then atExpiresAt tokenLine else atExpiresAt t),
                                      atName := (if atName tokenLine \<noteq> '''' then atName tokenLine else atName t)\<rparr>
                               else t) rows)
          else (None, rows @ [tokenLine\<lparr>atCreatedAt := (if atCreatedAt tokenLine \<noteq> None then atCreatedAt tokenLine else Some now)\<rparr>]))"

definition checkNameExist :: "goerr option \<Rightarrow> string \<Rightarrow> string \<Rightarrow> api_token list \<Rightarrow> goerr option" where
  "checkNameExist err user name rows =
     (if name = '''' then None
      else case Tokens_GetByName err user name rows of
             Inl e \<Rightarrow> Some e
           | Inr (Some item) \<Rightarrow> Some (GoError ''A token with the same name already exists'' [])
           | Inr None \<Rightarrow> None)"

text \<open>\<^verbatim>\<open>Manager.Create\<close> and \<^verbatim>\<open>Manager.Save\<close> have the same body.\<close>

definition Manager_Save ::
    "goerr option \<Rightarrow> goerr option \<Rightarrow> time \<Rightarrow> api_token \<Rightarrow> api_token list \<Rightarrow> goerr option \<times> api_token list" where
  "Manager_Save selErr insErr now tokenLine rows =
     (case checkNameExist selErr (atUsername tokenLine) (atName tokenLine) rows of
        Some e \<Rightarrow> (Some e, rows)
      | None \<Rightarrow> Tokens_Save insErr now tokenLine rows)"

definition Manager_Delete :: "goerr option \<Rightarrow> string \<Rightarrow> string \<Rightarrow> api_token list \<Rightarrow> goerr option \<times> api_token list" where
  "Manager_Delete err user pre rows =
     (case err of
        Some e \<Rightarrow> (Some (APIError StatusInternalServerError (err_format e) (err_args e)), rows)
      | None \<Rightarrow>
          if list_ex (\<lambda>t. atUsername t = user \<and> atPrefix t = pre) rows
          then (None, filter (\<lambda>t. \<not> (atUsername t = user \<and> atPrefix t = pre)) rows)
          else (Some (APIError StatusInternalServerError ''cannot find API Token by prefix %s'' [AS pre]), rows))"

section \<open>Requests, environment and state\<close>

record http_request =
  rqMethod :: string
  rqPath :: string
  rqRemoteIP :: string
  rqRemoteAddr :: string
  rqUserAgent :: string
  rqAuthorization :: string
  rqTicket :: string

definition basic_prefix :: string where "basic_prefix = ''Basic ''"

text \<open>\<^verbatim>\<open>http.Request.BasicAuth\<close>, on the value of the header \<^verbatim>\<open>Authorization\<close>.\<close>

definition BasicAuth :: "string \<Rightarrow> (string \<times> string) option" where
  "BasicAuth auth =
     (if auth = '''' \<or> length auth < length basic_prefix \<or> \<not> equal_fold (take (length basic_prefix) auth) basic_prefix then None
      else case b64_decode (drop (length basic_prefix) auth) of
             Inl _ \<Rightarrow> None
           | Inr c \<Rightarrow> (case split_n2 (CHR '':'') c of [user, pass] \<Rightarrow> Some (user, pass) | _ \<Rightarrow> None))"

record 'c auth_env =
  ae_now :: time
  ae_users :: users_env
  ae_compare :: "string \<Rightarrow> string \<Rightarrow> bool"
  ae_fingerprint :: "string \<Rightarrow> string \<Rightarrow> string"
  ae_tokens_err :: "goerr option"
  ae_cache :: "'c cache_ops"
  ae_rowid :: "int list \<Rightarrow> int"
  ae_extend_err :: "goerr option"
  ae_access_err :: "goerr option"
  ae_jwt :: jwt_lib

record 'c api_listener =
  al_users :: api_service
  al_sessions :: "'c session_cache"
  al_bannedUsers :: ban_list
  al_bannedIPs :: "max_ban_list option"
  al_wsTickets :: wsTicketStore
  al_tokens :: "api_token list"
  al_twoFAOn :: bool
  al_totPEnabled :: bool
  al_jwtSecret :: string
  al_createMissingUsers :: bool
  al_defaultUserGroup :: string

definition ErrThatPasswordHasExpired :: goerr where
  "ErrThatPasswordHasExpired = GoError ''password has expired, please change your password'' []"
definition ErrInvalidScopeOfThatToken :: goerr where
  "ErrInvalidScopeOfThatToken = GoError ''the scope of the provided token is not authorized for this operation'' []"
definition errUnauthorized :: goerr where "errUnauthorized = GoError ''unauthorized'' []"
definition errWSTicketRequired :: goerr where "errWSTicketRequired = GoError ''ticket required'' []"

section \<open>Throttling\<close>

definition loginBanKey :: "string \<Rightarrow> string \<Rightarrow> string" where
  "loginBanKey remoteIP user = remoteIP @ ''|'' @ user"

definition handleBannedIPs :: "'c auth_env \<Rightarrow> string \<Rightarrow> bool \<Rightarrow> 'c api_listener \<Rightarrow> 'c api_listener" where
  "handleBannedIPs env remoteIP authorized al =
     (if authorized then al else al\<lparr>al_bannedIPs := map_option (AddBadAttempt (ae_now env) remoteIP) (al_bannedIPs al)\<rparr>)"

definition recordAuthSuccess :: "string \<Rightarrow> 'c api_listener \<Rightarrow> 'c api_listener" where
  "recordAuthSuccess remoteIP al = al\<lparr>al_bannedIPs := map_option (AddSuccessAttempt remoteIP) (al_bannedIPs al)\<rparr>"

definition recordFailedAuth :: "'c auth_env \<Rightarrow> http_request \<Rightarrow> bool \<Rightarrow> 'c api_listener \<Rightarrow> 'c api_listener" where
  "recordFailedAuth env r isBearerOnly al =
     (let bad = map_option (AddBadAttempt (ae_now env) (rqRemoteIP r)) (al_bannedIPs al)
      in al\<lparr>al_bannedIPs :=
           (if \<not> isBearerOnly \<and> BasicAuth (rqAuthorization r) \<noteq> None then bad
            else case GetBearerToken (rqAuthorization r) of
                   Some token \<Rightarrow>
                     map_option (AddDistinctBadAttempt (ae_now env) (rqRemoteIP r) (ae_fingerprint env ''bearer'' token)) (al_bannedIPs al)
                 | None \<Rightarrow> bad)\<rparr>)"

definition ban_user :: "'c auth_env \<Rightarrow> string \<Rightarrow> string \<Rightarrow> 'c api_listener \<Rightarrow> 'c api_listener" where
  "ban_user env remoteIP user al = al\<lparr>al_bannedUsers := BanList_Add (ae_now env) (loginBanKey remoteIP user) (al_bannedUsers al)\<rparr>"

definition user_banned :: "'c auth_env \<Rightarrow> string \<Rightarrow> string \<Rightarrow> 'c api_listener \<Rightarrow> bool" where
  "user_banned env remoteIP user al \<longleftrightarrow> BanList_IsBanned (ae_now env) (loginBanKey remoteIP user) (al_bannedUsers al)"

section \<open>Basic authentication\<close>

definition hasBcryptPrefix :: "string \<Rightarrow> bool" where
  "hasBcryptPrefix s \<longleftrightarrow> list_ex (has_prefix s) [''$2y$'', ''$2a$'', ''$2b$'']"

definition verifyPassword :: "'c auth_env \<Rightarrow> string \<Rightarrow> string \<Rightarrow> bool" where
  "verifyPassword env saved provided \<longleftrightarrow> hasBcryptPrefix saved \<and> ae_compare env saved provided"

definition routeMatches :: "string \<Rightarrow> string \<Rightarrow> bool" where
  "routeMatches urlpath route \<longleftrightarrow>
     (let full = ''/api/v1'' @ route
      in urlpath = route \<or> urlpath = full \<or> has_prefix urlpath (route @ ''/'') \<or> has_prefix urlpath (full @ ''/''))"

definition readScopeDenied :: "string \<Rightarrow> bool" where
  "readScopeDenied urlpath \<longleftrightarrow>
     list_ex (routeMatches urlpath) [''/ws'', ''/ws-ticket'', ''/me/totp-secret''] \<or>
     has_prefix urlpath ''/vault/'' \<or> has_prefix urlpath ''/api/v1/vault/''"

text \<open>The answer is \<open>(authorized, name)\<close> or an error.\<close>

definition check_user_token :: "'c auth_env \<Rightarrow> string \<Rightarrow> string \<Rightarrow> string \<Rightarrow> string \<Rightarrow> 'c api_listener \<Rightarrow> (bool \<times> string) res" where
  "check_user_token env httpverb urlpath user pw al =
     (case Extract pw of
        Inl _ \<Rightarrow> Inr (False, user)
      | Inr (pre, secret) \<Rightarrow>
          (case Tokens_Get (ae_tokens_err env) user pre (al_tokens al) of
             Inl e \<Rightarrow> Inl e
           | Inr None \<Rightarrow> Inr (False, user)
           | Inr (Some userToken) \<Rightarrow>
               if (case atExpiresAt userToken of Some t \<Rightarrow> t < ae_now env | None \<Rightarrow> False) then Inr (False, user)
               else if \<not> verifyPassword env (atToken userToken) secret then Inr (False, user)
               else if atScope userToken = APITokenRead \<and> httpverb = ''GET'' \<and> \<not> readScopeDenied urlpath then Inr (True, user)
               else if atScope userToken = APITokenReadWrite then Inr (True, user)
               else if atScope userToken = APITokenClientsAuth \<and> routeMatches urlpath ''/clients-auth'' then Inr (True, user)
               else Inl ErrInvalidScopeOfThatToken))"

definition handleBasicAuth ::
    "'c auth_env \<Rightarrow> string \<Rightarrow> string \<Rightarrow> string \<Rightarrow> string \<Rightarrow> string \<Rightarrow> 'c api_listener \<Rightarrow> (bool \<times> string) res" where
  "handleBasicAuth env httpverb urlpath remoteIP user pw al =
     (if user_banned env remoteIP user al then Inl ErrTooManyRequests
      else if user = '''' then Inr (False, '''')
      else case GetByUsername (ae_users env) (asProvider (al_users al)) user of
             Inl e \<Rightarrow> Inl (db_failed ''failed to get user'' e)
           | Inr None \<Rightarrow> Inr (False, user)
           | Inr (Some u) \<Rightarrow>
               if uPasswordExpired u = Some True then Inl ErrThatPasswordHasExpired
               else if \<not> al_twoFAOn al \<and> \<not> al_totPEnabled al \<and> verifyPassword env (uPassword u) pw then Inr (True, user)
               else check_user_token env httpverb urlpath user pw al)"

section \<open>Bearer tokens\<close>

definition checkBearerToken ::
    "'c auth_env \<Rightarrow> string \<Rightarrow> string \<Rightarrow> string \<Rightarrow> string \<Rightarrow> 'c api_listener
       \<Rightarrow> (bool \<times> token_context option) res \<times> 'c api_listener" where
  "checkBearerToken env bearerToken uri m remoteIP al =
     (case ParseToken (ae_jwt env) (ae_now env) bearerToken (al_jwtSecret al) of
        Inl e \<Rightarrow> (Inr (False, None), al)
      | Inr tokenCtx \<Rightarrow>
          if user_banned env remoteIP (tUsername (AppClaims tokenCtx)) al then (Inl ErrTooManyRequests, al)
          else case ValidateBearerToken (ae_cache env) (ae_now env) tokenCtx uri m (al_sessions al) of
                 None \<Rightarrow> (Inr (False, Some tokenCtx), al)
               | Some apiSession \<Rightarrow>
                   (Inr (True, Some tokenCtx),
                    al\<lparr>al_sessions := snd (IncreaseSessionLifetime (ae_cache env) (ae_extend_err env) (ae_rowid env)
                                            (ae_now env) apiSession (al_sessions al))\<rparr>))"

definition lookupUser :: "'c auth_env \<Rightarrow> http_request \<Rightarrow> bool \<Rightarrow> 'c api_listener \<Rightarrow> (bool \<times> string) res \<times> 'c api_listener" where
  "lookupUser env r isBearerOnly al =
     (case (if isBearerOnly then None else BasicAuth (rqAuthorization r)) of
        Some (basicUser, basicPwd) \<Rightarrow>
          (handleBasicAuth env (rqMethod r) (rqPath r) (rqRemoteIP r) basicUser basicPwd al, al)
      | None \<Rightarrow>
          (case GetBearerToken (rqAuthorization r) of
             None \<Rightarrow> (Inr (False, ''''), al)
           | Some bearerToken \<Rightarrow>
               (case checkBearerToken env bearerToken (rqPath r) (rqMethod r) (rqRemoteIP r) al of
                  (Inl e, al1) \<Rightarrow> (Inl e, al1)
                | (Inr (isAuthorized, token), al1) \<Rightarrow>
                    (case token of
                       None \<Rightarrow> (Inr (isAuthorized, ''''), al1)
                     | Some tokenCtx \<Rightarrow>
                         (Inr (isAuthorized, if isAuthorized then tUsername (AppClaims tokenCtx) else ''''), al1)))))"

section \<open>Middleware\<close>

text \<open>A middleware either answers the request or passes it on with the name of the user in its context.\<close>

datatype outcome = Deny int goerr | Serve string

definition updateTokenAccess :: "'c auth_env \<Rightarrow> http_request \<Rightarrow> string \<Rightarrow> 'c api_listener \<Rightarrow> goerr option \<times> 'c api_listener" where
  "updateTokenAccess env r token al =
     (case ParseToken (ae_jwt env) (ae_now env) token (al_jwtSecret al) of
        Inl e \<Rightarrow> (Some e, al)
      | Inr tokenCtx \<Rightarrow>
          if \<not> JwtValid tokenCtx then (Some (GoError ''jwt token is invalid'' []), al)
          else case Cache_Get (ae_cache env) (ae_now env) (tSessionID (AppClaims tokenCtx)) (al_sessions al) of
                 None \<Rightarrow> (None, al)
               | Some sessionInfo \<Rightarrow>
                   (case Cache_Save (ae_cache env) (ae_access_err env) (ae_rowid env) (ae_now env)
                          (sessionInfo\<lparr>sLastAccessAt := ae_now env, sUserAgent := rqUserAgent r, sIPAddress := rqRemoteAddr r\<rparr>)
                          (al_sessions al) of
                      (Inl e, p) \<Rightarrow> (Some e, al\<lparr>al_sessions := p\<rparr>)
                    | (Inr _, p) \<Rightarrow> (None, al\<lparr>al_sessions := p\<rparr>)))"

definition auth_error_status :: "goerr \<Rightarrow> int" where
  "auth_error_status e =
     (if e = ErrTooManyRequests then StatusTooManyRequests
      else if e = ErrInvalidScopeOfThatToken then StatusForbidden
      else if e = ErrThatPasswordHasExpired then StatusUnauthorized
      else StatusInternalServerError)"

definition deny_error :: "goerr \<Rightarrow> outcome" where
  "deny_error e = (case e of APIError s f as \<Rightarrow> Deny s e | GoError f as \<Rightarrow> Deny StatusInternalServerError e)"

definition wrapWithAuthMiddleware :: "'c auth_env \<Rightarrow> bool \<Rightarrow> http_request \<Rightarrow> 'c api_listener \<Rightarrow> outcome \<times> 'c api_listener" where
  "wrapWithAuthMiddleware env isBearerOnly r al =
     (case lookupUser env r isBearerOnly al of
        (Inl e, al1) \<Rightarrow> (Deny (auth_error_status e) e, al1)
      | (Inr (authorized, name), al1) \<Rightarrow>
          (let al2 = (if \<not> authorized then recordFailedAuth env r isBearerOnly al1 else al1) in
           if \<not> authorized \<or> name = ''''
           then (Deny StatusUnauthorized errUnauthorized, if name \<noteq> '''' then ban_user env (rqRemoteIP r) name al2 else al2)
           else case GetBearerToken (rqAuthorization r) of
                  None \<Rightarrow> (Serve name, al2)
                | Some token \<Rightarrow>
                    (case updateTokenAccess env r token al2 of
                       (Some e, al3) \<Rightarrow> (deny_error e, al3)
                     | (None, al3) \<Rightarrow> (Serve name, al3))))"

definition wsAuth :: "'c auth_env \<Rightarrow> http_request \<Rightarrow> 'c api_listener \<Rightarrow> outcome \<times> 'c api_listener" where
  "wsAuth env r al =
     (let finish = (\<lambda>authorized name al1.
            (let al2 = handleBannedIPs env (rqRemoteIP r) authorized al1 in
             if \<not> authorized \<or> name = ''''
             then (Deny StatusUnauthorized errUnauthorized, if name \<noteq> '''' then ban_user env (rqRemoteIP r) name al2 else al2)
             else (Serve name, al2)))
      in if rqTicket r \<noteq> ''''
         then (case redeem (ae_now env) (rqTicket r) (al_wsTickets al) of
                 (None, st) \<Rightarrow> finish False '''' (al\<lparr>al_wsTickets := st\<rparr>)
               | (Some name, st) \<Rightarrow> finish True name (al\<lparr>al_wsTickets := st\<rparr>))
         else case BasicAuth (rqAuthorization r) of
                None \<Rightarrow> (Deny StatusUnauthorized errWSTicketRequired, handleBannedIPs env (rqRemoteIP r) False al)
              | Some (basicUser, basicPwd) \<Rightarrow>
                  (case handleBasicAuth env (rqMethod r) (rqPath r) (rqRemoteIP r) basicUser basicPwd al of
                     Inl e \<Rightarrow> (Deny (if e = ErrTooManyRequests then StatusTooManyRequests else StatusInternalServerError) e, al)
                   | Inr (authorized, name) \<Rightarrow> finish authorized name al))"

definition getUserModel :: "'c auth_env \<Rightarrow> string \<Rightarrow> 'c api_listener \<Rightarrow> user option res" where
  "getUserModel env curUsername al =
     (if curUsername = '''' then Inr None else GetByUsername (ae_users env) (asProvider (al_users al)) curUsername)"

definition getUserModelForAuth :: "'c auth_env \<Rightarrow> string \<Rightarrow> 'c api_listener \<Rightarrow> user res" where
  "getUserModelForAuth env curUsername al =
     (case getUserModel env curUsername al of
        Inl e \<Rightarrow> Inl (APIError StatusInternalServerError (err_format e) (err_args e))
      | Inr None \<Rightarrow> Inl (APIError StatusUnauthorized ''unauthorized access'' [])
      | Inr (Some usr) \<Rightarrow> Inr usr)"

definition wrapStaticPassModeMiddleware :: "string \<Rightarrow> 'c api_listener \<Rightarrow> outcome" where
  "wrapStaticPassModeMiddleware name al =
     (case asProvider (al_users al) of
        StaticProvider _ \<Rightarrow>
          deny_error (APIError StatusBadRequest
            ''server runs on a static user-password pair, please use JSON file or database for user data'' [])
      | _ \<Rightarrow> Serve name)"

definition wrapAdminAccessMiddleware :: "'c auth_env \<Rightarrow> bool \<Rightarrow> string \<Rightarrow> 'c api_listener \<Rightarrow> outcome" where
  "wrapAdminAccessMiddleware env insecureForTests name al =
     (if insecureForTests then Serve name
      else case getUserModelForAuth env name al of
             Inl e \<Rightarrow> deny_error e
           | Inr u \<Rightarrow>
               if IsAdmin u then Serve name
               else deny_error (APIError StatusForbidden ''current user should belong to %s group to access this resource'' [AS Administrators]))"

definition wrapTotPEnabledMiddleware :: "string \<Rightarrow> 'c api_listener \<Rightarrow> outcome" where
  "wrapTotPEnabledMiddleware name al =
     (if \<not> al_totPEnabled al then Deny StatusBadRequest (GoError ''TotP is disabled'' []) else Serve name)"

definition permissionsMiddleware :: "'c auth_env \<Rightarrow> bool \<Rightarrow> string \<Rightarrow> string \<Rightarrow> 'c api_listener \<Rightarrow> outcome" where
  "permissionsMiddleware env insecureForTests permission name al =
     (if insecureForTests then Serve name
      else case getUserModelForAuth env name al of
             Inl e \<Rightarrow> deny_error e
           | Inr currUser \<Rightarrow>
               if SupportsGroupPermissions (asProvider (al_users al))
               then (case CheckPermission (ae_users env) (al_users al) currUser permission of
                       Some e \<Rightarrow> deny_error e
                     | None \<Rightarrow> Serve name)
               else Serve name)"

section \<open>Password logins\<close>

definition shouldCreateMissingUser :: "user option \<Rightarrow> bool \<Rightarrow> 'c api_listener \<Rightarrow> bool" where
  "shouldCreateMissingUser u skipPasswordValidation al \<longleftrightarrow>
     (if u \<noteq> None \<or> \<not> skipPasswordValidation then False else al_createMissingUsers al)"

text \<open>The answer is \<open>(ok, user)\<close>; \<open>rnd\<close> is the random password of a user created on the fly. The user the source
  keeps then is the record it passed to \<^verbatim>\<open>Change\<close>, whose password \<^verbatim>\<open>Change\<close> has replaced by its hash, which
  no caller looks at.\<close>

definition validateCredentials ::
    "'c auth_env \<Rightarrow> string res \<Rightarrow> string \<Rightarrow> string \<Rightarrow> bool \<Rightarrow> 'c api_listener
       \<Rightarrow> (bool \<times> user option) res \<times> 'c api_listener" where
  "validateCredentials env rnd user pw skipPasswordValidation al =
     (if user = '''' then (Inr (False, None), al)
      else case GetByUsername (ae_users env) (asProvider (al_users al)) user of
        Inl e \<Rightarrow> (Inl (db_failed ''failed to get user'' e), al)
      | Inr u \<Rightarrow>
          if shouldCreateMissingUser u skipPasswordValidation al
          then (case rnd of
                  Inl e \<Rightarrow> (Inl e, al)
                | Inr pswd \<Rightarrow>
                    (let new = \<lparr>uUsername = user, uPassword = pswd, uPasswordExpired = None, uGroups = Some [al_defaultUserGroup al],
                                uTwoFASendTo = '''', uTotP = ''''\<rparr>
                     in case Change (ae_users env) new '''' (al_users al) of
                          (Some e, as) \<Rightarrow> (Inl (db_failed ''failed to create missing user'' e), al\<lparr>al_users := as\<rparr>)
                        | (None, as) \<Rightarrow> (Inr (True, Some new), al\<lparr>al_users := as\<rparr>)))
          else (case u of
                  None \<Rightarrow> (Inr (False, None), al)
                | Some usr \<Rightarrow>
                    if skipPasswordValidation then (Inr (True, Some usr), al)
                    else (Inr (verifyPassword env (uPassword usr) pw, Some usr), al)))"

section \<open>Which credentials are accepted\<close>

definition scope_permits :: "string \<Rightarrow> string \<Rightarrow> string \<Rightarrow> bool" where
  "scope_permits scope httpverb urlpath \<longleftrightarrow>
     scope = ''read+write'' \<or>
     scope = ''read'' \<and> httpverb = ''GET'' \<and> \<not> readScopeDenied urlpath \<or>
     scope = ''clients-auth'' \<and> routeMatches urlpath ''/clients-auth''"

text \<open>The password is an eight character prefix, an underscore and the secret of a token of the user.\<close>

definition token_credential :: "'c auth_env \<Rightarrow> string \<Rightarrow> string \<Rightarrow> string \<Rightarrow> string \<Rightarrow> 'c api_listener \<Rightarrow> bool" where
  "token_credential env httpverb urlpath user pw al \<longleftrightarrow>
     (\<exists>pre secret t. pw = pre @ ''_'' @ secret \<and> CHR ''_'' \<notin> set pre \<and> length pre = 8 \<and> ae_tokens_err env = None \<and>
        find (\<lambda>t. atUsername t = user \<and> atPrefix t = pre) (al_tokens al) = Some t \<and>
        (\<forall>e. atExpiresAt t = Some e \<longrightarrow> ae_now env \<le> e) \<and>
        verifyPassword env (atToken t) secret \<and> scope_permits (atScope t) httpverb urlpath)"

lemma split_n2_pair: "split_n2 c s = [a, b] \<longleftrightarrow> s = a @ c # b \<and> c \<notin> set a"
proof
  show "split_n2 c s = [a, b] \<Longrightarrow> s = a @ c # b \<and> c \<notin> set a"
  proof (induction s arbitrary: a)
    case (Cons x s)
    then show ?case by (cases "x = c") (auto split: list.splits)
  qed simp
  assume "s = a @ c # b \<and> c \<notin> set a"
  then show "split_n2 c s = [a, b]" by (induction a arbitrary: s) auto
qed

lemma Extract_Inr: "Extract pw = Inr (pre, secret) \<longleftrightarrow> pw = pre @ ''_'' @ secret \<and> CHR ''_'' \<notin> set pre \<and> length pre = 8"
  using split_n2_pair [of "CHR ''_''" pw pre secret]
  by (auto simp: Extract_def APITokenPrefixLength_def split: list.splits if_splits)

lemma check_user_token_iff:
  "check_user_token env httpverb urlpath user pw al = Inr (True, name) \<longleftrightarrow>
     name = user \<and> token_credential env httpverb urlpath user pw al"
proof (cases "Extract pw")
  case (Inl e)
  then have "\<nexists>pre secret. pw = pre @ ''_'' @ secret \<and> CHR ''_'' \<notin> set pre \<and> length pre = 8"
    using Extract_Inr [of pw] by auto
  with Inl show ?thesis by (auto simp: check_user_token_def token_credential_def)
next
  case (Inr r)
  obtain pre secret where r: "r = (pre, secret)" by (cases r)
  have u: "pw = pre' @ ''_'' @ secret' \<and> CHR ''_'' \<notin> set pre' \<and> length pre' = 8 \<longleftrightarrow> pre' = pre \<and> secret' = secret" for pre' secret'
    unfolding Extract_Inr [symmetric] using Inr r by auto
  have u': "(\<exists>pre' secret' t. pw = pre' @ ''_'' @ secret' \<and> CHR ''_'' \<notin> set pre' \<and> length pre' = 8 \<and> Q pre' secret' t)
      \<longleftrightarrow> (\<exists>t. Q pre secret t)" for Q :: "string \<Rightarrow> string \<Rightarrow> api_token \<Rightarrow> bool"
    using u by (metis (no_types))
  have t: "token_credential env httpverb urlpath user pw al \<longleftrightarrow>
     (\<exists>t. ae_tokens_err env = None \<and> find (\<lambda>t. atUsername t = user \<and> atPrefix t = pre) (al_tokens al) = Some t \<and>
        (\<forall>e. atExpiresAt t = Some e \<longrightarrow> ae_now env \<le> e) \<and>
        verifyPassword env (atToken t) secret \<and> scope_permits (atScope t) httpverb urlpath)"
    unfolding token_credential_def by (rule u')
  have g: "(case atExpiresAt t of Some x \<Rightarrow> x < ae_now env | None \<Rightarrow> False) = (\<not> (\<forall>e. atExpiresAt t = Some e \<longrightarrow> ae_now env \<le> e))" for t
    by (cases "atExpiresAt t") auto
  have sc: "(if s = APITokenRead \<and> httpverb = ''GET'' \<and> \<not> readScopeDenied urlpath then Inr (True, user)
               else if s = APITokenReadWrite then Inr (True, user)
               else if s = APITokenClientsAuth \<and> routeMatches urlpath ''/clients-auth'' then Inr (True, user)
               else Inl ErrInvalidScopeOfThatToken) = Inr (True, name) \<longleftrightarrow> name = user \<and> scope_permits s httpverb urlpath" for s
    by (auto simp: scope_permits_def APITokenRead_def APITokenReadWrite_def APITokenClientsAuth_def)
  show ?thesis
  proof (cases "ae_tokens_err env")
    case None
    show ?thesis
      by (cases "find (\<lambda>t. atUsername t = user \<and> atPrefix t = pre) (al_tokens al)")
         (auto simp: t check_user_token_def Inr r Tokens_Get_def None g sc)
  qed (auto simp: t check_user_token_def Inr r Tokens_Get_def)
qed

text \<open>C37: Basic authentication accepts a request exactly when the named user exists, is not throttled from this
  address and has no expired password, and either no second factor is configured and the password matches the
  stored bcrypt hash, or the password is an unexpired API token of that user whose scope covers the method and
  the path. In particular a password never suffices where a second factor is configured, and a token with the
  read scope never opens a route that is not a GET or is on the list of denied routes.\<close>

theorem basic_auth_exact:
  "(handleBasicAuth env httpverb urlpath ip user pw al = Inr (True, name)) =
     (name = user \<and> user \<noteq> '''' \<and> \<not> user_banned env ip user al \<and>
      (\<exists>u. GetByUsername (ae_users env) (asProvider (al_users al)) user = Inr (Some u) \<and> uPasswordExpired u \<noteq> Some True \<and>
           (\<not> al_twoFAOn al \<and> \<not> al_totPEnabled al \<and> verifyPassword env (uPassword u) pw \<or>
            token_credential env httpverb urlpath user pw al)))"
  by (auto simp: handleBasicAuth_def check_user_token_iff split: sum.splits option.splits)

lemma checkBearerToken_authorized:
  assumes "checkBearerToken env tok uri m ip al = (Inr (True, ctx), al')"
  obtains c s where "ctx = Some c" "ParseToken (ae_jwt env) (ae_now env) tok (al_jwtSecret al) = Inr c"
    and "\<not> user_banned env ip (tUsername (AppClaims c)) al"
    and "ValidateBearerToken (ae_cache env) (ae_now env) c uri m (al_sessions al) = Some s"
  using assms by (auto simp: checkBearerToken_def split: sum.splits if_splits option.splits)

text \<open>C1: A request passes the authentication middleware as a user only with credentials of that user: a basic
  authentication that is accepted (which a route for bearer tokens never looks at), or a bearer token whose
  claims name that user, whose scopes cover the method and path, whose session is found unexpired, and which is
  not throttled from this address.\<close>

theorem served_request_authenticated:
  assumes "wrapWithAuthMiddleware env isBearerOnly r al = (Serve name, al')"
  shows "name \<noteq> '''' \<and> \<not> user_banned env (rqRemoteIP r) name al \<and>
    ((\<exists>pw. isBearerOnly = False \<and> BasicAuth (rqAuthorization r) = Some (name, pw) \<and>
           handleBasicAuth env (rqMethod r) (rqPath r) (rqRemoteIP r) name pw al = Inr (True, name)) \<or>
     (\<exists>tok c s. GetBearerToken (rqAuthorization r) = Some tok \<and>
           ParseToken (ae_jwt env) (ae_now env) tok (al_jwtSecret al) = Inr c \<and> tUsername (AppClaims c) = name \<and>
           currentURIMatchesTokenScopes (rqPath r) (rqMethod r) (tScopes (AppClaims c)) \<and>
           Cache_Get (ae_cache env) (ae_now env) (tSessionID (AppClaims c)) (al_sessions al) = Some s \<and> ae_now env < sExpiresAt s))"
proof -
  obtain al1 where l: "lookupUser env r isBearerOnly al = (Inr (True, name), al1)" and n: "name \<noteq> ''''"
    using assms by (auto simp: wrapWithAuthMiddleware_def Let_def deny_error_def split: prod.splits sum.splits if_splits option.splits goerr.splits)
  show ?thesis
  proof (cases "if isBearerOnly then None else BasicAuth (rqAuthorization r)")
    case (Some up)
    obtain u pw where up: "up = (u, pw)" by (cases up)
    have b: "handleBasicAuth env (rqMethod r) (rqPath r) (rqRemoteIP r) u pw al = Inr (True, name)"
      using l Some up by (auto simp: lookupUser_def)
    then have "name = u" "\<not> user_banned env (rqRemoteIP r) u al"
      by (auto simp: handleBasicAuth_def check_user_token_iff split: sum.splits option.splits if_splits)
    with b Some up n show ?thesis by (auto split: if_splits)
  next
    case None
    obtain tok c where t: "GetBearerToken (rqAuthorization r) = Some tok" and nm: "name = tUsername (AppClaims c)"
      and ck: "checkBearerToken env tok (rqPath r) (rqMethod r) (rqRemoteIP r) al = (Inr (True, Some c), al1)"
      using l n by (auto simp: lookupUser_def None split: option.splits prod.splits sum.splits if_splits)
    obtain s where "ParseToken (ae_jwt env) (ae_now env) tok (al_jwtSecret al) = Inr c"
      and "\<not> user_banned env (rqRemoteIP r) (tUsername (AppClaims c)) al"
      and "ValidateBearerToken (ae_cache env) (ae_now env) c (rqPath r) (rqMethod r) (al_sessions al) = Some s"
      using checkBearerToken_authorized [OF ck] by blast
    with t nm n show ?thesis by (auto simp: ValidateBearerToken_def split: if_splits option.splits)
  qed
qed

section \<open>Lockouts\<close>

datatype 'c auth_event = ApiRequest "'c auth_env" bool http_request | WsRequest "'c auth_env" http_request

fun auth_request :: "'c auth_event \<Rightarrow> http_request" where
  "auth_request (ApiRequest env b r) = r"
| "auth_request (WsRequest env r) = r"

inductive auth_step :: "'c api_listener \<Rightarrow> 'c auth_event \<Rightarrow> 'c api_listener \<Rightarrow> bool" where
  "wrapWithAuthMiddleware env b r al = (out, al') \<Longrightarrow> auth_step al (ApiRequest env b r) al'"
| "wsAuth env r al = (out, al') \<Longrightarrow> auth_step al (WsRequest env r) al'"

lemma ban_fields [simp]:
  "al_bannedUsers (handleBannedIPs env ip ok al) = al_bannedUsers al"
  "al_bannedUsers (recordFailedAuth env r b al) = al_bannedUsers al"
  "al_bannedUsers (recordAuthSuccess ip al) = al_bannedUsers al"
  by (simp_all add: handleBannedIPs_def recordFailedAuth_def recordAuthSuccess_def Let_def)

lemma updateTokenAccess_bans [simp]: "al_bannedUsers (snd (updateTokenAccess env r tok al)) = al_bannedUsers al"
  by (simp add: updateTokenAccess_def split: sum.split option.split prod.split)

lemma checkBearerToken_bans [simp]: "al_bannedUsers (snd (checkBearerToken env tok uri m ip al)) = al_bannedUsers al"
  by (simp add: checkBearerToken_def split: sum.split option.split)

lemma lookupUser_bans: "lookupUser env r b al = (res, al') \<Longrightarrow> al_bannedUsers al' = al_bannedUsers al"
proof -
  assume l: "lookupUser env r b al = (res, al')"
  have "al_bannedUsers al1 = al_bannedUsers al" if "checkBearerToken env tok (rqPath r) (rqMethod r) (rqRemoteIP r) al = (x, al1)" for tok x al1
    using checkBearerToken_bans [of env tok "rqPath r" "rqMethod r" "rqRemoteIP r" al] that by simp
  with l show ?thesis by (auto simp: lookupUser_def split: option.splits prod.splits sum.splits)
qed

text \<open>A request throttles nobody but the user it names, and only from the address it came from.\<close>

definition only_bans_from :: "string \<Rightarrow> ban_list \<Rightarrow> ban_list \<Rightarrow> bool" where
  "only_bans_from ip l l' \<longleftrightarrow> l' = l \<or> (\<exists>now user. l' = BanList_Add now (loginBanKey ip user) l)"

lemma only_bans_refl: "l' = l \<Longrightarrow> only_bans_from ip l l'"
  by (simp add: only_bans_from_def)

lemma only_bans_add: "l1 = l \<Longrightarrow> only_bans_from ip l (BanList_Add now (loginBanKey ip user) l1)"
  by (auto simp: only_bans_from_def)

lemma wrapWithAuthMiddleware_bans:
  assumes "wrapWithAuthMiddleware env b r al = (out, al')"
  shows "only_bans_from (rqRemoteIP r) (al_bannedUsers al) (al_bannedUsers al')"
proof -
  obtain res al1 where l: "lookupUser env r b al = (res, al1)" by fastforce
  note k = lookupUser_bans [OF l]
  have u: "al_bannedUsers al3 = al_bannedUsers al2" if "updateTokenAccess env r tok al2 = (e, al3)" for tok al2 e al3
    using updateTokenAccess_bans [of env r tok al2] that by simp
  show ?thesis using assms k u
    by (auto simp: wrapWithAuthMiddleware_def l Let_def ban_user_def intro: only_bans_refl only_bans_add
        split: sum.splits if_splits option.splits prod.splits)
qed

lemma wsAuth_bans:
  assumes "wsAuth env r al = (out, al')"
  shows "only_bans_from (rqRemoteIP r) (al_bannedUsers al) (al_bannedUsers al')"
  using assms
  by (auto simp: wsAuth_def Let_def ban_user_def intro: only_bans_refl only_bans_add
      split: sum.splits if_splits option.splits prod.splits)

lemma auth_step_bans: "auth_step al e al' \<Longrightarrow> only_bans_from (rqRemoteIP (auth_request e)) (al_bannedUsers al) (al_bannedUsers al')"
  by (induction rule: auth_step.induct) (simp_all add: wrapWithAuthMiddleware_bans wsAuth_bans)

lemma loginBanKey_inj:
  "CHR ''|'' \<notin> set ip \<Longrightarrow> CHR ''|'' \<notin> set ip' \<Longrightarrow> loginBanKey ip u = loginBanKey ip' u' \<longleftrightarrow> ip = ip' \<and> u = u'"
  unfolding loginBanKey_def
  by (metis append_Cons append_Nil split_n2_pair list.inject)

lemma only_bans_from_other:
  assumes "only_bans_from ip l l'" "CHR ''|'' \<notin> set ip" "CHR ''|'' \<notin> set ip'" "ip \<noteq> ip'"
  shows "visitors l' (loginBanKey ip' u) = visitors l (loginBanKey ip' u)"
proof -
  have "loginBanKey ip' u \<noteq> loginBanKey ip u'" for u'
    using assms(2-4) loginBanKey_inj [of ip' ip u u'] by simp
  then show ?thesis using assms(1) by (auto simp: only_bans_from_def BanList_Add_def)
qed


text \<open>A server with one user, who logs in with basic authentication.\<close>

definition alice_row :: user_row where
  "alice_row = \<lparr>rUsername = ''alice'', rPassword = ''$2y$10$pw'', rPasswordExpired = False, rTwoFASendTo = '''', rTotP = ''''\<rparr>"

definition example_al :: "map_cache_state api_listener" where
  "example_al =
     \<lparr>al_users = example_service\<lparr>asProvider := UserDatabase (example_db\<lparr>usersTable := [alice_row]\<rparr>)\<rparr>,
      al_sessions = no_sessions, al_bannedUsers = NewBanList Minute, al_bannedIPs = None, al_wsTickets = newWSTicketStore, al_tokens = [],
      al_twoFAOn = False, al_totPEnabled = False, al_jwtSecret = ''secret'', al_createMissingUsers = False, al_defaultUserGroup = ''''\<rparr>"

definition example_auth_env :: "map_cache_state auth_env" where
  "example_auth_env =
     \<lparr>ae_now = 0, ae_users = example_env, ae_compare = (\<lambda>saved provided. saved = ''$2y$10$'' @ provided),
      ae_fingerprint = (\<lambda>a b. a @ b), ae_tokens_err = None, ae_cache = map_cache, ae_rowid = rowid_max,
      ae_extend_err = None, ae_access_err = None, ae_jwt = plain_jwt\<rparr>"

definition example_request :: http_request where
  "example_request =
     \<lparr>rqMethod = ''GET'', rqPath = ''/api/v1/clients'', rqRemoteIP = ''10.0.0.2'', rqRemoteAddr = ''10.0.0.2:4000'', rqUserAgent = ''curl'',
      rqAuthorization = ''Basic '' @ b64_encode ''alice:pw'', rqTicket = ''''\<rparr>"

lemma example_basic: "BasicAuth (rqAuthorization example_request) = Some (''alice'', ''pw'')"
proof -
  have "equal_fold ''Basic '' ''Basic ''" by (simp add: equal_fold_def)
  then show ?thesis
    by (simp add: BasicAuth_def basic_prefix_def example_request_def b64_decode_encode del: b64_encode.simps)
qed

lemma example_no_bearer: "GetBearerToken (rqAuthorization example_request) = None"
  by (simp add: GetBearerToken_def example_request_def bearer_prefix_def equal_fold_def to_lower_def lower_char_def del: b64_encode.simps)

lemma example_served: "wrapWithAuthMiddleware example_auth_env False example_request example_al = (Serve ''alice'', example_al)"
  by (simp add: wrapWithAuthMiddleware_def lookupUser_def example_basic example_no_bearer handleBasicAuth_def user_banned_def
      BanList_IsBanned_def NewBanList_def example_al_def example_auth_env_def example_service_def example_db_def example_env_def db_defs
      alice_row_def verifyPassword_def hasBcryptPrefix_def has_prefix_def trim_space_def is_space_def Let_def)

theorem served_request_authenticated_witness:
  "wrapWithAuthMiddleware example_auth_env False example_request example_al = (Serve ''alice'', example_al) \<and>
   \<not> user_banned example_auth_env ''10.0.0.2'' ''alice'' example_al"
  using example_served served_request_authenticated [OF example_served] by (simp add: example_request_def)


end
