(* ===== verification/TwoFA.thy ===== *)
theory TwoFA
  imports UserStore
begin

text \<open>
  The second factor: \<^verbatim>\<open>server/2fa_auth.go\<close> and \<^verbatim>\<open>server/totp.go\<close>. Pending logins are pointers in the source, which
  compares them by identity, so the model has an explicit heap: \<open>tokensByUser\<close> maps a user to the address of a
  token, and each critical section of the mutex is a definition of its own. The operations are their sequential
  compositions; two requests may interleave between the sections. The OTP library (parsing a key URL, drawing
  the QR image, checking a code for a time) is the record \<open>otp_lib\<close>.
\<close>

section \<open>Time based codes\<close>

record otp_key =
  okURL :: string
  okScheme :: string
  okType :: string
  okSecret :: string
  okPeriod :: int
  okAlgorithm :: string
  okDigits :: string

record otp_lib =
  otp_parse :: "string \<Rightarrow> otp_key res"
  otp_image :: "otp_key \<Rightarrow> string res"
  otp_validate :: "string \<Rightarrow> string \<Rightarrow> time \<Rightarrow> int \<Rightarrow> int \<Rightarrow> string \<Rightarrow> bool"

record TotP =
  tpSecret :: string
  tpImage :: string
  tpKey :: otp_key

definition NewTotP :: "otp_lib \<Rightarrow> otp_key \<Rightarrow> TotP res" where
  "NewTotP lib key = bind_res (otp_image lib key) (\<lambda>img. Inr \<lparr>tpSecret = okSecret key, tpImage = img, tpKey = key\<rparr>)"

definition TotP_Serialize :: "TotP option \<Rightarrow> string" where
  "TotP_Serialize tp = (case tp of None \<Rightarrow> '''' | Some t \<Rightarrow> okURL (tpKey t))"

definition TotP_Algorithm :: "TotP \<Rightarrow> string res" where
  "TotP_Algorithm tp =
     (let algoStr = okAlgorithm (tpKey tp) in
      if algoStr = '''' then Inl (GoError ''empty algorithm value'' [])
      else if algoStr \<in> {''SHA1'', ''SHA256'', ''SHA512'', ''MD5''} then Inr algoStr
      else Inl (GoError ''invalid/unsupported algorithm value %s'' [AS algoStr]))"

definition TotP_Digits :: "TotP \<Rightarrow> int res" where
  "TotP_Digits tp =
     (let digitsStr = okDigits (tpKey tp); bad = GoError ''invalid digits value %s'' [AS digitsStr] in
      if digitsStr = '''' then Inl (GoError ''empty digits value'' [])
      else case atoi digitsStr of
             AtoiOk d \<Rightarrow> if d = 6 \<or> d = 8 then Inr d else Inl bad
           | _ \<Rightarrow> Inl bad)"

definition TotP_Valid :: "TotP \<Rightarrow> unit res" where
  "TotP_Valid tp =
     (if okScheme (tpKey tp) \<noteq> ''otpauth''
      then Inl (GoError ''unexpected totp key scheme %s, otpauth is expected'' [AS (okScheme (tpKey tp))])
      else if okType (tpKey tp) \<noteq> ''totp''
      then Inl (GoError ''invalid totp key type %s, totp type is expected'' [AS (okType (tpKey tp))])
      else if okSecret (tpKey tp) = '''' then Inl (GoError ''empty totp secret key'' [])
      else if okPeriod (tpKey tp) = 0
      then Inl (GoError ''zero totp secret validity period, a positive integer is expected'' [])
      else bind_res (TotP_Algorithm tp) (\<lambda>_. bind_res (TotP_Digits tp) (\<lambda>_. Inr ())))"

definition unSerializeTotP :: "otp_lib \<Rightarrow> string \<Rightarrow> TotP res" where
  "unSerializeTotP lib rawKeyData =
     bind_res (otp_parse lib rawKeyData) (\<lambda>k.
     bind_res (NewTotP lib k) (\<lambda>totP.
     bind_res (TotP_Valid totP) (\<lambda>_. Inr totP)))"

definition GetUsersTotPCode :: "otp_lib \<Rightarrow> user \<Rightarrow> TotP option res" where
  "GetUsersTotPCode lib usr =
     (if trim_space (uTotP usr) = '''' then Inr None
      else case unSerializeTotP lib (uTotP usr) of
             Inl e \<Rightarrow> Inl (GoError (''failed to convert '' @ [CHR 0x27] @ ''%s'' @ [CHR 0x27] @ '' to TotP secret data: '' @ err_format e)
                            (AS (uTotP usr) # err_args e))
           | Inr totP \<Rightarrow> Inr (Some totP))"

definition MaxInt32 :: int where "MaxInt32 = 2147483647"

definition totp_period :: "otp_key \<Rightarrow> int" where
  "totp_period k = (if 0 < okPeriod k \<and> okPeriod k \<le> MaxInt32 then okPeriod k else 30)"

text \<open>Integer division of Go rounds towards zero.\<close>

definition quot :: "int \<Rightarrow> int \<Rightarrow> int" where
  "quot a b = (if (a < 0) = (b < 0) then \<bar>a\<bar> div \<bar>b\<bar> else - (\<bar>a\<bar> div \<bar>b\<bar>))"

fun totp_candidates :: "otp_lib \<Rightarrow> string \<Rightarrow> string \<Rightarrow> time \<Rightarrow> int \<Rightarrow> int \<Rightarrow> string \<Rightarrow> int list \<Rightarrow> int option" where
  "totp_candidates lib code secret now period digits algo [] = None"
| "totp_candidates lib code secret now period digits algo (offset # rest) =
     (let at = now + offset * period * Second in
      if otp_validate lib code secret at period digits algo then Some (quot (at div Second) period)
      else totp_candidates lib code secret now period digits algo rest)"

definition CheckTotPCodeStep :: "otp_lib \<Rightarrow> time \<Rightarrow> string \<Rightarrow> TotP \<Rightarrow> int option" where
  "CheckTotPCodeStep lib now code totP =
     (case TotP_Algorithm totP of
        Inl _ \<Rightarrow> None
      | Inr algo \<Rightarrow>
          (case TotP_Digits totP of
             Inl _ \<Rightarrow> None
           | Inr digits \<Rightarrow>
               totp_candidates lib code (tpSecret totP) now (totp_period (tpKey totP)) digits algo [0, -1, 1]))"

definition CheckTotPCode :: "otp_lib \<Rightarrow> time \<Rightarrow> string \<Rightarrow> TotP \<Rightarrow> bool" where
  "CheckTotPCode lib now code totP \<longleftrightarrow> CheckTotPCodeStep lib now code totP \<noteq> None"

section \<open>Pending logins\<close>

record expirableToken =
  etToken :: string
  etExpiry :: time
  etFailures :: int
  etPendingPassword :: string

record TwoFAService =
  TokenTTL :: duration
  tokensByUser :: "string \<rightharpoonup> nat"
  tfHeap :: "expirableToken list"
  lastTotPStep :: "string \<rightharpoonup> int"

definition NewTwoFAService :: "int \<Rightarrow> TwoFAService" where
  "NewTwoFAService tokenTTLSeconds =
     \<lparr>TokenTTL = tokenTTLSeconds * Second, tokensByUser = Map.empty, tfHeap = [], lastTotPStep = Map.empty\<rparr>"

definition maxTwoFAFailures :: int where "maxTwoFAFailures = 5"
definition minTwoFAResendInterval :: duration where "minTwoFAResendInterval = 30 * Second"

definition acceptTotPStep :: "string \<Rightarrow> int \<Rightarrow> TwoFAService \<Rightarrow> bool \<times> TwoFAService" where
  "acceptTotPStep user step srv =
     (if (case lastTotPStep srv user of Some prev \<Rightarrow> step \<le> prev | None \<Rightarrow> False) then (False, srv)
      else (True, srv\<lparr>lastTotPStep := (lastTotPStep srv)(user \<mapsto> step)\<rparr>))"

definition registerFailure :: "string \<Rightarrow> nat \<Rightarrow> TwoFAService \<Rightarrow> TwoFAService" where
  "registerFailure user t srv =
     (if tokensByUser srv user \<noteq> Some t then srv
      else
        (let cur = (tfHeap srv ! t)\<lparr>etFailures := etFailures (tfHeap srv ! t) + 1\<rparr>;
             srv1 = srv\<lparr>tfHeap := (tfHeap srv)[t := cur]\<rparr>
         in if etFailures cur \<ge> maxTwoFAFailures then srv1\<lparr>tokensByUser := (tokensByUser srv1)(user := None)\<rparr> else srv1))"

definition put_token :: "string \<Rightarrow> expirableToken \<Rightarrow> TwoFAService \<Rightarrow> TwoFAService" where
  "put_token user tok srv =
     srv\<lparr>tfHeap := tfHeap srv @ [tok], tokensByUser := (tokensByUser srv)(user \<mapsto> length (tfHeap srv))\<rparr>"

definition live_code :: "time \<Rightarrow> string \<Rightarrow> TwoFAService \<Rightarrow> bool" where
  "live_code now user srv \<longleftrightarrow>
     (case tokensByUser srv user of
        None \<Rightarrow> False
      | Some r \<Rightarrow> etToken (tfHeap srv ! r) \<noteq> '''' \<and> now < etExpiry (tfHeap srv ! r) - minTwoFAResendInterval)"

text \<open>\<open>rnd\<close> is the new random code and \<open>sendErr\<close> the answer of the message service.\<close>

definition SendToken ::
    "users_env \<Rightarrow> provider \<Rightarrow> time \<Rightarrow> string res \<Rightarrow> goerr option \<Rightarrow> string \<Rightarrow> TwoFAService \<Rightarrow> string res \<times> TwoFAService" where
  "SendToken env p now rnd sendErr user srv =
     (if user = '''' then (Inl (APIError StatusBadRequest ''username cannot be empty'' []), srv)
      else case GetByUsername env p user of
        Inl e \<Rightarrow> (Inl e, srv)
      | Inr None \<Rightarrow> (Inl (APIError StatusNotFound ''user with username %s not found'' [AS user]), srv)
      | Inr (Some u) \<Rightarrow>
          if uTwoFASendTo u = '''' then (Inl (APIError StatusBadRequest ''no two_fa_send_to set for this user'' []), srv)
          else if live_code now user srv then (Inr (uTwoFASendTo u), srv)
          else case rnd of
                 Inl e \<Rightarrow> (Inl (GoError (''failed to generate 2fa token: '' @ err_format e) (err_args e)), srv)
               | Inr token \<Rightarrow>
                   (case sendErr of
                      Some e \<Rightarrow> (Inl (GoError (''failed to send 2fa verification code: '' @ err_format e) (err_args e)), srv)
                    | None \<Rightarrow>
                        (Inr (uTwoFASendTo u),
                         put_token user \<lparr>etToken = token, etExpiry = now + TokenTTL srv, etFailures = 0, etPendingPassword = ''''\<rparr> srv)))"

definition SetPendingPasswordChange :: "string \<Rightarrow> string \<Rightarrow> TwoFAService \<Rightarrow> TwoFAService" where
  "SetPendingPasswordChange user newPassword srv =
     (case tokensByUser srv user of
        None \<Rightarrow> srv
      | Some r \<Rightarrow> srv\<lparr>tfHeap := (tfHeap srv)[r := (tfHeap srv ! r)\<lparr>etPendingPassword := newPassword\<rparr>]\<rparr>)"

definition SetTotPLoginSession :: "time \<Rightarrow> string \<Rightarrow> duration \<Rightarrow> TwoFAService \<Rightarrow> TwoFAService" where
  "SetTotPLoginSession now user loginSessionTTL srv =
     put_token user \<lparr>etToken = '''', etExpiry = now + loginSessionTTL, etFailures = 0, etPendingPassword = ''''\<rparr> srv"

text \<open>The last critical section of both validations: the pending login is consumed if it is still the current one.\<close>

definition consume :: "string \<Rightarrow> nat \<Rightarrow> TwoFAService \<Rightarrow> string \<times> TwoFAService" where
  "consume user t srv =
     (if tokensByUser srv user = Some t
      then (etPendingPassword (tfHeap srv ! t), srv\<lparr>tokensByUser := (tokensByUser srv)(user := None)\<rparr>)
      else ('''', srv))"

definition unauthorized :: "string \<Rightarrow> goerr" where
  "unauthorized msg = APIError StatusUnauthorized msg []"

definition ValidateTotPCode ::
    "otp_lib \<Rightarrow> time \<Rightarrow> user \<Rightarrow> string \<Rightarrow> TwoFAService \<Rightarrow> string res \<times> TwoFAService" where
  "ValidateTotPCode lib now user code srv =
     (case tokensByUser srv (uUsername user) of
        None \<Rightarrow> (Inl (unauthorized ''login request not found for provided username''), srv)
      | Some t \<Rightarrow>
          if now > etExpiry (tfHeap srv ! t) then (Inl (unauthorized ''login request expired''), srv)
          else case GetUsersTotPCode lib user of
            Inl e \<Rightarrow> (Inl (APIError StatusInternalServerError (err_format e) (err_args e)), srv)
          | Inr totP \<Rightarrow>
              (case totP of
                 None \<Rightarrow> (Inl (APIError StatusConflict ''time based one time secret key should be generated for this user'' []), srv)
               | Some tp \<Rightarrow>
                   if tpSecret tp = ''''
                   then (Inl (APIError StatusConflict ''time based one time secret key should be generated for this user'' []), srv)
                   else case CheckTotPCodeStep lib now code tp of
                     None \<Rightarrow> (Inl (unauthorized ''invalid code''), registerFailure (uUsername user) t srv)
                   | Some step \<Rightarrow>
                       (case acceptTotPStep (uUsername user) step srv of
                          (False, srv1) \<Rightarrow>
                            (Inl (unauthorized ''code already used, wait for the next one''), registerFailure (uUsername user) t srv1)
                        | (True, srv1) \<Rightarrow>
                            (case consume (uUsername user) t srv1 of (pending, srv2) \<Rightarrow> (Inr pending, srv2)))))"

text \<open>\<^verbatim>\<open>ValidateToken\<close> up to its last critical section: the pending login it read and whether the code is right.\<close>

definition check_token :: "time \<Rightarrow> string \<Rightarrow> string \<Rightarrow> TwoFAService \<Rightarrow> nat res \<times> TwoFAService" where
  "check_token now user token srv =
     (case tokensByUser srv user of
        None \<Rightarrow> (Inl (unauthorized ''2fa token not found for provided username''), srv)
      | Some t \<Rightarrow>
          if now > etExpiry (tfHeap srv ! t) then (Inl (unauthorized ''2fa token expired''), srv)
          else if etToken (tfHeap srv ! t) \<noteq> token then (Inl (unauthorized ''invalid token''), registerFailure user t srv)
          else (Inr t, srv))"

definition ValidateToken :: "time \<Rightarrow> string \<Rightarrow> string \<Rightarrow> TwoFAService \<Rightarrow> string res \<times> TwoFAService" where
  "ValidateToken now user token srv =
     (case check_token now user token srv of
        (Inl e, srv1) \<Rightarrow> (Inl e, srv1)
      | (Inr t, srv1) \<Rightarrow> (case consume user t srv1 of (pending, srv2) \<Rightarrow> (Inr pending, srv2)))"

section \<open>Runs\<close>

datatype twofa_event =
    CodeSent string
  | PendingSet string string
  | SessionSet time string duration
  | OtpTried time string string "string res"
  | TotPAccepted string int
  | TotPRefused string goerr

fun event_user :: "twofa_event \<Rightarrow> string" where
  "event_user (CodeSent u) = u"
| "event_user (PendingSet u pw) = u"
| "event_user (SessionSet now u ttl) = u"
| "event_user (OtpTried now u c res) = u"
| "event_user (TotPAccepted u s) = u"
| "event_user (TotPRefused u e) = u"

inductive twofa_step :: "TwoFAService \<Rightarrow> twofa_event \<Rightarrow> TwoFAService \<Rightarrow> bool" where
  step_sent: "SendToken env p now rnd err u srv = (res, srv') \<Longrightarrow> twofa_step srv (CodeSent u) srv'"
| step_pending: "twofa_step srv (PendingSet u pw) (SetPendingPasswordChange u pw srv)"
| step_session: "twofa_step srv (SessionSet now u ttl) (SetTotPLoginSession now u ttl srv)"
| step_otp: "ValidateToken now u c srv = (res, srv') \<Longrightarrow> twofa_step srv (OtpTried now u c res) srv'"
| step_totp: "ValidateTotPCode lib now usr c srv = (Inr pw, srv') \<Longrightarrow> GetUsersTotPCode lib usr = Inr (Some tp) \<Longrightarrow>
    CheckTotPCodeStep lib now c tp = Some s \<Longrightarrow> twofa_step srv (TotPAccepted (uUsername usr) s) srv'"
| step_totp_refused: "ValidateTotPCode lib now usr c srv = (Inl e, srv') \<Longrightarrow> twofa_step srv (TotPRefused (uUsername usr) e) srv'"

inductive_cases otp_stepE: "twofa_step srv (OtpTried now u c res) srv'"

text \<open>The addresses in use are allocated, no two users share a pending login, and its failures are below the limit.\<close>

definition twofa_inv :: "TwoFAService \<Rightarrow> bool" where
  "twofa_inv srv \<longleftrightarrow>
     (\<forall>u r. tokensByUser srv u = Some r \<longrightarrow> r < length (tfHeap srv) \<and> etFailures (tfHeap srv ! r) < maxTwoFAFailures) \<and>
     inj_on (tokensByUser srv) (dom (tokensByUser srv))"

text \<open>What every operation on behalf of a user leaves as it is: the pending logins of all others.\<close>

definition same_for :: "string \<Rightarrow> TwoFAService \<Rightarrow> TwoFAService \<Rightarrow> bool" where
  "same_for u srv srv' \<longleftrightarrow>
     tokensByUser srv' u = tokensByUser srv u \<and> lastTotPStep srv' u = lastTotPStep srv u \<and>
     (\<forall>r. tokensByUser srv u = Some r \<longrightarrow> tfHeap srv' ! r = tfHeap srv ! r)"

lemma same_for_refl [simp]: "same_for u srv srv"
  by (simp add: same_for_def)

lemma same_for_trans: "same_for u a b \<Longrightarrow> same_for u b c \<Longrightarrow> same_for u a c"
  by (simp add: same_for_def)

lemma twofa_inv_distinct: "twofa_inv srv \<Longrightarrow> tokensByUser srv u = Some r \<Longrightarrow> tokensByUser srv v = Some r \<Longrightarrow> u = v"
  unfolding twofa_inv_def inj_on_def by (metis domI)

lemma heap_other:
  "twofa_inv srv \<Longrightarrow> tokensByUser srv u = Some t \<Longrightarrow> tokensByUser srv v = Some r \<Longrightarrow> v \<noteq> u \<Longrightarrow> (tfHeap srv)[t := x] ! r = tfHeap srv ! r"
  using twofa_inv_distinct [of srv u r v] by (cases "t = r") auto

lemma twofa_inv_put:
  assumes "twofa_inv srv" "etFailures tok < maxTwoFAFailures"
  shows "twofa_inv (put_token u tok srv)" "v \<noteq> u \<Longrightarrow> same_for v srv (put_token u tok srv)"
proof -
  have l: "\<And>v r. tokensByUser srv v = Some r \<Longrightarrow> r < length (tfHeap srv)" using assms(1) by (simp add: twofa_inv_def)
  show "v \<noteq> u \<Longrightarrow> same_for v srv (put_token u tok srv)"
    using l by (auto simp: same_for_def put_token_def nth_append)
  have "inj_on (tokensByUser (put_token u tok srv)) (dom (tokensByUser (put_token u tok srv)))"
  proof (rule inj_onI)
    fix v w assume "v \<in> dom (tokensByUser (put_token u tok srv))"
      and e: "tokensByUser (put_token u tok srv) v = tokensByUser (put_token u tok srv) w"
    then obtain r where v: "tokensByUser (put_token u tok srv) v = Some r" by (meson domD)
    with e have w: "tokensByUser (put_token u tok srv) w = Some r" by simp
    show "v = w" using v w l [of v r] l [of w r] twofa_inv_distinct [OF assms(1)]
      by (auto simp: put_token_def split: if_splits)
  qed
  moreover have "r < length (tfHeap srv) + 1 \<and> etFailures ((tfHeap srv @ [tok]) ! r) < maxTwoFAFailures"
    if "((tokensByUser srv)(u \<mapsto> length (tfHeap srv))) v = Some r" for v r
    using that assms l by (auto simp: twofa_inv_def nth_append split: if_splits)
  ultimately show "twofa_inv (put_token u tok srv)" by (auto simp: twofa_inv_def put_token_def)
qed

lemma twofa_inv_drop:
  assumes "twofa_inv srv"
  shows "twofa_inv (srv\<lparr>tokensByUser := (tokensByUser srv)(u := None)\<rparr>)"
    and "v \<noteq> u \<Longrightarrow> same_for v srv (srv\<lparr>tokensByUser := (tokensByUser srv)(u := None)\<rparr>)"
  using assms by (auto simp: twofa_inv_def same_for_def inj_on_def split: if_splits)

lemma twofa_inv_set:
  assumes "twofa_inv srv" "tokensByUser srv u = Some r" "etFailures tok < maxTwoFAFailures"
  shows "twofa_inv (srv\<lparr>tfHeap := (tfHeap srv)[r := tok]\<rparr>)"
    and "v \<noteq> u \<Longrightarrow> same_for v srv (srv\<lparr>tfHeap := (tfHeap srv)[r := tok]\<rparr>)"
proof -
  show "twofa_inv (srv\<lparr>tfHeap := (tfHeap srv)[r := tok]\<rparr>)"
    using assms by (auto simp: twofa_inv_def nth_list_update)
  show "v \<noteq> u \<Longrightarrow> same_for v srv (srv\<lparr>tfHeap := (tfHeap srv)[r := tok]\<rparr>)"
    using heap_other [OF assms(1,2)] by (auto simp: same_for_def)
qed

lemma twofa_inv_registerFailure:
  assumes "twofa_inv srv"
  shows "twofa_inv (registerFailure u t srv)" "v \<noteq> u \<Longrightarrow> same_for v srv (registerFailure u t srv)"
proof -
  let ?cur = "(tfHeap srv ! t)\<lparr>etFailures := etFailures (tfHeap srv ! t) + 1\<rparr>"
  let ?srv1 = "srv\<lparr>tfHeap := (tfHeap srv)[t := ?cur]\<rparr>"
  have *: "twofa_inv (registerFailure u t srv) \<and> (v \<noteq> u \<longrightarrow> same_for v srv (registerFailure u t srv))"
  proof (cases "tokensByUser srv u = Some t \<and> maxTwoFAFailures \<le> etFailures ?cur")
    case True
    then have rf: "registerFailure u t srv = ?srv1\<lparr>tokensByUser := (tokensByUser srv)(u := None)\<rparr>"
      by (simp add: registerFailure_def Let_def)
    have "same_for v srv (registerFailure u t srv)" if "v \<noteq> u"
      using that True heap_other [OF assms] by (auto simp: rf same_for_def)
    moreover have "twofa_inv (registerFailure u t srv)"
      using assms True twofa_inv_distinct [OF assms]
      by (auto simp: rf twofa_inv_def nth_list_update inj_on_def split: if_splits)
    ultimately show ?thesis by simp
  next
    case False
    then show ?thesis
      using twofa_inv_set [OF assms, of u t ?cur] assms by (auto simp: registerFailure_def Let_def)
  qed
  then show "twofa_inv (registerFailure u t srv)" "v \<noteq> u \<Longrightarrow> same_for v srv (registerFailure u t srv)" by auto
qed

lemma twofa_inv_consume:
  assumes "twofa_inv srv"
  shows "twofa_inv (snd (consume u t srv))" "v \<noteq> u \<Longrightarrow> same_for v srv (snd (consume u t srv))"
  using twofa_inv_drop [OF assms] assms by (simp_all add: consume_def)

lemma twofa_inv_accept:
  assumes "twofa_inv srv" "acceptTotPStep u s srv = (b, srv1)"
  shows "twofa_inv srv1" "v \<noteq> u \<Longrightarrow> same_for v srv srv1"
  using assms by (auto simp: acceptTotPStep_def twofa_inv_def same_for_def split: if_splits option.splits)

lemma ValidateToken_state:
  "ValidateToken now u c srv = (res, srv') \<Longrightarrow> \<exists>t. srv' \<in> {srv, registerFailure u t srv, snd (consume u t srv)}"
  by (auto simp: ValidateToken_def check_token_def case_prod_beta split: if_splits sum.splits option.splits)

lemma ValidateTotPCode_refused_state:
  "ValidateTotPCode lib now usr c srv = (Inl e, srv') \<Longrightarrow> \<exists>t. srv' \<in> {srv, registerFailure (uUsername usr) t srv}"
  by (auto simp: ValidateTotPCode_def acceptTotPStep_def split: if_splits sum.splits option.splits prod.splits bool.splits)

lemma ValidateTotPCode_accepted_state:
  assumes "ValidateTotPCode lib now usr c srv = (Inr pw, srv')" "GetUsersTotPCode lib usr = Inr (Some tp)"
    and "CheckTotPCodeStep lib now c tp = Some s"
  obtains t srv1 where "acceptTotPStep (uUsername usr) s srv = (True, srv1)" "srv' = snd (consume (uUsername usr) t srv1)"
proof -
  obtain b srv1 where a: "acceptTotPStep (uUsername usr) s srv = (b, srv1)" by fastforce
  with assms that show ?thesis
    by (cases b) (auto simp: ValidateTotPCode_def case_prod_beta split: if_splits option.splits)
qed

lemma twofa_step_keeps:
  assumes "twofa_step srv e srv'" "twofa_inv srv"
  shows "twofa_inv srv' \<and> (\<forall>v. v \<noteq> event_user e \<longrightarrow> same_for v srv srv')"
  using assms
proof (induction rule: twofa_step.induct)
  case (step_sent env p now rnd err u srv res srv')
  then show ?case using twofa_inv_put [OF step_sent.prems]
    by (auto simp: SendToken_def maxTwoFAFailures_def split: if_splits sum.splits option.splits)
next
  case (step_pending srv u pw)
  show ?case
  proof (cases "tokensByUser srv u")
    case (Some r)
    then have "etFailures (tfHeap srv ! r) < maxTwoFAFailures" using step_pending by (simp add: twofa_inv_def)
    then show ?thesis
      using twofa_inv_set [OF step_pending Some, of "(tfHeap srv ! r)\<lparr>etPendingPassword := pw\<rparr>"] Some
      by (simp add: SetPendingPasswordChange_def)
  qed (use step_pending in \<open>simp add: SetPendingPasswordChange_def\<close>)
next
  case (step_session srv now u ttl)
  then show ?case using twofa_inv_put [OF step_session.prems] by (simp add: SetTotPLoginSession_def maxTwoFAFailures_def)
next
  case (step_otp now u c srv res srv')
  obtain t where "srv' \<in> {srv, registerFailure u t srv, snd (consume u t srv)}"
    using ValidateToken_state [OF step_otp.hyps] by blast
  then show ?case using twofa_inv_registerFailure [OF step_otp.prems, where u = u and t = t]
      twofa_inv_consume [OF step_otp.prems, where u = u and t = t] step_otp.prems
    by auto
next
  case (step_totp lib now usr c srv pw srv' tp s)
  obtain t srv1 where a: "acceptTotPStep (uUsername usr) s srv = (True, srv1)"
      and s': "srv' = snd (consume (uUsername usr) t srv1)"
    using step_totp.hyps by (rule ValidateTotPCode_accepted_state)
  note i = twofa_inv_accept [OF step_totp.prems a]
  have "same_for v srv srv'" if "v \<noteq> uUsername usr" for v
    unfolding s' using that by (intro same_for_trans [OF i(2) twofa_inv_consume(2) [OF i(1)]])
  then show ?case using twofa_inv_consume(1) [OF i(1)] by (simp add: s')
next
  case (step_totp_refused lib now usr c srv e srv')
  obtain t where "srv' \<in> {srv, registerFailure (uUsername usr) t srv}"
    using ValidateTotPCode_refused_state [OF step_totp_refused.hyps] by blast
  then show ?case using twofa_inv_registerFailure [OF step_totp_refused.prems, where u = "uUsername usr" and t = t] step_totp_refused.prems by auto
qed

interpretation tf: step_invariant twofa_step twofa_inv
  by unfold_locales (use twofa_step_keeps in blast)

lemma twofa_inv_new: "twofa_inv (NewTwoFAService n)"
  by (simp add: twofa_inv_def NewTwoFAService_def)

section \<open>Properties\<close>

text \<open>A wrong code for a pending login that has not expired counts one failure, and the fifth discards the login.\<close>

lemma wrong_code:
  assumes "twofa_inv srv" "tokensByUser srv u = Some r" "now \<le> etExpiry (tfHeap srv ! r)" "c \<noteq> etToken (tfHeap srv ! r)"
    and "ValidateToken now u c srv = (res, srv')"
  shows "tokensByUser srv' u = (if 5 \<le> etFailures (tfHeap srv ! r) + 1 then None else Some r) \<and>
         tfHeap srv' ! r = (tfHeap srv ! r)\<lparr>etFailures := etFailures (tfHeap srv ! r) + 1\<rparr>"
proof -
  have "r < length (tfHeap srv)" using assms(1,2) by (simp add: twofa_inv_def)
  with assms(2-) show ?thesis
    by (auto simp: ValidateToken_def check_token_def registerFailure_def Let_def maxTwoFAFailures_def)
qed

definition guesses :: "string \<Rightarrow> twofa_event list \<Rightarrow> nat" where
  "guesses u es = length (filter (\<lambda>e. event_user e = u) es)"

definition wrong_guess :: "expirableToken \<Rightarrow> twofa_event \<Rightarrow> bool" where
  "wrong_guess tok e = (case e of OtpTried now u c res \<Rightarrow> now \<le> etExpiry tok \<and> c \<noteq> etToken tok | _ \<Rightarrow> False)"

lemma wrong_guessE:
  assumes "event_user e = u \<longrightarrow> wrong_guess tok e" "event_user e = u"
  obtains now c res where "e = OtpTried now u c res" "now \<le> etExpiry tok" "c \<noteq> etToken tok"
  using assms by (cases e) (auto simp: wrong_guess_def)

lemma gone_stays:
  assumes "run twofa_step srv es srv'" "twofa_inv srv" "tokensByUser srv u = None"
    and "\<forall>e\<in>set es. event_user e = u \<longrightarrow> wrong_guess tok e"
  shows "tokensByUser srv' u = None"
  using assms
proof (induction rule: run.induct)
  case (run_Cons s e s' es t)
  note k = twofa_step_keeps [OF run_Cons.hyps(1) run_Cons.prems(1)]
  have "tokensByUser s' u = None"
  proof (cases "event_user e = u")
    case False
    have "same_for u s s'" using k not_sym [OF False] by simp
    with run_Cons.prems(2) show ?thesis by (simp add: same_for_def)
  next
    case True
    have "event_user e = u \<longrightarrow> wrong_guess tok e" using run_Cons.prems(3) by simp
    then obtain now c res where e: "e = OtpTried now u c res" using True by (rule wrong_guessE)
    have "ValidateToken now u c s = (res, s')" using run_Cons.hyps(1) unfolding e by (rule otp_stepE)
    with run_Cons.prems(2) show ?thesis by (simp add: ValidateToken_def check_token_def)
  qed
  with run_Cons.IH run_Cons.prems k show ?case by simp
qed simp

lemma wrong_guesses_count:
  assumes "run twofa_step srv es srv'" "twofa_inv srv" "tokensByUser srv u = Some r" "0 \<le> etFailures (tfHeap srv ! r)"
    and "\<forall>e\<in>set es. event_user e = u \<longrightarrow> wrong_guess (tfHeap srv ! r) e"
  shows "if etFailures (tfHeap srv ! r) + int (guesses u es) < 5
         then tokensByUser srv' u = Some r \<and> tfHeap srv' ! r = (tfHeap srv ! r)\<lparr>etFailures := etFailures (tfHeap srv ! r) + int (guesses u es)\<rparr>
         else tokensByUser srv' u = None"
  using assms
proof (induction rule: run.induct)
  case (run_Nil s)
  then have "etFailures (tfHeap s ! r) < 5" by (simp add: twofa_inv_def maxTwoFAFailures_def)
  with run_Nil(2) show ?case by (simp add: guesses_def)
next
  case (run_Cons s e s' es t)
  note k = twofa_step_keeps [OF run_Cons.hyps(1) run_Cons.prems(1)]
  show ?case
  proof (cases "event_user e = u")
    case False
    have sf: "same_for u s s'" using k not_sym [OF False] by simp
    then have h: "tfHeap s' ! r = tfHeap s ! r" "tokensByUser s' u = Some r" using run_Cons.prems(2) by (simp_all add: same_for_def)
    show ?thesis using run_Cons.IH [unfolded h] k run_Cons.prems False by (simp add: guesses_def)
  next
    case True
    have "event_user e = u \<longrightarrow> wrong_guess (tfHeap s ! r) e" using run_Cons.prems(4) by simp
    then obtain now c res where e: "e = OtpTried now u c res" "now \<le> etExpiry (tfHeap s ! r)" "c \<noteq> etToken (tfHeap s ! r)"
      using True by (rule wrong_guessE)
    have w: "tokensByUser s' u = (if 5 \<le> etFailures (tfHeap s ! r) + 1 then None else Some r)"
      "tfHeap s' ! r = (tfHeap s ! r)\<lparr>etFailures := etFailures (tfHeap s ! r) + 1\<rparr>"
      using wrong_code [OF run_Cons.prems(1,2) e(2,3)] run_Cons.hyps(1) unfolding e(1) by (auto elim!: otp_stepE)
    have g: "int (guesses u (e # es)) = 1 + int (guesses u es)" using True by (simp add: guesses_def)
    show ?thesis
    proof (cases "5 \<le> etFailures (tfHeap s ! r) + 1")
      case fifth: True
      have "tokensByUser s' u = None" using w fifth by simp
      moreover have "\<forall>e\<in>set es. event_user e = u \<longrightarrow> wrong_guess (tfHeap s ! r) e" using run_Cons.prems(4) by simp
      ultimately have "tokensByUser t u = None" using run_Cons.hyps(2) k
        by (auto intro: gone_stays)
      then show ?thesis using fifth g by simp
    next
      case False
      have "wrong_guess (tfHeap s' ! r) = wrong_guess (tfHeap s ! r)" by (simp add: fun_eq_iff w(2) wrong_guess_def split: twofa_event.split)
      then have "if etFailures (tfHeap s' ! r) + int (guesses u es) < 5
         then tokensByUser t u = Some r \<and> tfHeap t ! r = (tfHeap s' ! r)\<lparr>etFailures := etFailures (tfHeap s' ! r) + int (guesses u es)\<rparr>
         else tokensByUser t u = None"
        using run_Cons.prems(3,4) w False k by (intro run_Cons.IH) simp_all
      then show ?thesis using g by (simp add: w(2) add.commute add.left_commute)
    qed
  qed
qed

text \<open>C8: A pending login survives at most four wrong codes. However the requests of other users interleave, once
  five wrong codes were tried for a login of a user within its lifetime the login is gone, and from then on
  every code is refused, the right one included, until the user logs in again.\<close>

theorem otp_guesses_bounded:
  assumes "run twofa_step (NewTwoFAService n) es0 srv" "tokensByUser srv u = Some r" "0 \<le> etFailures (tfHeap srv ! r)"
    and "run twofa_step srv es srv'" "\<forall>e\<in>set es. event_user e = u \<longrightarrow> wrong_guess (tfHeap srv ! r) e"
    and "5 \<le> guesses u es"
  shows "tokensByUser srv' u = None \<and>
         ValidateToken now u code srv' = (Inl (unauthorized ''2fa token not found for provided username''), srv')"
proof -
  have i: "twofa_inv srv" by (rule tf.run_keeps [OF assms(1) twofa_inv_new])
  have "tokensByUser srv' u = None"
    using wrong_guesses_count [OF assms(4) i assms(2,3,5)] assms(3,6) by (auto split: if_splits)
  then show ?thesis by (simp add: ValidateToken_def check_token_def)
qed

definition accepted_steps :: "string \<Rightarrow> twofa_event list \<Rightarrow> int list" where
  "accepted_steps u es = concat (map (\<lambda>e. case e of TotPAccepted v s \<Rightarrow> if v = u then [s] else [] | _ \<Rightarrow> []) es)"

lemma lastTotPStep_simps [simp]:
  "lastTotPStep (put_token u t srv) = lastTotPStep srv"
  "lastTotPStep (SetPendingPasswordChange u pw srv) = lastTotPStep srv"
  "lastTotPStep (registerFailure u r srv) = lastTotPStep srv"
  "lastTotPStep (snd (consume u r srv)) = lastTotPStep srv"
  by (simp_all add: put_token_def SetPendingPasswordChange_def registerFailure_def consume_def Let_def split: option.split)

lemma twofa_step_last:
  assumes "twofa_step srv e srv'"
  shows "(case e of
            TotPAccepted u s \<Rightarrow> (\<forall>m. lastTotPStep srv u = Some m \<longrightarrow> m < s) \<and> lastTotPStep srv' = (lastTotPStep srv)(u \<mapsto> s)
          | _ \<Rightarrow> lastTotPStep srv' = lastTotPStep srv)"
  using assms
proof (induction rule: twofa_step.induct)
  case (step_sent env p now rnd err u srv res srv')
  then show ?case by (auto simp: SendToken_def split: if_splits sum.splits option.splits)
next
  case (step_otp now u c srv res srv')
  from ValidateToken_state [OF step_otp] show ?case by auto
next
  case (step_totp lib now usr c srv pw srv' tp s)
  obtain t srv1 where a: "acceptTotPStep (uUsername usr) s srv = (True, srv1)" "srv' = snd (consume (uUsername usr) t srv1)"
    using step_totp by (rule ValidateTotPCode_accepted_state)
  then show ?case by (auto simp: acceptTotPStep_def split: if_splits option.splits)
next
  case (step_totp_refused lib now usr c srv e srv')
  from ValidateTotPCode_refused_state [OF step_totp_refused] show ?case by auto
qed (simp_all add: SetTotPLoginSession_def)

lemma accepted_steps_sorted:
  assumes "run twofa_step srv es srv'"
  shows "sorted_wrt (<) (accepted_steps u es) \<and> (\<forall>m s. lastTotPStep srv u = Some m \<longrightarrow> s \<in> set (accepted_steps u es) \<longrightarrow> m < s)"
  using assms
proof (induction rule: run.induct)
  case (run_Nil s) show ?case by (simp add: accepted_steps_def)
next
  case (run_Cons s e s' es t)
  note l = twofa_step_last [OF run_Cons.hyps(1)]
  show ?case
  proof (cases "\<exists>x. e = TotPAccepted u x")
    case True
    then obtain x where e: "e = TotPAccepted u x" by blast
    have c: "accepted_steps u (e # es) = x # accepted_steps u es" by (simp add: e accepted_steps_def)
    from l have "lastTotPStep s' u = Some x" "\<forall>m. lastTotPStep s u = Some m \<longrightarrow> m < x" by (simp_all add: e)
    with run_Cons.IH show ?thesis unfolding c by fastforce
  next
    case False
    then have c: "accepted_steps u (e # es) = accepted_steps u es" by (auto simp: accepted_steps_def split: twofa_event.split)
    from l False have "lastTotPStep s' u = lastTotPStep s u" by (auto split: twofa_event.splits)
    with run_Cons.IH show ?thesis unfolding c by simp
  qed
qed

text \<open>C9: The time steps whose codes are accepted for a user strictly increase along every run: no code is accepted
  twice, and none from an earlier step than one that was accepted.\<close>

theorem totp_no_replay:
  assumes "run twofa_step (NewTwoFAService n) es srv"
  shows "sorted_wrt (<) (accepted_steps u es) \<and> distinct (accepted_steps u es)"
  using accepted_steps_sorted [OF assms, of u] strict_sorted_iff by blast

text \<open>One request at a time, a code logs a user in once: after it was accepted every code is refused until a
  new code is sent. But the check and the consumption are two critical sections and the outcome of the second is
  ignored: when two requests with the same code both pass the check before either consumes the login, both
  succeed.\<close>

theorem otp_single_use_unless_concurrent:
  assumes "ValidateToken now u code srv = (Inr pending, srv1)"
  shows "ValidateToken now' u code' srv1 = (Inl (unauthorized ''2fa token not found for provided username''), srv1) \<and>
    (\<exists>t1 s1 t2 s2 s3. check_token now u code srv = (Inr t1, s1) \<and> check_token now u code s1 = (Inr t2, s2) \<and>
         consume u t1 s2 = (pending, s3) \<and> consume u t2 s3 = ('''', s3))"
proof -
  obtain t where c: "check_token now u code srv = (Inr t, srv)" "consume u t srv = (pending, srv1)" "tokensByUser srv u = Some t"
  proof (cases "tokensByUser srv u")
    case None with assms show ?thesis by (simp add: ValidateToken_def check_token_def)
  next
    case (Some t)
    with assms that [of t] show ?thesis by (auto simp: ValidateToken_def check_token_def split: if_splits prod.splits)
  qed
  then have n: "tokensByUser srv1 u = None" by (auto simp: consume_def)
  then have "consume u t srv1 = ('''', srv1)" by (simp add: consume_def)
  with c n show ?thesis by (auto simp: ValidateToken_def check_token_def [of now' u code' srv1])
qed

text \<open>A user whose codes are sent by mail, with a code on its way.\<close>

definition mail_user :: user where
  "mail_user = \<lparr>uUsername = ''bob'', uPassword = ''$2y$10$pw'', uPasswordExpired = None, uGroups = None,
     uTwoFASendTo = ''bob@example.com'', uTotP = ''otpauth://totp''\<rparr>"

definition mail_srv :: TwoFAService where
  "mail_srv = put_token ''bob'' \<lparr>etToken = ''123456'', etExpiry = 600 * Second, etFailures = 0, etPendingPassword = ''''\<rparr> (NewTwoFAService 600)"

lemma mail_run: "run twofa_step (NewTwoFAService 600) [CodeSent ''bob''] mail_srv"
proof -
  have "SendToken undefined (StaticProvider [(''bob'', mail_user)]) 0 (Inr ''123456'') None ''bob'' (NewTwoFAService 600)
      = (Inr ''bob@example.com'', mail_srv)"
    by (simp add: SendToken_def UserCache_GetByUsername_def mail_user_def live_code_def NewTwoFAService_def mail_srv_def)
  then show ?thesis by (simp add: run_Cons_iff step_sent)
qed

lemma guess_run:
  obtains es srv' where "run twofa_step srv es srv'" "length es = k" "list_all (\<lambda>e. \<exists>res. e = OtpTried now u c res) es"
proof -
  have "\<exists>es srv'. run twofa_step srv es srv' \<and> length es = k \<and> list_all (\<lambda>e. \<exists>res. e = OtpTried now u c res) es"
  proof (induction k arbitrary: srv)
    case (Suc k)
    obtain res s where s: "ValidateToken now u c srv = (res, s)" by fastforce
    obtain es srv' where "run twofa_step s es srv'" "length es = k" "list_all (\<lambda>e. \<exists>res. e = OtpTried now u c res) es"
      using Suc.IH [of s] by blast
    then show ?case using step_otp [OF s] by (intro exI [of _ "OtpTried now u c res # es"]) (auto intro: run_Cons)
  qed auto
  with that show ?thesis by blast
qed

theorem otp_guesses_bounded_witness:
  "\<exists>es srv'. run twofa_step mail_srv es srv' \<and> length es = 5 \<and> tokensByUser srv' ''bob'' = None \<and>
     fst (ValidateToken Second ''bob'' ''123456'' srv') \<noteq> Inr ''''"
proof -
  obtain es srv' where r: "run twofa_step mail_srv es srv'" and l: "length es = 5"
    and a: "list_all (\<lambda>e. \<exists>res. e = OtpTried Second ''bob'' ''000000'' res) es"
    by (rule guess_run)
  have s: "tokensByUser mail_srv ''bob'' = Some 0" "tfHeap mail_srv ! 0 = \<lparr>etToken = ''123456'', etExpiry = 600 * Second, etFailures = 0, etPendingPassword = ''''\<rparr>"
    by (simp_all add: mail_srv_def put_token_def NewTwoFAService_def)
  have u: "event_user e = ''bob'' \<and> wrong_guess (tfHeap mail_srv ! 0) e" if "e \<in> set es" for e
    using a that by (auto simp: list_all_iff wrong_guess_def s)
  then have "filter (\<lambda>e. event_user e = ''bob'') es = es" by (simp add: filter_id_conv)
  then have g: "5 \<le> guesses ''bob'' es" using l by (simp add: guesses_def)
  have "\<forall>e\<in>set es. event_user e = ''bob'' \<longrightarrow> wrong_guess (tfHeap mail_srv ! 0) e" using u by blast
  then have "tokensByUser srv' ''bob'' = None \<and>
      ValidateToken Second ''bob'' ''123456'' srv' = (Inl (unauthorized ''2fa token not found for provided username''), srv')"
    by (intro otp_guesses_bounded [OF mail_run s(1) _ r _ g]) (simp add: s)
  with r l show ?thesis by (intro exI [of _ es] exI [of _ srv']) simp
qed

theorem otp_single_use_unless_concurrent_witness:
  "\<exists>srv1. ValidateToken Second ''bob'' ''123456'' mail_srv = (Inr '''', srv1) \<and>
     ValidateToken Second ''bob'' ''123456'' srv1 = (Inl (unauthorized ''2fa token not found for provided username''), srv1)"
proof -
  obtain srv1 where v: "ValidateToken Second ''bob'' ''123456'' mail_srv = (Inr '''', srv1)"
    by (simp add: ValidateToken_def check_token_def consume_def mail_srv_def put_token_def NewTwoFAService_def)
  from otp_single_use_unless_concurrent [OF v] v show ?thesis by blast
qed

definition toy_otp :: otp_lib where
  "toy_otp =
     \<lparr>otp_parse = (\<lambda>url. Inr \<lparr>okURL = url, okScheme = ''otpauth'', okType = ''totp'', okSecret = ''s'', okPeriod = 30, okAlgorithm = ''SHA1'', okDigits = ''6''\<rparr>),
      otp_image = (\<lambda>_. Inr ''''),
      otp_validate = (\<lambda>code secret at period digits algo. code = ''123456'' \<and> at div Second div period = 2)\<rparr>"

lemma toy_totp:
  "GetUsersTotPCode toy_otp mail_user = Inr (Some \<lparr>tpSecret = ''s'', tpImage = '''',
     tpKey = \<lparr>okURL = ''otpauth://totp'', okScheme = ''otpauth'', okType = ''totp'', okSecret = ''s'', okPeriod = 30, okAlgorithm = ''SHA1'', okDigits = ''6''\<rparr>\<rparr>)"
  by (simp add: GetUsersTotPCode_def mail_user_def unSerializeTotP_def toy_otp_def NewTotP_def TotP_Valid_def TotP_Algorithm_def
      TotP_Digits_def atoi_def is_digit_def digits_val_def digit_val_def trim_space_def is_space_def MaxInt64_def MinInt64_def Let_def)

lemma toy_step:
  "CheckTotPCodeStep toy_otp (40 * Second) ''123456'' \<lparr>tpSecret = ''s'', tpImage = '''',
     tpKey = \<lparr>okURL = ''otpauth://totp'', okScheme = ''otpauth'', okType = ''totp'', okSecret = ''s'', okPeriod = 30, okAlgorithm = ''SHA1'', okDigits = ''6''\<rparr>\<rparr> = Some 2"
  by (simp add: CheckTotPCodeStep_def TotP_Algorithm_def TotP_Digits_def atoi_def is_digit_def digits_val_def digit_val_def toy_otp_def
      totp_period_def MaxInt32_def MaxInt64_def MinInt64_def quot_def Let_def)

lemma mail_name: "uUsername mail_user = ''bob''"
  by (simp add: mail_user_def)

theorem totp_no_replay_witness:
  "\<exists>srv. run twofa_step (NewTwoFAService 600) [SessionSet 0 ''bob'' Minute, TotPAccepted ''bob'' 2] srv \<and>
     sorted_wrt (<) (accepted_steps ''bob'' [SessionSet 0 ''bob'' Minute, TotPAccepted ''bob'' 2])"
proof -
  let ?s = "SetTotPLoginSession 0 ''bob'' Minute (NewTwoFAService 600)"
  obtain srv where v: "ValidateTotPCode toy_otp (40 * Second) mail_user ''123456'' ?s = (Inr '''', srv)"
    using toy_step by (simp add: ValidateTotPCode_def SetTotPLoginSession_def put_token_def NewTwoFAService_def toy_totp acceptTotPStep_def
        consume_def mail_name)
  have "twofa_step ?s (TotPAccepted ''bob'' 2) srv"
    using step_totp [OF v toy_totp toy_step] by (simp add: mail_name)
  then have r: "run twofa_step (NewTwoFAService 600) [SessionSet 0 ''bob'' Minute, TotPAccepted ''bob'' 2] srv"
    by (auto intro!: run_Cons step_session)
  with totp_no_replay [OF r] show ?thesis by blast
qed

end
