(* ===== verification/Login.thy ===== *)
theory Login
  imports Auth TwoFA
begin

text \<open>
  Logging in: \<^verbatim>\<open>server/api_handler_login.go\<close> and \<^verbatim>\<open>server/api_handler_verify2fa.go\<close>, with the clean-up of
  \<^verbatim>\<open>server/installer_credentials.go\<close> and the self-service of \<^verbatim>\<open>server/api_handler_me.go\<close> that concerns the second
  factor. The handlers compose the user service, the sessions, the throttling and the pending second factors.
  What a handler draws or meets from outside is \<open>login_env\<close>: random values, the answer of the message service,
  statements the session store refuses.
\<close>

record 'c login_env =
  le_auth :: "'c auth_env"
  le_otp :: otp_lib
  le_uuid :: "string res"
  le_code :: "string res"
  le_send_err :: "goerr option"
  le_jti :: string
  le_create_err :: "goerr option"
  le_revoke_err :: "goerr option"
  le_generated :: "otp_key res"
  le_remove_err :: "string \<Rightarrow> bool"

record 'c login_server =
  ls_al :: "'c api_listener"
  ls_twofa :: TwoFAService
  ls_totPTimeout :: duration
  ls_delivery :: string
  ls_dataDir :: string
  ls_files :: "string list"

record two_fa_response =
  tfSendTo :: string
  tfDeliveryMethod :: string
  tfTotPKeyStatus :: string

record login_response =
  lrToken :: "string option"
  lrTwoFA :: "two_fa_response option"

section \<open>Helpers\<close>

definition installerCredentialFiles :: "string list" where
  "installerCredentialFiles = [''initial-admin-password'', ''initial-client-auth'']"

text \<open>\<open>ls_files\<close> are the files of the data directory; removing one may fail, which is only logged.\<close>

definition shredConsumedInstallerCreds :: "'c login_env \<Rightarrow> 'c login_server \<Rightarrow> 'c login_server" where
  "shredConsumedInstallerCreds env s =
     (if ls_dataDir s = '''' then s
      else s\<lparr>ls_files := filter (\<lambda>f. \<not> (f \<in> set installerCredentialFiles \<and> \<not> le_remove_err env f)) (ls_files s)\<rparr>)"

definition parseTokenLifetime :: "string \<Rightarrow> duration res" where
  "parseTokenLifetime query =
     (let lifetimeStr = (if query = '''' then ''0'' else query) in
      if atoi_failed (atoi lifetimeStr) then Inl (GoError ''invalid token-lifetime : %s'' [AS lifetimeStr])
      else
        (let result = wrap64 (atoi_value (atoi lifetimeStr) * Second) in
         if result > DefaultMaxTokenLifetime
         then Inl (GoError ''requested token lifetime exceeds max allowed %d'' [AI (DefaultMaxTokenLifetime div Second)])
         else Inr (if result \<le> 0 then DefaultTokenLifetime else result)))"

definition create_token ::
    "'c login_env \<Rightarrow> http_request \<Rightarrow> duration \<Rightarrow> string \<Rightarrow> scope list \<Rightarrow> 'c login_server \<Rightarrow> string res \<times> 'c login_server" where
  "create_token env r lifetime user scopes s =
     (case CreateAuthToken (ae_jwt (le_auth env)) (ae_cache (le_auth env)) (le_create_err env) (ae_rowid (le_auth env)) (ae_now (le_auth env))
             (le_jti env) (al_jwtSecret (ls_al s)) lifetime user scopes (rqUserAgent r) (rqRemoteIP r) (al_sessions (ls_al s)) of
        (res, p) \<Rightarrow> (res, s\<lparr>ls_al := (ls_al s)\<lparr>al_sessions := p\<rparr>\<rparr>))"

definition with_al :: "('c api_listener \<Rightarrow> 'c api_listener) \<Rightarrow> 'c login_server \<Rightarrow> 'c login_server" where
  "with_al f s = s\<lparr>ls_al := f (ls_al s)\<rparr>"

definition new_password :: "string \<Rightarrow> user" where
  "new_password pw = \<lparr>uUsername = '''', uPassword = pw, uPasswordExpired = Some False, uGroups = None, uTwoFASendTo = '''', uTotP = ''''\<rparr>"

text \<open>\<open>Change\<close> of the password, then every session of the user is retired.\<close>

definition change_password :: "'c login_env \<Rightarrow> string \<Rightarrow> string \<Rightarrow> 'c login_server \<Rightarrow> goerr option \<times> goerr option \<times> 'c login_server" where
  "change_password env user pw s =
     (case Change (ae_users (le_auth env)) (new_password pw) user (al_users (ls_al s)) of
        (Some e, as) \<Rightarrow> (Some e, None, with_al (al_users_update (\<lambda>_. as)) s)
      | (None, as) \<Rightarrow>
          (case Cache_DeleteAllByUser (ae_cache (le_auth env)) (le_revoke_err env) (ae_now (le_auth env)) user (al_sessions (ls_al s)) of
             (e, p) \<Rightarrow> (None, e, with_al (\<lambda>al. al\<lparr>al_users := as, al_sessions := p\<rparr>) s)))"

section \<open>The password step\<close>

definition second_factor_on :: "'c login_server \<Rightarrow> bool" where
  "second_factor_on s \<longleftrightarrow> al_twoFAOn (ls_al s) \<or> al_totPEnabled (ls_al s)"

definition login_2fa ::
    "'c login_env \<Rightarrow> http_request \<Rightarrow> duration \<Rightarrow> string \<Rightarrow> string \<Rightarrow> bool \<Rightarrow> 'c login_server \<Rightarrow> login_response response \<times> 'c login_server" where
  "login_2fa env r lifetime user newpwd deferPasswordChange s =
     (case SendToken (ae_users (le_auth env)) (asProvider (al_users (ls_al s))) (ae_now (le_auth env)) (le_code env) (le_send_err env)
             user (ls_twofa s) of
        (Inl e, srv) \<Rightarrow> (jsonError e, s\<lparr>ls_twofa := srv\<rparr>)
      | (Inr sendTo, srv) \<Rightarrow>
          (case create_token env r lifetime user Scopes2FaCheckOnly (s\<lparr>ls_twofa := srv\<rparr>) of
             (Inl e, s1) \<Rightarrow> (jsonErrorResponse StatusInternalServerError e, s1)
           | (Inr tokenStr, s1) \<Rightarrow>
               (writeJSONResponse StatusOK
                  \<lparr>lrToken = Some tokenStr, lrTwoFA = Some \<lparr>tfSendTo = sendTo, tfDeliveryMethod = ls_delivery s, tfTotPKeyStatus = ''''\<rparr>\<rparr>,
                if deferPasswordChange then s1\<lparr>ls_twofa := SetPendingPasswordChange user newpwd (ls_twofa s1)\<rparr> else s1)))"

definition login_totp ::
    "'c login_env \<Rightarrow> http_request \<Rightarrow> duration \<Rightarrow> user \<Rightarrow> string \<Rightarrow> string \<Rightarrow> bool \<Rightarrow> 'c login_server \<Rightarrow> login_response response \<times> 'c login_server" where
  "login_totp env r lifetime usr user newpwd deferPasswordChange s =
     (let srv = SetTotPLoginSession (ae_now (le_auth env)) user (ls_totPTimeout s) (ls_twofa s);
          s1 = s\<lparr>ls_twofa := (if deferPasswordChange then SetPendingPasswordChange user newpwd srv else srv)\<rparr>
      in case GetUsersTotPCode (le_otp env) usr of
           Inl e \<Rightarrow> (jsonErrorResponse StatusInternalServerError e, s1)
         | Inr totP \<Rightarrow>
             (let scopes = (if totP = None then Scopes2FaCheckOnly @ ScopesTotPCreateOnly else Scopes2FaCheckOnly);
                  status = (if totP = None then ''pending'' else ''exists'')
              in case create_token env r lifetime user scopes s1 of
                   (Inl e, s2) \<Rightarrow> (jsonErrorResponse StatusInternalServerError e, s2)
                 | (Inr tokenStr, s2) \<Rightarrow>
                     (writeJSONResponse StatusOK
                        \<lparr>lrToken = Some tokenStr,
                         lrTwoFA = Some \<lparr>tfSendTo = '''', tfDeliveryMethod = ''totp_authenticator_app'', tfTotPKeyStatus = status\<rparr>\<rparr>, s2)))"

definition login_plain ::
    "'c login_env \<Rightarrow> http_request \<Rightarrow> duration \<Rightarrow> string \<Rightarrow> 'c login_server \<Rightarrow> login_response response \<times> 'c login_server" where
  "login_plain env r lifetime user s =
     (case create_token env r lifetime user ScopesAllExcluding2FaCheck (with_al (recordAuthSuccess (rqRemoteIP r)) s) of
        (Inl e, s1) \<Rightarrow> (jsonErrorResponse StatusInternalServerError e, s1)
      | (Inr tokenStr, s1) \<Rightarrow> (writeJSONResponse StatusOK \<lparr>lrToken = Some tokenStr, lrTwoFA = None\<rparr>, s1))"

text \<open>The part of \<^verbatim>\<open>handleLogin\<close> after the credentials were accepted.\<close>

definition login_accepted ::
    "'c login_env \<Rightarrow> http_request \<Rightarrow> string \<Rightarrow> string \<Rightarrow> string \<Rightarrow> user \<Rightarrow> 'c login_server \<Rightarrow> login_response response \<times> 'c login_server" where
  "login_accepted env r lifetimeQuery user newpwd usr s =
     (case parseTokenLifetime lifetimeQuery of
        Inl e \<Rightarrow> (jsonErrorResponse StatusBadRequest e, s)
      | Inr lifetime \<Rightarrow>
          (let deferPasswordChange = (newpwd \<noteq> '''' \<and> second_factor_on s);
               finish = (\<lambda>usr s1.
                 if \<not> deferPasswordChange \<and> uPasswordExpired usr = Some True
                 then (jsonErrorResponse StatusUnauthorized ErrThatPasswordHasExpired, s1)
                 else if al_twoFAOn (ls_al s1) then login_2fa env r lifetime user newpwd deferPasswordChange s1
                 else if al_totPEnabled (ls_al s1) then login_totp env r lifetime usr user newpwd deferPasswordChange s1
                 else login_plain env r lifetime user s1)
           in if newpwd \<noteq> '''' \<and> \<not> deferPasswordChange
              then (case change_password env user newpwd s of
                      (Some e, _, s1) \<Rightarrow> (jsonError e, s1)
                    | (None, Some e, s1) \<Rightarrow> (jsonErrorResponse StatusInternalServerError e, s1)
                    | (None, None, s1) \<Rightarrow> finish (usr\<lparr>uPasswordExpired := Some False\<rparr>) s1)
              else finish usr s))"

definition handleLogin ::
    "'c login_env \<Rightarrow> http_request \<Rightarrow> string \<Rightarrow> string \<Rightarrow> string \<Rightarrow> string \<Rightarrow> bool \<Rightarrow> 'c login_server
       \<Rightarrow> login_response response \<times> 'c login_server" where
  "handleLogin env r lifetimeQuery user pwd newpwd skipPasswordValidation s =
     (if user_banned (le_auth env) (rqRemoteIP r) user (ls_al s) then (jsonErrorResponse StatusTooManyRequests ErrTooManyRequests, s)
      else if user = '''' then (jsonErrorResponseWithTitle StatusUnauthorized ''username is required'', s)
      else case validateCredentials (le_auth env) (le_uuid env) user pwd skipPasswordValidation (ls_al s) of
        (Inl e, al) \<Rightarrow> (jsonError e, s\<lparr>ls_al := al\<rparr>)
      | (Inr (authorized, usr), al) \<Rightarrow>
          (let al1 = handleBannedIPs (le_auth env) (rqRemoteIP r) authorized al in
           case (authorized, usr) of
             (True, Some u) \<Rightarrow>
               login_accepted env r lifetimeQuery user newpwd u
                 (let s1 = s\<lparr>ls_al := al1\<rparr> in if skipPasswordValidation then s1 else shredConsumedInstallerCreds env s1)
           | _ \<Rightarrow>
               (jsonErrorResponseWithTitle StatusUnauthorized ''unauthorized'',
                s\<lparr>ls_al := ban_user (le_auth env) (rqRemoteIP r) user al1\<rparr>)))"

text \<open>\<open>authHeader\<close> is the value of the configured header of a delegating proxy (none configured, or absent, is empty)
  and \<open>userHeader\<close> the user it names.\<close>

definition handleGetLogin ::
    "'c login_env \<Rightarrow> http_request \<Rightarrow> string \<Rightarrow> string \<Rightarrow> string \<Rightarrow> 'c login_server \<Rightarrow> login_response response \<times> 'c login_server" where
  "handleGetLogin env r lifetimeQuery authHeader userHeader s =
     (if authHeader \<noteq> '''' then handleLogin env r lifetimeQuery userHeader '''' '''' True s
      else case BasicAuth (rqAuthorization r) of
             Some (basicUser, basicPwd) \<Rightarrow> handleLogin env r lifetimeQuery basicUser basicPwd '''' False s
           | None \<Rightarrow>
               (jsonErrorResponseWithTitle StatusUnauthorized ''auth is required'',
                with_al (handleBannedIPs (le_auth env) (rqRemoteIP r) False) s))"

definition handlePostLogin ::
    "'c login_env \<Rightarrow> http_request \<Rightarrow> string \<Rightarrow> (string \<times> string \<times> string) res \<Rightarrow> 'c login_server \<Rightarrow> login_response response \<times> 'c login_server" where
  "handlePostLogin env r lifetimeQuery body s =
     (case body of
        Inl e \<Rightarrow> (jsonError e, with_al (handleBannedIPs (le_auth env) (rqRemoteIP r) False) s)
      | Inr (user, pwd, newPassword) \<Rightarrow> handleLogin env r lifetimeQuery user pwd newPassword False s)"

text \<open>\<open>form\<close> and \<open>json\<close> are the three fields as \<^verbatim>\<open>net/http\<close> and \<^verbatim>\<open>encoding/json\<close> parse them from the body.\<close>

definition parseLoginRequestBody ::
    "string \<Rightarrow> (string \<times> string \<times> string) res \<Rightarrow> (string \<times> string \<times> string) res \<Rightarrow> (string \<times> string \<times> string) res" where
  "parseLoginRequestBody reqContentType form json =
     (if reqContentType = ''application/x-www-form-urlencoded''
      then (case form of Inl e \<Rightarrow> Inl (APIError StatusBadRequest (''failed to parse form: '' @ err_format e) (err_args e)) | Inr f \<Rightarrow> Inr f)
      else if reqContentType = ''application/json'' then json
      else Inl (APIError StatusBadRequest ''unsupported content type: %s'' [AS reqContentType]))"

section \<open>The second step\<close>

definition sendJWTToken ::
    "'c login_env \<Rightarrow> http_request \<Rightarrow> string \<Rightarrow> string \<Rightarrow> 'c login_server \<Rightarrow> login_response response \<times> 'c login_server" where
  "sendJWTToken env r lifetimeQuery user s =
     (case parseTokenLifetime lifetimeQuery of
        Inl e \<Rightarrow> (jsonErrorResponse StatusBadRequest e, s)
      | Inr lifetime \<Rightarrow> login_plain env r lifetime user s)"

text \<open>The answer is the username to hold responsible, and the pending password or an error; none is a
  panic, which \<^verbatim>\<open>net/http\<close> recovers without an answer (the source dereferences the user it did not find).\<close>

definition parseAndValidate2FATokenRequest ::
    "'c login_env \<Rightarrow> http_request \<Rightarrow> (string \<times> string) res \<Rightarrow> 'c login_server \<Rightarrow> (string \<times> string res) option \<times> 'c login_server" where
  "parseAndValidate2FATokenRequest env r body s =
     (if \<not> second_factor_on s then (Some ('''', Inl (APIError StatusConflict ''2fa is disabled'' [])), s)
      else case body of
        Inl e \<Rightarrow> (Some ('''', Inl e), s)
      | Inr (name, token) \<Rightarrow>
          if BanList_IsBanned (ae_now (le_auth env)) name (al_bannedUsers (ls_al s))
          then (Some (name, Inl (APIError StatusTooManyRequests (err_format ErrTooManyRequests) [])), s)
          else if name = '''' then (Some ('''', Inl (unauthorized ''username is required'')), s)
          else if token = '''' then (Some (name, Inl (unauthorized ''token is required'')), s)
          else case GetBearerToken (rqAuthorization r) of
            None \<Rightarrow> (Some (name, Inl (APIError StatusBadRequest ''token is required'' [])), s)
          | Some bearerToken \<Rightarrow>
              (case checkBearerToken (le_auth env) bearerToken (rqPath r) (rqMethod r) (rqRemoteIP r) (ls_al s) of
                 (Inl e, al) \<Rightarrow> (Some (name, Inl e), s\<lparr>ls_al := al\<rparr>)
               | (Inr (True, Some ctx), al) \<Rightarrow>
                   (let user = tUsername (AppClaims ctx); s1 = s\<lparr>ls_al := al\<rparr> in
                    if name \<noteq> user
                    then (Some (user, Inl (APIError StatusForbidden ''username does not match the pending login session'' [])), s1)
                    else if al_totPEnabled al
                    then (case GetByUsername (ae_users (le_auth env)) (asProvider (al_users al)) user of
                            Inl e \<Rightarrow> (Some ('''', Inl e), s1)
                          | Inr None \<Rightarrow> (None, s1)
                          | Inr (Some u) \<Rightarrow>
                              (case ValidateTotPCode (le_otp env) (ae_now (le_auth env)) u token (ls_twofa s1) of
                                 (res, srv) \<Rightarrow> (Some (user, res), s1\<lparr>ls_twofa := srv\<rparr>)))
                    else (case ValidateToken (ae_now (le_auth env)) user token (ls_twofa s1) of
                            (res, srv) \<Rightarrow> (Some (user, res), s1\<lparr>ls_twofa := srv\<rparr>)))
               | (Inr _, al) \<Rightarrow> (Some (name, Inl (APIError StatusForbidden ''access denied'' [])), s\<lparr>ls_al := al\<rparr>)))"

definition handlePostVerify2FAToken ::
    "'c login_env \<Rightarrow> http_request \<Rightarrow> string \<Rightarrow> (string \<times> string) res \<Rightarrow> 'c login_server \<Rightarrow> login_response response option \<times> 'c login_server" where
  "handlePostVerify2FAToken env r lifetimeQuery body s =
     (case parseAndValidate2FATokenRequest env r body s of
        (None, s1) \<Rightarrow> (None, s1)
      | (Some (user, Inl e), s1) \<Rightarrow>
          (Some (jsonError e),
           with_al (\<lambda>al. (let al1 = handleBannedIPs (le_auth env) (rqRemoteIP r) False al
                          in if user \<noteq> '''' then ban_user (le_auth env) (rqRemoteIP r) user al1 else al1)) s1)
      | (Some (user, Inr pendingPassword), s1) \<Rightarrow>
          if pendingPassword = '''' then apfst Some (sendJWTToken env r lifetimeQuery user s1)
          else (case change_password env user pendingPassword s1 of
                  (Some e, _, s2) \<Rightarrow> (Some (jsonError e), s2)
                | (None, _, s2) \<Rightarrow> apfst Some (sendJWTToken env r lifetimeQuery user s2)))"

section \<open>Managing the second factor\<close>

definition requireCurrentPassword :: "'c login_env \<Rightarrow> string \<Rightarrow> string \<Rightarrow> 'c login_server \<Rightarrow> goerr option" where
  "requireCurrentPassword env user oldPassword s =
     (case getUserModelForAuth (le_auth env) user (ls_al s) of
        Inl e \<Rightarrow> Some e
      | Inr curUser \<Rightarrow>
          if uPassword curUser = '''' then None
          else if oldPassword = '''' then Some (APIError StatusForbidden ''Missing old password.'' [])
          else if \<not> verifyPassword (le_auth env) (uPassword curUser) oldPassword
          then Some (APIError StatusForbidden ''Incorrect old password.'' [])
          else None)"

definition store_totp :: "'c login_env \<Rightarrow> user \<Rightarrow> TotP option \<Rightarrow> 'c login_server \<Rightarrow> goerr option \<times> 'c login_server" where
  "store_totp env usr totP s =
     (let raw = TotP_Serialize totP;
          change = \<lparr>uUsername = '''', uPassword = '''', uPasswordExpired = None, uGroups = None, uTwoFASendTo = '''',
                    uTotP = (if raw = '''' then '' '' else raw)\<rparr>
      in case Change (ae_users (le_auth env)) change (uUsername usr) (al_users (ls_al s)) of
           (e, as) \<Rightarrow> (e, with_al (al_users_update (\<lambda>_. as)) s))"

definition handleManageTotP :: "'c login_env \<Rightarrow> user \<Rightarrow> bool \<Rightarrow> 'c login_server \<Rightarrow> TotP option response \<times> 'c login_server" where
  "handleManageTotP env usr create s =
     (if create
      then (case GetUsersTotPCode (le_otp env) usr of
              Inl e \<Rightarrow> (jsonErrorResponse StatusInternalServerError e, s)
            | Inr (Some existing) \<Rightarrow>
                (jsonErrorResponse StatusConflict (GoError ''cannot create new totP secret when another one already exists'' []), s)
            | Inr None \<Rightarrow>
                (case bind_res (le_generated env) (NewTotP (le_otp env)) of
                   Inl e \<Rightarrow> (jsonErrorResponse StatusInternalServerError e, s)
                 | Inr totP \<Rightarrow>
                     (case store_totp env usr (Some totP) s of
                        (Some e, s1) \<Rightarrow> (jsonError e, s1)
                      | (None, s1) \<Rightarrow> (writeJSONResponse StatusOK (Some totP), s1))))
      else (case store_totp env usr None s of
              (Some e, s1) \<Rightarrow> (jsonError e, s1)
            | (None, s1) \<Rightarrow> (writeJSONResponse StatusNoContent None, s1)))"

definition handleManageCurUserTotP :: "'c login_env \<Rightarrow> string \<Rightarrow> bool \<Rightarrow> 'c login_server \<Rightarrow> TotP option response \<times> 'c login_server" where
  "handleManageCurUserTotP env user create s =
     (case getUserModel (le_auth env) user (ls_al s) of
        Inl e \<Rightarrow> (jsonErrorResponse StatusInternalServerError e, s)
      | Inr None \<Rightarrow> (jsonErrorResponseWithTitle StatusNotFound ''user not found'', s)
      | Inr (Some usr) \<Rightarrow> handleManageTotP env usr create s)"

definition handleDeleteTotP :: "'c login_env \<Rightarrow> string \<Rightarrow> string \<Rightarrow> 'c login_server \<Rightarrow> TotP option response \<times> 'c login_server" where
  "handleDeleteTotP env user oldPassword s =
     (case requireCurrentPassword env user oldPassword s of
        Some e \<Rightarrow> (jsonError e, s)
      | None \<Rightarrow> handleManageCurUserTotP env user False s)"

definition handleGetTotP :: "'c login_env \<Rightarrow> string \<Rightarrow> 'c login_server \<Rightarrow> bool response" where
  "handleGetTotP env user s =
     (case getUserModel (le_auth env) user (ls_al s) of
        Inl e \<Rightarrow> jsonErrorResponse StatusInternalServerError e
      | Inr None \<Rightarrow> jsonErrorResponseWithTitle StatusNotFound ''user not found''
      | Inr (Some usr) \<Rightarrow>
          (case GetUsersTotPCode (le_otp env) usr of
             Inl e \<Rightarrow> jsonErrorResponse StatusInternalServerError e
           | Inr totP \<Rightarrow>
               if (case totP of None \<Rightarrow> True | Some tp \<Rightarrow> tpSecret tp = '''')
               then jsonErrorResponseWithTitle StatusNotFound ''time based one time secret key should be generated for this user''
               else writeJSONResponse StatusOK True))"

section \<open>Properties\<close>

text \<open>The lifetime of a token is positive and at most ninety days whatever number the request asks for, also
  where the conversion to nanoseconds overflows 64 bits, and every number of seconds up to ninety days is
  granted exactly.\<close>

theorem token_lifetime_bounds:
  "(\<forall>d. parseTokenLifetime query = Inr d \<longrightarrow> 0 < d \<and> d \<le> 90 * 24 * Hour) \<and>
   (0 < n \<and> n \<le> 90 * 24 * 60 * 60 \<longrightarrow> parseTokenLifetime (itoa n) = Inr (n * Second))"
proof
  show "\<forall>d. parseTokenLifetime query = Inr d \<longrightarrow> 0 < d \<and> d \<le> 90 * 24 * Hour"
    by (auto simp: parseTokenLifetime_def Let_def DefaultMaxTokenLifetime_def DefaultTokenLifetime_def split: if_splits)
  show "0 < n \<and> n \<le> 90 * 24 * 60 * 60 \<longrightarrow> parseTokenLifetime (itoa n) = Inr (n * Second)"
  proof
    assume n: "0 < n \<and> n \<le> 90 * 24 * 60 * 60"
    then have "int64_range n" "int64_range (n * Second)" by (auto simp: int64_range_def MaxInt64_def MinInt64_def)
    then have "atoi (itoa n) = AtoiOk n" "wrap64 (n * Second) = n * Second" by (simp_all add: atoi_itoa wrap64_id)
    moreover have "itoa n \<noteq> ''''" by (simp add: itoa_def)
    ultimately show "parseTokenLifetime (itoa n) = Inr (n * Second)"
      using n by (simp add: parseTokenLifetime_def Let_def DefaultMaxTokenLifetime_def)
  qed
qed

lemma create_token_Inr:
  assumes "create_token env r lifetime user scopes s = (Inr tok, s')"
  obtains sid where "jwt_sign (ae_jwt (le_auth env)) (al_jwtSecret (ls_al s))
      \<lparr>tUsername = user, tSessionID = sid, tScopes = scopes, tId = le_jti env, tExpiresAt = (ae_now (le_auth env) + lifetime) div Second\<rparr> = Inr tok"
    and "\<exists>p. s' = s\<lparr>ls_al := (ls_al s)\<lparr>al_sessions := p\<rparr>\<rparr>"
proof -
  obtain p where c: "CreateAuthToken (ae_jwt (le_auth env)) (ae_cache (le_auth env)) (le_create_err env) (ae_rowid (le_auth env)) (ae_now (le_auth env))
             (le_jti env) (al_jwtSecret (ls_al s)) lifetime user scopes (rqUserAgent r) (rqRemoteIP r) (al_sessions (ls_al s)) = (Inr tok, p)"
    and s': "s' = s\<lparr>ls_al := (ls_al s)\<lparr>al_sessions := p\<rparr>\<rparr>"
    using assms by (auto simp: create_token_def split: prod.splits)
  show ?thesis using CreateAuthToken_Inr [OF c] that s' by metis
qed

lemma parse_signed:
  assumes "jwt_spec lib" "jwt_sign lib secret c = Inr tok" "ParseToken lib t tok secret = Inr ctx"
  shows "AppClaims ctx = c"
proof -
  obtain tok' where t: "jwt_sign lib secret c = Inr tok'"
    and p: "\<forall>now. (tExpiresAt c = 0 \<or> now div Second < tExpiresAt c \<longrightarrow> jwt_parse lib now secret tok' = Inr (c, True)) \<and>
               (tExpiresAt c \<noteq> 0 \<and> tExpiresAt c \<le> now div Second \<longrightarrow> is_err (jwt_parse lib now secret tok'))"
    using assms(1) unfolding jwt_spec_def by blast
  have "tok' = tok" using t assms(2) by simp
  with assms(3) p [rule_format, of t] show ?thesis
    by (cases "tExpiresAt c = 0 \<or> t div Second < tExpiresAt c") (auto simp: ParseToken_def split: sum.splits)
qed

text \<open>The token a login answers with carries these scopes when a second factor is configured.\<close>

definition pending_scopes :: "scope list \<Rightarrow> bool" where
  "pending_scopes sc \<longleftrightarrow> sc = Scopes2FaCheckOnly \<or> sc = Scopes2FaCheckOnly @ ScopesTotPCreateOnly"

lemma pending_scopes_confined:
  assumes "pending_scopes sc" "currentURIMatchesTokenScopes uri m sc"
  shows "m = ''POST'' \<and> trim_char uri (CHR ''/'') \<in> {''api/v1/verify-2fa'', ''api/v1/me/totp-secret''}"
  using assms
  by (auto simp: pending_scopes_def currentURIMatchesTokenScopes_def Scopes2FaCheckOnly_def ScopesTotPCreateOnly_def
      AllRoutesPrefix_def Verify2FaRoute_def TotPRoutes_def split: if_splits)

definition issues_pending :: "'c login_env \<Rightarrow> 'c login_server \<Rightarrow> login_response response \<times> 'c login_server \<Rightarrow> bool" where
  "issues_pending env s out \<longleftrightarrow>
     (\<forall>resp. fst out = Response StatusOK (Inr resp) \<longrightarrow>
        (\<exists>tok c. lrToken resp = Some tok \<and> jwt_sign (ae_jwt (le_auth env)) (al_jwtSecret (ls_al s)) c = Inr tok \<and> pending_scopes (tScopes c))) \<and>
     al_users (ls_al (snd out)) = al_users (ls_al s)"

lemma create_token_users: "create_token env r lifetime user scopes s = (x, s') \<Longrightarrow> al_users (ls_al s') = al_users (ls_al s)"
  by (auto simp: create_token_def split: prod.splits)

lemma create_token_pending:
  assumes "create_token env r lifetime user sc s = (Inr tok, s')" "pending_scopes sc"
  shows "\<exists>c. jwt_sign (ae_jwt (le_auth env)) (al_jwtSecret (ls_al s)) c = Inr tok \<and> pending_scopes (tScopes c)"
proof -
  obtain sid where "jwt_sign (ae_jwt (le_auth env)) (al_jwtSecret (ls_al s))
      \<lparr>tUsername = user, tSessionID = sid, tScopes = sc, tId = le_jti env, tExpiresAt = (ae_now (le_auth env) + lifetime) div Second\<rparr> = Inr tok"
      and "\<exists>p. s' = s\<lparr>ls_al := (ls_al s)\<lparr>al_sessions := p\<rparr>\<rparr>"
    by (rule create_token_Inr [OF assms(1)])
  with assms(2) show ?thesis
    by (intro exI [of _ "\<lparr>tUsername = user, tSessionID = sid, tScopes = sc, tId = le_jti env, tExpiresAt = (ae_now (le_auth env) + lifetime) div Second\<rparr>"]) simp
qed

lemma login_2fa_pending: "issues_pending env s (login_2fa env r lifetime user newpwd d s)"
proof -
  obtain x srv where st: "SendToken (ae_users (le_auth env)) (asProvider (al_users (ls_al s))) (ae_now (le_auth env)) (le_code env) (le_send_err env)
             user (ls_twofa s) = (x, srv)" by fastforce
  obtain y s1 where ct: "create_token env r lifetime user Scopes2FaCheckOnly (s\<lparr>ls_twofa := srv\<rparr>) = (y, s1)" by fastforce
  have u: "al_users (ls_al s1) = al_users (ls_al s)" using create_token_users [OF ct] by simp
  show ?thesis
  proof (cases x)
    case (Inl e) then show ?thesis by (simp add: login_2fa_def st issues_pending_def jsonError_def split: goerr.split)
  next
    case (Inr sendTo)
    show ?thesis
    proof (cases y)
      case (Inl e) with Inr u show ?thesis by (simp add: login_2fa_def st ct issues_pending_def jsonErrorResponse_def)
    next
      case I: (Inr tok)
      have "\<exists>c. jwt_sign (ae_jwt (le_auth env)) (al_jwtSecret (ls_al s)) c = Inr tok \<and> pending_scopes (tScopes c)"
        using create_token_pending [OF ct [unfolded I]] by (simp add: pending_scopes_def)
      then show ?thesis using Inr I u by (auto simp: login_2fa_def st ct issues_pending_def writeJSONResponse_def)
    qed
  qed
qed

lemma login_totp_pending: "issues_pending env s (login_totp env r lifetime usr user newpwd d s)"
proof -
  define s1 where "s1 = s\<lparr>ls_twofa := (let srv = SetTotPLoginSession (ae_now (le_auth env)) user (ls_totPTimeout s) (ls_twofa s)
     in if d then SetPendingPasswordChange user newpwd srv else srv)\<rparr>"
  have s1: "al_users (ls_al s1) = al_users (ls_al s)" "al_jwtSecret (ls_al s1) = al_jwtSecret (ls_al s)" by (simp_all add: s1_def)
  show ?thesis
  proof (cases "GetUsersTotPCode (le_otp env) usr")
    case (Inl e) then show ?thesis by (simp add: login_totp_def Let_def issues_pending_def jsonErrorResponse_def)
  next
    case (Inr totP)
    define sc where "sc = (if totP = None then Scopes2FaCheckOnly @ ScopesTotPCreateOnly else Scopes2FaCheckOnly)"
    obtain y s2 where ct: "create_token env r lifetime user sc s1 = (y, s2)" by fastforce
    have u: "al_users (ls_al s2) = al_users (ls_al s)" using create_token_users [OF ct] s1 by simp
    have l: "login_totp env r lifetime usr user newpwd d s = (case y of Inl e \<Rightarrow> (jsonErrorResponse StatusInternalServerError e, s2)
        | Inr tokenStr \<Rightarrow> (writeJSONResponse StatusOK \<lparr>lrToken = Some tokenStr, lrTwoFA = Some \<lparr>tfSendTo = '''',
            tfDeliveryMethod = ''totp_authenticator_app'', tfTotPKeyStatus = if totP = None then ''pending'' else ''exists''\<rparr>\<rparr>, s2))"
      using ct by (simp add: login_totp_def Inr Let_def sc_def s1_def split: sum.split)
    show ?thesis
    proof (cases y)
      case (Inl e) with u show ?thesis by (simp add: l issues_pending_def jsonErrorResponse_def)
    next
      case I: (Inr tok)
      have "\<exists>c. jwt_sign (ae_jwt (le_auth env)) (al_jwtSecret (ls_al s)) c = Inr tok \<and> pending_scopes (tScopes c)"
        using create_token_pending [OF ct [unfolded I]] by (simp add: pending_scopes_def sc_def s1)
      then show ?thesis using I u by (auto simp: l issues_pending_def writeJSONResponse_def)
    qed
  qed
qed

lemma login_accepted_pending:
  assumes "second_factor_on s"
  shows "issues_pending env s (login_accepted env r q user newpwd usr s)"
proof (cases "parseTokenLifetime q")
  case (Inl e) then show ?thesis by (simp add: login_accepted_def issues_pending_def jsonErrorResponse_def)
next
  case (Inr lifetime)
  have "newpwd \<noteq> '''' \<and> second_factor_on s \<or> newpwd = ''''" using assms by simp
  then show ?thesis
    using login_2fa_pending [of env s r lifetime user newpwd] login_totp_pending [of env s r lifetime usr user newpwd] assms
    by (auto simp: login_accepted_def Inr Let_def second_factor_on_def issues_pending_def jsonErrorResponse_def)
qed

lemma validateCredentials_frame:
  assumes "validateCredentials env rnd user pw skip al = (res, al')"
  shows "al_jwtSecret al' = al_jwtSecret al \<and> al_twoFAOn al' = al_twoFAOn al \<and> al_totPEnabled al' = al_totPEnabled al"
    and "\<not> skip \<Longrightarrow> al' = al"
  using assms
  by (auto simp: validateCredentials_def shouldCreateMissingUser_def Let_def split: if_splits sum.splits option.splits prod.splits)

lemma throttle_frame [simp]:
  "al_jwtSecret (handleBannedIPs env ip ok al) = al_jwtSecret al" "al_twoFAOn (handleBannedIPs env ip ok al) = al_twoFAOn al"
  "al_totPEnabled (handleBannedIPs env ip ok al) = al_totPEnabled al" "al_users (handleBannedIPs env ip ok al) = al_users al"
  "al_users (ban_user env ip u al) = al_users al"
  by (simp_all add: handleBannedIPs_def ban_user_def)

lemma shred_frame [simp]: "ls_al (shredConsumedInstallerCreds env s) = ls_al s" "ls_twofa (shredConsumedInstallerCreds env s) = ls_twofa s"
  by (simp_all add: shredConsumedInstallerCreds_def)

text \<open>C7: Where a second factor is configured, a login with the right password and nothing else gets a token that is
  good for two requests only, verifying the second factor and, where the account has none yet, creating it. And
  it changes no account: the new password a login may ask for is not applied at this step.\<close>

theorem password_alone_confined:
  assumes "handleLogin env r q user pwd newpwd False s = (Response StatusOK (Inr resp), s')" "second_factor_on s"
    and "jwt_spec (ae_jwt (le_auth env))"
  shows "al_users (ls_al s') = al_users (ls_al s) \<and>
    (\<exists>tok. lrToken resp = Some tok \<and>
       (\<forall>t ctx uri m. ParseToken (ae_jwt (le_auth env)) t tok (al_jwtSecret (ls_al s)) = Inr ctx \<longrightarrow>
          currentURIMatchesTokenScopes uri m (tScopes (AppClaims ctx)) \<longrightarrow>
          m = ''POST'' \<and> trim_char uri (CHR ''/'') \<in> {''api/v1/verify-2fa'', ''api/v1/me/totp-secret''}))"
proof -
  obtain x al where v: "validateCredentials (le_auth env) (le_uuid env) user pwd False (ls_al s) = (x, al)" by fastforce
  have al: "al = ls_al s" using validateCredentials_frame(2) [OF v] by simp
  obtain u where x: "x = Inr (True, Some u)" and l: "login_accepted env r q user newpwd u
      (shredConsumedInstallerCreds env (s\<lparr>ls_al := handleBannedIPs (le_auth env) (rqRemoteIP r) True (ls_al s)\<rparr>)) = (Response StatusOK (Inr resp), s')"
    using assms(1) by (auto simp: handleLogin_def v al Let_def jsonErrorResponse_def jsonErrorResponseWithTitle_def jsonError_def
        split: if_splits sum.splits prod.splits bool.splits option.splits goerr.splits)
  define s1 where "s1 = shredConsumedInstallerCreds env (s\<lparr>ls_al := handleBannedIPs (le_auth env) (rqRemoteIP r) True (ls_al s)\<rparr>)"
  have s1: "ls_al s1 = ls_al s" by (simp add: s1_def handleBannedIPs_def)
  have "issues_pending env s1 (login_accepted env r q user newpwd u s1)"
    using assms(2) s1 by (intro login_accepted_pending) (simp add: second_factor_on_def)
  then have p: "al_users (ls_al s') = al_users (ls_al s)" "\<exists>tok c. lrToken resp = Some tok \<and>
      jwt_sign (ae_jwt (le_auth env)) (al_jwtSecret (ls_al s)) c = Inr tok \<and> pending_scopes (tScopes c)"
    unfolding issues_pending_def l [folded s1_def] by (simp_all add: s1)
  then obtain tok c where c: "lrToken resp = Some tok" "jwt_sign (ae_jwt (le_auth env)) (al_jwtSecret (ls_al s)) c = Inr tok" "pending_scopes (tScopes c)"
    by blast
  have "m = ''POST'' \<and> trim_char uri (CHR ''/'') \<in> {''api/v1/verify-2fa'', ''api/v1/me/totp-secret''}"
    if "ParseToken (ae_jwt (le_auth env)) t tok (al_jwtSecret (ls_al s)) = Inr ctx" "currentURIMatchesTokenScopes uri m (tScopes (AppClaims ctx))" for t ctx uri m
    using pending_scopes_confined [OF c(3)] that(2) parse_signed [OF assms(3) c(2) that(1)] by simp
  with p(1) c(1) show ?thesis by blast
qed

lemma verify_request_Inr:
  assumes "parseAndValidate2FATokenRequest env r body s = (Some (user, Inr pending), s1)"
  shows "\<exists>code tok ctx. body = Inr (user, code) \<and> GetBearerToken (rqAuthorization r) = Some tok \<and>
     fst (checkBearerToken (le_auth env) tok (rqPath r) (rqMethod r) (rqRemoteIP r) (ls_al s)) = Inr (True, Some ctx) \<and>
     tUsername (AppClaims ctx) = user \<and>
     (if al_totPEnabled (ls_al s)
      then \<exists>u. GetByUsername (ae_users (le_auth env)) (asProvider (al_users (ls_al s))) user = Inr (Some u) \<and>
               fst (ValidateTotPCode (le_otp env) (ae_now (le_auth env)) u code (ls_twofa s)) = Inr pending
      else fst (ValidateToken (ae_now (le_auth env)) user code (ls_twofa s)) = Inr pending)"
proof -
  obtain name code tok where b: "body = Inr (name, code)" and g: "GetBearerToken (rqAuthorization r) = Some tok"
    using assms by (auto simp: parseAndValidate2FATokenRequest_def split: if_splits sum.splits prod.splits option.splits)
  obtain x al where c: "checkBearerToken (le_auth env) tok (rqPath r) (rqMethod r) (rqRemoteIP r) (ls_al s) = (x, al)" by fastforce
  have f: "al_totPEnabled al = al_totPEnabled (ls_al s)" "al_users al = al_users (ls_al s)"
    using c by (auto simp: checkBearerToken_def split: sum.splits if_splits option.splits)
  obtain ctx where x: "x = Inr (True, Some ctx)" and u: "name = user" "tUsername (AppClaims ctx) = user"
    using assms by (auto simp: parseAndValidate2FATokenRequest_def b g c Let_def
        split: if_splits sum.splits prod.splits option.splits bool.splits)
  show ?thesis
  proof (cases "al_totPEnabled (ls_al s)")
    case True
    then show ?thesis using assms b g c x u f
      by (auto simp: parseAndValidate2FATokenRequest_def Let_def split: if_splits sum.splits prod.splits option.splits) 
  next
    case False
    then show ?thesis using assms b g c x u f
      by (auto simp: parseAndValidate2FATokenRequest_def Let_def split: if_splits prod.splits)
  qed
qed


text \<open>The password a login asks to set is stored with the user's pending login, not with the login that asked.
  A second login with the right password while a code is on its way sends no new code and replaces the pending
  password. So when the owner of the account then enters the code that was sent before, the password that is
  applied is the one the second login asked for.\<close>

theorem later_login_plants_password:
  assumes "handleLogin env r q user pwd newpwd False s = (Response StatusOK (Inr resp), s')" "newpwd \<noteq> ''''" "al_twoFAOn (ls_al s)"
    and "tokensByUser (ls_twofa s) user = Some t" "t < length (tfHeap (ls_twofa s))" "live_code (ae_now (le_auth env)) user (ls_twofa s)"
    and "now \<le> etExpiry (tfHeap (ls_twofa s) ! t)"
  shows "fst (ValidateToken now user (etToken (tfHeap (ls_twofa s) ! t)) (ls_twofa s')) = Inr newpwd"
proof -
  obtain x al where v: "validateCredentials (le_auth env) (le_uuid env) user pwd False (ls_al s) = (x, al)" by fastforce
  have al: "al = ls_al s" using validateCredentials_frame(2) [OF v] by simp
  define s1 where "s1 = shredConsumedInstallerCreds env (s\<lparr>ls_al := handleBannedIPs (le_auth env) (rqRemoteIP r) True (ls_al s)\<rparr>)"
  have s1: "ls_al s1 = ls_al s" "ls_twofa s1 = ls_twofa s" by (simp_all add: s1_def handleBannedIPs_def)
  obtain u where l: "login_accepted env r q user newpwd u s1 = (Response StatusOK (Inr resp), s')"
    using assms(1) by (auto simp: handleLogin_def v al Let_def jsonErrorResponse_def jsonErrorResponseWithTitle_def jsonError_def s1_def
        split: if_splits sum.splits prod.splits bool.splits option.splits goerr.splits)
  obtain lifetime where "login_2fa env r lifetime user newpwd True s1 = (Response StatusOK (Inr resp), s')"
    using l assms(2,3) by (auto simp: login_accepted_def Let_def second_factor_on_def s1 jsonErrorResponse_def split: sum.splits if_splits)
  moreover have "\<exists>res. SendToken (ae_users (le_auth env)) (asProvider (al_users (ls_al s))) (ae_now (le_auth env)) (le_code env) (le_send_err env)
      user (ls_twofa s) = (res, ls_twofa s)"
    using assms(6) by (auto simp: SendToken_def split: sum.split option.split)
  moreover have "ls_twofa s2 = srv" if "create_token env r lifetime user sc (s1\<lparr>ls_twofa := srv\<rparr>) = (y, s2)" for sc srv y s2
    using that by (auto simp: create_token_def split: prod.splits)
  ultimately have "ls_twofa s' = SetPendingPasswordChange user newpwd (ls_twofa s)"
    by (auto simp: login_2fa_def s1 jsonErrorResponse_def jsonError_def split: prod.splits sum.splits goerr.splits)
  then show ?thesis using assms(4,5,7)
    by (simp add: SetPendingPasswordChange_def ValidateToken_def check_token_def consume_def)
qed

text \<open>A server that sends codes by mail, with a user who has logged in with the password and was sent a code.\<close>

definition example_login_env :: "map_cache_state login_env" where
  "example_login_env =
     \<lparr>le_auth = example_auth_env, le_otp = toy_otp, le_uuid = Inr ''u'', le_code = Inr ''777777'', le_send_err = None, le_jti = ''1'',
      le_create_err = None, le_revoke_err = None, le_generated = Inl (GoError '''' []), le_remove_err = (\<lambda>_. False)\<rparr>"

definition two_fa_server :: "map_cache_state session_cache \<Rightarrow> map_cache_state login_server" where
  "two_fa_server p =
     \<lparr>ls_al = example_al\<lparr>al_twoFAOn := True, al_sessions := p,
        al_users := example_service\<lparr>asProvider := UserDatabase (example_db\<lparr>usersTable := [alice_row\<lparr>rTwoFASendTo := ''alice@example.com''\<rparr>], twoFAOn := True\<rparr>)\<rparr>\<rparr>,
      ls_twofa = put_token ''alice'' \<lparr>etToken = ''123456'', etExpiry = 600 * Second, etFailures = 0, etPendingPassword = ''''\<rparr> (NewTwoFAService 600),
      ls_totPTimeout = Minute, ls_delivery = ''smtp'', ls_dataDir = '''', ls_files = []\<rparr>"

lemmas two_fa_defs = two_fa_server_def example_login_env_def example_auth_env_def example_al_def example_service_def example_db_def
  example_env_def alice_row_def

lemma example_lifetime: "parseTokenLifetime '''' = Inr DefaultTokenLifetime"
  by (simp add: parseTokenLifetime_def Let_def atoi_def is_digit_def digits_val_def digit_val_def MaxInt64_def MinInt64_def wrap64_def
      DefaultMaxTokenLifetime_def)

lemma example_create:
  assumes "user \<noteq> ''''"
  obtains tok q where "create_token example_login_env r lifetime user scopes s = (Inr tok, s\<lparr>ls_al := (ls_al s)\<lparr>al_sessions := q\<rparr>\<rparr>)"
  using that assms
  by (auto simp: create_token_def CreateAuthToken_def Cache_Save_def Storage_Save_def Storage_add_def Let_def plain_jwt_def
      example_login_env_def example_auth_env_def)

lemma example_user_found:
  "\<exists>u. GetByUsername (ae_users (le_auth example_login_env)) (asProvider (al_users (ls_al (two_fa_server p)))) ''alice'' = Inr (Some u) \<and>
       uTwoFASendTo u = ''alice@example.com'' \<and> uPassword u = ''$2y$10$pw'' \<and> uPasswordExpired u = Some False"
  by (simp add: two_fa_defs db_defs trim_space_def is_space_def)

lemma example_login:
  obtains resp s' where "handleLogin example_login_env example_request '''' ''alice'' ''pw'' newpwd False (two_fa_server p) = (Response StatusOK (Inr resp), s')"
proof -
  let ?s = "two_fa_server p" and ?env = example_login_env
  obtain u where u: "GetByUsername (ae_users (le_auth ?env)) (asProvider (al_users (ls_al ?s))) ''alice'' = Inr (Some u)"
      "uTwoFASendTo u = ''alice@example.com''" "uPassword u = ''$2y$10$pw''" "uPasswordExpired u = Some False"
    using example_user_found by blast
  have v: "validateCredentials (le_auth ?env) (le_uuid ?env) ''alice'' ''pw'' False (ls_al ?s) = (Inr (True, Some u), ls_al ?s)"
    using u by (simp add: validateCredentials_def shouldCreateMissingUser_def verifyPassword_def hasBcryptPrefix_def has_prefix_def
        example_login_env_def example_auth_env_def)
  have nb: "\<not> user_banned (le_auth ?env) (rqRemoteIP example_request) ''alice'' (ls_al ?s)"
    by (simp add: user_banned_def BanList_IsBanned_def NewBanList_def two_fa_defs)
  have sh: "shredConsumedInstallerCreds ?env ?s = ?s" by (simp add: shredConsumedInstallerCreds_def two_fa_server_def)
  have st: "SendToken (ae_users (le_auth ?env)) (asProvider (al_users (ls_al ?s))) (ae_now (le_auth ?env)) (le_code ?env) (le_send_err ?env) ''alice'' (ls_twofa ?s)
      = (Inr ''alice@example.com'', ls_twofa ?s)"
    using u by (simp add: SendToken_def live_code_def two_fa_server_def put_token_def NewTwoFAService_def minTwoFAResendInterval_def
        example_login_env_def example_auth_env_def)
  obtain tok q where ct: "create_token ?env example_request DefaultTokenLifetime ''alice'' Scopes2FaCheckOnly ?s
      = (Inr tok, ?s\<lparr>ls_al := (ls_al ?s)\<lparr>al_sessions := q\<rparr>\<rparr>)"
    by (rule example_create [OF list.distinct(2)])
  have s: "?s\<lparr>ls_twofa := ls_twofa ?s\<rparr> = ?s" "?s\<lparr>ls_al := ls_al ?s\<rparr> = ?s" and on: "al_twoFAOn (ls_al ?s)" "second_factor_on ?s"
    by (simp_all add: two_fa_server_def second_factor_on_def)
  have l2: "fst (login_2fa ?env example_request DefaultTokenLifetime ''alice'' newpwd d ?s) = Response StatusOK (Inr
      \<lparr>lrToken = Some tok, lrTwoFA = Some \<lparr>tfSendTo = ''alice@example.com'', tfDeliveryMethod = ls_delivery ?s, tfTotPKeyStatus = ''''\<rparr>\<rparr>)" for d
    using st ct s by (simp add: login_2fa_def writeJSONResponse_def)
  have "login_accepted ?env example_request '''' ''alice'' newpwd u ?s
      = login_2fa ?env example_request DefaultTokenLifetime ''alice'' newpwd (newpwd \<noteq> '''' \<and> second_factor_on ?s) ?s"
    using on u by (simp add: login_accepted_def example_lifetime Let_def)
  then have "handleLogin ?env example_request '''' ''alice'' ''pw'' newpwd False ?s
      = login_2fa ?env example_request DefaultTokenLifetime ''alice'' newpwd (newpwd \<noteq> '''' \<and> second_factor_on ?s) ?s"
    using nb v sh s by (simp add: handleLogin_def handleBannedIPs_def Let_def)
  with l2 that show ?thesis by (metis prod.collapse)
qed

theorem password_alone_confined_witness:
  "\<exists>resp s'. handleLogin example_login_env example_request '''' ''alice'' ''pw'' ''new'' False (two_fa_server no_sessions) = (Response StatusOK (Inr resp), s') \<and>
     al_users (ls_al s') = al_users (ls_al (two_fa_server no_sessions))"
proof -
  obtain resp s' where l: "handleLogin example_login_env example_request '''' ''alice'' ''pw'' ''new'' False (two_fa_server no_sessions) = (Response StatusOK (Inr resp), s')"
    by (rule example_login)
  have "second_factor_on (two_fa_server no_sessions)" "jwt_spec (ae_jwt (le_auth example_login_env))"
    by (simp_all add: second_factor_on_def two_fa_server_def example_login_env_def example_auth_env_def plain_jwt_spec)
  from password_alone_confined [OF l this] l show ?thesis by blast
qed

theorem later_login_plants_password_witness:
  "\<exists>resp s'. handleLogin example_login_env example_request '''' ''alice'' ''pw'' ''evil'' False (two_fa_server no_sessions) = (Response StatusOK (Inr resp), s') \<and>
     fst (ValidateToken Second ''alice'' ''123456'' (ls_twofa s')) = Inr ''evil''"
proof -
  obtain resp s' where l: "handleLogin example_login_env example_request '''' ''alice'' ''pw'' ''evil'' False (two_fa_server no_sessions) = (Response StatusOK (Inr resp), s')"
    by (rule example_login)
  have "fst (ValidateToken Second ''alice'' (etToken (tfHeap (ls_twofa (two_fa_server no_sessions)) ! 0)) (ls_twofa s')) = Inr ''evil''"
    by (rule later_login_plants_password [OF l])
       (simp_all add: two_fa_server_def put_token_def NewTwoFAService_def live_code_def minTwoFAResendInterval_def example_login_env_def example_auth_env_def)
  moreover have "etToken (tfHeap (ls_twofa (two_fa_server no_sessions)) ! 0) = ''123456''"
    by (simp add: two_fa_server_def put_token_def NewTwoFAService_def)
  ultimately show ?thesis using l by auto
qed

theorem token_lifetime_bounds_witness:
  "0 < DefaultTokenLifetime \<and> DefaultTokenLifetime \<le> 90 * 24 * Hour \<and> parseTokenLifetime (itoa 3600) = Inr (3600 * Second)"
  using token_lifetime_bounds [of "''''" 3600] example_lifetime by auto

lemma example_pending_token:
  obtains tok q ctx s where
    "CreateAuthToken plain_jwt map_cache None rowid_max 0 ''1'' ''secret'' Minute ''alice'' Scopes2FaCheckOnly ''curl'' ''::1'' no_sessions = (Inr tok, q)"
    and "ParseToken plain_jwt 0 tok ''secret'' = Inr ctx" "tUsername (AppClaims ctx) = ''alice''"
    and "ValidateBearerToken map_cache 0 ctx ''/api/v1/verify-2fa'' ''POST'' q = Some s"
proof -
  obtain tok q where c: "CreateAuthToken plain_jwt map_cache None rowid_max 0 ''1'' ''secret'' Minute ''alice'' Scopes2FaCheckOnly ''curl'' ''::1'' no_sessions = (Inr tok, q)"
    by (auto simp: CreateAuthToken_def Cache_Save_def Storage_Save_def Storage_add_def Let_def plain_jwt_def)
  have "currentURIMatchesTokenScopes ''/api/v1/verify-2fa'' ''POST'' Scopes2FaCheckOnly"
    by (simp add: currentURIMatchesTokenScopes_def Scopes2FaCheckOnly_def AllRoutesPrefix_def Verify2FaRoute_def trim_char_def)
  from issued_token_checks [OF map_cache_spec plain_jwt_spec _ c _ _ this, of 0] that [OF c] show ?thesis by auto
qed


end
