(* ===== verification/Vault.thy ===== *)
theory Vault
  imports Enc Bytes
begin

text \<open>
  The vault: \<^verbatim>\<open>server/vault\<close>. Its values are encrypted under a key derived from a passphrase, which the server
  keeps only while the vault is unlocked, and on disk once more under the key of the server. The file of the
  vault is \<open>vault_db\<close>, the rows of its two tables; the manager holds it with the key and whether the file is opened.

  What the operations ask of their surroundings is in \<open>vault_env\<close>: which SQL statements fail, the cipher, Argon2id and
  SHA-256, and the random bytes, where every encryption of one operation takes nonces of its own. A transaction that
  fails leaves the tables as they were. SQLite numbers the rows of both tables with \<^verbatim>\<open>AUTOINCREMENT\<close>, so an id is
  never used twice.
\<close>

section \<open>Data\<close>

definition DbStatusInit :: string where "DbStatusInit = ''setup-completed''"
definition DbStatusNotInit :: string where "DbStatusNotInit = ''uninitialized''"
definition StatusLocked :: string where "StatusLocked = ''locked''"
definition StatusUnlocked :: string where "StatusUnlocked = ''unlocked''"

record db_status =
  dsID :: int
  dsStatusName :: string
  dsEncCheckValue :: string
  dsKDF :: string

record input_value =
  ivClientID :: string
  ivRequiredGroup :: string
  ivKey :: string
  ivValue :: string
  ivType :: string

record stored_value =
  vvID :: int
  vvClientID :: string
  vvRequiredGroup :: string
  vvKey :: string
  vvValue :: string
  vvType :: string
  vvCreatedAt :: time
  vvUpdatedAt :: time
  vvCreatedBy :: string
  vvUpdatedBy :: "string option"

record vault_db =
  vdStatus :: "db_status list"
  vdStatusSeq :: int
  vdValues :: "stored_value list"
  vdSeq :: int

datatype vault_stmt =
    OpenDB | BeginTx | CommitTx | SelStatus | SelStatusID | SelEncCheck | InsStatus | UpdStatus
  | SelValues | UpdValue int | SelByID | SelByKey | InsRow | UpdRow | DelRow

record vault_env =
  ve_db :: "vault_stmt \<Rightarrow> goerr option"
  ve_gcm :: aead
  ve_nonce :: "nat \<Rightarrow> string res"
  ve_salt :: "string res"
  ve_verifier :: "string res"
  ve_argon2 :: "string \<Rightarrow> string \<Rightarrow> 32 word \<Rightarrow> 32 word \<Rightarrow> 8 word \<Rightarrow> string"
  ve_sha256 :: "string \<Rightarrow> string"
  ve_envelope :: Envelope

record manager =
  mKey :: string
  mOpened :: bool
  mDisk :: vault_db

definition vexec :: "vault_env \<Rightarrow> vault_stmt \<Rightarrow> 'a res \<Rightarrow> 'a res" where
  "vexec env st r = (case ve_db env st of Some e \<Rightarrow> Inl e | None \<Rightarrow> r)"

section \<open>Passphrases and keys\<close>

definition ValidatePass :: "string \<Rightarrow> goerr option" where
  "ValidatePass passToCheck =
     (if length passToCheck < 8
      then Some (APIError StatusBadRequest ''password is too short, expected length is at least %d bytes, provided length is %d bytes''
                   [AI 8, AI (int (length passToCheck))])
      else if 256 < length passToCheck
      then Some (APIError StatusBadRequest ''password is too long, expected length is at most %d bytes, provided length is %d bytes''
                   [AI 256, AI (int (length passToCheck))])
      else None)"

text \<open>The descriptor of a key derivation: algorithm, parameters and salt. \<^verbatim>\<open>strconv.ParseUint(s, 10, 32)\<close> takes
  decimal digits only.\<close>

definition encodeKDF :: "string \<Rightarrow> string \<Rightarrow> 32 word \<Rightarrow> 32 word \<Rightarrow> 8 word \<Rightarrow> string" where
  "encodeKDF algo salt timeCost memKiB threads =
     algo @ ''$m='' @ nat_to_string (unat memKiB) @ '',t='' @ nat_to_string (unat timeCost)
       @ '',p='' @ nat_to_string (unat threads) @ ''$'' @ b64_encode salt"

definition parse_uint32 :: "string \<Rightarrow> nat res" where
  "parse_uint32 s =
     (if s = [] \<or> \<not> list_all is_digit s then Inl (GoError ''parsing %q: invalid syntax'' [AS s])
      else if 2 ^ 32 \<le> digits_val s then Inl (GoError ''parsing %q: value out of range'' [AS s])
      else Inr (digits_val s))"

fun kdf_params :: "string list \<Rightarrow> nat option \<times> nat option \<times> nat option \<Rightarrow> (nat option \<times> nat option \<times> nat option) res" where
  "kdf_params [] mtp = Inr mtp"
| "kdf_params (kv # kvs) (m, t, p) =
     (case split_n2 (CHR ''='') kv of
        [k, v] \<Rightarrow>
          bind_res (parse_uint32 v) (\<lambda>n.
            if k = ''m'' then kdf_params kvs (Some n, t, p)
            else if k = ''t'' then kdf_params kvs (m, Some n, p)
            else if k = ''p'' then kdf_params kvs (m, t, Some n)
            else Inl (GoError ''unknown kdf param %q'' [AS k]))
      | _ \<Rightarrow> Inl (GoError ''invalid kdf param %q'' [AS kv]))"

definition parseKDF :: "string \<Rightarrow> (string \<times> string \<times> 32 word \<times> 32 word \<times> 8 word) res" where
  "parseKDF s =
     (case split_on (CHR ''$'') s of
        [algo, params, salt64] \<Rightarrow>
          bind_res (kdf_params (split_on (CHR '','') params) (None, None, None)) (\<lambda>mtp.
            case mtp of
              (Some mm, Some tt, Some pp) \<Rightarrow>
                if mm = 0 \<or> tt = 0 \<or> pp = 0 \<or> 255 < pp then Inl (GoError ''out-of-range kdf params'' [])
                else (case b64_decode salt64 of
                        Inl e \<Rightarrow> Inl (GoError ''invalid kdf salt: %w'' [AS (err_format e)])
                      | Inr salt \<Rightarrow>
                          if salt = [] then Inl (GoError ''empty kdf salt'' [])
                          else Inr (algo, salt, word_of_nat tt, word_of_nat mm, word_of_nat pp))
            | _ \<Rightarrow> Inl (GoError ''missing kdf params'' []))
      | _ \<Rightarrow> Inl (GoError ''invalid kdf descriptor'' []))"

definition kdfArgon2id :: string where "kdfArgon2id = ''argon2id''"
definition argon2Time :: "32 word" where "argon2Time = 3"
definition argon2MemoryKiB :: "32 word" where "argon2MemoryKiB = 64 * 1024"
definition argon2Threads :: "8 word" where "argon2Threads = 4"

definition DeriveKeyLegacySHA256 :: "vault_env \<Rightarrow> string \<Rightarrow> string" where
  "DeriveKeyLegacySHA256 env password = ve_sha256 env password"

definition DeriveKeyArgon2id :: "vault_env \<Rightarrow> string \<Rightarrow> string \<Rightarrow> 32 word \<Rightarrow> 32 word \<Rightarrow> 8 word \<Rightarrow> string" where
  "DeriveKeyArgon2id env password salt timeCost memoryKiB threads = ve_argon2 env password salt timeCost memoryKiB threads"

definition DeriveKey :: "vault_env \<Rightarrow> db_status \<Rightarrow> string \<Rightarrow> (string \<times> bool) res" where
  "DeriveKey env dbStatus pass =
     (if pass = [] then Inl (GoError ''empty password'' [])
      else if trim_space (dsKDF dbStatus) = [] then Inr (DeriveKeyLegacySHA256 env pass, True)
      else bind_res (parseKDF (dsKDF dbStatus)) (\<lambda>(algo, salt, timeCost, memKiB, threads).
             if algo \<noteq> kdfArgon2id then Inl (GoError ''unsupported vault kdf %q'' [AS algo])
             else Inr (DeriveKeyArgon2id env pass salt timeCost memKiB threads, False)))"

definition Verify :: "vault_env \<Rightarrow> db_status \<Rightarrow> string \<Rightarrow> bool" where
  "Verify env dbStatus key \<longleftrightarrow>
     dsEncCheckValue dbStatus \<noteq> [] \<and> key \<noteq> [] \<and>
     \<not> is_err (Aes256DecryptByKeyFromBase64String (ve_gcm env) (dsEncCheckValue dbStatus) key)"

text \<open>The answer is the descriptor, the verifier and the key.\<close>

definition NewStatusFor :: "vault_env \<Rightarrow> string \<Rightarrow> (string \<times> string \<times> string) res" where
  "NewStatusFor env pass =
     bind_res (ve_salt env) (\<lambda>salt.
     let key = DeriveKeyArgon2id env pass salt argon2Time argon2MemoryKiB argon2Threads in
     bind_res (ve_verifier env) (\<lambda>verifier.
     bind_res (Aes256EncryptByKeyToBase64String (ve_gcm env) (ve_nonce env 0) verifier key) (\<lambda>encCheck.
     Inr (encodeKDF kdfArgon2id salt argon2Time argon2MemoryKiB argon2Threads, encCheck, key))))"

section \<open>The database\<close>

definition ErrDatabaseNotInitialised :: goerr where
  "ErrDatabaseNotInitialised = APIError StatusConflict ''vault is not initialized yet'' []"

definition unique_violation :: goerr where
  "unique_violation = GoError ''UNIQUE constraint failed: values.client_id, values.key'' []"

text \<open>\<open>i\<close> numbers the nonce that an encryption takes.\<close>

definition wrap :: "vault_env \<Rightarrow> nat \<Rightarrow> string \<Rightarrow> string res" where
  "wrap env i v = (if v = [] then Inr [] else Encrypt (ve_gcm env) (ve_nonce env i) (ve_envelope env) v)"

definition unwrap :: "vault_env \<Rightarrow> string \<Rightarrow> string res" where
  "unwrap env v = Decrypt (ve_gcm env) (ve_envelope env) v"

text \<open>The two halves of \<^verbatim>\<open>wrapExistingSecrets\<close>, which run in one transaction.\<close>

definition wrap_status :: "vault_env \<Rightarrow> db_status list \<Rightarrow> db_status list res" where
  "wrap_status env sts =
     vexec env SelStatusID
       (case sts of
          [] \<Rightarrow> Inr []
        | s # rest \<Rightarrow>
            vexec env SelEncCheck
              (if dsEncCheckValue s = [] \<or> IsEncrypted (dsEncCheckValue s) then Inr sts
               else bind_res (Encrypt (ve_gcm env) (ve_nonce env 0) (ve_envelope env) (dsEncCheckValue s)) (\<lambda>wrapped.
                    vexec env UpdStatus (Inr (s\<lparr>dsEncCheckValue := wrapped\<rparr> # rest)))))"

fun wrap_rows :: "vault_env \<Rightarrow> nat \<Rightarrow> stored_value list \<Rightarrow> stored_value list res" where
  "wrap_rows env i [] = Inr []"
| "wrap_rows env i (r # rs) =
     bind_res
       (if vvValue r = [] \<or> IsEncrypted (vvValue r) then Inr r
        else bind_res (Encrypt (ve_gcm env) (ve_nonce env i) (ve_envelope env) (vvValue r)) (\<lambda>w.
             vexec env (UpdValue (vvID r)) (Inr (r\<lparr>vvValue := w\<rparr>))))
       (\<lambda>r'. bind_res (wrap_rows env (Suc i) rs) (\<lambda>rs'. Inr (r' # rs')))"

definition wrapExistingSecrets :: "vault_env \<Rightarrow> vault_db \<Rightarrow> vault_db res" where
  "wrapExistingSecrets env d =
     (if \<not> Enabled (ve_envelope env) then Inr d
      else vexec env BeginTx
             (bind_res (wrap_status env (vdStatus d)) (\<lambda>sts.
              vexec env SelValues
                (bind_res (wrap_rows env 1 (vdValues d)) (\<lambda>rows.
                 vexec env CommitTx (Inr (d\<lparr>vdStatus := sts, vdValues := rows\<rparr>)))))))"

definition NewSqliteProvider :: "vault_env \<Rightarrow> vault_db \<Rightarrow> vault_db res" where
  "NewSqliteProvider env d =
     (case vexec env OpenDB (Inr d) of
        Inl e \<Rightarrow> Inl (GoError ''failed init vault DB instance: %w'' [AS (err_format e)])
      | Inr d \<Rightarrow> wrapExistingSecrets env d)"

text \<open>\<^verbatim>\<open>Init\<close> of the factory; \<open>via\<close> is \<^verbatim>\<open>GetDbProvider\<close>, which stands for a database that answers every call with an
  error until the file is opened.\<close>

definition Factory_Init :: "vault_env \<Rightarrow> manager \<Rightarrow> goerr option \<times> manager" where
  "Factory_Init env m =
     (case NewSqliteProvider env (mDisk m) of
        Inl e \<Rightarrow> (Some e, m)
      | Inr d \<Rightarrow> (None, m\<lparr>mOpened := True, mDisk := d\<rparr>))"

definition via :: "manager \<Rightarrow> (vault_db \<Rightarrow> 'a res) \<Rightarrow> 'a res" where
  "via m f = (if mOpened m then f (mDisk m) else Inl ErrDatabaseNotInitialised)"

definition empty_status :: db_status where
  "empty_status = \<lparr>dsID = 0, dsStatusName = [], dsEncCheckValue = [], dsKDF = []\<rparr>"

definition DB_GetStatus :: "vault_env \<Rightarrow> vault_db \<Rightarrow> db_status res" where
  "DB_GetStatus env d =
     vexec env SelStatus
       (case vdStatus d of
          [] \<Rightarrow> Inr empty_status
        | s # _ \<Rightarrow> bind_res (unwrap env (dsEncCheckValue s)) (\<lambda>v. Inr (s\<lparr>dsEncCheckValue := v\<rparr>)))"

definition DB_SetStatus :: "vault_env \<Rightarrow> db_status \<Rightarrow> vault_db \<Rightarrow> vault_db res" where
  "DB_SetStatus env newStatus d =
     bind_res (wrap env 1 (dsEncCheckValue newStatus)) (\<lambda>encCheck.
     vexec env BeginTx
       (vexec env SelStatusID
          (case vdStatus d of
             [] \<Rightarrow>
               vexec env InsStatus
                 (vexec env CommitTx
                    (Inr (d\<lparr>vdStatus := [newStatus\<lparr>dsID := vdStatusSeq d + 1, dsEncCheckValue := encCheck\<rparr>],
                            vdStatusSeq := vdStatusSeq d + 1\<rparr>)))
           | s # rest \<Rightarrow>
               vexec env UpdStatus
                 (vexec env CommitTx
                    (Inr (d\<lparr>vdStatus := newStatus\<lparr>dsID := dsID s, dsEncCheckValue := encCheck\<rparr> # rest\<rparr>))))))"

definition unwrapped :: "vault_env \<Rightarrow> stored_value option \<Rightarrow> stored_value option res" where
  "unwrapped env row =
     (case row of
        None \<Rightarrow> Inr None
      | Some r \<Rightarrow> bind_res (unwrap env (vvValue r)) (\<lambda>v. Inr (Some (r\<lparr>vvValue := v\<rparr>))))"

definition DB_GetByID :: "vault_env \<Rightarrow> int \<Rightarrow> vault_db \<Rightarrow> stored_value option res" where
  "DB_GetByID env vid d = vexec env SelByID (unwrapped env (find (\<lambda>r. vvID r = vid) (vdValues d)))"

definition FindByKeyAndClientID :: "vault_env \<Rightarrow> string \<Rightarrow> string \<Rightarrow> vault_db \<Rightarrow> stored_value option res" where
  "FindByKeyAndClientID env key clientID d =
     vexec env SelByKey (unwrapped env (find (\<lambda>r. vvKey r = key \<and> vvClientID r = clientID) (vdValues d)))"

definition new_value :: "string \<Rightarrow> time \<Rightarrow> input_value \<Rightarrow> int \<Rightarrow> string \<Rightarrow> stored_value" where
  "new_value user now val vid v =
     \<lparr>vvID = vid, vvClientID = ivClientID val, vvRequiredGroup = ivRequiredGroup val, vvKey = ivKey val, vvValue = v,
      vvType = ivType val, vvCreatedAt = now div Second * Second, vvUpdatedAt = now div Second * Second,
      vvCreatedBy = user, vvUpdatedBy = Some user\<rparr>"

definition changed_value :: "string \<Rightarrow> time \<Rightarrow> input_value \<Rightarrow> string \<Rightarrow> stored_value \<Rightarrow> stored_value" where
  "changed_value user now val v r =
     r\<lparr>vvClientID := ivClientID val, vvRequiredGroup := ivRequiredGroup val, vvUpdatedAt := now div Second * Second,
       vvUpdatedBy := Some user, vvKey := ivKey val, vvValue := v, vvType := ivType val\<rparr>"

definition DB_Save :: "vault_env \<Rightarrow> string \<Rightarrow> int \<Rightarrow> input_value \<Rightarrow> time \<Rightarrow> vault_db \<Rightarrow> (int \<times> vault_db) res" where
  "DB_Save env user idToUpdate val now d =
     bind_res (wrap env 1 (ivValue val)) (\<lambda>storedValue.
       if idToUpdate = 0
       then vexec env InsRow
              (if list_ex (\<lambda>r. vvClientID r = ivClientID val \<and> vvKey r = ivKey val) (vdValues d) then Inl unique_violation
               else Inr (vdSeq d + 1, d\<lparr>vdValues := vdValues d @ [new_value user now val (vdSeq d + 1) storedValue],
                                        vdSeq := vdSeq d + 1\<rparr>))
       else vexec env UpdRow
              (if list_ex (\<lambda>r. vvID r = idToUpdate) (vdValues d)
                  \<and> list_ex (\<lambda>r. vvID r \<noteq> idToUpdate \<and> vvClientID r = ivClientID val \<and> vvKey r = ivKey val) (vdValues d)
               then Inl unique_violation
               else Inr (idToUpdate,
                         d\<lparr>vdValues := map (\<lambda>r. if vvID r = idToUpdate then changed_value user now val storedValue r else r)
                                          (vdValues d)\<rparr>)))"

definition DB_Delete :: "vault_env \<Rightarrow> int \<Rightarrow> vault_db \<Rightarrow> vault_db res" where
  "DB_Delete env vid d =
     vexec env DelRow
       (if list_ex (\<lambda>r. vvID r = vid) (vdValues d) then Inr (d\<lparr>vdValues := filter (\<lambda>r. vvID r \<noteq> vid) (vdValues d)\<rparr>)
        else Inl (GoError ''cannot find entry by id %d'' [AI vid]))"

text \<open>The loop of \<^verbatim>\<open>ReKey\<close>; the \<open>i\<close>-th row takes the nonces \<open>2 i\<close> and \<open>2 i + 1\<close>.\<close>

fun rekey_rows :: "vault_env \<Rightarrow> (nat \<Rightarrow> string \<Rightarrow> string res) \<Rightarrow> nat \<Rightarrow> stored_value list \<Rightarrow> stored_value list res" where
  "rekey_rows env transform i [] = Inr []"
| "rekey_rows env transform i (r # rs) =
     bind_res (unwrap env (vvValue r)) (\<lambda>oldValue.
     bind_res (transform (2 * i) oldValue) (\<lambda>newValue.
     bind_res (wrap env (2 * i + 1) newValue) (\<lambda>storedValue.
     vexec env (UpdValue (vvID r))
       (bind_res (rekey_rows env transform (Suc i) rs) (\<lambda>rs'. Inr (r\<lparr>vvValue := storedValue\<rparr> # rs'))))))"

definition ReKey :: "vault_env \<Rightarrow> (nat \<Rightarrow> string \<Rightarrow> string res) \<Rightarrow> string \<Rightarrow> string \<Rightarrow> vault_db \<Rightarrow> vault_db res" where
  "ReKey env transform newKDF newEncCheck d =
     vexec env BeginTx
       (vexec env SelValues
          (bind_res (rekey_rows env transform 1 (vdValues d)) (\<lambda>rows.
           bind_res (wrap env 1 newEncCheck) (\<lambda>wrappedEncCheck.
           vexec env UpdStatus
             (if vdStatus d = [] then Inl (GoError ''re-key: vault status row is missing'' [])
              else vexec env CommitTx
                     (Inr (d\<lparr>vdValues := rows,
                             vdStatus := map (\<lambda>s. s\<lparr>dsEncCheckValue := wrappedEncCheck, dsKDF := newKDF\<rparr>) (vdStatus d)\<rparr>)))))))"

section \<open>The manager\<close>

definition IsLocked :: "manager \<Rightarrow> bool" where
  "IsLocked m \<longleftrightarrow> length (mKey m) = 0"

definition isDatabaseInitialized :: "vault_env \<Rightarrow> manager \<Rightarrow> bool res" where
  "isDatabaseInitialized env m =
     (case via m (DB_GetStatus env) of
        Inl e \<Rightarrow> if e = ErrDatabaseNotInitialised then Inr False else Inl e
      | Inr dbStatus \<Rightarrow> Inr (dsStatusName dbStatus = DbStatusInit))"

text \<open>\<^verbatim>\<open>Init\<close> looks whether there is a vault, then writes one, then keeps its key; nothing keeps another request out
  in between.\<close>

definition init_check :: "vault_env \<Rightarrow> string \<Rightarrow> manager \<Rightarrow> goerr option" where
  "init_check env pass m =
     (case ValidatePass pass of
        Some e \<Rightarrow> Some e
      | None \<Rightarrow>
          (case isDatabaseInitialized env m of
             Inl e \<Rightarrow> Some e
           | Inr isInit \<Rightarrow> if isInit then Some (APIError StatusConflict ''vault is already initialized'' []) else None))"

definition init_write :: "vault_env \<Rightarrow> string \<Rightarrow> manager \<Rightarrow> string res \<times> manager" where
  "init_write env pass m =
     (case Factory_Init env m of
        (Some e, m1) \<Rightarrow> (Inl e, m1)
      | (None, m1) \<Rightarrow>
          (case NewStatusFor env pass of
             Inl e \<Rightarrow> (Inl e, m1)
           | Inr (kdf, encCheck, key) \<Rightarrow>
               (case via m1 (DB_SetStatus env \<lparr>dsID = 0, dsStatusName = DbStatusInit, dsEncCheckValue = encCheck, dsKDF = kdf\<rparr>) of
                  Inl e \<Rightarrow> (Inl e, m1)
                | Inr d \<Rightarrow> (Inr key, m1\<lparr>mDisk := d\<rparr>))))"

definition keep_key :: "string \<Rightarrow> manager \<Rightarrow> manager" where
  "keep_key key m = m\<lparr>mKey := key\<rparr>"

definition Init :: "vault_env \<Rightarrow> string \<Rightarrow> manager \<Rightarrow> goerr option \<times> manager" where
  "Init env pass m =
     (case init_check env pass m of
        Some e \<Rightarrow> (Some e, m)
      | None \<Rightarrow>
          (case init_write env pass m of
             (Inl e, m1) \<Rightarrow> (Some e, m1)
           | (Inr key, m1) \<Rightarrow> (None, keep_key key m1)))"

definition rekey_transform :: "vault_env \<Rightarrow> string \<Rightarrow> string \<Rightarrow> nat \<Rightarrow> string \<Rightarrow> string res" where
  "rekey_transform env oldKey newKey i oldValue =
     (if oldValue = [] then Inr []
      else case Aes256DecryptByKeyFromBase64String (ve_gcm env) oldValue oldKey of
             Inl e \<Rightarrow> Inl (GoError ''re-key: failed to decrypt a stored value: %w'' [AS (err_format e)])
           | Inr plain \<Rightarrow> Aes256EncryptByKeyToBase64String (ve_gcm env) (ve_nonce env i) plain newKey)"

definition rekeyLegacyVault :: "vault_env \<Rightarrow> string \<Rightarrow> string \<Rightarrow> manager \<Rightarrow> (string \<times> vault_db) res" where
  "rekeyLegacyVault env oldKey pass m =
     bind_res (NewStatusFor env pass) (\<lambda>(newKDF, newEncCheck, newKey).
     bind_res (via m (ReKey env (rekey_transform env oldKey newKey) newKDF newEncCheck)) (\<lambda>d. Inr (newKey, d)))"

definition not_yet_initialized :: "db_status \<Rightarrow> bool" where
  "not_yet_initialized dbStatus \<longleftrightarrow> dsStatusName dbStatus = [] \<or> dsStatusName dbStatus = DbStatusNotInit"

definition WrongPasswordError :: goerr where
  "WrongPasswordError = APIError StatusUnauthorized ''wrong password provided'' []"

definition UnLock :: "vault_env \<Rightarrow> string \<Rightarrow> manager \<Rightarrow> goerr option \<times> manager" where
  "UnLock env pass m =
     (if \<not> IsLocked m then (Some (APIError StatusConflict ''vault is already unlocked'' []), m)
      else case via m (DB_GetStatus env) of
        Inl e \<Rightarrow> (Some e, m)
      | Inr dbStatus \<Rightarrow>
          if not_yet_initialized dbStatus then (Some (APIError StatusConflict ''vault is not yet initialized'' []), m)
          else (case DeriveKey env dbStatus pass of
                  Inl e \<Rightarrow> (Some e, m)
                | Inr (key, legacy) \<Rightarrow>
                    if \<not> Verify env dbStatus key then (Some WrongPasswordError, m)
                    else if legacy
                    then (case rekeyLegacyVault env key pass m of
                            Inl e \<Rightarrow> (Some e, m)
                          | Inr (newKey, d) \<Rightarrow> (None, keep_key newKey (m\<lparr>mDisk := d\<rparr>)))
                    else (None, keep_key key m)))"

definition Lock :: "vault_env \<Rightarrow> manager \<Rightarrow> goerr option \<times> manager" where
  "Lock env m =
     (if IsLocked m then (Some (APIError StatusConflict ''vault is already locked'' []), m)
      else case via m (DB_GetStatus env) of
        Inl e \<Rightarrow> (Some e, m)
      | Inr dbStatus \<Rightarrow>
          if not_yet_initialized dbStatus then (Some (APIError StatusConflict ''vault is not yet initialized'' []), m)
          else (None, m\<lparr>mKey := []\<rparr>))"

text \<open>The report is the state of the database and, once it is initialised, whether the vault is locked.\<close>

definition Status :: "vault_env \<Rightarrow> manager \<Rightarrow> (string \<times> string) res" where
  "Status env m =
     (let report = (\<lambda>dbStatus.
            let name = (if dsStatusName dbStatus = [] then DbStatusNotInit else dsStatusName dbStatus)
            in Inr (name, if name = DbStatusNotInit then [] else if IsLocked m then StatusLocked else StatusUnlocked))
      in case via m (DB_GetStatus env) of
           Inl e \<Rightarrow> if e = ErrDatabaseNotInitialised then report empty_status else Inl e
         | Inr dbStatus \<Rightarrow> report dbStatus)"

definition checkUnlockedAndInitialized :: "vault_env \<Rightarrow> manager \<Rightarrow> goerr option" where
  "checkUnlockedAndInitialized env m =
     (if IsLocked m then Some (APIError StatusConflict ''vault is locked'' [])
      else case isDatabaseInitialized env m of
             Inl e \<Rightarrow> Some e
           | Inr isInit \<Rightarrow> if isInit then None else Some (APIError StatusConflict ''vault is not initialized'' []))"

definition no_group_access :: goerr where
  "no_group_access = APIError StatusForbidden ''your group doesn't allow access to this value'' []"

definition checkGroupAccess :: "stored_value \<Rightarrow> string list \<Rightarrow> goerr option" where
  "checkGroupAccess val groups =
     (if vvRequiredGroup val = [] then None
      else if list_ex (\<lambda>gr. gr = vvRequiredGroup val) groups then None
      else Some no_group_access)"

definition GetOne :: "vault_env \<Rightarrow> int \<Rightarrow> string list \<Rightarrow> manager \<Rightarrow> stored_value option res" where
  "GetOne env vid groups m =
     (case checkUnlockedAndInitialized env m of
        Some e \<Rightarrow> Inl e
      | None \<Rightarrow>
          bind_res (via m (DB_GetByID env vid)) (\<lambda>row.
            case row of
              None \<Rightarrow> Inr None
            | Some val \<Rightarrow>
                (case checkGroupAccess val groups of
                   Some e \<Rightarrow> Inl e
                 | None \<Rightarrow>
                     bind_res (Aes256DecryptByKeyFromBase64String (ve_gcm env) (vvValue val) (mKey m)) (\<lambda>decryptedValue.
                     Inr (Some (val\<lparr>vvValue := decryptedValue\<rparr>))))))"

text \<open>\<^verbatim>\<open>Validate\<close> collects what is wrong; a list of errors is one error of the source.\<close>

definition ValueTypes :: "string list" where
  "ValueTypes = [''text'', ''secret'', ''markdown'', ''string'']"

definition Validate :: "input_value \<Rightarrow> goerr list" where
  "Validate iv =
     (if ivKey iv = [] then [APIError StatusBadRequest ''key is required'' []] else [])
     @ (if ivValue iv = [] then [APIError StatusBadRequest ''value is required'' []] else [])
     @ (if ivType iv = [] then [APIError StatusBadRequest ''value type is required'' []]
        else if ivType iv \<in> set ValueTypes then []
        else [APIError StatusBadRequest ''unknown or invalid value value type %s'' [AS (ivType iv)]])"

definition check_existing_id :: "vault_env \<Rightarrow> int \<Rightarrow> string list \<Rightarrow> manager \<Rightarrow> goerr option" where
  "check_existing_id env existingID groups m =
     (if existingID \<le> 0 then None
      else case via m (DB_GetByID env existingID) of
             Inl e \<Rightarrow> Some e
           | Inr None \<Rightarrow> Some (APIError StatusNotFound ''cannot find entry by the provided existingID'' [])
           | Inr (Some val) \<Rightarrow> checkGroupAccess val groups)"

definition another_key :: "input_value \<Rightarrow> goerr" where
  "another_key iv = APIError StatusConflict (''another key '%s' exists for this client '%s'' @ [CHR 0x27]) [AS (ivKey iv), AS (ivClientID iv)]"

definition Store ::
    "vault_env \<Rightarrow> time \<Rightarrow> int \<Rightarrow> input_value \<Rightarrow> string \<Rightarrow> string list \<Rightarrow> manager \<Rightarrow> (goerr list + int) \<times> manager" where
  "Store env now existingID valueToStore user groups m =
     (case checkUnlockedAndInitialized env m of
        Some e \<Rightarrow> (Inl [e], m)
      | None \<Rightarrow>
          if Validate valueToStore \<noteq> [] then (Inl (Validate valueToStore), m)
          else case via m (FindByKeyAndClientID env (ivKey valueToStore) (ivClientID valueToStore)) of
            Inl e \<Rightarrow> (Inl [e], m)
          | Inr found \<Rightarrow>
              (case check_existing_id env existingID groups m of
                 Some e \<Rightarrow> (Inl [e], m)
               | None \<Rightarrow>
                   if (case found of None \<Rightarrow> False | Some storedValue \<Rightarrow> existingID = 0 \<or> vvID storedValue \<noteq> existingID)
                   then (Inl [another_key valueToStore], m)
                   else case Aes256EncryptByKeyToBase64String (ve_gcm env) (ve_nonce env 0) (ivValue valueToStore) (mKey m) of
                     Inl e \<Rightarrow> (Inl [e], m)
                   | Inr encValue \<Rightarrow>
                       (case via m (DB_Save env user existingID (valueToStore\<lparr>ivValue := encValue\<rparr>) now) of
                          Inl e \<Rightarrow> (Inl [e], m)
                        | Inr (vid, d) \<Rightarrow> (Inr vid, m\<lparr>mDisk := d\<rparr>))))"

definition Vault_Delete :: "vault_env \<Rightarrow> int \<Rightarrow> string list \<Rightarrow> manager \<Rightarrow> goerr option \<times> manager" where
  "Vault_Delete env vid groups m =
     (case checkUnlockedAndInitialized env m of
        Some e \<Rightarrow> (Some e, m)
      | None \<Rightarrow>
          (case via m (DB_GetByID env vid) of
             Inl e \<Rightarrow> (Some e, m)
           | Inr None \<Rightarrow> (Some (APIError StatusNotFound ''cannot find this entry by the provided id'' []), m)
           | Inr (Some storedValue) \<Rightarrow>
               (case checkGroupAccess storedValue groups of
                  Some e \<Rightarrow> (Some e, m)
                | None \<Rightarrow>
                    (case via m (DB_Delete env vid) of
                       Inl e \<Rightarrow> (Some e, m)
                     | Inr d \<Rightarrow> (None, m\<lparr>mDisk := d\<rparr>)))))"

section \<open>Handlers\<close>

text \<open>
  The handlers of \<^verbatim>\<open>server/api_handler_vault.go\<close>. The route parameter is absent in the route that creates a value; \<open>body\<close> is
  what the request body decodes to and \<open>curUser\<close> the name and the groups of the user. An entry of the audit log is its action, the id and
  the client.
\<close>

type_synonym vault_audit = "string \<times> int option \<times> string"

fun readIntParam :: "string option \<Rightarrow> int res" where
  "readIntParam None = Inr 0"
| "readIntParam (Some idStr) =
     (if atoi_failed (atoi idStr) then Inl (GoError ''Non-numeric integer value provided: %s for param %s'' [AS idStr])
      else Inr (atoi_value (atoi idStr)))"

definition missing_param :: goerr where
  "missing_param = APIError StatusBadRequest ''missing %q route param'' [AS ''vault_value_id'']"

definition required_id :: "string option \<Rightarrow> int res" where
  "required_id param =
     (case readIntParam param of
        Inl e \<Rightarrow> Inl (APIError StatusBadRequest (err_format e) (err_args e))
      | Inr vid \<Rightarrow> if vid = 0 then Inl missing_param else Inr vid)"

definition handleGetVaultStatus :: "vault_env \<Rightarrow> manager \<Rightarrow> (string \<times> string) response" where
  "handleGetVaultStatus env m =
     (case Status env m of Inl e \<Rightarrow> jsonError e | Inr st \<Rightarrow> writeJSONResponse StatusOK st)"

definition admin_op ::
    "string \<Rightarrow> int \<Rightarrow> string res \<Rightarrow> (string \<Rightarrow> manager \<Rightarrow> goerr option \<times> manager) \<Rightarrow> manager
       \<Rightarrow> unit response \<times> manager \<times> vault_audit list" where
  "admin_op action status body f m =
     (case body of
        Inl e \<Rightarrow> (jsonError e, m, [])
      | Inr pass \<Rightarrow>
          (case f pass m of
             (Some e, m1) \<Rightarrow> (jsonError e, m1, [])
           | (None, m1) \<Rightarrow> (Response status (Inr ()), m1, [(action, None, [])])))"

definition handleVaultUnlock :: "vault_env \<Rightarrow> string res \<Rightarrow> manager \<Rightarrow> unit response \<times> manager \<times> vault_audit list" where
  "handleVaultUnlock env body m = admin_op ''unlock'' StatusCreated body (UnLock env) m"

definition handleVaultLock :: "vault_env \<Rightarrow> manager \<Rightarrow> unit response \<times> manager \<times> vault_audit list" where
  "handleVaultLock env m = admin_op ''lock'' StatusNoContent (Inr []) (\<lambda>_. Lock env) m"

definition handleVaultInit :: "vault_env \<Rightarrow> string res \<Rightarrow> manager \<Rightarrow> unit response \<times> manager \<times> vault_audit list" where
  "handleVaultInit env body m = admin_op ''init'' StatusCreated body (Init env) m"

definition value_missing :: "int \<Rightarrow> 'a response" where
  "value_missing vid = Response StatusNotFound (Inl (GoError ''Cannot find a vault value by the provided id: %d'' [AI vid]))"

definition handleReadVaultValue ::
    "vault_env \<Rightarrow> string option \<Rightarrow> (string \<times> string list) res \<Rightarrow> manager \<Rightarrow> stored_value response \<times> vault_audit list" where
  "handleReadVaultValue env param curUser m =
     (case required_id param of
        Inl e \<Rightarrow> (jsonError e, [])
      | Inr vid \<Rightarrow>
          (case curUser of
             Inl e \<Rightarrow> (jsonError e, [])
           | Inr (user, groups) \<Rightarrow>
               (case GetOne env vid groups m of
                  Inl e \<Rightarrow> (jsonError e, [])
                | Inr None \<Rightarrow> (value_missing vid, [])
                | Inr (Some storedValue) \<Rightarrow> (writeJSONResponse StatusOK storedValue, [(''read'', Some vid, [])]))))"

text \<open>The answer to a write is the status with the id, or with the errors, of which the first decides the status.\<close>

definition errors_status :: "goerr list \<Rightarrow> int" where
  "errors_status es = (case es of APIError st _ _ # _ \<Rightarrow> st | _ \<Rightarrow> StatusInternalServerError)"

definition handleVaultStoreValue ::
    "vault_env \<Rightarrow> time \<Rightarrow> string option \<Rightarrow> (string \<times> string list) res \<Rightarrow> input_value res \<Rightarrow> manager
       \<Rightarrow> (int \<times> (goerr list + int)) \<times> manager \<times> vault_audit list" where
  "handleVaultStoreValue env now param curUser body m =
     (let refuse = (\<lambda>e. ((errors_status [e], Inl [e]), m, []))
      in case readIntParam param of
        Inl e \<Rightarrow> refuse (APIError StatusBadRequest (err_format e) (err_args e))
      | Inr vid \<Rightarrow>
          (case curUser of
             Inl e \<Rightarrow> refuse e
           | Inr (user, groups) \<Rightarrow>
               (case body of
                  Inl e \<Rightarrow> refuse e
                | Inr val \<Rightarrow>
                    (case Store env now vid val user groups m of
                       (Inl es, m1) \<Rightarrow> ((errors_status es, Inl es), m1, [])
                     | (Inr n, m1) \<Rightarrow>
                         if vid = 0 then ((StatusCreated, Inr n), m1, [(''create'', Some n, ivClientID val)])
                         else ((StatusOK, Inr n), m1, [(''update'', Some vid, ivClientID val)])))))"

definition handleVaultDeleteValue ::
    "vault_env \<Rightarrow> string option \<Rightarrow> (string \<times> string list) res \<Rightarrow> manager \<Rightarrow> unit response \<times> manager \<times> vault_audit list" where
  "handleVaultDeleteValue env param curUser m =
     (case required_id param of
        Inl e \<Rightarrow> (jsonError e, m, [])
      | Inr vid \<Rightarrow>
          (case curUser of
             Inl e \<Rightarrow> (jsonError e, m, [])
           | Inr (user, groups) \<Rightarrow>
               (case GetOne env vid groups m of
                  Inl e \<Rightarrow> (jsonError e, m, [])
                | Inr None \<Rightarrow> (value_missing vid, m, [])
                | Inr (Some storedValue) \<Rightarrow>
                    (case Vault_Delete env vid groups m of
                       (Some e, m1) \<Rightarrow> (jsonError e, m1, [])
                     | (None, m1) \<Rightarrow> (Response StatusNoContent (Inr ()), m1, [(''delete'', Some vid, vvClientID storedValue)])))))"

section \<open>What the vault holds\<close>

text \<open>
  The contents of a vault under a key: the rows by their ids, with their values in clear. A vault is sound under a key if
  every row has a value under it, ids are those the table has given, and no client has two values of one name.
\<close>

definition opened :: "vault_env \<Rightarrow> string \<Rightarrow> string \<Rightarrow> string res" where
  "opened env key stored =
     bind_res (unwrap env stored) (\<lambda>v. Aes256DecryptByKeyFromBase64String (ve_gcm env) v key)"

definition plain :: "vault_env \<Rightarrow> string \<Rightarrow> stored_value \<Rightarrow> stored_value option" where
  "plain env key r = (case opened env key (vvValue r) of Inl _ \<Rightarrow> None | Inr p \<Rightarrow> Some (r\<lparr>vvValue := p\<rparr>))"

definition contents :: "vault_env \<Rightarrow> string \<Rightarrow> vault_db \<Rightarrow> int \<Rightarrow> stored_value option" where
  "contents env key d vid = Option.bind (find (\<lambda>r. vvID r = vid) (vdValues d)) (plain env key)"

definition vault_ok :: "vault_env \<Rightarrow> string \<Rightarrow> vault_db \<Rightarrow> bool" where
  "vault_ok env key d \<longleftrightarrow>
     distinct (map vvID (vdValues d)) \<and> distinct (map (\<lambda>r. (vvClientID r, vvKey r)) (vdValues d)) \<and> 0 \<le> vdSeq d \<and>
     (\<forall>r \<in> set (vdValues d). 0 < vvID r \<and> vvID r \<le> vdSeq d \<and> plain env key r \<noteq> None)"

definition nonces_ok :: "vault_env \<Rightarrow> bool" where
  "nonces_ok env \<longleftrightarrow> (\<forall>i n. ve_nonce env i = Inr n \<longrightarrow> length n = NonceSize)"

definition healthy :: "vault_env \<Rightarrow> bool" where
  "healthy env \<longleftrightarrow> (\<forall>st. ve_db env st = None) \<and> (\<forall>i. \<exists>n. ve_nonce env i = Inr n) \<and>
     (Enabled (ve_envelope env) \<longrightarrow> length (dek (ve_envelope env)) = 32)"

lemma vexec_simps: "ve_db env st = None \<Longrightarrow> vexec env st r = r" "ve_db env st = Some e \<Longrightarrow> vexec env st r = Inl e"
  by (simp_all add: vexec_def)

lemma vexec_Inr: "vexec env st r = Inr x \<longleftrightarrow> ve_db env st = None \<and> r = Inr x"
  by (auto simp: vexec_def split: option.splits)

lemma wrap_unwrap:
  assumes "aead_spec (ve_gcm env)" "nonces_ok env" "\<not> IsEncrypted v" "wrap env i v = Inr s"
  shows "unwrap env s = Inr v"
proof (cases "v = [] \<or> \<not> Enabled (ve_envelope env)")
  case True
  with assms(4) have "s = v" by (cases "v = []") (auto simp: wrap_def Encrypt_def)
  with assms(3) show ?thesis by (simp add: unwrap_def Decrypt_def)
next
  case False
  with assms(4) obtain n where n: "ve_nonce env i = Inr n" "length (dek (ve_envelope env)) = 32"
    by (auto simp: wrap_def Encrypt_def Aes256EncryptByKeyToBase64String_def Aes256Encrypt_def bind_res_eq_Inr split: sum.splits if_splits)
  have "length n = NonceSize" using assms(2) n by (auto simp: nonces_ok_def)
  from Envelope_sealed [OF assms(1) this n(2)] False n(1) assms(4) show ?thesis
    by (auto simp: wrap_def unwrap_def)
qed

lemma encrypted_value:
  assumes "aead_spec gcm" "nonces_ok env" "Aes256EncryptByKeyToBase64String gcm (ve_nonce env i) p key = Inr v"
  shows "\<not> IsEncrypted v" "v \<noteq> []" "Aes256DecryptByKeyFromBase64String gcm v key = Inr p"
proof -
  obtain n where n: "ve_nonce env i = Inr n" "length key = 32" "v = b64_encode (n @ Seal gcm key n p)"
    using assms(3) by (auto simp: Aes256EncryptByKeyToBase64String_def Aes256Encrypt_def bind_res_eq_Inr split: if_splits)
  have l: "length n = NonceSize" using assms(2) n(1) by (auto simp: nonces_ok_def)
  show "\<not> IsEncrypted v" "v \<noteq> []" using n(3) aead_spec_nonempty [OF assms(1)] by (simp_all add: b64_not_encrypted)
  show "Aes256DecryptByKeyFromBase64String gcm v key = Inr p"
    using Aes256_roundtrip(2) [OF assms(1) l n(2)] n(3)
    by (simp add: Aes256DecryptByKeyFromBase64String_def b64_decode_encode)
qed

lemma wrapped_opened:
  assumes "aead_spec (ve_gcm env)" "nonces_ok env"
    "Aes256EncryptByKeyToBase64String (ve_gcm env) (ve_nonce env i) p key = Inr v" "wrap env j v = Inr s"
  shows "opened env key s = Inr p"
  using encrypted_value [OF assms(1-3)] wrap_unwrap [OF assms(1,2) _ assms(4)] by (simp add: opened_def)

lemma plain_fields:
  "plain env key r = Some e \<Longrightarrow> vvID e = vvID r \<and> vvRequiredGroup e = vvRequiredGroup r \<and> vvKey e = vvKey r \<and> vvClientID e = vvClientID r"
  by (auto simp: plain_def split: sum.splits)

lemma vault_okD:
  assumes "vault_ok env key d"
  shows "distinct (map vvID (vdValues d))" "distinct (map (\<lambda>r. (vvClientID r, vvKey r)) (vdValues d))" "0 \<le> vdSeq d"
    "r \<in> set (vdValues d) \<Longrightarrow> 0 < vvID r" "r \<in> set (vdValues d) \<Longrightarrow> vvID r \<le> vdSeq d"
    "r \<in> set (vdValues d) \<Longrightarrow> \<exists>v p. unwrap env (vvValue r) = Inr v \<and> Aes256DecryptByKeyFromBase64String (ve_gcm env) v key = Inr p
        \<and> plain env key r = Some (r\<lparr>vvValue := p\<rparr>)"
  using assms
  by (auto simp: vault_ok_def plain_def opened_def bind_res_eq_Inr split: sum.splits)

lemma find_SomeD: "find P xs = Some x \<Longrightarrow> P x" "find P xs = Some x \<Longrightarrow> x \<in> set xs"
  by (auto simp: find_Some_iff)

lemma find_by_id:
  assumes "distinct (map vvID rs)"
  shows "find (\<lambda>r. vvID r = vid) rs = Some r \<longleftrightarrow> r \<in> set rs \<and> vvID r = vid"
  using assms by (induction rs) (auto simp: image_iff)

lemma contents_Some:
  assumes "vault_ok env key d"
  shows "contents env key d vid = Some e \<longleftrightarrow> (\<exists>r \<in> set (vdValues d). vvID r = vid \<and> plain env key r = Some e)"
  using vault_okD(1) [OF assms] by (auto simp: contents_def bind_eq_Some_conv find_by_id)

lemma contents_None:
  assumes "vault_ok env key d"
  shows "contents env key d vid = None \<longleftrightarrow> vid \<notin> vvID ` set (vdValues d)"
proof -
  have "contents env key d vid \<noteq> None \<longleftrightarrow> vid \<in> vvID ` set (vdValues d)"
    using contents_Some [OF assms, of vid] vault_okD(6) [OF assms] by (fastforce simp: image_iff)
  then show ?thesis by blast
qed

section \<open>The operations on the contents\<close>

definition group_allows :: "string list \<Rightarrow> stored_value \<Rightarrow> bool" where
  "group_allows groups e \<longleftrightarrow> vvRequiredGroup e = [] \<or> vvRequiredGroup e \<in> set groups"

lemma checkGroupAccess_iff: "checkGroupAccess e groups = (if group_allows groups e then None else Some no_group_access)"
  by (auto simp: checkGroupAccess_def group_allows_def list_ex_iff)

definition spec_get :: "string list \<Rightarrow> int \<Rightarrow> (int \<rightharpoonup> stored_value) \<Rightarrow> stored_value option res" where
  "spec_get groups vid c =
     (case c vid of None \<Rightarrow> Inr None | Some e \<Rightarrow> if group_allows groups e then Inr (Some e) else Inl no_group_access)"

definition spec_delete :: "string list \<Rightarrow> int \<Rightarrow> (int \<rightharpoonup> stored_value) \<Rightarrow> goerr option \<times> (int \<rightharpoonup> stored_value)" where
  "spec_delete groups vid c =
     (case c vid of
        None \<Rightarrow> (Some (APIError StatusNotFound ''cannot find this entry by the provided id'' []), c)
      | Some e \<Rightarrow> if group_allows groups e then (None, c(vid := None)) else (Some no_group_access, c))"

definition spec_taken :: "input_value \<Rightarrow> int \<Rightarrow> (int \<rightharpoonup> stored_value) \<Rightarrow> bool" where
  "spec_taken iv vid c \<longleftrightarrow> (\<exists>k e. c k = Some e \<and> vvKey e = ivKey iv \<and> vvClientID e = ivClientID iv \<and> k \<noteq> vid)"

definition spec_existing :: "string list \<Rightarrow> int \<Rightarrow> (int \<rightharpoonup> stored_value) \<Rightarrow> goerr option" where
  "spec_existing groups vid c =
     (if vid = 0 then None
      else case c vid of
             None \<Rightarrow> Some (APIError StatusNotFound ''cannot find entry by the provided existingID'' [])
           | Some e \<Rightarrow> if group_allows groups e then None else Some no_group_access)"

definition spec_store ::
    "time \<Rightarrow> int \<Rightarrow> input_value \<Rightarrow> string \<Rightarrow> string list \<Rightarrow> int \<Rightarrow> (int \<rightharpoonup> stored_value) \<Rightarrow> (goerr list + int) \<times> (int \<rightharpoonup> stored_value)" where
  "spec_store now vid iv user groups fresh c =
     (if Validate iv \<noteq> [] then (Inl (Validate iv), c)
      else if spec_existing groups vid c \<noteq> None then (Inl [the (spec_existing groups vid c)], c)
      else if spec_taken iv vid c then (Inl [another_key iv], c)
      else if vid = 0 then (Inr fresh, c(fresh \<mapsto> new_value user now iv fresh (ivValue iv)))
      else (Inr vid, c(vid \<mapsto> changed_value user now iv (ivValue iv) (the (c vid)))))"

lemma via_opened: "checkUnlockedAndInitialized env m = None \<Longrightarrow> via m f = f (mDisk m)"
  by (auto simp: checkUnlockedAndInitialized_def isDatabaseInitialized_def via_def split: if_splits)

lemma GetByID_ok:
  assumes "vault_ok env key d"
  shows "DB_GetByID env vid d =
     vexec env SelByID (Inr (map_option (\<lambda>r. r\<lparr>vvValue := (case unwrap env (vvValue r) of Inl _ \<Rightarrow> [] | Inr v \<Rightarrow> v)\<rparr>)
       (find (\<lambda>r. vvID r = vid) (vdValues d))))"
proof (cases "find (\<lambda>r. vvID r = vid) (vdValues d)")
  case (Some r)
  then have "r \<in> set (vdValues d)" by (auto simp: find_Some_iff)
  from vault_okD(6) [OF assms this] Some show ?thesis by (auto simp: DB_GetByID_def unwrapped_def)
qed (simp add: DB_GetByID_def unwrapped_def)

lemma GetOne_spec:
  assumes "checkUnlockedAndInitialized env m = None" "vault_ok env (mKey m) (mDisk m)"
  shows "GetOne env vid groups m = vexec env SelByID (spec_get groups vid (contents env (mKey m) (mDisk m)))"
proof (cases "ve_db env SelByID")
  case None
  show ?thesis
  proof (cases "find (\<lambda>r. vvID r = vid) (vdValues (mDisk m))")
    case f: (Some r)
    then have "r \<in> set (vdValues (mDisk m))" by (auto simp: find_Some_iff)
    from vault_okD(6) [OF assms(2) this] f None assms(1) show ?thesis
      by (auto simp: GetOne_def via_opened GetByID_ok [OF assms(2)] vexec_simps checkGroupAccess_iff spec_get_def contents_def
          group_allows_def)
  qed (use None assms(1) in \<open>simp add: GetOne_def via_opened GetByID_ok [OF assms(2)] vexec_simps spec_get_def contents_def\<close>)
qed (use assms(1) in \<open>simp add: GetOne_def via_opened GetByID_ok [OF assms(2)] vexec_simps\<close>)

lemma contents_filter:
  "contents env key (d\<lparr>vdValues := filter (\<lambda>r. vvID r \<noteq> vid) (vdValues d)\<rparr>) = (contents env key d)(vid := None)"
proof
  fix k
  have "find (\<lambda>r. vvID r = k) (filter (\<lambda>r. vvID r \<noteq> vid) rs) = (if k = vid then None else find (\<lambda>r. vvID r = k) rs)" for rs :: "stored_value list"
    by (induction rs) auto
  then show "contents env key (d\<lparr>vdValues := filter (\<lambda>r. vvID r \<noteq> vid) (vdValues d)\<rparr>) k = ((contents env key d)(vid := None)) k"
    by (simp add: contents_def)
qed


lemma vault_ok_filter:
  "vault_ok env key d \<Longrightarrow> vault_ok env key (d\<lparr>vdValues := filter P (vdValues d)\<rparr>)"
  by (auto simp: vault_ok_def distinct_map_filter)

lemma Delete_spec:
  assumes "checkUnlockedAndInitialized env m = None" "vault_ok env (mKey m) (mDisk m)" "Vault_Delete env vid groups m = (ans, m')"
  shows "vault_ok env (mKey m) (mDisk m')" "mKey m' = mKey m"
    "(ans, contents env (mKey m) (mDisk m')) = spec_delete groups vid (contents env (mKey m) (mDisk m)) \<or>
     m' = m \<and> (\<exists>e. ans = Some e) \<and> \<not> healthy env"
proof -
  let ?d = "mDisk m" and ?d' = "mDisk m\<lparr>vdValues := filter (\<lambda>r. vvID r \<noteq> vid) (vdValues (mDisk m))\<rparr>"
  have step: "(ve_db env SelByID \<noteq> None \<or> ve_db env DelRow \<noteq> None) \<and> m' = m \<and> (\<exists>e. ans = Some e) \<or>
      (ans, contents env (mKey m) (mDisk m')) = spec_delete groups vid (contents env (mKey m) ?d) \<and> (m' = m \<or> m' = m\<lparr>mDisk := ?d'\<rparr>)"
  proof (cases "ve_db env SelByID")
    case (Some e)
    then have "Vault_Delete env vid groups m = (Some e, m)"
      using assms(1) by (simp add: Vault_Delete_def via_opened GetByID_ok [OF assms(2)] vexec_simps)
    with assms(3) have "ans = Some e" "m' = m" by simp_all
    with Some show ?thesis by blast
  next
    case None
    show ?thesis
    proof (cases "find (\<lambda>r. vvID r = vid) (vdValues ?d)")
      case n: None
      with None assms show ?thesis
        by (auto simp: Vault_Delete_def via_opened GetByID_ok [OF assms(2)] vexec_simps spec_delete_def contents_def)
    next
      case f: (Some r)
      then have r: "r \<in> set (vdValues ?d)" "vvID r = vid" by (auto simp: find_Some_iff)
      then have ex: "list_ex (\<lambda>r. vvID r = vid) (vdValues ?d)" by (auto simp: list_ex_iff)
      obtain v p where p: "unwrap env (vvValue r) = Inr v" "plain env (mKey m) r = Some (r\<lparr>vvValue := p\<rparr>)"
        using vault_okD(6) [OF assms(2) r(1)] by blast
      then have c: "contents env (mKey m) ?d vid = Some (r\<lparr>vvValue := p\<rparr>)" using f by (simp add: contents_def)
      have g: "group_allows groups (r\<lparr>vvValue := x\<rparr>) = group_allows groups r" for x by (simp add: group_allows_def)
      show ?thesis
        using assms None f p(1) c ex g
        by (cases "ve_db env DelRow")
          (auto simp: Vault_Delete_def via_opened GetByID_ok [OF assms(2)] vexec_simps checkGroupAccess_iff spec_delete_def
             DB_Delete_def contents_filter split: if_splits)
    qed
  qed
  then have "m' = m \<or> m' = m\<lparr>mDisk := ?d'\<rparr>" by blast
  then show "vault_ok env (mKey m) (mDisk m')" "mKey m' = mKey m" using assms(2) vault_ok_filter by auto
  show "(ans, contents env (mKey m) (mDisk m')) = spec_delete groups vid (contents env (mKey m) (mDisk m)) \<or>
     m' = m \<and> (\<exists>e. ans = Some e) \<and> \<not> healthy env"
    using step by (auto simp: healthy_def)
qed

lemma found_spec:
  assumes "vault_ok env key d"
  shows "FindByKeyAndClientID env k cid d =
      vexec env SelByKey (Inr (map_option (\<lambda>r. r\<lparr>vvValue := (case unwrap env (vvValue r) of Inl _ \<Rightarrow> [] | Inr v \<Rightarrow> v)\<rparr>)
       (find (\<lambda>r. vvKey r = k \<and> vvClientID r = cid) (vdValues d))))"
proof (cases "find (\<lambda>r. vvKey r = k \<and> vvClientID r = cid) (vdValues d)")
  case (Some r)
  then have "r \<in> set (vdValues d)" by (auto simp: find_Some_iff)
  from vault_okD(6) [OF assms this] Some show ?thesis by (auto simp: FindByKeyAndClientID_def unwrapped_def)
qed (simp add: FindByKeyAndClientID_def unwrapped_def)

lemma taken_iff:
  assumes "vault_ok env key d"
  shows "spec_taken iv vid (contents env key d) \<longleftrightarrow>
    (\<exists>r \<in> set (vdValues d). vvKey r = ivKey iv \<and> vvClientID r = ivClientID iv \<and> vvID r \<noteq> vid)"
proof
  assume "\<exists>r \<in> set (vdValues d). vvKey r = ivKey iv \<and> vvClientID r = ivClientID iv \<and> vvID r \<noteq> vid"
  then obtain r where r: "r \<in> set (vdValues d)" "vvKey r = ivKey iv" "vvClientID r = ivClientID iv" "vvID r \<noteq> vid" by blast
  obtain p where "plain env key r = Some (r\<lparr>vvValue := p\<rparr>)" using vault_okD(6) [OF assms r(1)] by blast
  with r have "contents env key d (vvID r) = Some (r\<lparr>vvValue := p\<rparr>)" by (auto simp: contents_Some [OF assms])
  with r show "spec_taken iv vid (contents env key d)"
    unfolding spec_taken_def by (intro exI [of _ "vvID r"] exI [of _ "r\<lparr>vvValue := p\<rparr>"]) simp
next
  assume "spec_taken iv vid (contents env key d)"
  then obtain e r where e: "vvKey e = ivKey iv" "vvClientID e = ivClientID iv" and r: "r \<in> set (vdValues d)" "vvID r \<noteq> vid" "plain env key r = Some e"
    by (auto simp: spec_taken_def contents_Some [OF assms])
  from plain_fields [OF r(3)] e r(1,2) show "\<exists>r \<in> set (vdValues d). vvKey r = ivKey iv \<and> vvClientID r = ivClientID iv \<and> vvID r \<noteq> vid"
    by auto
qed

lemma find_taken:
  assumes "vault_ok env key d" "\<And>r. vvID (f r) = vvID r"
  shows "(case map_option f (find (\<lambda>r. vvKey r = ivKey iv \<and> vvClientID r = ivClientID iv) (vdValues d)) of
            None \<Rightarrow> False | Some s \<Rightarrow> vid = 0 \<or> vvID s \<noteq> vid) \<longleftrightarrow> spec_taken iv vid (contents env key d)"
proof (cases "find (\<lambda>r. vvKey r = ivKey iv \<and> vvClientID r = ivClientID iv) (vdValues d)")
  case None
  then have "\<not> spec_taken iv vid (contents env key d)" by (auto simp: taken_iff [OF assms(1)] find_None_iff)
  with None show ?thesis by simp
next
  case (Some r)
  then have r: "r \<in> set (vdValues d)" "vvKey r = ivKey iv" "vvClientID r = ivClientID iv" by (auto simp: find_Some_iff)
  have u: "r' = r" if "r' \<in> set (vdValues d)" "vvKey r' = ivKey iv" "vvClientID r' = ivClientID iv" for r'
    using vault_okD(2) [OF assms(1)] r that by (auto simp: distinct_map inj_on_def)
  have "spec_taken iv vid (contents env key d) \<longleftrightarrow> vvID r \<noteq> vid"
    unfolding taken_iff [OF assms(1)] using u r by blast
  moreover have "vvID r \<noteq> 0" using vault_okD(4) [OF assms(1) r(1)] by simp
  ultimately show ?thesis using Some assms(2) by auto
qed

lemma contents_append:
  assumes "vault_ok env key d" "opened env key s = Inr p"
  shows "contents env key (d\<lparr>vdValues := vdValues d @ [new_value user now iv (vdSeq d + 1) s], vdSeq := n\<rparr>) =
     (contents env key d)(vdSeq d + 1 \<mapsto> new_value user now iv (vdSeq d + 1) p)"
proof
  fix k
  let ?r = "new_value user now iv (vdSeq d + 1) s"
  have app: "find P (xs @ [x]) = (case find P xs of None \<Rightarrow> if P x then Some x else None | Some y \<Rightarrow> Some y)" for P and xs :: "'a list" and x
    by (induction xs) auto
  have "find (\<lambda>r. vvID r = vdSeq d + 1) (vdValues d) = None"
    using vault_okD(5) [OF assms(1)] by (fastforce simp: find_None_iff)
  moreover have "plain env key ?r = Some (new_value user now iv (vdSeq d + 1) p)"
    using assms(2) by (simp add: plain_def new_value_def)
  moreover have "vvID ?r = vdSeq d + 1" by (simp add: new_value_def)
  ultimately show "contents env key (d\<lparr>vdValues := vdValues d @ [?r], vdSeq := n\<rparr>) k =
      ((contents env key d)(vdSeq d + 1 \<mapsto> new_value user now iv (vdSeq d + 1) p)) k"
    by (auto simp: contents_def app split: option.splits)
qed

lemma vault_ok_append:
  assumes "vault_ok env key d" "opened env key s = Inr p" "\<not> spec_taken iv 0 (contents env key d)"
  shows "vault_ok env key (d\<lparr>vdValues := vdValues d @ [new_value user now iv (vdSeq d + 1) s], vdSeq := vdSeq d + 1\<rparr>)"
proof -
  let ?r = "new_value user now iv (vdSeq d + 1) s"
  have "plain env key ?r \<noteq> None" using assms(2) by (simp add: plain_def new_value_def)
  moreover have "vvID ?r = vdSeq d + 1" "vvClientID ?r = ivClientID iv" "vvKey ?r = ivKey iv" by (simp_all add: new_value_def)
  moreover have "\<forall>r \<in> set (vdValues d). vvKey r = ivKey iv \<longrightarrow> vvClientID r \<noteq> ivClientID iv"
    using assms(3) vault_okD(4) [OF assms(1)] by (fastforce simp: taken_iff [OF assms(1)])
  moreover have "vdSeq d + 1 \<notin> vvID ` set (vdValues d)" using vault_okD(5) [OF assms(1)] by fastforce
  ultimately show ?thesis
    using assms(1) unfolding vault_ok_def by (auto intro: order_trans)
qed

lemma changed_value_simps [simp]:
  "vvID (changed_value user now iv s r) = vvID r" "vvKey (changed_value user now iv s r) = ivKey iv"
  "vvClientID (changed_value user now iv s r) = ivClientID iv" "vvValue (changed_value user now iv s r) = s"
  "changed_value user now iv s (r\<lparr>vvValue := x\<rparr>) = changed_value user now iv s r"
  "(changed_value user now iv s r)\<lparr>vvValue := x\<rparr> = changed_value user now iv x r"
  by (simp_all add: changed_value_def)

lemma contents_change:
  assumes "vault_ok env key d" "opened env key s = Inr p" "contents env key d vid = Some e"
  shows "contents env key (d\<lparr>vdValues := map (\<lambda>r. if vvID r = vid then changed_value user now iv s r else r) (vdValues d)\<rparr>) =
     (contents env key d)(vid \<mapsto> changed_value user now iv p e)"
proof
  fix k
  let ?g = "\<lambda>r. if vvID r = vid then changed_value user now iv s r else r"
  have f: "find (\<lambda>r. vvID r = k) (map ?g rs) = map_option ?g (find (\<lambda>r. vvID r = k) rs)" for rs :: "stored_value list"
    by (induction rs) auto
  have p: "plain env key (changed_value user now iv s r) = Some (changed_value user now iv p r)" for r
    using assms(2) by (simp add: plain_def)
  obtain r where r: "find (\<lambda>r. vvID r = vid) (vdValues d) = Some r" "plain env key r = Some e" "vvID r = vid"
    using assms(3) by (auto simp: contents_def bind_eq_Some_conv find_Some_iff)
  have e: "changed_value user now iv p e = changed_value user now iv p r"
    using r(2) by (auto simp: plain_def split: sum.splits)
  show "contents env key (d\<lparr>vdValues := map ?g (vdValues d)\<rparr>) k = ((contents env key d)(vid \<mapsto> changed_value user now iv p e)) k"
  proof (cases "k = vid")
    case True
    then show ?thesis using f [of "vdValues d"] r p e by (simp add: contents_def)
  next
    case False
    moreover have "map_option ?g (find (\<lambda>r. vvID r = k) (vdValues d)) = find (\<lambda>r. vvID r = k) (vdValues d)"
      using False by (cases "find (\<lambda>r. vvID r = k) (vdValues d)") (auto dest: find_SomeD)
    ultimately show ?thesis using f [of "vdValues d"] by (simp add: contents_def)
  qed
qed

lemma vault_ok_change:
  assumes "vault_ok env key d" "opened env key s = Inr p" "\<not> spec_taken iv vid (contents env key d)"
  shows "vault_ok env key (d\<lparr>vdValues := map (\<lambda>r. if vvID r = vid then changed_value user now iv s r else r) (vdValues d)\<rparr>)"
proof -
  let ?g = "\<lambda>r. if vvID r = vid then changed_value user now iv s r else r"
  have ids: "distinct (map vvID (map ?g (vdValues d)))"
    using vault_okD(1) [OF assms(1)] by (simp add: comp_def if_distrib cong: if_cong)
  have free: "\<forall>r \<in> set (vdValues d). vvKey r = ivKey iv \<and> vvClientID r = ivClientID iv \<longrightarrow> vvID r = vid"
    using assms(3) by (auto simp: taken_iff [OF assms(1)])
  have "inj_on (\<lambda>r. (vvClientID (?g r), vvKey (?g r))) (set (vdValues d))"
  proof (rule inj_onI)
    fix x y assume xy: "x \<in> set (vdValues d)" "y \<in> set (vdValues d)" "(vvClientID (?g x), vvKey (?g x)) = (vvClientID (?g y), vvKey (?g y))"
    have "vvID x = vvID y \<or> (vvClientID x, vvKey x) = (vvClientID y, vvKey y)" using xy free by (auto split: if_splits)
    then show "x = y"
      using vault_okD(1,2) [OF assms(1)] xy(1,2) by (auto simp: distinct_map inj_on_def)
  qed
  moreover have "distinct (vdValues d)" using vault_okD(1) [OF assms(1)] by (simp add: distinct_map)
  ultimately have pairs: "distinct (map (\<lambda>r. (vvClientID r, vvKey r)) (map ?g (vdValues d)))"
    by (simp add: distinct_map comp_def)
  have "plain env key (changed_value user now iv s r) \<noteq> None" for r using assms(2) by (simp add: plain_def)
  with assms(1) ids pairs show ?thesis unfolding vault_ok_def by auto
qed

lemma enc_value_simps [simp]:
  "new_value user now (iv\<lparr>ivValue := x\<rparr>) vid v = new_value user now iv vid v"
  "changed_value user now (iv\<lparr>ivValue := x\<rparr>) v = changed_value user now iv v"
  by (simp_all add: new_value_def changed_value_def fun_eq_iff)

lemma check_existing_spec:
  assumes "checkUnlockedAndInitialized env m = None" "vault_ok env (mKey m) (mDisk m)" "0 \<le> vid" "ve_db env SelByID = None"
  shows "check_existing_id env vid groups m = spec_existing groups vid (contents env (mKey m) (mDisk m))"
proof (cases "find (\<lambda>r. vvID r = vid) (vdValues (mDisk m))")
  case (Some r)
  then have "r \<in> set (vdValues (mDisk m))" by (auto simp: find_Some_iff)
  then obtain p where "plain env (mKey m) r = Some (r\<lparr>vvValue := p\<rparr>)" using vault_okD(6) [OF assms(2)] by blast
  with Some assms show ?thesis
    by (auto simp: check_existing_id_def via_opened GetByID_ok [OF assms(2)] vexec_simps contents_def checkGroupAccess_iff group_allows_def spec_existing_def)
qed (use assms in \<open>auto simp: check_existing_id_def via_opened GetByID_ok [OF assms(2)] vexec_simps contents_def spec_existing_def\<close>)

text \<open>What storing does once every check has passed.\<close>

lemma Save_spec:
  assumes "aead_spec (ve_gcm env)" "nonces_ok env" "vault_ok env key d" "0 \<le> vid"
    and e: "Aes256EncryptByKeyToBase64String (ve_gcm env) (ve_nonce env 0) (ivValue iv) key = Inr x"
    and s: "DB_Save env user vid (iv\<lparr>ivValue := x\<rparr>) now d = Inr (vid', d')"
    and t: "\<not> spec_taken iv vid (contents env key d)" "vid \<noteq> 0 \<Longrightarrow> contents env key d vid = Some old"
  shows "vault_ok env key d'"
    "(Inr vid', contents env key d') =
       (if vid = 0 then (Inr (vdSeq d + 1), (contents env key d)(vdSeq d + 1 \<mapsto> new_value user now iv (vdSeq d + 1) (ivValue iv)))
        else (Inr vid, (contents env key d)(vid \<mapsto> changed_value user now iv (ivValue iv) old)) :: (goerr list + int) \<times> _)"
proof -
  obtain y where w: "wrap env 1 x = Inr y" using s by (auto simp: DB_Save_def bind_res_eq_Inr)
  have o: "opened env key y = Inr (ivValue iv)" by (rule wrapped_opened [OF assms(1,2) e w])
  have "vault_ok env key d' \<and> (Inr vid', contents env key d') =
       (if vid = 0 then (Inr (vdSeq d + 1), (contents env key d)(vdSeq d + 1 \<mapsto> new_value user now iv (vdSeq d + 1) (ivValue iv)))
        else (Inr vid, (contents env key d)(vid \<mapsto> changed_value user now iv (ivValue iv) old)) :: (goerr list + int) \<times> _)"
  proof (cases "vid = 0")
    case True
    with s w have d: "vid' = vdSeq d + 1" "d' = d\<lparr>vdValues := vdValues d @ [new_value user now iv (vdSeq d + 1) y], vdSeq := vdSeq d + 1\<rparr>"
      by (auto simp: DB_Save_def vexec_Inr split: if_splits)
    from True t(1) have "\<not> spec_taken iv 0 (contents env key d)" by simp
    from vault_ok_append [OF assms(3) o this] contents_append [OF assms(3) o] True show ?thesis unfolding d by simp
  next
    case False
    with s w have d: "vid' = vid" "d' = d\<lparr>vdValues := map (\<lambda>r. if vvID r = vid then changed_value user now iv y r else r) (vdValues d)\<rparr>"
      by (auto simp: DB_Save_def vexec_Inr split: if_splits)
    from vault_ok_change [OF assms(3) o t(1)] contents_change [OF assms(3) o t(2) [OF False]] False show ?thesis unfolding d by simp
  qed
  then show "vault_ok env key d'"
    "(Inr vid', contents env key d') =
       (if vid = 0 then (Inr (vdSeq d + 1), (contents env key d)(vdSeq d + 1 \<mapsto> new_value user now iv (vdSeq d + 1) (ivValue iv)))
        else (Inr vid, (contents env key d)(vid \<mapsto> changed_value user now iv (ivValue iv) old)) :: (goerr list + int) \<times> _)"
    by blast+
qed

lemma healthy_Encrypt:
  assumes "healthy env" "length key = 32"
  shows "\<exists>x. Aes256EncryptByKeyToBase64String (ve_gcm env) (ve_nonce env i) p key = Inr x"
    "\<exists>y. wrap env i v = Inr y"
proof -
  obtain n where "ve_nonce env i = Inr n" using assms(1) unfolding healthy_def by blast
  then show "\<exists>x. Aes256EncryptByKeyToBase64String (ve_gcm env) (ve_nonce env i) p key = Inr x" "\<exists>y. wrap env i v = Inr y"
    using assms by (auto simp: Aes256EncryptByKeyToBase64String_def Aes256Encrypt_def NewCipher_def wrap_def Encrypt_def healthy_def
        split: sum.splits)
qed

lemma Save_total:
  assumes "healthy env" "length key = 32" "vault_ok env key d" "\<not> spec_taken iv vid (contents env key d)"
  shows "\<exists>vid' d'. DB_Save env user vid (iv\<lparr>ivValue := x\<rparr>) now d = Inr (vid', d')"
proof -
  obtain y where "wrap env 1 x = Inr y" using healthy_Encrypt(2) [OF assms(1,2)] by blast
  moreover have "\<not> list_ex (\<lambda>r. vvID r \<noteq> vid \<and> vvClientID r = ivClientID iv \<and> vvKey r = ivKey iv) (vdValues d)"
    using assms(4) by (auto simp: taken_iff [OF assms(3)] list_ex_iff)
  moreover have "vid = 0 \<Longrightarrow> \<not> list_ex (\<lambda>r. vvClientID r = ivClientID iv \<and> vvKey r = ivKey iv) (vdValues d)"
    using assms(4) vault_okD(4) [OF assms(3)] by (fastforce simp: taken_iff [OF assms(3)] list_ex_iff)
  moreover have "ve_db env st = None" for st using assms(1) by (simp add: healthy_def)
  ultimately show ?thesis by (auto simp: DB_Save_def vexec_simps)
qed

lemma Store_eq:
  assumes "checkUnlockedAndInitialized env m = None" "vault_ok env (mKey m) (mDisk m)" "0 \<le> vid" "Validate iv = []"
    "ve_db env SelByKey = None" "vid = 0 \<or> ve_db env SelByID = None"
  shows "Store env now vid iv user groups m =
      (case spec_existing groups vid (contents env (mKey m) (mDisk m)) of
         Some e \<Rightarrow> (Inl [e], m)
       | None \<Rightarrow> if spec_taken iv vid (contents env (mKey m) (mDisk m)) then (Inl [another_key iv], m)
           else case Aes256EncryptByKeyToBase64String (ve_gcm env) (ve_nonce env 0) (ivValue iv) (mKey m) of
             Inl e \<Rightarrow> (Inl [e], m)
           | Inr x \<Rightarrow> (case DB_Save env user vid (iv\<lparr>ivValue := x\<rparr>) now (mDisk m) of
                Inl e \<Rightarrow> (Inl [e], m) | Inr (vid, d) \<Rightarrow> (Inr vid, m\<lparr>mDisk := d\<rparr>)))"
proof -
  have "check_existing_id env vid groups m = spec_existing groups vid (contents env (mKey m) (mDisk m))"
    using assms(6) check_existing_spec [OF assms(1-3)] by (auto simp: check_existing_id_def spec_existing_def)
  then show ?thesis
    using assms find_taken [OF assms(2), of "\<lambda>r. r\<lparr>vvValue := (case unwrap env (vvValue r) of Inl _ \<Rightarrow> [] | Inr v \<Rightarrow> v)\<rparr>" vid iv]
    unfolding Store_def via_opened [OF assms(1)] found_spec [OF assms(2)] by (simp add: vexec_simps split: option.splits)
qed

lemma Store_allowed:
  assumes "aead_spec (ve_gcm env)" "nonces_ok env" "checkUnlockedAndInitialized env m = None" "vault_ok env (mKey m) (mDisk m)"
    "0 \<le> vid" "Validate iv = []" "ve_db env SelByKey = None" "vid = 0 \<or> ve_db env SelByID = None"
    and a: "spec_existing groups vid (contents env (mKey m) (mDisk m)) = None" "\<not> spec_taken iv vid (contents env (mKey m) (mDisk m))"
    and s: "Store env now vid iv user groups m = (ans, m')"
  shows "vault_ok env (mKey m) (mDisk m') \<and> mKey m' = mKey m \<and>
    ((ans, contents env (mKey m) (mDisk m')) = spec_store now vid iv user groups (vdSeq (mDisk m) + 1) (contents env (mKey m) (mDisk m)) \<or>
     m' = m \<and> (\<exists>e. ans = Inl [e]) \<and> \<not> (healthy env \<and> length (mKey m) = 32))"
proof -
  let ?c = "contents env (mKey m) (mDisk m)"
  have old: "vid \<noteq> 0 \<Longrightarrow> ?c vid = Some (the (?c vid))" using a(1) by (auto simp: spec_existing_def split: option.splits)
  have sp: "spec_store now vid iv user groups f ?c =
      (if vid = 0 then (Inr f, ?c(f \<mapsto> new_value user now iv f (ivValue iv)))
       else (Inr vid, ?c(vid \<mapsto> changed_value user now iv (ivValue iv) (the (?c vid)))))" for f
    using assms(6) a by (simp add: spec_store_def)
  note st = Store_eq [OF assms(3-8), of now user groups, simplified a option.case if_False]
  show ?thesis
  proof (cases "\<exists>x r. Aes256EncryptByKeyToBase64String (ve_gcm env) (ve_nonce env 0) (ivValue iv) (mKey m) = Inr x \<and>
        DB_Save env user vid (iv\<lparr>ivValue := x\<rparr>) now (mDisk m) = Inr r")
    case True
    then obtain x vid' d' where e: "Aes256EncryptByKeyToBase64String (ve_gcm env) (ve_nonce env 0) (ivValue iv) (mKey m) = Inr x"
      and d: "DB_Save env user vid (iv\<lparr>ivValue := x\<rparr>) now (mDisk m) = Inr (vid', d')" by auto
    have "ans = Inr vid'" "m' = m\<lparr>mDisk := d'\<rparr>" using s st e d by auto
    then show ?thesis using Save_spec [OF assms(1,2,4,5) e d a(2) old] sp by simp
  next
    case bad: False
    then have "\<exists>e. Store env now vid iv user groups m = (Inl [e], m)" using st by (auto split: sum.splits)
    moreover have "\<not> (healthy env \<and> length (mKey m) = 32)"
      using bad healthy_Encrypt(1) Save_total [OF _ _ assms(4) a(2)] by metis
    ultimately show ?thesis using s assms(4) by auto
  qed
qed

lemma Store_spec:
  assumes "aead_spec (ve_gcm env)" "nonces_ok env" "checkUnlockedAndInitialized env m = None" "vault_ok env (mKey m) (mDisk m)"
    "0 \<le> vid" "Store env now vid iv user groups m = (ans, m')"
  shows "vault_ok env (mKey m) (mDisk m') \<and> mKey m' = mKey m \<and>
    ((ans, contents env (mKey m) (mDisk m')) = spec_store now vid iv user groups (vdSeq (mDisk m) + 1) (contents env (mKey m) (mDisk m)) \<or>
     m' = m \<and> (\<exists>e. ans = Inl [e]) \<and> \<not> (healthy env \<and> length (mKey m) = 32))"
proof -
  note ok = assms(4) and chk = assms(3)
  have key: "ve_db env SelByKey = None" "ve_db env SelByID = None" if "healthy env" using that by (simp_all add: healthy_def)
  consider (invalid) "Validate iv \<noteq> []" | (nokey) e where "Validate iv = []" "ve_db env SelByKey = Some e"
    | (noid) e where "Validate iv = []" "ve_db env SelByKey = None" "vid \<noteq> 0" "ve_db env SelByID = Some e"
    | (fine) "Validate iv = []" "ve_db env SelByKey = None" "vid = 0 \<or> ve_db env SelByID = None" by fastforce
  then show ?thesis
  proof cases
    case invalid
    then have "Store env now vid iv user groups m = (Inl (Validate iv), m)" using chk by (simp add: Store_def)
    with assms(6) ok invalid show ?thesis by (simp add: spec_store_def)
  next
    case nokey
    then have "Store env now vid iv user groups m = (Inl [e], m)"
      using chk by (simp add: Store_def via_opened found_spec [OF ok] vexec_simps)
    with assms(6) ok key(1) nokey show ?thesis by auto
  next
    case noid
    then have "Store env now vid iv user groups m = (Inl [e], m)"
      using chk assms(5) by (simp add: Store_def via_opened found_spec [OF ok] GetByID_ok [OF ok] check_existing_id_def vexec_simps)
    with assms(6) ok key(2) noid show ?thesis by auto
  next
    case fine
    note st = Store_eq [OF chk ok assms(5) fine, of now user groups]
    show ?thesis
    proof (cases "spec_existing groups vid (contents env (mKey m) (mDisk m)) = None \<and> \<not> spec_taken iv vid (contents env (mKey m) (mDisk m))")
      case True
      then show ?thesis using Store_allowed [OF assms(1,2) chk ok assms(5) fine _ _ assms(6)] by blast
    next
      case False
      with st assms(6) ok fine(1) show ?thesis by (auto simp: spec_store_def)
    qed
  qed
qed

section \<open>The vault implements a table of secrets\<close>

datatype vault_op =
    OpGet int "string list"
  | OpStore time int input_value string "string list"
  | OpDelete int "string list"

datatype vault_answer = Answered "stored_value option" | StoredAt int | Deleted | Refused "goerr list"

fun op_id :: "vault_op \<Rightarrow> int" where
  "op_id (OpGet vid _) = vid"
| "op_id (OpStore _ vid _ _ _) = vid"
| "op_id (OpDelete vid _) = vid"

fun vault_apply :: "vault_env \<Rightarrow> vault_op \<Rightarrow> manager \<Rightarrow> vault_answer \<times> manager" where
  "vault_apply env (OpGet vid groups) m =
     (case GetOne env vid groups m of Inl e \<Rightarrow> Refused [e] | Inr r \<Rightarrow> Answered r, m)"
| "vault_apply env (OpStore now vid iv user groups) m =
     (case Store env now vid iv user groups m of (ans, m') \<Rightarrow> (case ans of Inl es \<Rightarrow> Refused es | Inr n \<Rightarrow> StoredAt n, m'))"
| "vault_apply env (OpDelete vid groups) m =
     (case Vault_Delete env vid groups m of (ans, m') \<Rightarrow> (case ans of Some e \<Rightarrow> Refused [e] | None \<Rightarrow> Deleted, m'))"

fun spec_apply :: "int \<Rightarrow> vault_op \<Rightarrow> (int \<rightharpoonup> stored_value) \<Rightarrow> vault_answer \<times> (int \<rightharpoonup> stored_value)" where
  "spec_apply fresh (OpGet vid groups) c =
     (case spec_get groups vid c of Inl e \<Rightarrow> Refused [e] | Inr r \<Rightarrow> Answered r, c)"
| "spec_apply fresh (OpStore now vid iv user groups) c =
     (case spec_store now vid iv user groups fresh c of (ans, c') \<Rightarrow> (case ans of Inl es \<Rightarrow> Refused es | Inr n \<Rightarrow> StoredAt n, c'))"
| "spec_apply fresh (OpDelete vid groups) c =
     (case spec_delete groups vid c of (ans, c') \<Rightarrow> (case ans of Some e \<Rightarrow> Refused [e] | None \<Rightarrow> Deleted, c'))"

text \<open>
  C17: While the vault is unlocked, its encrypted rows implement a table of secrets in clear: every read, write and delete
  answers what the table answers and leaves the contents the table has, with the checks of groups and of names, or it is refused
  because a statement or the cipher failed and changes nothing. A new entry gets an id that was never used. Storing under a
  negative id is the exception: it answers success and stores nothing.
\<close>

theorem vault_implements_table:
  assumes "aead_spec (ve_gcm env)" "nonces_ok env" "checkUnlockedAndInitialized env m = None" "vault_ok env (mKey m) (mDisk m)"
    and "vault_apply env op m = (ans, m')"
  shows "(0 \<le> op_id op \<longrightarrow>
      vault_ok env (mKey m) (mDisk m') \<and> mKey m' = mKey m \<and> contents env (mKey m) (mDisk m) (vdSeq (mDisk m) + 1) = None \<and>
      ((ans, contents env (mKey m) (mDisk m')) = spec_apply (vdSeq (mDisk m) + 1) op (contents env (mKey m) (mDisk m)) \<or>
       m' = m \<and> (\<exists>e. ans = Refused [e]) \<and> \<not> (healthy env \<and> length (mKey m) = 32))) \<and>
    (\<forall>now vid iv user groups. op = OpStore now vid iv user groups \<and> vid < 0 \<and> (\<exists>n. ans = StoredAt n) \<longrightarrow> m' = m \<and> ans = StoredAt vid)"
proof
  have fresh: "contents env (mKey m) (mDisk m) (vdSeq (mDisk m) + 1) = None"
    using vault_okD(5) [OF assms(4)] by (fastforce simp: contents_None [OF assms(4)])
  show "0 \<le> op_id op \<longrightarrow>
      vault_ok env (mKey m) (mDisk m') \<and> mKey m' = mKey m \<and> contents env (mKey m) (mDisk m) (vdSeq (mDisk m) + 1) = None \<and>
      ((ans, contents env (mKey m) (mDisk m')) = spec_apply (vdSeq (mDisk m) + 1) op (contents env (mKey m) (mDisk m)) \<or>
       m' = m \<and> (\<exists>e. ans = Refused [e]) \<and> \<not> (healthy env \<and> length (mKey m) = 32))"
  proof (cases op)
    case (OpGet vid groups)
    then show ?thesis
      using assms(4,5) GetOne_spec [OF assms(3,4), of vid groups] fresh
      by (cases "ve_db env SelByID") (auto simp: vexec_simps healthy_def)
  next
    case (OpStore now vid iv user groups)
    obtain a where a: "Store env now vid iv user groups m = (a, m')" "ans = (case a of Inl es \<Rightarrow> Refused es | Inr n \<Rightarrow> StoredAt n)"
      using assms(5) OpStore by (auto split: prod.splits)
    from Store_spec [OF assms(1-4) _ a(1)] a(2) OpStore fresh show ?thesis by (auto simp: prod_eq_iff split: prod.splits)
  next
    case (OpDelete vid groups)
    obtain a where a: "Vault_Delete env vid groups m = (a, m')" "ans = (case a of Some e \<Rightarrow> Refused [e] | None \<Rightarrow> Deleted)"
      using assms(5) OpDelete by (auto split: prod.splits)
    from Delete_spec [OF assms(3,4) a(1)] a(2) OpDelete fresh show ?thesis by (auto simp: prod_eq_iff split: prod.splits)
  qed
  have none: "map (\<lambda>r. if vvID r = vid then g r else r) (vdValues (mDisk m)) = vdValues (mDisk m)" if "vid < 0" for vid g
    using vault_okD(4) [OF assms(4)] that by (intro map_idI) fastforce
  show "\<forall>now vid iv user groups. op = OpStore now vid iv user groups \<and> vid < 0 \<and> (\<exists>n. ans = StoredAt n) \<longrightarrow> m' = m \<and> ans = StoredAt vid"
    using assms(3,5) none
    by (auto simp: Store_def via_opened DB_Save_def vexec_Inr bind_res_eq_Inr split: prod.splits sum.splits option.splits if_splits)
qed

section \<open>The descriptor of the key derivation\<close>

lemma parse_uint32_print: "n < 2 ^ 32 \<Longrightarrow> parse_uint32 (nat_to_string n) = Inr n"
  by (simp add: parse_uint32_def nat_to_string_digits)

lemma digits_no_sep: "list_all is_digit s \<Longrightarrow> \<not> is_digit c \<Longrightarrow> c \<notin> set s"
  by (auto simp: list_all_iff)

lemma b64_no_sep: "c \<notin> set b64_alphabet \<Longrightarrow> c \<noteq> CHR ''='' \<Longrightarrow> c \<notin> set (b64_encode s)"
  using b64_encode_set by blast

lemma split_n2_sep: "c \<notin> set s \<Longrightarrow> split_n2 c (s @ c # t) = [s, t]"
  by (induction s) auto

lemma parse_encode_KDF:
  assumes "CHR ''$'' \<notin> set algo" "salt \<noteq> []" "t \<noteq> 0" "m \<noteq> 0" "p \<noteq> 0"
  shows "parseKDF (encodeKDF algo salt t m p) = Inr (algo, salt, t, m, p)"
proof -
  let ?m = "nat_to_string (unat m)" and ?t = "nat_to_string (unat t)" and ?p = "nat_to_string (unat p)"
  let ?kvs = "[''m='' @ ?m, ''t='' @ ?t, ''p='' @ ?p]"
  have sep: "CHR ''$'' \<notin> set (nat_to_string n)" "CHR '','' \<notin> set (nat_to_string n)" for n
    using digits_no_sep [OF nat_to_string_digits] by (auto simp: is_digit_def)
  have kvs: "split_on (CHR '','') (join '','' ?kvs) = ?kvs" by (rule split_on_join) (auto simp: sep)
  have "CHR ''$'' \<notin> set (b64_encode salt)" by (rule b64_no_sep) (simp_all add: b64_alphabet_def)
  then have parts: "split_on (CHR ''$'') (join ''$'' [algo, join '','' ?kvs, b64_encode salt]) = [algo, join '','' ?kvs, b64_encode salt]"
    using assms(1) by (intro split_on_join) (auto simp: sep)
  have n2: "split_n2 (CHR ''='') (''m='' @ x) = [''m'', x]" "split_n2 (CHR ''='') (''t='' @ x) = [''t'', x]"
    "split_n2 (CHR ''='') (''p='' @ x) = [''p'', x]" for x by simp_all
  have "unat m < 2 ^ 32" "unat t < 2 ^ 32" "unat p < 2 ^ 8"
    using unsigned_less [of m] unsigned_less [of t] unsigned_less [of p] by simp_all
  then have b: "unat m < 2 ^ 32" "unat t < 2 ^ 32" "unat p < 2 ^ 32" "unat p \<le> 255" by simp_all
  have "encodeKDF algo salt t m p = join ''$'' [algo, join '','' ?kvs, b64_encode salt]" by (simp add: encodeKDF_def)
  moreover have "kdf_params ?kvs (None, None, None) = Inr (Some (unat m), Some (unat t), Some (unat p))"
    using b by (simp add: n2 parse_uint32_print del: append.simps)
  ultimately show ?thesis
    using parts kvs assms(2-5) b by (simp add: parseKDF_def b64_decode_encode unat_eq_zero del: join.simps)
qed

lemma kdf_params_bound:
  assumes "kdf_params kvs mtp = Inr mtp'" "\<And>n. n \<in> set_option (fst mtp) \<union> set_option (fst (snd mtp)) \<union> set_option (snd (snd mtp)) \<Longrightarrow> n < 2 ^ 32"
    "n \<in> set_option (fst mtp') \<union> set_option (fst (snd mtp')) \<union> set_option (snd (snd mtp'))"
  shows "n < 2 ^ 32"
  using assms
proof (induction kvs mtp rule: kdf_params.induct)
  case (2 kv kvs m t p)
  obtain k v where kv: "split_n2 (CHR ''='') kv = [k, v]"
    using 2(4) by (auto split: list.splits)
  obtain x where x: "parse_uint32 v = Inr x"
    using 2(4) kv by (cases "parse_uint32 v") auto
  then have "x < 2 ^ 32" by (auto simp: parse_uint32_def split: if_splits)
  with 2 kv x show ?case by (fastforce split: if_splits)
qed auto

lemma word_of_small_nat: "0 < n \<Longrightarrow> n < 2 ^ LENGTH('a) \<Longrightarrow> word_of_nat n \<noteq> (0 :: 'a::len word)"
  by (auto simp: word_of_nat_eq_0_iff dest: dvd_imp_le)

lemma parseKDF_range:
  assumes "parseKDF s = Inr (algo, salt, t, m, p)"
  shows "salt \<noteq> [] \<and> t \<noteq> 0 \<and> m \<noteq> 0 \<and> p \<noteq> 0"
proof -
  obtain x params salt64 where x: "split_on (CHR ''$'') s = [x, params, salt64]"
    using assms by (auto simp: parseKDF_def split: list.splits)
  obtain mtp where k0: "kdf_params (split_on (CHR '','') params) (None, None, None) = Inr mtp"
    using assms x by (auto simp: parseKDF_def bind_res_eq_Inr)
  obtain mm tt pp where mtp: "mtp = (Some mm, Some tt, Some pp)"
    using assms x k0 by (cases mtp) (auto simp: parseKDF_def split: option.splits)
  have r: "mm \<noteq> 0" "tt \<noteq> 0" "pp \<noteq> 0" "pp \<le> 255" "salt \<noteq> []" "t = word_of_nat tt" "m = word_of_nat mm" "p = word_of_nat pp"
    using assms x k0 mtp by (auto simp: parseKDF_def split: if_splits sum.splits)
  note k = k0 [unfolded mtp]
  have "mm < 2 ^ 32" "tt < 2 ^ 32" using kdf_params_bound [OF k] by auto
  with r show ?thesis by (simp add: word_of_small_nat)
qed

text \<open>The descriptor that is stored beside the verifier is read back as it was written, for every algorithm name without a
  dollar sign, nonempty salt and nonzero parameters; every descriptor that is accepted has parameters in their ranges and a salt.
\<close>

theorem kdf_descriptor_roundtrip:
  "(CHR ''$'' \<notin> set algo \<and> salt \<noteq> [] \<and> t \<noteq> 0 \<and> m \<noteq> 0 \<and> p \<noteq> 0 \<longrightarrow>
      parseKDF (encodeKDF algo salt t m p) = Inr (algo, salt, t, m, p)) \<and>
   (parseKDF s = Inr (algo', salt', t', m', p') \<longrightarrow> salt' \<noteq> [] \<and> t' \<noteq> 0 \<and> m' \<noteq> 0 \<and> p' \<noteq> 0)"
  using parse_encode_KDF parseKDF_range by blast

section \<open>Opening the file and unlocking keep the contents\<close>

definition same_row :: "vault_env \<Rightarrow> string \<Rightarrow> string \<Rightarrow> stored_value \<Rightarrow> stored_value \<Rightarrow> bool" where
  "same_row env k k' r r' \<longleftrightarrow> vvID r' = vvID r \<and> vvClientID r' = vvClientID r \<and> vvKey r' = vvKey r \<and> plain env k' r' = plain env k r"

lemma same_rows:
  assumes "list_all2 (same_row env k k') rs rs'"
  shows "map vvID rs' = map vvID rs" "map (\<lambda>r. (vvClientID r, vvKey r)) rs' = map (\<lambda>r. (vvClientID r, vvKey r)) rs"
    "Option.bind (find (\<lambda>r. vvID r = vid) rs') (plain env k') = Option.bind (find (\<lambda>r. vvID r = vid) rs) (plain env k)"
    "r' \<in> set rs' \<Longrightarrow> \<exists>r \<in> set rs. vvID r' = vvID r \<and> plain env k' r' = plain env k r"
  using assms by (induction rs rs' rule: list_all2_induct) (auto simp: same_row_def)

lemma same_rows_vault:
  assumes "list_all2 (same_row env k k') (vdValues d) rs" "vdValues d' = rs" "vdSeq d' = vdSeq d"
  shows "contents env k' d' = contents env k d" "vault_ok env k d \<Longrightarrow> vault_ok env k' d'"
proof -
  note s = same_rows [OF assms(1)]
  show "contents env k' d' = contents env k d" using s(3) assms(2) by (auto simp: contents_def fun_eq_iff)
  show "vault_ok env k' d'" if "vault_ok env k d"
    using that s(1,2) s(4) assms(2,3) unfolding vault_ok_def by fastforce
qed

lemma Encrypt_Decrypt:
  assumes "aead_spec (ve_gcm env)" "nonces_ok env" "\<not> IsEncrypted v" "v \<noteq> []" "Encrypt (ve_gcm env) (ve_nonce env i) (ve_envelope env) v = Inr w"
  shows "unwrap env w = unwrap env v"
  using wrap_unwrap [OF assms(1-3), of i w] assms by (simp add: wrap_def unwrap_def Decrypt_def)

lemma wrap_rows_same:
  assumes "aead_spec (ve_gcm env)" "nonces_ok env" "wrap_rows env i rs = Inr rs'"
  shows "list_all2 (same_row env k k) rs rs'"
  using assms(3)
proof (induction rs arbitrary: i rs')
  case (Cons r rs)
  then obtain r' rs1 where r: "rs' = r' # rs1" "wrap_rows env (Suc i) rs = Inr rs1"
    and w: "(if vvValue r = [] \<or> IsEncrypted (vvValue r) then Inr r
        else bind_res (Encrypt (ve_gcm env) (ve_nonce env i) (ve_envelope env) (vvValue r)) (\<lambda>w.
             vexec env (UpdValue (vvID r)) (Inr (r\<lparr>vvValue := w\<rparr>)))) = Inr r'"
    by (auto simp: bind_res_eq_Inr)
  have "same_row env k k r r'"
  proof (cases "vvValue r = [] \<or> IsEncrypted (vvValue r)")
    case False
    then obtain x where x: "Encrypt (ve_gcm env) (ve_nonce env i) (ve_envelope env) (vvValue r) = Inr x" "r' = r\<lparr>vvValue := x\<rparr>"
      using w by (auto simp: bind_res_eq_Inr vexec_Inr)
    have "unwrap env x = unwrap env (vvValue r)" using Encrypt_Decrypt [OF assms(1,2) _ _ x(1)] False by simp
    with x(2) show ?thesis by (simp add: same_row_def plain_def opened_def split: sum.splits)
  qed (use w in \<open>simp add: same_row_def\<close>)
  with Cons.IH r show ?case by simp
qed simp

lemma open_keeps_contents:
  assumes "aead_spec (ve_gcm env)" "nonces_ok env" "Factory_Init env m = (None, m')"
  shows "contents env k (mDisk m') = contents env k (mDisk m)" "vault_ok env k (mDisk m) \<Longrightarrow> vault_ok env k (mDisk m')"
proof -
  have "list_all2 (same_row env k k) (vdValues (mDisk m)) (vdValues (mDisk m'))" "vdSeq (mDisk m') = vdSeq (mDisk m)"
    using assms(3) wrap_rows_same [OF assms(1,2), of 1 "vdValues (mDisk m)" _ k]
    by (auto simp: Factory_Init_def NewSqliteProvider_def wrapExistingSecrets_def vexec_Inr bind_res_eq_Inr same_row_def list_all2_same
        split: sum.splits if_splits)
  from same_rows_vault [OF this(1) refl this(2)]
  show "contents env k (mDisk m') = contents env k (mDisk m)" "vault_ok env k (mDisk m) \<Longrightarrow> vault_ok env k (mDisk m')" by simp_all
qed

lemma rekey_rows_same:
  assumes "aead_spec (ve_gcm env)" "nonces_ok env" "rekey_rows env (rekey_transform env k k') i rs = Inr rs'"
    "\<forall>r \<in> set rs. plain env k r \<noteq> None"
  shows "list_all2 (same_row env k k') rs rs'"
  using assms(3,4)
proof (induction rs arbitrary: i rs')
  case (Cons r rs)
  from Cons.prems(2) obtain v p where v: "unwrap env (vvValue r) = Inr v"
      "Aes256DecryptByKeyFromBase64String (ve_gcm env) v k = Inr p" "plain env k r = Some (r\<lparr>vvValue := p\<rparr>)"
    by (auto simp: plain_def opened_def bind_res_eq_Inr split: sum.splits)
  have "v \<noteq> []" using v(2) by (auto simp: Aes256DecryptByKeyFromBase64String_def b64_decode_def AesDecrypt_def bind_res_eq_Inr split: if_splits)
  then have "rekey_transform env k k' (2 * i) v = Aes256EncryptByKeyToBase64String (ve_gcm env) (ve_nonce env (2 * i)) p k'"
    using v(2) by (simp add: rekey_transform_def)
  then obtain x s rs1 where x: "Aes256EncryptByKeyToBase64String (ve_gcm env) (ve_nonce env (2 * i)) p k' = Inr x" "wrap env (2 * i + 1) x = Inr s"
      "rekey_rows env (rekey_transform env k k') (Suc i) rs = Inr rs1" "rs' = r\<lparr>vvValue := s\<rparr> # rs1"
    using Cons.prems(1) v(1) by (auto simp: bind_res_eq_Inr vexec_Inr)
  have "plain env k' (r\<lparr>vvValue := s\<rparr>) = Some (r\<lparr>vvValue := p\<rparr>)"
    using wrapped_opened [OF assms(1,2) x(1,2)] by (simp add: plain_def)
  with v(3) Cons.IH [OF x(3)] Cons.prems(2) x(4) show ?case by (simp add: same_row_def)
qed simp

definition salt_ok :: "vault_env \<Rightarrow> bool" where
  "salt_ok env \<longleftrightarrow> (\<forall>s. ve_salt env = Inr s \<longrightarrow> length s = 16)"

lemma NewStatusFor_props:
  assumes "aead_spec (ve_gcm env)" "nonces_ok env" "salt_ok env" "pass \<noteq> []" "NewStatusFor env pass = Inr (kdf, encCheck, key)"
  shows "dsKDF st = kdf \<Longrightarrow> DeriveKey env st pass = Inr (key, False)"
    "dsEncCheckValue st = encCheck \<Longrightarrow> Verify env st key" "\<not> IsEncrypted encCheck" "length key = 32"
proof -
  obtain salt verifier where n: "ve_salt env = Inr salt" "key = DeriveKeyArgon2id env pass salt argon2Time argon2MemoryKiB argon2Threads"
      "Aes256EncryptByKeyToBase64String (ve_gcm env) (ve_nonce env 0) verifier key = Inr encCheck"
      "kdf = encodeKDF kdfArgon2id salt argon2Time argon2MemoryKiB argon2Threads"
    using assms(5) by (auto simp: NewStatusFor_def bind_res_eq_Inr Let_def)
  have "salt \<noteq> []" using assms(3) n(1) by (auto simp: salt_ok_def)
  then have p: "parseKDF kdf = Inr (kdfArgon2id, salt, argon2Time, argon2MemoryKiB, argon2Threads)"
    unfolding n(4) by (intro parse_encode_KDF) (simp_all add: kdfArgon2id_def argon2Time_def argon2MemoryKiB_def argon2Threads_def)
  have "trim_space kdf \<noteq> []"
    unfolding n(4) encodeKDF_def kdfArgon2id_def by (simp add: trim_space_def trim_left_def is_space_def)
  with p assms(4) n(2) show "dsKDF st = kdf \<Longrightarrow> DeriveKey env st pass = Inr (key, False)" by (simp add: DeriveKey_def)
  show l: "length key = 32"
    using n(3) by (auto simp: Aes256EncryptByKeyToBase64String_def Aes256Encrypt_def bind_res_eq_Inr split: if_splits)
  note e = encrypted_value [OF assms(1,2) n(3)]
  show "\<not> IsEncrypted encCheck" by (rule e(1))
  from l have "key \<noteq> []" by auto
  with e show "Verify env st key" if "dsEncCheckValue st = encCheck" using that by (simp add: Verify_def)
qed

lemma rekey_props:
  assumes "aead_spec (ve_gcm env)" "nonces_ok env" "salt_ok env" "pass \<noteq> []" "rekeyLegacyVault env key pass m = Inr (newKey, d)"
  shows "vault_ok env key (mDisk m) \<Longrightarrow> vault_ok env newKey d \<and> contents env newKey d = contents env key (mDisk m)"
    "ve_db env SelStatus = None \<Longrightarrow>
      \<exists>st'. DB_GetStatus env d = Inr st' \<and> DeriveKey env st' pass = Inr (newKey, False) \<and> Verify env st' newKey"
proof -
  obtain kdf chk where n: "NewStatusFor env pass = Inr (kdf, chk, newKey)"
    and k: "ReKey env (rekey_transform env key newKey) kdf chk (mDisk m) = Inr d"
    using assms(5) by (auto simp: rekeyLegacyVault_def bind_res_eq_Inr via_def split: if_splits)
  note p = NewStatusFor_props [OF assms(1-4) n]
  obtain rows w s sts where r: "rekey_rows env (rekey_transform env key newKey) 1 (vdValues (mDisk m)) = Inr rows" "wrap env 1 chk = Inr w"
      "vdStatus (mDisk m) = s # sts"
      "d = mDisk m\<lparr>vdValues := rows, vdStatus := map (\<lambda>s. s\<lparr>dsEncCheckValue := w, dsKDF := kdf\<rparr>) (vdStatus (mDisk m))\<rparr>"
    using k by (cases "vdStatus (mDisk m)") (auto simp: ReKey_def vexec_Inr bind_res_eq_Inr)
  show "vault_ok env newKey d \<and> contents env newKey d = contents env key (mDisk m)" if "vault_ok env key (mDisk m)"
  proof -
    have "list_all2 (same_row env key newKey) (vdValues (mDisk m)) rows"
      using rekey_rows_same [OF assms(1,2) r(1)] that by (simp add: vault_ok_def)
    from same_rows_vault [OF this, of d] that r(4) show ?thesis by simp
  qed
  let ?st = "s\<lparr>dsEncCheckValue := chk, dsKDF := kdf\<rparr>"
  show "\<exists>st'. DB_GetStatus env d = Inr st' \<and> DeriveKey env st' pass = Inr (newKey, False) \<and> Verify env st' newKey"
    if "ve_db env SelStatus = None"
    using that r(3,4) wrap_unwrap [OF assms(1,2) p(3) r(2)] p(1) [of ?st] p(2) [of ?st]
    by (intro exI [of _ ?st]) (simp add: DB_GetStatus_def vexec_simps)
qed

text \<open>
  C18: Unlocking succeeds only if the vault is locked and the key derived from the passphrase opens the stored
  verifier; a failure changes nothing. A success keeps the contents, also where an old vault is re-encrypted under a salted key, and the same passphrase opens the vault again.
\<close>

theorem unlock_keeps_contents:
  assumes "aead_spec (ve_gcm env)" "nonces_ok env" "salt_ok env" "UnLock env pass m = (ans, m')"
  shows "(ans \<noteq> None \<longrightarrow> m' = m) \<and>
    (ans = None \<longrightarrow> IsLocked m \<and>
      (\<exists>st key legacy. DB_GetStatus env (mDisk m) = Inr st \<and> DeriveKey env st pass = Inr (key, legacy) \<and> Verify env st key \<and>
         (vault_ok env key (mDisk m) \<longrightarrow> vault_ok env (mKey m') (mDisk m') \<and>
            contents env (mKey m') (mDisk m') = contents env key (mDisk m))) \<and>
      (\<exists>st'. DB_GetStatus env (mDisk m') = Inr st' \<and> DeriveKey env st' pass = Inr (mKey m', False) \<and> Verify env st' (mKey m')))"
proof (cases ans)
  case (Some e)
  then show ?thesis using assms(4)
    by (auto simp: UnLock_def split: if_splits sum.splits prod.splits)
next
  case None
  then obtain st key legacy where u: "IsLocked m" "mOpened m" "DB_GetStatus env (mDisk m) = Inr st" "DeriveKey env st pass = Inr (key, legacy)"
      "Verify env st key"
      "if legacy then \<exists>k d. rekeyLegacyVault env key pass m = Inr (k, d) \<and> m' = keep_key k (m\<lparr>mDisk := d\<rparr>) else m' = keep_key key m"
    using assms(4) by (auto simp: UnLock_def via_def split: if_splits sum.splits prod.splits)
  have pass: "pass \<noteq> []" and sel: "ve_db env SelStatus = None" using u(3,4) by (auto simp: DeriveKey_def DB_GetStatus_def vexec_Inr)
  have "(vault_ok env key (mDisk m) \<longrightarrow> vault_ok env (mKey m') (mDisk m') \<and> contents env (mKey m') (mDisk m') = contents env key (mDisk m)) \<and>
      (\<exists>st'. DB_GetStatus env (mDisk m') = Inr st' \<and> DeriveKey env st' pass = Inr (mKey m', False) \<and> Verify env st' (mKey m'))"
  proof (cases legacy)
    case True
    then obtain k d where "rekeyLegacyVault env key pass m = Inr (k, d)" "m' = keep_key k (m\<lparr>mDisk := d\<rparr>)" using u(6) by auto
    with rekey_props [OF assms(1-3) pass this(1)] sel show ?thesis by (auto simp: keep_key_def)
  next
    case False
    with u show ?thesis by (simp add: keep_key_def)
  qed
  with None u(1,3-5) show ?thesis by blast
qed

section \<open>Two initialisations at the same time\<close>

definition foreign :: "aead \<Rightarrow> string \<Rightarrow> string \<Rightarrow> bool" where
  "foreign gcm k k' \<longleftrightarrow> (\<forall>n p. Open gcm k' n (Seal gcm k n p) = None)"

lemma Store_new:
  assumes "Store env now 0 iv user groups m = (Inr n, m')"
  shows "mKey m' = mKey m" "mOpened m'" "mOpened m" "n = vdSeq (mDisk m) + 1" "vdStatus (mDisk m') = vdStatus (mDisk m)"
    "\<exists>x y. Aes256EncryptByKeyToBase64String (ve_gcm env) (ve_nonce env 0) (ivValue iv) (mKey m) = Inr x \<and> wrap env 1 x = Inr y \<and>
       vdValues (mDisk m') = vdValues (mDisk m) @ [new_value user now iv n y]"
proof -
  have o: "mOpened m" using assms
    by (auto simp: Store_def checkUnlockedAndInitialized_def isDatabaseInitialized_def via_def split: option.splits if_splits sum.splits)
  then have v: "via m f = f (mDisk m)" for f by (simp add: via_def)
  obtain x where x: "Aes256EncryptByKeyToBase64String (ve_gcm env) (ve_nonce env 0) (ivValue iv) (mKey m) = Inr x"
    and s: "\<exists>d. DB_Save env user 0 (iv\<lparr>ivValue := x\<rparr>) now (mDisk m) = Inr (n, d) \<and> m' = m\<lparr>mDisk := d\<rparr>"
    using assms unfolding Store_def v by (auto split: option.splits if_splits sum.splits prod.splits)
  from s show "mKey m' = mKey m" "mOpened m'" "mOpened m" "n = vdSeq (mDisk m) + 1" "vdStatus (mDisk m') = vdStatus (mDisk m)"
    using o by (auto simp: DB_Save_def bind_res_eq_Inr vexec_Inr split: if_splits)
  from s x show "\<exists>x y. Aes256EncryptByKeyToBase64String (ve_gcm env) (ve_nonce env 0) (ivValue iv) (mKey m) = Inr x \<and> wrap env 1 x = Inr y \<and>
       vdValues (mDisk m') = vdValues (mDisk m) @ [new_value user now iv n y]"
    by (auto simp: DB_Save_def bind_res_eq_Inr vexec_Inr split: if_splits)
qed

lemma foreign_decrypt:
  assumes "nonces_ok env" "foreign (ve_gcm env) k k'" "Aes256EncryptByKeyToBase64String (ve_gcm env) (ve_nonce env i) p k = Inr x"
  shows "\<exists>e. Aes256DecryptByKeyFromBase64String (ve_gcm env) x k' = Inl e"
proof -
  obtain n where n: "ve_nonce env i = Inr n" "x = b64_encode (n @ Seal (ve_gcm env) k n p)"
    using assms(3) by (auto simp: Aes256EncryptByKeyToBase64String_def Aes256Encrypt_def bind_res_eq_Inr split: if_splits)
  have "length n = NonceSize" using assms(1) n(1) by (auto simp: nonces_ok_def)
  with assms(2) n(2) show ?thesis
    by (auto simp: Aes256DecryptByKeyFromBase64String_def b64_decode_encode AesDecrypt_def foreign_def bind_res_def split: sum.splits)
qed

text \<open>The status that a second initialisation leaves derives keys with the salt of the second.\<close>

lemma init_write_props:
  assumes "init_write env pass m = (Inr key, m')" "ve_salt env = Inr salt" "length salt = 16"
  shows "mOpened m'" "vdSeq (mDisk m') = vdSeq (mDisk m)" "vdValues (mDisk m) = [] \<Longrightarrow> vdValues (mDisk m') = []"
    "\<exists>s rest. vdStatus (mDisk m') = s # rest \<and> dsKDF s = encodeKDF kdfArgon2id salt argon2Time argon2MemoryKiB argon2Threads"
    "key = DeriveKeyArgon2id env pass salt argon2Time argon2MemoryKiB argon2Threads"
proof -
  obtain m1 kdf chk d where f: "Factory_Init env m = (None, m1)" and n: "NewStatusFor env pass = Inr (kdf, chk, key)"
    and d: "DB_SetStatus env \<lparr>dsID = 0, dsStatusName = DbStatusInit, dsEncCheckValue = chk, dsKDF = kdf\<rparr> (mDisk m1) = Inr d"
    and o: "mOpened m1" "m' = m1\<lparr>mDisk := d\<rparr>"
    using assms(1) by (auto simp: init_write_def via_def split: prod.splits option.splits sum.splits if_splits)
  have q: "vdSeq (mDisk m1) = vdSeq (mDisk m)" "vdValues (mDisk m) = [] \<Longrightarrow> vdValues (mDisk m1) = []"
    using f by (auto simp: Factory_Init_def NewSqliteProvider_def wrapExistingSecrets_def vexec_Inr bind_res_eq_Inr split: sum.splits if_splits)
  show "mOpened m'" using o by simp
  show "key = DeriveKeyArgon2id env pass salt argon2Time argon2MemoryKiB argon2Threads"
    using n assms(2) by (auto simp: NewStatusFor_def bind_res_eq_Inr Let_def)
  have k: "kdf = encodeKDF kdfArgon2id salt argon2Time argon2MemoryKiB argon2Threads"
    using n assms(2) by (auto simp: NewStatusFor_def bind_res_eq_Inr Let_def)
  show "vdSeq (mDisk m') = vdSeq (mDisk m)" "vdValues (mDisk m) = [] \<Longrightarrow> vdValues (mDisk m') = []"
    using d o q by (cases "vdStatus (mDisk m1)"; auto simp: DB_SetStatus_def bind_res_eq_Inr vexec_Inr)+
  show "\<exists>s rest. vdStatus (mDisk m') = s # rest \<and> dsKDF s = encodeKDF kdfArgon2id salt argon2Time argon2MemoryKiB argon2Threads"
    using d o k by (cases "vdStatus (mDisk m1)") (auto simp: DB_SetStatus_def bind_res_eq_Inr vexec_Inr)
qed

lemma UnLock_key:
  assumes "UnLock env pass m = (None, m')" "vdStatus (mDisk m) = s # rest" "length salt = 16"
    and "dsKDF s = encodeKDF kdfArgon2id salt argon2Time argon2MemoryKiB argon2Threads"
  shows "mKey m' = DeriveKeyArgon2id env pass salt argon2Time argon2MemoryKiB argon2Threads" "mDisk m' = mDisk m" "mOpened m'"
proof -
  have "salt \<noteq> []" using assms(3) by auto
  then have p: "parseKDF (dsKDF s) = Inr (kdfArgon2id, salt, argon2Time, argon2MemoryKiB, argon2Threads)"
    unfolding assms(4) by (intro parse_encode_KDF) (simp_all add: kdfArgon2id_def argon2Time_def argon2MemoryKiB_def argon2Threads_def)
  have t: "trim_space (dsKDF s) \<noteq> []"
    unfolding assms(4) encodeKDF_def kdfArgon2id_def by (simp add: trim_space_def trim_left_def is_space_def)
  obtain st key legacy where u: "mOpened m" "DB_GetStatus env (mDisk m) = Inr st" "DeriveKey env st pass = Inr (key, legacy)"
      "if legacy then \<exists>k d. rekeyLegacyVault env key pass m = Inr (k, d) \<and> m' = keep_key k (m\<lparr>mDisk := d\<rparr>) else m' = keep_key key m"
    using assms(1) by (auto simp: UnLock_def via_def split: if_splits sum.splits prod.splits)
  have "dsKDF st = dsKDF s" using u(2) assms(2) by (auto simp: DB_GetStatus_def vexec_Inr bind_res_eq_Inr)
  with u(3) p t have "key = DeriveKeyArgon2id env pass salt argon2Time argon2MemoryKiB argon2Threads" "\<not> legacy"
    by (auto simp: DeriveKey_def split: if_splits)
  with u(1,4) show "mKey m' = DeriveKeyArgon2id env pass salt argon2Time argon2MemoryKiB argon2Threads" "mDisk m' = mDisk m" "mOpened m'"
    by (simp_all add: keep_key_def)
qed

text \<open>Two initialisations that both find no vault can end with the key of the first in memory and the verifier and salt of
  the second on disk. Values stored from then on are lost once the vault is locked: whatever passphrase unlocks it, the
  key it derives does not open them.
\<close>

theorem concurrent_inits_lose_values:
  assumes "aead_spec (ve_gcm env)" "nonces_ok env" "vdValues (mDisk m) = []" "length salt = 16" "length salt' = 16"
    and env': "ve_salt env = Inr salt" "env' = env\<lparr>ve_salt := Inr salt'\<rparr>"
    and "init_check env passA m = None" "init_check env' passB m = None"
    and a: "init_write env passA m = (Inr kA, m1)" and b: "init_write env' passB m1 = (Inr kB, m2)"
    and s: "Store env now 0 iv user groups (keep_key kA (keep_key kB m2)) = (Inr n, m3)"
    and l: "Lock env m3 = (None, m4)" and u: "UnLock env pass m4 = (None, m5)"
    and f: "foreign (ve_gcm env) kA (DeriveKeyArgon2id env pass salt' argon2Time argon2MemoryKiB argon2Threads)"
  shows "mKey m5 = DeriveKeyArgon2id env pass salt' argon2Time argon2MemoryKiB argon2Threads \<and> (\<exists>e. GetOne env n groups m5 = Inl e)"
proof -
  have i: "ve_salt env' = Inr salt'" using env'(2) by simp
  note pa = init_write_props [OF a env'(1) assms(4)] and pb = init_write_props [OF b i assms(5)]
  note st = Store_new [OF s]
  have m4: "mDisk m4 = mDisk m3" using l by (auto simp: Lock_def split: if_splits sum.splits)
  obtain x y where xy: "Aes256EncryptByKeyToBase64String (ve_gcm env) (ve_nonce env 0) (ivValue iv) kA = Inr x" "wrap env 1 x = Inr y"
      "vdValues (mDisk m3) = [new_value user now iv n y]"
    using st(6) pa(3) pb(3) assms(3) by (auto simp: keep_key_def)
  obtain sr rest where sr: "vdStatus (mDisk m4) = sr # rest" "dsKDF sr = encodeKDF kdfArgon2id salt' argon2Time argon2MemoryKiB argon2Threads"
    using pb(4) st(5) m4 by (auto simp: keep_key_def)
  note k = UnLock_key [OF u sr(1) assms(5) sr(2)]
  have "\<exists>e. Aes256DecryptByKeyFromBase64String (ve_gcm env) x (mKey m5) = Inl e"
    unfolding k(1) by (rule foreign_decrypt [OF assms(2) f xy(1)])
  moreover have "unwrap env y = Inr x"
    by (rule wrap_unwrap [OF assms(1,2) encrypted_value(1) [OF assms(1,2) xy(1)] xy(2)])
  moreover have "vdValues (mDisk m5) = [new_value user now iv n y]" using k(2) m4 xy(3) by simp
  ultimately have "\<exists>e. GetOne env n groups m5 = Inl e"
    using k(3) by (auto simp: GetOne_def via_def DB_GetByID_def unwrapped_def vexec_def new_value_def split: option.splits)
  with k(1) show ?thesis by simp
qed

section \<open>Examples\<close>

definition toy_vault_env :: vault_env where
  "toy_vault_env = \<lparr>ve_db = (\<lambda>_. None), ve_gcm = toy_aead, ve_nonce = (\<lambda>_. Inr (replicate 12 CHR ''n'')),
     ve_salt = Inr (replicate 16 CHR ''s''), ve_verifier = Inr (replicate 32 CHR ''v''),
     ve_argon2 = (\<lambda>pw salt _ _ _. take 32 (pw @ salt @ replicate 32 CHR ''x'')),
     ve_sha256 = (\<lambda>pw. take 32 (pw @ replicate 32 CHR ''x'')), ve_envelope = NewEnvelope []\<rparr>"

lemma toy_vault_env_ok: "aead_spec (ve_gcm toy_vault_env)" "nonces_ok toy_vault_env" "salt_ok toy_vault_env"
  by (simp_all add: toy_vault_env_def toy_aead_spec nonces_ok_def salt_ok_def NonceSize_def)

definition toy_key :: string where "toy_key = replicate 32 CHR ''k''"

definition open_vault :: manager where
  "open_vault = \<lparr>mKey = toy_key, mOpened = True, mDisk = \<lparr>vdStatus = [\<lparr>dsID = 1, dsStatusName = DbStatusInit, dsEncCheckValue = [],
     dsKDF = []\<rparr>], vdStatusSeq = 1, vdValues = [], vdSeq = 0\<rparr>\<rparr>"

definition db_password :: input_value where
  "db_password = \<lparr>ivClientID = ''c1'', ivRequiredGroup = ''dba'', ivKey = ''db'', ivValue = ''hunter2'', ivType = ''secret''\<rparr>"

lemmas toy_vault_defs = toy_vault_env_def vexec_def via_def NewEnvelope_def Enabled_def wrap_def unwrap_def Encrypt_def Decrypt_def
  DB_GetStatus_def DB_SetStatus_def DbStatusInit_def DbStatusNotInit_def IsLocked_def isDatabaseInitialized_def checkUnlockedAndInitialized_def

lemma open_vault_ready: "checkUnlockedAndInitialized toy_vault_env open_vault = None"
  by (simp add: toy_vault_defs open_vault_def toy_key_def IsEncrypted_def)

lemma toy_encrypt:
  "length key = 32 \<Longrightarrow>
   Aes256EncryptByKeyToBase64String (ve_gcm toy_vault_env) (ve_nonce toy_vault_env i) p key =
     Inr (b64_encode (replicate 12 CHR ''n'' @ Seal toy_aead key (replicate 12 CHR ''n'') p))"
  by (simp add: Aes256EncryptByKeyToBase64String_def Aes256Encrypt_def NewCipher_def toy_vault_env_def)

lemma toy_store:
  assumes "checkUnlockedAndInitialized toy_vault_env m = None" "length (mKey m) = 32" "vdValues (mDisk m) = []"
  shows "\<exists>m'. Store toy_vault_env now 0 db_password ''ann'' [''dba''] m = (Inr (vdSeq (mDisk m) + 1), m') \<and> mOpened m' = mOpened m
    \<and> mKey m' = mKey m \<and> vdStatus (mDisk m') = vdStatus (mDisk m)"
proof -
  have v: "via m f = f (mDisk m)" for f :: "vault_db \<Rightarrow> 'a res" by (rule via_opened [OF assms(1)])
  show ?thesis
    unfolding Store_def assms(1) option.case v toy_encrypt [OF assms(2)]
    using assms(3)
    by (simp add: Validate_def db_password_def ValueTypes_def FindByKeyAndClientID_def unwrapped_def check_existing_id_def
        toy_vault_defs DB_Save_def toy_aead_def del: b64_encode.simps)
qed

theorem vault_implements_table_witness:
  "\<exists>m'. vault_apply toy_vault_env (OpStore 0 0 db_password ''ann'' [''dba'']) open_vault = (StoredAt 1, m') \<and>
     contents toy_vault_env toy_key (mDisk m') = [1 \<mapsto> new_value ''ann'' 0 db_password 1 ''hunter2'']"
proof -
  have ok: "vault_ok toy_vault_env (mKey open_vault) (mDisk open_vault)" by (simp add: vault_ok_def open_vault_def)
  have "length (mKey open_vault) = 32" "vdValues (mDisk open_vault) = []" "vdSeq (mDisk open_vault) = 0"
    by (simp_all add: open_vault_def toy_key_def)
  then obtain m' where s: "Store toy_vault_env 0 0 db_password ''ann'' [''dba''] open_vault = (Inr 1, m')"
    using toy_store [OF open_vault_ready, of 0] by auto
  then have a: "vault_apply toy_vault_env (OpStore 0 0 db_password ''ann'' [''dba'']) open_vault = (StoredAt 1, m')" by simp
  have "contents toy_vault_env toy_key (mDisk open_vault) = Map.empty" by (simp add: contents_def open_vault_def fun_eq_iff)
  with vault_implements_table [OF toy_vault_env_ok(1,2) open_vault_ready ok a] a show ?thesis
    by (auto simp: open_vault_def spec_store_def spec_existing_def spec_taken_def Validate_def db_password_def ValueTypes_def)
qed

theorem kdf_descriptor_roundtrip_witness:
  "parseKDF (encodeKDF ''argon2id'' ''salt'' 3 65536 4) = Inr (''argon2id'', ''salt'', 3, 65536, 4)"
  using kdf_descriptor_roundtrip [of "''argon2id''" "''salt''" 3 65536 4] by simp

definition toy_cipher :: "string \<Rightarrow> string \<Rightarrow> string" where
  "toy_cipher key p = b64_encode (replicate 12 CHR ''n'' @ Seal toy_aead key (replicate 12 CHR ''n'') p)"

lemma toy_cipher_simps:
  assumes "length key = 32"
  shows "Aes256EncryptByKeyToBase64String (ve_gcm toy_vault_env) (ve_nonce toy_vault_env i) p key = Inr (toy_cipher key p)"
    "Aes256DecryptByKeyFromBase64String (ve_gcm toy_vault_env) (toy_cipher key p) key = Inr p"
    "unwrap toy_vault_env (toy_cipher key p) = Inr (toy_cipher key p)" "wrap toy_vault_env j x = Inr x" "toy_cipher key p \<noteq> []"
proof -
  show e: "Aes256EncryptByKeyToBase64String (ve_gcm toy_vault_env) (ve_nonce toy_vault_env i) p key = Inr (toy_cipher key p)" for i
    using toy_encrypt [OF assms] by (simp add: toy_cipher_def)
  note ev = encrypted_value [OF toy_vault_env_ok(1,2) e]
  show "Aes256DecryptByKeyFromBase64String (ve_gcm toy_vault_env) (toy_cipher key p) key = Inr p" "toy_cipher key p \<noteq> []" using ev by simp_all
  show "unwrap toy_vault_env (toy_cipher key p) = Inr (toy_cipher key p)" using ev(1) by (simp add: unwrap_def Decrypt_def)
  show "wrap toy_vault_env j x = Inr x" by (simp add: wrap_def Encrypt_def toy_vault_env_def NewEnvelope_def Enabled_def)
qed

definition legacy_key :: string where "legacy_key = DeriveKeyLegacySHA256 toy_vault_env ''password''"

definition legacy_vault :: manager where
  "legacy_vault = \<lparr>mKey = [], mOpened = True, mDisk = \<lparr>vdStatus = [\<lparr>dsID = 1, dsStatusName = DbStatusInit,
     dsEncCheckValue = toy_cipher legacy_key ''verifier'', dsKDF = []\<rparr>], vdStatusSeq = 1,
     vdValues = [new_value ''ann'' 0 db_password 1 (toy_cipher legacy_key ''hunter2'')], vdSeq = 1\<rparr>\<rparr>"

lemma legacy_key_length [simp]: "length legacy_key = 32"
  by (simp add: legacy_key_def DeriveKeyLegacySHA256_def toy_vault_env_def)

lemma toy_exec [simp]: "vexec toy_vault_env st r = r"
  by (simp add: vexec_def toy_vault_env_def)

lemma toy_NewStatusFor:
  "\<exists>kdf chk key. NewStatusFor toy_vault_env pass = Inr (kdf, chk, key) \<and> length key = 32"
proof -
  have "length (DeriveKeyArgon2id toy_vault_env pass salt t m p) = 32" for salt t m p
    by (simp add: DeriveKeyArgon2id_def toy_vault_env_def)
  then show ?thesis
    using toy_cipher_simps(1) by (simp add: NewStatusFor_def Let_def) (simp add: toy_vault_env_def)
qed

lemma legacy_unlock: "\<exists>m'. UnLock toy_vault_env ''password'' legacy_vault = (None, m')"
proof -
  obtain kdf chk key where n: "NewStatusFor toy_vault_env ''password'' = Inr (kdf, chk, key)" "length key = 32"
    using toy_NewStatusFor by blast
  have st: "DB_GetStatus toy_vault_env (mDisk legacy_vault) = Inr (hd (vdStatus (mDisk legacy_vault)))"
    by (simp add: DB_GetStatus_def legacy_vault_def toy_cipher_simps)
  have "rekey_transform toy_vault_env legacy_key key i (toy_cipher legacy_key p) = Inr (toy_cipher key p)" for i p
    using n(2) by (simp add: rekey_transform_def toy_cipher_simps)
  then have "\<exists>d. rekeyLegacyVault toy_vault_env legacy_key ''password'' legacy_vault = Inr (key, d)"
    using n by (simp add: rekeyLegacyVault_def via_def legacy_vault_def ReKey_def toy_cipher_simps new_value_def)
  moreover have "DeriveKey toy_vault_env (hd (vdStatus (mDisk legacy_vault))) ''password'' = Inr (legacy_key, True)"
    by (simp add: DeriveKey_def legacy_vault_def legacy_key_def trim_space_def trim_left_def)
  moreover have "Verify toy_vault_env (hd (vdStatus (mDisk legacy_vault))) legacy_key"
    using legacy_key_length by (auto simp: Verify_def legacy_vault_def toy_cipher_simps simp del: legacy_key_length)
  moreover have "mOpened legacy_vault" "IsLocked legacy_vault" "\<not> not_yet_initialized (hd (vdStatus (mDisk legacy_vault)))"
    by (simp_all add: legacy_vault_def IsLocked_def not_yet_initialized_def DbStatusInit_def DbStatusNotInit_def)
  ultimately show ?thesis using st by (auto simp: UnLock_def via_def)
qed

theorem unlock_keeps_contents_witness:
  "\<exists>m'. UnLock toy_vault_env ''password'' legacy_vault = (None, m') \<and>
     contents toy_vault_env (mKey m') (mDisk m') 1 = Some (new_value ''ann'' 0 db_password 1 ''hunter2'')"
proof -
  obtain m' where u: "UnLock toy_vault_env ''password'' legacy_vault = (None, m')" using legacy_unlock by blast
  have p: "plain toy_vault_env legacy_key (new_value ''ann'' 0 db_password 1 (toy_cipher legacy_key ''hunter2'')) =
      Some (new_value ''ann'' 0 db_password 1 ''hunter2'')"
    by (simp add: plain_def opened_def new_value_def toy_cipher_simps)
  then have c: "contents toy_vault_env legacy_key (mDisk legacy_vault) 1 = Some (new_value ''ann'' 0 db_password 1 ''hunter2'')"
    and ok: "vault_ok toy_vault_env legacy_key (mDisk legacy_vault)"
    by (simp_all add: contents_def vault_ok_def legacy_vault_def) (simp_all add: new_value_def)
  have "DB_GetStatus toy_vault_env (mDisk legacy_vault) = Inr (hd (vdStatus (mDisk legacy_vault)))"
    by (simp add: DB_GetStatus_def legacy_vault_def toy_cipher_simps)
  moreover have "DeriveKey toy_vault_env (hd (vdStatus (mDisk legacy_vault))) ''password'' = Inr (legacy_key, True)"
    by (simp add: DeriveKey_def legacy_vault_def legacy_key_def trim_space_def trim_left_def)
  ultimately show ?thesis
    using unlock_keeps_contents [OF toy_vault_env_ok u] u c ok by auto
qed

definition new_vault :: manager where
  "new_vault = \<lparr>mKey = [], mOpened = False, mDisk = \<lparr>vdStatus = [], vdStatusSeq = 0, vdValues = [], vdSeq = 0\<rparr>\<rparr>"

definition other_env :: vault_env where
  "other_env = toy_vault_env\<lparr>ve_salt := Inr (replicate 16 CHR ''z'')\<rparr>"

lemma toy_foreign: "length k = length k' \<Longrightarrow> k \<noteq> k' \<Longrightarrow> foreign toy_aead k k'"
  by (auto simp: foreign_def toy_aead_def has_suffix_iff append_eq_append_conv simp flip: append_assoc)

lemma toy_init:
  assumes "env = toy_vault_env \<or> env = other_env"
  shows "\<exists>key m' s rest. init_write env pass m = (Inr key, m') \<and> mOpened m' \<and> vdValues (mDisk m') = vdValues (mDisk m) \<and>
    vdSeq (mDisk m') = vdSeq (mDisk m) \<and> length key = 32 \<and> vdStatus (mDisk m') = s # rest \<and> dsStatusName s = DbStatusInit \<and>
    (\<exists>v. dsEncCheckValue s = toy_cipher key v)"
proof -
  have env: "ve_db env = (\<lambda>_. None)" "ve_envelope env = NewEnvelope []" "ve_gcm env = ve_gcm toy_vault_env" "ve_nonce env = ve_nonce toy_vault_env"
    "ve_argon2 env = ve_argon2 toy_vault_env" "ve_verifier env = Inr (replicate 32 CHR ''v'')"
    using assms by (auto simp: other_env_def toy_vault_env_def)
  obtain salt where salt: "ve_salt env = Inr salt" using assms by (auto simp: other_env_def toy_vault_env_def)
  define key where "key = DeriveKeyArgon2id env pass salt argon2Time argon2MemoryKiB argon2Threads"
  have l: "length key = 32" by (simp add: key_def DeriveKeyArgon2id_def env toy_vault_env_def)
  have n: "NewStatusFor env pass = Inr (encodeKDF kdfArgon2id salt argon2Time argon2MemoryKiB argon2Threads,
      toy_cipher key (replicate 32 CHR ''v''), key)"
    using toy_cipher_simps(1) [OF l] by (simp add: NewStatusFor_def Let_def salt env flip: key_def)
  have f: "Factory_Init env m = (None, m\<lparr>mOpened := True\<rparr>)"
    by (simp add: Factory_Init_def NewSqliteProvider_def wrapExistingSecrets_def vexec_def env NewEnvelope_def Enabled_def)
  show ?thesis
    using l by (cases "vdStatus (mDisk m)")
      (auto simp: init_write_def f n via_def DB_SetStatus_def wrap_def Encrypt_def env NewEnvelope_def Enabled_def vexec_def toy_cipher_simps(5))
qed

lemma toy_ready:
  assumes "mOpened m" "length (mKey m) = 32" "vdStatus (mDisk m) = s # rest" "dsStatusName s = DbStatusInit"
    "dsEncCheckValue s = toy_cipher key v" "length key = 32"
  shows "checkUnlockedAndInitialized toy_vault_env m = None" "DB_GetStatus toy_vault_env (mDisk m) = Inr s"
  using assms by (auto simp: checkUnlockedAndInitialized_def isDatabaseInitialized_def via_def DB_GetStatus_def toy_cipher_simps IsLocked_def)

theorem concurrent_inits_lose_values_witness:
  "\<exists>kA kB m1 m2 n m3 m4 m5 e.
     init_check toy_vault_env ''password'' new_vault = None \<and> init_check other_env ''passphrase'' new_vault = None \<and>
     init_write toy_vault_env ''password'' new_vault = (Inr kA, m1) \<and> init_write other_env ''passphrase'' m1 = (Inr kB, m2) \<and>
     Store toy_vault_env 0 0 db_password ''ann'' [''dba''] (keep_key kA (keep_key kB m2)) = (Inr n, m3) \<and>
     Lock toy_vault_env m3 = (None, m4) \<and> UnLock toy_vault_env ''passphrase'' m4 = (None, m5) \<and> GetOne toy_vault_env n [''dba''] m5 = Inl e"
proof -
  have c: "init_check toy_vault_env ''password'' new_vault = None" "init_check other_env ''passphrase'' new_vault = None"
    by (simp_all add: init_check_def ValidatePass_def isDatabaseInitialized_def via_def new_vault_def ErrDatabaseNotInitialised_def)
  obtain kA m1 where a: "init_write toy_vault_env ''password'' new_vault = (Inr kA, m1)" "vdValues (mDisk m1) = []" "length kA = 32"
    using toy_init [of toy_vault_env "''password''" new_vault] by (auto simp: new_vault_def)
  obtain kB m2 s rest v where b: "init_write other_env ''passphrase'' m1 = (Inr kB, m2)" "mOpened m2" "vdValues (mDisk m2) = []" "length kB = 32"
      "vdStatus (mDisk m2) = s # rest" "dsStatusName s = DbStatusInit" "dsEncCheckValue s = toy_cipher kB v"
    using toy_init [of other_env "''passphrase''" m1] a(2) by auto
  let ?z = "replicate 16 CHR ''z''" and ?m = "keep_key kA (keep_key kB m2)"
  have salts: "ve_salt toy_vault_env = Inr (replicate 16 CHR ''s'')" "ve_salt other_env = Inr ?z"
    by (simp_all add: toy_vault_env_def other_env_def)
  have kA: "kA = DeriveKeyArgon2id toy_vault_env ''password'' (replicate 16 CHR ''s'') argon2Time argon2MemoryKiB argon2Threads"
    using init_write_props(5) [OF a(1) salts(1)] by simp
  have kB: "kB = DeriveKeyArgon2id toy_vault_env ''passphrase'' ?z argon2Time argon2MemoryKiB argon2Threads"
    using init_write_props(5) [OF b(1) salts(2)] by (simp add: DeriveKeyArgon2id_def other_env_def)
  have kdf: "dsKDF s = encodeKDF kdfArgon2id ?z argon2Time argon2MemoryKiB argon2Threads"
    using init_write_props(4) [OF b(1) salts(2)] b(5) by simp
  have "checkUnlockedAndInitialized toy_vault_env ?m = None"
    by (rule toy_ready(1) [OF _ _ _ b(6,7,4)]) (use b a in \<open>simp_all add: keep_key_def\<close>)
  from toy_store [OF this, of 0] obtain n m3 where
    st: "Store toy_vault_env 0 0 db_password ''ann'' [''dba''] ?m = (Inr n, m3)" "mOpened m3" "mKey m3 = kA" "vdStatus (mDisk m3) = s # rest"
    using a b by (auto simp: keep_key_def)
  have g: "DB_GetStatus toy_vault_env (mDisk m3) = Inr s" by (rule toy_ready(2) [OF st(2) _ st(4) b(6,7,4)]) (simp add: st(3) a(3))
  have i: "\<not> not_yet_initialized s" using b(6) by (simp add: not_yet_initialized_def DbStatusInit_def DbStatusNotInit_def)
  have "kA \<noteq> []" using a(3) by auto
  then have l: "Lock toy_vault_env m3 = (None, m3\<lparr>mKey := []\<rparr>)" using st(2,3) g i by (simp add: Lock_def IsLocked_def via_def)
  have "trim_space (dsKDF s) \<noteq> []" unfolding kdf encodeKDF_def kdfArgon2id_def by (simp add: trim_space_def trim_left_def is_space_def)
  moreover have "parseKDF (dsKDF s) = Inr (kdfArgon2id, ?z, argon2Time, argon2MemoryKiB, argon2Threads)"
    unfolding kdf by (intro parse_encode_KDF) (simp_all add: kdfArgon2id_def argon2Time_def argon2MemoryKiB_def argon2Threads_def)
  ultimately have "DeriveKey toy_vault_env s ''passphrase'' = Inr (kB, False)" by (simp add: DeriveKey_def kB)
  moreover have "Verify toy_vault_env s kB" using b(4,7) by (auto simp: Verify_def toy_cipher_simps)
  ultimately have u: "UnLock toy_vault_env ''passphrase'' (m3\<lparr>mKey := []\<rparr>) = (None, keep_key kB (m3\<lparr>mKey := []\<rparr>))"
    using st(2) g i by (simp add: UnLock_def IsLocked_def via_def)
  have "foreign (ve_gcm toy_vault_env) kA kB"
    unfolding kA kB by (simp add: toy_vault_env_def, rule toy_foreign) (simp_all add: DeriveKeyArgon2id_def)
  then have "foreign (ve_gcm toy_vault_env) kA (DeriveKeyArgon2id toy_vault_env ''passphrase'' ?z argon2Time argon2MemoryKiB argon2Threads)"
    using kB by simp
  from concurrent_inits_lose_values [OF toy_vault_env_ok(1,2) _ _ _ salts(1) other_env_def c a(1) b(1) st(1) l u this] c a(1) b(1) st(1) l u
  show ?thesis by (fastforce simp: new_vault_def)
qed

end
