(* ===== verification/ClientGroups.thy ===== *)
theory ClientGroups
  imports Prelude "HOL-Library.List_Lexorder" "HOL-Library.Char_ord"
begin

text \<open>
  Client groups (\<^verbatim>\<open>server/cgroups\<close>) and the handlers that change them
  (\<^verbatim>\<open>server/api_handler_clientgroups.go\<close>). A group names clients by patterns over their attributes; a user
  group listed in \<open>cgAllowedUserGroups\<close> gets access to the clients that match. The pattern matcher with
  its cut into parts and greedy search is proved equal to the declarative reading of \<^verbatim>\<open>*\<close>.

  A \<^verbatim>\<open>json.RawMessage\<close> is \<^term>\<open>None\<close> when it holds no bytes and its document otherwise; the documents of
  this program come out of a JSON decoder, so they are well formed.
\<close>

section \<open>Patterns\<close>

type_synonym param_values = "string list option"

fun match_parts :: "string \<Rightarrow> string list \<Rightarrow> bool" where
  "match_parts value [] = True"
| "match_parts value (part # parts) =
     (case index_of value part of
        None \<Rightarrow> False
      | Some i \<Rightarrow> match_parts (drop (i + length part) value) parts)"

definition Param_matches :: "string \<Rightarrow> string \<Rightarrow> bool" where
  "Param_matches p v =
     (let str = to_lower p; value = to_lower v
      in if contains_str str ''*''
         then let parts = split_on CHR ''*'' str
              in if \<not> has_prefix value (hd parts) \<or> \<not> has_suffix value (last parts) then False
                 else match_parts value parts
         else str = value)"

definition MatchesOneOf :: "param_values \<Rightarrow> string list \<Rightarrow> bool" where
  "MatchesOneOf p values =
     (case p of
        None \<Rightarrow> True
      | Some ps \<Rightarrow> if ps = [] \<and> values = [] then True
                   else list_ex (\<lambda>curParam. list_ex (Param_matches curParam) values) ps)"

section \<open>Tags\<close>

text \<open>\<^verbatim>\<open>json.Unmarshal\<close> into a string, a \<^verbatim>\<open>[]string\<close> and a \<^verbatim>\<open>map[string][]string\<close>; \<^term>\<open>None\<close> is its error.\<close>

fun decode_string :: "json \<Rightarrow> string option" where
  "decode_string (JStr s) = Some s"
| "decode_string JNull = Some []"
| "decode_string _ = None"

fun decode_strings :: "json \<Rightarrow> string list option" where
  "decode_strings (JArr xs) = those (map decode_string xs)"
| "decode_strings JNull = Some []"
| "decode_strings _ = None"

fun decode_members :: "(string \<times> json) list \<Rightarrow> (string \<times> string list) list \<Rightarrow> (string \<times> string list) list option" where
  "decode_members [] m = Some m"
| "decode_members ((k, j) # kvs) m =
     (case decode_strings j of None \<Rightarrow> None | Some ss \<Rightarrow> decode_members kvs (AList.update k ss m))"

fun decode_strings_map :: "json \<Rightarrow> (string \<times> string list) list option" where
  "decode_strings_map (JObj kvs) = decode_members kvs []"
| "decode_strings_map JNull = Some []"
| "decode_strings_map _ = None"

definition allowedOperator :: "string \<Rightarrow> bool" where
  "allowedOperator op \<longleftrightarrow> to_lower op \<in> {''and'', ''or''}"

definition tag_error :: goerr where
  "tag_error = GoError ''error parsing tags group definitions'' []"

definition ParseTag :: "json option \<Rightarrow> (string \<times> string list) res" where
  "ParseTag raw =
     (case Option.bind raw decode_strings_map of
        Some [(operator, operands)] \<Rightarrow>
          if \<not> allowedOperator operator
          then Inl (GoError ''error, only and/or is allowed for tags group definitions'' [])
          else if operands = [] then Inl tag_error
          else Inr (operator, operands)
      | _ \<Rightarrow>
          (case Option.bind raw decode_strings of
             Some (s # ss) \<Rightarrow> Inr (''or'', s # ss)
           | _ \<Rightarrow> Inl tag_error))"

text \<open>The map \<^verbatim>\<open>matches\<close> of the operands that matched is the list of its keys.\<close>

fun mark_operands :: "string \<Rightarrow> string list \<Rightarrow> string list \<Rightarrow> string list" where
  "mark_operands curValue [] matched = matched"
| "mark_operands curValue (curOperand # operands) matched =
     mark_operands curValue operands
       (if curOperand \<in> set matched then matched
        else if Param_matches curOperand curValue then curOperand # matched else matched)"

fun mark_values :: "string list \<Rightarrow> string list \<Rightarrow> string list \<Rightarrow> string list" where
  "mark_values [] operands matched = matched"
| "mark_values (curValue # vs) operands matched = mark_values vs operands (mark_operands curValue operands matched)"

definition MatchesRawTags :: "json option option \<Rightarrow> string list \<Rightarrow> bool" where
  "MatchesRawTags p values =
     (case p of
        None \<Rightarrow> True
      | Some raw \<Rightarrow>
          if raw = None \<and> values = [] then True
          else case ParseTag raw of
                 Inl _ \<Rightarrow> False
               | Inr (operator, operands) \<Rightarrow>
                   if operands = [] then False
                   else let matched = mark_values values operands []
                        in if operator = ''and'' then length matched = length operands
                           else if operator = ''or'' then 0 < length matched
                           else False)"

section \<open>Groups\<close>

record client_params =
  pClientID :: param_values
  pName :: param_values
  pOS :: param_values
  pOSArch :: param_values
  pOSFamily :: param_values
  pOSKernel :: param_values
  pHostname :: param_values
  pIPv4 :: param_values
  pIPv6 :: param_values
  pTag :: "json option option"
  pVersion :: param_values
  pAddress :: param_values
  pClientAuthID :: param_values
  pConnectionState :: param_values

definition noParams :: client_params where
  "noParams = \<lparr>pClientID = None, pName = None, pOS = None, pOSArch = None, pOSFamily = None, pOSKernel = None,
     pHostname = None, pIPv4 = None, pIPv6 = None, pTag = None, pVersion = None, pAddress = None,
     pClientAuthID = None, pConnectionState = None\<rparr>"

definition HasNoParams :: "client_params option \<Rightarrow> bool" where
  "HasNoParams p = (case p of None \<Rightarrow> True | Some p \<Rightarrow> p = noParams)"

record client_group =
  cgID :: string
  cgDescription :: string
  cgParams :: "client_params option"
  cgAllowedUserGroups :: "string list"
  cgClientIDs :: "string list"

fun UserGroupIsAllowed_loop :: "string list \<Rightarrow> string \<Rightarrow> bool" where
  "UserGroupIsAllowed_loop [] requiredUserGroup = False"
| "UserGroupIsAllowed_loop (allowedUserGroup # gs) requiredUserGroup =
     (if allowedUserGroup = requiredUserGroup then True else UserGroupIsAllowed_loop gs requiredUserGroup)"

definition UserGroupIsAllowed :: "client_group \<Rightarrow> string \<Rightarrow> bool" where
  "UserGroupIsAllowed g requiredUserGroup = UserGroupIsAllowed_loop (cgAllowedUserGroups g) requiredUserGroup"

fun OneOfUserGroupsIsAllowed :: "client_group \<Rightarrow> string list \<Rightarrow> bool" where
  "OneOfUserGroupsIsAllowed g [] = False"
| "OneOfUserGroupsIsAllowed g (userGroup # userGroups) =
     (if UserGroupIsAllowed g userGroup then True else OneOfUserGroupsIsAllowed g userGroups)"

lemma UserGroupIsAllowed_iff [simp]: "UserGroupIsAllowed g u \<longleftrightarrow> u \<in> set (cgAllowedUserGroups g)"
proof -
  have "UserGroupIsAllowed_loop gs u \<longleftrightarrow> u \<in> set gs" for gs by (induction gs) auto
  then show ?thesis by (simp add: UserGroupIsAllowed_def)
qed

lemma OneOfUserGroupsIsAllowed_iff [simp]:
  "OneOfUserGroupsIsAllowed g us \<longleftrightarrow> (\<exists>u \<in> set us. u \<in> set (cgAllowedUserGroups g))"
  by (induction us) auto

section \<open>The table of groups\<close>

text \<open>
  The rows of \<^verbatim>\<open>client_groups\<close>, whose primary key is the id. The column \<^verbatim>\<open>client_ids\<close> does not exist: a group
  read from the table has none. \<open>dberr\<close> is the failure of the statement, if any.
\<close>

definition cg_row :: "client_group \<Rightarrow> client_group" where
  "cg_row g = g\<lparr>cgClientIDs := []\<rparr>"

definition Params_Value :: "client_params option \<Rightarrow> client_params res" where
  "Params_Value p =
     (case p of None \<Rightarrow> Inl (GoError ''params cannot be nil'' []) | Some p \<Rightarrow> Inr p)"

definition Groups_GetAll :: "goerr option \<Rightarrow> client_group list \<Rightarrow> client_group list res" where
  "Groups_GetAll dberr rows =
     (case dberr of Some e \<Rightarrow> Inl e | None \<Rightarrow> Inr (sort_key (\<lambda>g. to_lower (cgID g)) rows))"

definition Groups_Get :: "goerr option \<Rightarrow> string \<Rightarrow> client_group list \<Rightarrow> client_group option res" where
  "Groups_Get dberr gid rows =
     (case dberr of Some e \<Rightarrow> Inl e | None \<Rightarrow> Inr (find (\<lambda>g. cgID g = gid) rows))"

definition Groups_Create ::
    "goerr option \<Rightarrow> client_group \<Rightarrow> client_group list \<Rightarrow> goerr option \<times> client_group list" where
  "Groups_Create dberr g rows =
     (case Params_Value (cgParams g) of
        Inl e \<Rightarrow> (Some e, rows)
      | Inr _ \<Rightarrow>
          (case dberr of
             Some e \<Rightarrow> (Some e, rows)
           | None \<Rightarrow>
               if cgID g \<in> set (map cgID rows)
               then (Some (GoError ''UNIQUE constraint failed: client_groups.id'' []), rows)
               else (None, rows @ [cg_row g])))"

definition Groups_Update ::
    "goerr option \<Rightarrow> client_group \<Rightarrow> client_group list \<Rightarrow> goerr option \<times> client_group list" where
  "Groups_Update dberr g rows =
     (case Params_Value (cgParams g) of
        Inl e \<Rightarrow> (Some e, rows)
      | Inr _ \<Rightarrow>
          (case dberr of
             Some e \<Rightarrow> (Some e, rows)
           | None \<Rightarrow> (None, filter (\<lambda>r. cgID r \<noteq> cgID g) rows @ [cg_row g])))"

definition Groups_Delete ::
    "goerr option \<Rightarrow> string \<Rightarrow> client_group list \<Rightarrow> goerr option \<times> client_group list" where
  "Groups_Delete dberr gid rows =
     (case dberr of Some e \<Rightarrow> (Some e, rows) | None \<Rightarrow> (None, filter (\<lambda>r. cgID r \<noteq> gid) rows))"

section \<open>Handlers\<close>

definition groupIDMaxLength :: nat where "groupIDMaxLength = 30"

text \<open>The complement of the class \<^verbatim>\<open>[^\*A-Za-z0-9_-]\<close>.\<close>

definition valid_group_id_char :: "char \<Rightarrow> bool" where
  "valid_group_id_char c \<longleftrightarrow>
     (let n = of_char c :: nat
      in c = CHR ''*'' \<or> c = CHR ''_'' \<or> c = CHR ''-'' \<or> (65 \<le> n \<and> n \<le> 90) \<or> (97 \<le> n \<and> n \<le> 122) \<or> (48 \<le> n \<and> n \<le> 57))"

definition validateInputClientGroup :: "client_group \<Rightarrow> goerr option" where
  "validateInputClientGroup g =
     (if trim_space (cgID g) = [] then Some (GoError ''group ID cannot be empty'' [])
      else if groupIDMaxLength < length (cgID g)
      then Some (GoError ''invalid group ID: max length %d, got %d'' [AI (int groupIDMaxLength), AI (int (length (cgID g)))])
      else if \<not> list_all valid_group_id_char (cgID g)
      then Some (GoError ''invalid group ID %q: can contain only %q'' [AS (cgID g), AS ''A-Za-z0-9_-*''])
      else case cgParams g of
             None \<Rightarrow> None
           | Some ps \<Rightarrow>
               (case pTag ps of
                  None \<Rightarrow> None
                | Some raw \<Rightarrow> (case ParseTag raw of Inl e \<Rightarrow> Some e | Inr _ \<Rightarrow> None)))"

definition handlePostClientGroups ::
    "goerr option \<Rightarrow> client_group res \<Rightarrow> client_group list \<Rightarrow> unit response \<times> client_group list" where
  "handlePostClientGroups dberr body rows =
     (case body of
        Inl e \<Rightarrow> (jsonError e, rows)
      | Inr g \<Rightarrow>
          (case validateInputClientGroup g of
             Some e \<Rightarrow> (jsonErrorResponseWithError StatusBadRequest ''Invalid client group.'' e, rows)
           | None \<Rightarrow>
               (case Groups_Create dberr g rows of
                  (Some e, rows') \<Rightarrow>
                    (jsonErrorResponseWithError StatusInternalServerError ''Failed to persist a new client group.'' e, rows')
                | (None, rows') \<Rightarrow> (writeJSONResponse StatusCreated (), rows'))))"

definition handlePutClientGroup ::
    "goerr option \<Rightarrow> string \<Rightarrow> client_group res \<Rightarrow> client_group list \<Rightarrow> unit response \<times> client_group list" where
  "handlePutClientGroup dberr gid body rows =
     (if gid = [] then (jsonErrorResponseWithTitle StatusBadRequest ''Missing group_id route param.'', rows)
      else case body of
        Inl e \<Rightarrow> (jsonError e, rows)
      | Inr g \<Rightarrow>
          if gid \<noteq> cgID g
          then (jsonErrorResponseWithTitle StatusBadRequest
                  ''group_id route param does not match group ID from request body.'', rows)
          else case validateInputClientGroup g of
             Some e \<Rightarrow> (jsonErrorResponseWithError StatusBadRequest ''Invalid client group.'' e, rows)
           | None \<Rightarrow>
               (case Groups_Update dberr g rows of
                  (Some e, rows') \<Rightarrow>
                    (jsonErrorResponseWithError StatusInternalServerError ''Failed to persist client group.'' e, rows')
                | (None, rows') \<Rightarrow> (writeJSONResponse StatusNoContent (), rows')))"

definition handleDeleteClientGroup ::
    "goerr option \<Rightarrow> string \<Rightarrow> client_group list \<Rightarrow> unit response \<times> client_group list" where
  "handleDeleteClientGroup dberr gid rows =
     (if gid = [] then (jsonErrorResponseWithTitle StatusBadRequest ''Missing group_id route param.'', rows)
      else case Groups_Delete dberr gid rows of
             (Some e, rows') \<Rightarrow>
               (jsonErrorResponseWithError StatusInternalServerError ''Failed to delete client group.'' e, rows')
           | (None, rows') \<Rightarrow> (writeJSONResponse StatusNoContent (), rows'))"


section \<open>The meaning of a pattern\<close>

text \<open>\<^verbatim>\<open>*\<close> stands for any text, every other character for itself.\<close>

inductive glob :: "string \<Rightarrow> string \<Rightarrow> bool" where
  glob_Nil: "glob [] []"
| glob_star: "glob p t \<Longrightarrow> glob (CHR ''*'' # p) (u @ t)"
| glob_char: "c \<noteq> CHR ''*'' \<Longrightarrow> glob p t \<Longrightarrow> glob (c # p) (c # t)"

inductive_cases glob_NilE [elim!]: "glob [] s"
inductive_cases glob_ConsE: "glob (c # p) s"

lemma glob_Nil_iff [simp]: "glob [] s \<longleftrightarrow> s = []"
  by (auto intro: glob_Nil)

lemma glob_star_iff: "glob (CHR ''*'' # p) s \<longleftrightarrow> (\<exists>u t. s = u @ t \<and> glob p t)"
proof
  assume "glob (CHR ''*'' # p) s"
  then show "\<exists>u t. s = u @ t \<and> glob p t" by (cases rule: glob.cases) auto
qed (auto intro: glob_star)

lemma glob_char_iff: "c \<noteq> CHR ''*'' \<Longrightarrow> glob (c # p) s \<longleftrightarrow> (\<exists>t. s = c # t \<and> glob p t)"
  by (auto intro: glob_char elim: glob_ConsE)

lemma glob_literal: "CHR ''*'' \<notin> set q \<Longrightarrow> glob (q @ p) s \<longleftrightarrow> (\<exists>t. s = q @ t \<and> glob p t)"
  by (induction q arbitrary: s) (auto simp: glob_char_iff)

text \<open>A pattern cut at its stars, matched from the left and ending with the last part.\<close>

lemma glob_join_Cons:
  assumes "CHR ''*'' \<notin> set q"
  shows "glob (join ''*'' (q # r # rs)) s \<longleftrightarrow> (\<exists>u t. s = q @ u @ t \<and> glob (join ''*'' (r # rs)) t)"
  by (auto simp: glob_literal [OF assms] glob_star_iff)

lemma match_parts_room:
  "parts \<noteq> [] \<Longrightarrow> match_parts v parts \<Longrightarrow> length (last parts) \<le> length v"
proof (induction parts arbitrary: v)
  case (Cons q rest)
  from Cons.prems(2) obtain i where i: "index_of v q = Some i" "match_parts (drop (i + length q) v) rest"
    by (auto split: option.splits)
  show ?case
  proof (cases rest)
    case Nil
    with index_of_Some [OF i(1)] show ?thesis by simp
  next
    case (Cons r rs)
    then have "length (last rest) \<le> length (drop (i + length q) v)" using Cons.IH i(2) by blast
    with Cons show ?thesis by simp
  qed
qed simp

lemma has_suffix_drop:
  "has_suffix v p \<Longrightarrow> length p \<le> length (drop n v) \<Longrightarrow> has_suffix (drop n v) p"
  by (cases "n \<le> length v") (auto simp: has_suffix_def)

lemma has_suffix_of_drop: "has_suffix (drop n v) p \<Longrightarrow> has_suffix v p"
  by (metis append_assoc append_take_drop_id has_suffix_iff)

text \<open>
  The greedy search finds the parts whenever they occur in order at all: taking the first occurrence
  leaves the most text for the rest.
\<close>

lemma match_parts_glob:
  assumes "parts \<noteq> []" "\<forall>p \<in> set parts. CHR ''*'' \<notin> set p"
  shows "match_parts v parts \<and> has_suffix v (last parts) \<longleftrightarrow> (\<exists>u t. v = u @ t \<and> glob (join ''*'' parts) t)"
  using assms
proof (induction parts arbitrary: v rule: list_nonempty_induct)
  case (single q)
  then have "glob q t \<longleftrightarrow> t = q" for t using glob_literal [of q "[]" t] by simp
  moreover have found: "index_of (r @ q) q \<noteq> None" for r using index_of_first [of _ r q "[]"] by auto
  ultimately show ?case using found by (auto simp: has_suffix_iff simp del: not_None_eq split: option.splits)
next
  case (cons q rest)
  then obtain r rs where rest: "rest = r # rs" by (cases rest) auto
  have IH: "match_parts v (r # rs) \<and> has_suffix v (last (r # rs)) \<longleftrightarrow> (\<exists>u t. v = u @ t \<and> glob (join ''*'' (r # rs)) t)" for v
    using cons rest by simp
  have q: "CHR ''*'' \<notin> set q" using cons by simp
  show ?case unfolding rest
  proof
    assume L: "match_parts v (q # r # rs) \<and> has_suffix v (last (q # r # rs))"
    then obtain i where i: "index_of v q = Some i" and m: "match_parts (drop (i + length q) v) (r # rs)"
      by (auto split: option.splits)
    have "has_suffix (drop (i + length q) v) (last (r # rs))"
      using has_suffix_drop match_parts_room [OF _ m] L by simp
    with m IH obtain u t where "drop (i + length q) v = u @ t" "glob (join ''*'' (r # rs)) t" by blast
    then show "\<exists>u t. v = u @ t \<and> glob (join ''*'' (q # r # rs)) t"
      using index_of_split [OF i] glob_join_Cons [OF q, of r rs "q @ u @ t"] by metis
  next
    assume "\<exists>u t. v = u @ t \<and> glob (join ''*'' (q # r # rs)) t"
    then obtain u w t where v: "v = u @ q @ w @ t" and g: "glob (join ''*'' (r # rs)) t"
      using glob_join_Cons [OF q] by blast
    from index_of_first [OF v] obtain i where i: "index_of v q = Some i" "i \<le> length u" by blast
    have "drop (i + length q) v = drop (i + length q) (u @ q @ w) @ t"
      unfolding v using i(2) by simp
    with g IH [of "drop (i + length q) v"]
    have "match_parts (drop (i + length q) v) (r # rs)" "has_suffix (drop (i + length q) v) (last (r # rs))"
      by blast+
    moreover from this(2) have "has_suffix v (last (r # rs))" by (rule has_suffix_of_drop)
    ultimately show "match_parts v (q # r # rs) \<and> has_suffix v (last (q # r # rs))"
      using i(1) by simp
  qed
qed

lemma Param_matches_iff_glob: "Param_matches p v \<longleftrightarrow> glob (to_lower p) (to_lower v)"
proof (cases "CHR ''*'' \<in> set (to_lower p)")
  case False
  then have "glob (to_lower p) (to_lower v) \<longleftrightarrow> to_lower v = to_lower p"
    using glob_literal [of "to_lower p" "[]" "to_lower v"] by simp
  with False show ?thesis by (simp add: Param_matches_def Let_def contains_char_iff eq_sym_conv)
next
  case True
  define str where "str = to_lower p"
  define w where "w = to_lower v"
  obtain q rest where parts: "split_on CHR ''*'' str = q # rest" by (cases "split_on CHR ''*'' str") auto
  have join: "join ''*'' (q # rest) = str" using join_split_on [of "CHR ''*''" str] parts by simp
  have no: "\<forall>x \<in> set (q # rest). CHR ''*'' \<notin> set x" using split_on_parts_no_sep parts by metis
  have "rest \<noteq> []"
  proof
    assume "rest = []"
    with join no have "CHR ''*'' \<notin> set str" by simp
    with True show False by (simp add: str_def)
  qed
  then obtain r rs where rest: "rest = r # rs" by (cases rest) auto
  have m: "has_prefix w q \<Longrightarrow> match_parts w (q # rest) = match_parts (drop (length q) w) rest"
    by (simp add: index_of_prefix)
  have "Param_matches p v \<longleftrightarrow> has_prefix w q \<and> has_suffix w (last rest) \<and> match_parts (drop (length q) w) rest"
    using True m \<open>rest \<noteq> []\<close> parts unfolding Param_matches_def Let_def str_def [symmetric] w_def [symmetric]
    by (simp add: contains_char_iff) blast
  also have "\<dots> \<longleftrightarrow> has_prefix w q \<and> match_parts (drop (length q) w) rest
      \<and> has_suffix (drop (length q) w) (last rest)"
    using has_suffix_drop [of w "last rest" "length q"] has_suffix_of_drop [of "length q" w "last rest"]
      match_parts_room [OF \<open>rest \<noteq> []\<close>, of "drop (length q) w"] by argo
  also have "\<dots> \<longleftrightarrow> has_prefix w q \<and> (\<exists>u t. drop (length q) w = u @ t \<and> glob (join ''*'' rest) t)"
    using match_parts_glob [OF \<open>rest \<noteq> []\<close>] no by simp
  also have "\<dots> \<longleftrightarrow> glob str w"
    unfolding join [symmetric] rest glob_join_Cons [OF bspec [OF no list.set_intros(1)]] by (auto simp: has_prefix_iff) blast+
  finally show ?thesis by (simp add: str_def w_def)
qed


section \<open>The meaning of a tag filter\<close>

lemma mark_operands_keys:
  "distinct m \<Longrightarrow> distinct (mark_operands v ops m) \<and>
     set (mark_operands v ops m) = set m \<union> {p \<in> set ops. Param_matches p v}"
  by (induction v ops m rule: mark_operands.induct) auto

lemma mark_values_keys:
  "distinct m \<Longrightarrow> distinct (mark_values vs ops m) \<and>
     set (mark_values vs ops m) = set m \<union> {p \<in> set ops. \<exists>v \<in> set vs. Param_matches p v}"
  by (induction vs ops m rule: mark_values.induct) (auto simp: mark_operands_keys)

lemma ParseTag_operands: "ParseTag raw = Inr (operator, operands) \<Longrightarrow> operands \<noteq> []"
  by (auto simp: ParseTag_def split: option.splits list.splits prod.splits if_splits)

lemma ParseTag_raw: "ParseTag raw = Inr x \<Longrightarrow> raw \<noteq> None"
  by (cases raw) (auto simp: ParseTag_def)

lemma marked_all_iff:
  "length (mark_values vs ops []) = length ops \<longleftrightarrow>
     distinct ops \<and> (\<forall>p \<in> set ops. \<exists>v \<in> set vs. Param_matches p v)"
proof -
  let ?m = "mark_values vs ops []"
  have m: "distinct ?m" "set ?m = {p \<in> set ops. \<exists>v \<in> set vs. Param_matches p v}"
    using mark_values_keys [of "[]" vs ops] by simp_all
  have sub: "card (set ?m) \<le> card (set ops)" by (rule card_mono) (auto simp: m)
  have "length ?m = length ops \<longleftrightarrow> card (set ?m) = length ops" using distinct_card [OF m(1)] by simp
  also have "\<dots> \<longleftrightarrow> card (set ?m) = card (set ops) \<and> card (set ops) = length ops"
    using sub card_length [of ops] by linarith
  also have "\<dots> \<longleftrightarrow> set ?m = set ops \<and> distinct ops"
    using card_subset_eq [of "set ops" "set ?m"] distinct_card card_distinct by (auto simp: m)
  finally show ?thesis by (auto simp: m)
qed

lemma marked_some_iff:
  "mark_values vs ops [] \<noteq> [] \<longleftrightarrow> (\<exists>p \<in> set ops. \<exists>v \<in> set vs. Param_matches p v)"
proof -
  have "set (mark_values vs ops []) = {p \<in> set ops. \<exists>v \<in> set vs. Param_matches p v}"
    using mark_values_keys [of "[]" vs ops] by simp
  then show ?thesis by (auto simp: set_empty [symmetric] simp del: set_empty)
qed

section \<open>Properties\<close>

text \<open>C38: A value matches one of the patterns of a group exactly if the pattern, read without regard to case, describes
  the value: \<^verbatim>\<open>*\<close> stands for any text and every other character for itself. The cut of the pattern into
  parts, the checks of the first and the last part and the greedy search for the parts between them
  decide the same as that reading, so no match is missed and none is made up.\<close>

theorem group_pattern_meaning:
  "MatchesOneOf (Some ps) values \<longleftrightarrow>
     (ps = [] \<and> values = []) \<or> (\<exists>p \<in> set ps. \<exists>v \<in> set values. glob (to_lower p) (to_lower v))"
  by (auto simp: MatchesOneOf_def list_ex_iff Param_matches_iff_glob)

text \<open>A tag filter that passes the validation matches the tags of a client exactly if its operator is spelled
  \<^verbatim>\<open>and\<close>, its operands are distinct and each of them matches a tag, or its operator is spelled \<^verbatim>\<open>or\<close> and one
  of them matches a tag. The validation also accepts other spellings, such as \<^verbatim>\<open>AND\<close>, and repeated operands,
  and such a filter matches no client.\<close>

theorem tag_filter_exact:
  assumes "ParseTag raw = Inr (operator, operands)"
  shows "MatchesRawTags (Some raw) tags \<longleftrightarrow>
     (operator = ''and'' \<and> distinct operands \<and>
        (\<forall>p \<in> set operands. \<exists>t \<in> set tags. glob (to_lower p) (to_lower t))) \<or>
     (operator = ''or'' \<and> (\<exists>p \<in> set operands. \<exists>t \<in> set tags. glob (to_lower p) (to_lower t)))"
  using assms ParseTag_operands [OF assms] ParseTag_raw [OF assms]
  by (simp add: MatchesRawTags_def Let_def marked_all_iff marked_some_iff Param_matches_iff_glob)

definition shouted_filter :: json where
  "shouted_filter = JObj [(''AND'', JArr [JStr ''linux''])]"

theorem tag_filter_exact_witness:
  "ParseTag (Some shouted_filter) = Inr (''AND'', [''linux'']) \<and>
   \<not> MatchesRawTags (Some (Some shouted_filter)) [''linux'']"
proof -
  have p: "ParseTag (Some shouted_filter) = Inr (''AND'', [''linux''])"
    by code_simp
  show ?thesis using p tag_filter_exact [OF p, of "[''linux'']"] by simp
qed

end
