(* ===== verification/Acl.thy ===== *)
theory Acl
  imports Bytes
begin

unbundle bit_operations_syntax

text \<open>
  Access lists of tunnels (\<^verbatim>\<open>server/clients/clienttunnel/tunnel_acl.go\<close>) over the addresses and networks of
  Go's \<^verbatim>\<open>net\<close> package: the text forms of IPv4 and IPv6 addresses, \<^verbatim>\<open>ParseCIDR\<close>, masks, and the test
  whether a network contains an address. An address is the byte list Go has, of length 4 or 16.
\<close>

section \<open>Addresses and networks\<close>

type_synonym ip = "byte list"

text \<open>One decimal field: no sign, no leading zero, at most 255.\<close>

definition parse_octet :: "string \<Rightarrow> byte option" where
  "parse_octet s =
     (if s = [] \<or> \<not> list_all is_digit s \<or> (1 < length s \<and> hd s = CHR ''0'') \<or> 255 < digits_val s
      then None else Some (of_nat (digits_val s)))"

definition parseIPv4 :: "string \<Rightarrow> ip option" where
  "parseIPv4 s =
     (let parts = split_on CHR ''.'' s
      in if length parts = 4 then those (map parse_octet parts) else None)"

definition is_hex :: "char \<Rightarrow> bool" where
  "is_hex c \<longleftrightarrow> is_digit c \<or> (let n = of_char c :: nat in (97 \<le> n \<and> n \<le> 102) \<or> (65 \<le> n \<and> n \<le> 70))"

definition hex_field :: "string \<Rightarrow> nat" where
  "hex_field s = foldl (\<lambda>acc c. 16 * acc + hex_val (lower_char c)) 0 s"

text \<open>
  The loop of \<^verbatim>\<open>netip.parseIPv6\<close>: the remaining text, the bytes so far and the place of the double colon.
  Every round adds two bytes, so it ends after eight.
\<close>

function parseIPv6_loop :: "string \<Rightarrow> byte list \<Rightarrow> nat option \<Rightarrow> (string \<times> byte list \<times> nat option) option" where
  "parseIPv6_loop s b ellipsis =
     (if 16 \<le> length b then Some (s, b, ellipsis)
      else let field = takeWhile is_hex s; rest = dropWhile is_hex s
           in if field = [] \<or> 4 < length field then None
              else if rest \<noteq> [] \<and> hd rest = CHR ''.''
              then if (ellipsis = None \<and> length b \<noteq> 12) \<or> 16 < length b + 4 then None
                   else map_option (\<lambda>v4. ([], b @ v4, ellipsis)) (parseIPv4 s)
              else let b' = b @ [of_nat (hex_field field div 256), of_nat (hex_field field mod 256)]
                   in (case rest of
                         [] \<Rightarrow> Some ([], b', ellipsis)
                       | c # s' \<Rightarrow>
                           if c \<noteq> CHR '':'' then None
                           else (case s' of
                                   [] \<Rightarrow> None
                                 | d # s'' \<Rightarrow>
                                     if d = CHR '':''
                                     then if ellipsis \<noteq> None then None
                                          else if s'' = [] then Some ([], b', Some (length b'))
                                          else parseIPv6_loop s'' b' (Some (length b'))
                                     else parseIPv6_loop s' b' ellipsis)))"
  by pat_completeness auto
termination by (relation "measure (\<lambda>(_, b, _). 16 - length b)") auto

definition expand_ellipsis :: "string \<times> byte list \<times> nat option \<Rightarrow> ip option" where
  "expand_ellipsis r =
     (case r of (s, b, ellipsis) \<Rightarrow>
        if s \<noteq> [] then None
        else if length b < 16
        then map_option (\<lambda>e. take e b @ replicate (16 - length b) 0 @ drop e b) ellipsis
        else if ellipsis \<noteq> None then None else Some b)"

text \<open>\<^verbatim>\<open>netip.ParseAddr\<close> for addresses without a zone; \<^verbatim>\<open>net.ParseIP\<close> and \<^verbatim>\<open>net.ParseCIDR\<close> refuse one with a zone.\<close>

definition parseIPv6 :: "string \<Rightarrow> ip option" where
  "parseIPv6 s =
     (if CHR ''%'' \<in> set s then None
      else if has_prefix s ''::''
      then if length s = 2 then Some (replicate 16 0)
           else Option.bind (parseIPv6_loop (drop 2 s) [] (Some 0)) expand_ellipsis
      else Option.bind (parseIPv6_loop s [] None) expand_ellipsis)"

definition ParseAddr :: "string \<Rightarrow> ip option" where
  "ParseAddr s =
     (case dropWhile (\<lambda>c. c \<notin> {CHR ''.'', CHR '':'', CHR ''%''}) s of
        [] \<Rightarrow> None
      | c # _ \<Rightarrow> if c = CHR ''.'' then parseIPv4 s else if c = CHR '':'' then parseIPv6 s else None)"

definition v4InV6Prefix :: "byte list" where
  "v4InV6Prefix = replicate 10 0 @ [255, 255]"

definition As16 :: "ip \<Rightarrow> ip" where
  "As16 x = (if length x = 4 then v4InV6Prefix @ x else x)"

definition To4 :: "ip \<Rightarrow> ip option" where
  "To4 x = (if length x = 4 then Some x
            else if length x = 16 \<and> take 12 x = v4InV6Prefix then Some (drop 12 x) else None)"

definition ParseIP :: "string \<Rightarrow> ip option" where
  "ParseIP s = map_option As16 (ParseAddr s)"

definition IP_Equal :: "ip \<Rightarrow> ip \<Rightarrow> bool" where
  "IP_Equal x y =
     (if length x = length y then x = y
      else if (length x = 4 \<and> length y = 16) \<or> (length x = 16 \<and> length y = 4) then As16 x = As16 y else False)"

fun mask_bytes :: "nat \<Rightarrow> nat \<Rightarrow> byte list" where
  "mask_bytes 0 n = []"
| "mask_bytes (Suc l) n =
     (if 8 \<le> n then 255 # mask_bytes l (n - 8) else NOT (drop_bit n 255) # mask_bytes l 0)"

definition CIDRMask :: "nat \<Rightarrow> nat \<Rightarrow> byte list" where
  "CIDRMask ones bits = mask_bytes (bits div 8) ones"

record ipnet =
  netIP :: ip
  netMask :: "byte list"

text \<open>\<^verbatim>\<open>IP.Mask\<close>, for the combinations of lengths \<^verbatim>\<open>ParseCIDR\<close> calls it with.\<close>

definition IP_Mask :: "ip \<Rightarrow> byte list \<Rightarrow> ip" where
  "IP_Mask x m =
     (let x = (if length m = 4 \<and> length x = 16 \<and> take 12 x = v4InV6Prefix then drop 12 x else x)
      in map2 (\<lambda>a b. a AND b) x m)"

text \<open>The prefix length: decimal digits only, below the bound \<^verbatim>\<open>big\<close> of the \<^verbatim>\<open>net\<close> package.\<close>

definition ParseCIDR :: "string \<Rightarrow> (ip \<times> ipnet) res" where
  "ParseCIDR s =
     (case split_n2 CHR ''/'' s of
        [adr, msk] \<Rightarrow>
          (case ParseAddr adr of
             None \<Rightarrow> Inl (GoError ''invalid CIDR address: %s'' [AS s])
           | Some x \<Rightarrow>
               if msk = [] \<or> \<not> list_all is_digit msk \<or> 8 * length x < digits_val msk
               then Inl (GoError ''invalid CIDR address: %s'' [AS s])
               else let m = CIDRMask (digits_val msk) (8 * length x)
                    in Inr (As16 x, \<lparr>netIP = IP_Mask (As16 x) m, netMask = m\<rparr>))
      | _ \<Rightarrow> Inl (GoError ''invalid CIDR address: %s'' [AS s]))"

definition networkNumberAndMask :: "ipnet \<Rightarrow> ip \<times> byte list" where
  "networkNumberAndMask n =
     (let x = (case To4 (netIP n) of Some v4 \<Rightarrow> v4 | None \<Rightarrow> netIP n)
      in if length x \<noteq> 4 \<and> length x \<noteq> 16 then ([], [])
         else if length (netMask n) = 4 then (if length x \<noteq> 4 then ([], []) else (x, netMask n))
         else if length (netMask n) = 16 then (x, if length x = 4 then drop 12 (netMask n) else netMask n)
         else ([], []))"

definition Contains :: "ipnet \<Rightarrow> ip \<Rightarrow> bool" where
  "Contains n x =
     (let (nn, m) = networkNumberAndMask n;
          x = (case To4 x of Some v4 \<Rightarrow> v4 | None \<Rightarrow> x)
      in length x = length nn \<and> list_all (\<lambda>i. nn ! i AND m ! i = x ! i AND m ! i) [0..<length x])"

section \<open>Access lists\<close>

record tunnel_acl =
  aclAllowedIPs :: "ipnet list"

definition CheckAccess :: "tunnel_acl \<Rightarrow> ip \<Rightarrow> bool" where
  "CheckAccess a x =
     (if aclAllowedIPs a = [] then True else list_ex (\<lambda>allowed. Contains allowed x) (aclAllowedIPs a))"

definition parseIPNet :: "string \<Rightarrow> ipnet res" where
  "parseIPNet strVal =
     bind_res
       (if CHR ''/'' \<in> set strVal
        then bind_res (ParseCIDR strVal) (\<lambda>(x, n). Inr (x, Some n))
        else case ParseIP strVal of
               None \<Rightarrow> Inl (GoError ''invalid IP addr: %s'' [AS strVal])
             | Some x \<Rightarrow> Inr (x, None))
       (\<lambda>(x, n).
          if IP_Equal x (As16 [0, 0, 0, 0]) \<or> IP_Equal x (replicate 16 0)
          then Inl (GoError ''%s would allow access to everyone. If that is what you want, do not set the ACL'' [])
          else case n of
                 Some n \<Rightarrow> Inr n
               | None \<Rightarrow> Inr \<lparr>netIP = x,
                             netMask = (if To4 x = None then CIDRMask 128 128 else [255, 255, 255, 255])\<rparr>)"

fun parse_entries :: "ipnet list \<Rightarrow> string list \<Rightarrow> tunnel_acl res" where
  "parse_entries acc [] = Inr \<lparr>aclAllowedIPs = acc\<rparr>"
| "parse_entries acc (strVal # values) =
     bind_res (parseIPNet strVal) (\<lambda>n. parse_entries (acc @ [n]) values)"

definition ParseTunnelACL :: "string \<Rightarrow> tunnel_acl option res" where
  "ParseTunnelACL str =
     (if str = [] then Inr None
      else bind_res (parse_entries [] (split_on CHR '','' str)) (\<lambda>acl. Inr (Some acl)))"

text \<open>\<^verbatim>\<open>AddACL\<close> dereferences the network also where the text has none: \<^term>\<open>None\<close> is that panic.\<close>

definition AddACL :: "tunnel_acl \<Rightarrow> string \<Rightarrow> tunnel_acl option" where
  "AddACL a aclStr =
     (case parseIPNet aclStr of Inl _ \<Rightarrow> None | Inr n \<Rightarrow> Some (a\<lparr>aclAllowedIPs := aclAllowedIPs a @ [n]\<rparr>))"


section \<open>Masks and prefixes\<close>

definition byte_bits :: "byte \<Rightarrow> bool list" where
  "byte_bits b = map (\<lambda>i. bit b (7 - i)) [0..<8]"

text \<open>The bits of an address, the most significant first.\<close>

definition ip_bits :: "ip \<Rightarrow> bool list" where
  "ip_bits x = concat (map byte_bits x)"

lemma byte_bits_length [simp]: "length (byte_bits b) = 8"
  by (simp add: byte_bits_def)

lemma byte_bits_inj [simp]: "byte_bits a = byte_bits b \<longleftrightarrow> a = b"
proof
  assume eq: "byte_bits a = byte_bits b"
  have "bit c i = byte_bits c ! (7 - i)" if "i < 8" for c :: byte and i
    using that nth_upt [of 0 "7 - i" 8] by (simp add: byte_bits_def)
  with eq have "bit a i = bit b i" if "i < 8" for i using that by simp
  then show "a = b" by (auto intro: bit_word_eqI)
qed simp

lemma byte_mask_iff:
  fixes a b :: byte
  assumes "n < 8"
  shows "a AND NOT (drop_bit n 255) = b AND NOT (drop_bit n 255) \<longleftrightarrow> take n (byte_bits a) = take n (byte_bits b)"
proof -
  have one: "(255 :: byte) = - 1" by simp
  have "a AND NOT (drop_bit n 255) = b AND NOT (drop_bit n 255) \<longleftrightarrow> (\<forall>i<8. 8 - n \<le> i \<longrightarrow> bit a i = bit b i)"
    unfolding one by (auto simp: bit_eq_iff bit_simps)
  also have "\<dots> \<longleftrightarrow> (\<forall>j<n. bit a (7 - j) = bit b (7 - j))"
  proof (safe)
    fix j assume A: "\<forall>i<8. 8 - n \<le> i \<longrightarrow> bit a i = bit b i" and "j < n"
    then have "7 - j < 8" "8 - n \<le> 7 - j" using assms by auto
    with A show "bit a (7 - j) \<Longrightarrow> bit b (7 - j)" "bit b (7 - j) \<Longrightarrow> bit a (7 - j)" by blast+
  next
    fix i :: nat assume A: "\<forall>j<n. bit a (7 - j) = bit b (7 - j)" and "i < 8" "8 - n \<le> i"
    then have "7 - i < n" "7 - (7 - i) = i" by auto
    with A show "bit a i \<Longrightarrow> bit b i" "bit b i \<Longrightarrow> bit a i" by metis+
  qed
  also have "\<dots> \<longleftrightarrow> take n (byte_bits a) = take n (byte_bits b)"
    using assms by (auto simp: byte_bits_def list_eq_iff_nth_eq)
  finally show ?thesis .
qed

lemma mask_bytes_length [simp]: "length (mask_bytes l n) = l"
  by (induction l n rule: mask_bytes.induct) auto

lemma ip_bits_length: "length (ip_bits x) = 8 * length x"
  by (induction x) (auto simp: ip_bits_def)

text \<open>Two addresses agree under a mask of \<open>n\<close> ones exactly if their first \<open>n\<close> bits do.\<close>

lemma byte_and_ones [simp]: "(x :: byte) AND 255 = x"
proof -
  have "(255 :: byte) = - 1" by simp
  then show ?thesis by (simp only: and.right_neutral)
qed

lemma byte_and_zeros [simp]: "(x :: byte) AND - 256 = 0"
proof -
  have "(- 256 :: byte) = 0" by simp
  then show ?thesis by (simp only: and_zero_eq)
qed

lemma mask_zero_bytes: "length x = l \<Longrightarrow> map2 (\<lambda>a b. a AND b) x (mask_bytes l 0) = replicate l 0"
  by (induction l arbitrary: x) (auto simp: length_Suc_conv)

lemma masked_eq_iff:
  assumes "length x = l" "length y = l"
  shows "map2 (\<lambda>a b. a AND b) x (mask_bytes l n) = map2 (\<lambda>a b. a AND b) y (mask_bytes l n)
           \<longleftrightarrow> take n (ip_bits x) = take n (ip_bits y)"
  using assms
proof (induction l n arbitrary: x y rule: mask_bytes.induct)
  case (2 l n)
  then obtain a xs b ys where xy: "x = a # xs" "y = b # ys" "length xs = l" "length ys = l"
    by (auto simp: length_Suc_conv)
  show ?case
  proof (cases "8 \<le> n")
    case True
    then have "take n (ip_bits (c # cs)) = byte_bits c @ take (n - 8) (ip_bits cs)" for c cs
      by (simp add: ip_bits_def)
    then show ?thesis using True 2(1) [OF True xy(3,4)] by (auto simp: xy(1,2))
  next
    case False
    then have "take n (ip_bits (c # cs)) = take n (byte_bits c)" for c cs by (simp add: ip_bits_def)
    moreover have "map2 (\<lambda>a b. a AND b) xs (mask_bytes l 0) = map2 (\<lambda>a b. a AND b) ys (mask_bytes l 0)"
      by (simp add: mask_zero_bytes xy(3,4))
    ultimately show ?thesis using False byte_mask_iff [of n a b] by (simp add: xy(1,2))
  qed
qed (simp add: ip_bits_def)

lemma masked_idem:
  fixes x m :: "byte list"
  shows "length x = length m \<Longrightarrow> map2 (\<lambda>a b. a AND b) (map2 (\<lambda>a b. a AND b) x m) m = map2 (\<lambda>a b. a AND b) x m"
  by (induction x m rule: list_induct2) (auto simp: and.assoc)

lemma Contains_v4:
  assumes "length x = 4" "n \<le> 32"
  shows "Contains \<lparr>netIP = IP_Mask (As16 x) (CIDRMask n 32), netMask = CIDRMask n 32\<rparr> y
           \<longleftrightarrow> (\<exists>z. To4 y = Some z \<and> take n (ip_bits z) = take n (ip_bits x))"
proof -
  let ?m = "mask_bytes 4 n"
  let ?nn = "map2 (\<lambda>a b. a AND b) x ?m"
  have cm: "CIDRMask n 32 = ?m" by (simp add: CIDRMask_def)
  have ipm: "IP_Mask (As16 x) ?m = ?nn"
    using assms by (simp add: IP_Mask_def As16_def v4InV6Prefix_def)
  have nnm: "networkNumberAndMask \<lparr>netIP = ?nn, netMask = ?m\<rparr> = (?nn, ?m)"
    using assms by (simp add: networkNumberAndMask_def To4_def)
  have not4: "To4 y = None \<Longrightarrow> length y \<noteq> 4" by (auto simp: To4_def)
  have len: "To4 y = Some z \<Longrightarrow> length z = 4" for z by (auto simp: To4_def split: if_splits)
  have eq: "list_all (\<lambda>i. ?nn ! i AND ?m ! i = z ! i AND ?m ! i) [0..<length z]
      \<longleftrightarrow> take n (ip_bits z) = take n (ip_bits x)" if "length z = 4" for z
  proof -
    have "list_all (\<lambda>i. ?nn ! i AND ?m ! i = z ! i AND ?m ! i) [0..<length z]
        \<longleftrightarrow> map2 (\<lambda>a b. a AND b) ?nn ?m = map2 (\<lambda>a b. a AND b) z ?m"
      using assms that by (simp add: list_all_iff list_eq_iff_nth_eq Ball_def)
    also have "\<dots> \<longleftrightarrow> take n (ip_bits x) = take n (ip_bits z)"
      using masked_idem [of x ?m] masked_eq_iff [of x 4 z n] assms that by simp
    finally show ?thesis by auto
  qed
  show ?thesis
    unfolding cm ipm Contains_def nnm Let_def
    using assms eq len not4 by (auto split: option.splits)
qed


section \<open>Printed entries\<close>

text \<open>An entry \<^verbatim>\<open>a.b.c.d/n\<close> as an operator writes it.\<close>

definition print_cidr :: "ip \<times> nat \<Rightarrow> string" where
  "print_cidr e = join ''.'' (map (\<lambda>b. nat_to_string (unat b)) (fst e)) @ CHR ''/'' # nat_to_string (snd e)"

definition v4_entry :: "ip \<times> nat \<Rightarrow> bool" where
  "v4_entry e \<longleftrightarrow> length (fst e) = 4 \<and> fst e \<noteq> [0, 0, 0, 0] \<and> snd e \<le> 32"

lemma nat_to_string_hd_zero: "hd (nat_to_string n) = CHR ''0'' \<Longrightarrow> n = 0"
proof (induction n rule: nat_to_string.induct)
  case (1 n)
  show ?case
  proof (cases "n < 10")
    case True
    then have "nat_to_string n = [digit_char n]" by (subst nat_to_string.simps) simp
    with 1(2) have "digit_char n = CHR ''0''" by simp
    then have "digit_val (digit_char n) = digit_val CHR ''0''" by simp
    with True show ?thesis by (simp add: digit_char_props) (simp add: digit_val_def)
  next
    case False
    then have "nat_to_string n = nat_to_string (n div 10) @ [digit_char (n mod 10)]"
      by (subst nat_to_string.simps) simp
    with 1(2) have "hd (nat_to_string (n div 10)) = CHR ''0''" by simp
    with 1(1) False have "n div 10 = 0" by blast
    with False show ?thesis by simp
  qed
qed

lemma parse_octet_print [simp]: "parse_octet (nat_to_string (unat b)) = Some b"
proof -
  have "length (nat_to_string (unat b)) = 1" if "hd (nat_to_string (unat b)) = CHR ''0''"
    using nat_to_string_hd_zero [OF that] by (simp add: nat_to_string.simps)
  then show ?thesis
    using unat_byte [of b] nat_to_string_digits [of "unat b"] by (auto simp: parse_octet_def)
qed

lemma digits_avoid: "\<not> is_digit c \<Longrightarrow> c \<notin> set (nat_to_string n)"
  using nat_to_string_digits [of n] by (auto simp: list_all_iff)

lemma parseIPv4_print:
  assumes "length x = 4"
  shows "parseIPv4 (join ''.'' (map (\<lambda>b. nat_to_string (unat b)) x)) = Some x"
proof -
  have "x \<noteq> []" using assms by auto
  have "\<forall>s \<in> set (map (\<lambda>b. nat_to_string (unat b)) x). CHR ''.'' \<notin> set s"
    by (auto simp: digits_avoid is_digit_def)
  then have s: "split_on CHR ''.'' (join ''.'' (map (\<lambda>b. nat_to_string (unat b)) x)) = map (\<lambda>b. nat_to_string (unat b)) x"
    using split_on_join [of "map (\<lambda>b. nat_to_string (unat b)) x" "CHR ''.''"] \<open>x \<noteq> []\<close> by simp
  have "those (map (\<lambda>b. Some b) x) = Some x" by (induction x) auto
  then show ?thesis using assms by (simp add: parseIPv4_def Let_def s comp_def)
qed

lemma set_join: "set (join sep xs) \<subseteq> set sep \<union> (\<Union>x \<in> set xs. set x)"
  by (induction sep xs rule: join.induct) auto

lemma print_chars:
  "set (join ''.'' (map (\<lambda>b. nat_to_string (unat b)) x)) \<subseteq> insert CHR ''.'' {c. is_digit c}"
proof -
  have "set (nat_to_string n) \<subseteq> {c. is_digit c}" for n using digits_avoid by blast
  then show ?thesis using set_join [of "''.''" "map (\<lambda>b. nat_to_string (unat b)) x"] by fastforce
qed

lemma ParseAddr_print:
  assumes "length x = 4"
  shows "ParseAddr (join ''.'' (map (\<lambda>b. nat_to_string (unat b)) x)) = Some x"
proof -
  obtain a b xs where x: "x = a # b # xs" using assms by (auto simp: numeral_eq_Suc length_Suc_conv)
  let ?P = "\<lambda>c. c \<notin> {CHR ''.'', CHR '':'', CHR ''%''}"
  let ?s = "join ''.'' (map (\<lambda>b. nat_to_string (unat b)) (b # xs))"
  have d: "?P c" if "is_digit c" for c using that by (auto simp: is_digit_def)
  have "dropWhile ?P (nat_to_string (unat a) @ CHR ''.'' # ?s) = CHR ''.'' # ?s"
    using d nat_to_string_digits [of "unat a"] by (subst dropWhile_append2) (auto simp: list_all_iff)
  then show ?thesis
    using parseIPv4_print [OF assms] by (simp add: ParseAddr_def x)
qed

lemma split_n2_append: "c \<notin> set s \<Longrightarrow> split_n2 c (s @ c # t) = [s, t]"
  by (induction s) auto

lemma parseIPNet_print:
  assumes "v4_entry e"
  shows "parseIPNet (print_cidr e) =
    Inr \<lparr>netIP = IP_Mask (As16 (fst e)) (CIDRMask (snd e) 32), netMask = CIDRMask (snd e) 32\<rparr>"
proof -
  obtain x n where e: "e = (x, n)" by (cases e)
  have x: "length x = 4" "x \<noteq> [0, 0, 0, 0]" "n \<le> 32" using assms by (auto simp: v4_entry_def e)
  let ?a = "join ''.'' (map (\<lambda>b. nat_to_string (unat b)) x)"
  have "CHR ''/'' \<notin> set ?a" using print_chars [of x] by (auto simp: is_digit_def)
  then have sp: "split_n2 CHR ''/'' (print_cidr e) = [?a, nat_to_string n]" "CHR ''/'' \<in> set (print_cidr e)"
    by (simp_all add: print_cidr_def e split_n2_append)
  have "ParseCIDR (print_cidr e) = Inr (As16 x, \<lparr>netIP = IP_Mask (As16 x) (CIDRMask n 32), netMask = CIDRMask n 32\<rparr>)"
    using x nat_to_string_digits [of n] by (simp add: ParseCIDR_def sp ParseAddr_print Let_def)
  moreover have "\<not> IP_Equal (As16 x) (As16 [0, 0, 0, 0])" "\<not> IP_Equal (As16 x) (replicate 16 0)"
    using x by (auto simp: IP_Equal_def As16_def v4InV6Prefix_def numeral_eq_Suc)
  ultimately show ?thesis using sp(2) by (simp add: parseIPNet_def e)
qed

lemma parse_entries_print:
  "list_all v4_entry es \<Longrightarrow> parse_entries acc (map print_cidr es) =
     Inr \<lparr>aclAllowedIPs = acc @ map (\<lambda>e. \<lparr>netIP = IP_Mask (As16 (fst e)) (CIDRMask (snd e) 32), netMask = CIDRMask (snd e) 32\<rparr>) es\<rparr>"
  by (induction es arbitrary: acc) (auto simp: parseIPNet_print)

lemma print_cidr_nonempty [simp]: "print_cidr e \<noteq> []"
  by (simp add: print_cidr_def)

lemma split_printed:
  assumes "es \<noteq> []"
  shows "split_on CHR '','' (join '','' (map print_cidr es)) = map print_cidr es" "join '','' (map print_cidr es) \<noteq> []"
proof -
  have "CHR '','' \<notin> set (print_cidr e)" for e
    using print_chars [of "fst e"] digits_avoid [of "CHR '',''" "snd e"] by (auto simp: print_cidr_def is_digit_def)
  then show "split_on CHR '','' (join '','' (map print_cidr es)) = map print_cidr es"
    using split_on_join [of "map print_cidr es" "CHR '',''"] assms by auto
  then show "join '','' (map print_cidr es) \<noteq> []"
    using assms split_on.simps(1) [of "CHR '',''"] by (metis list.map_disc_iff list.set_intros(1) list.set_map image_iff print_cidr_nonempty)
qed

section \<open>Properties\<close>



end
