(* ===== verification/Ports.thy ===== *)
theory Ports
  imports Prelude
begin

text \<open>
  The distribution of local ports to tunnels: \<^verbatim>\<open>server/ports/port_range.go\<close> (parsing the configured
  \<^verbatim>\<open>used_ports\<close> and \<^verbatim>\<open>excluded_ports\<close>), \<^verbatim>\<open>server/ports/port_distributor.go\<close> (the pools, the reservations
  and their refresh) and \<^verbatim>\<open>share/models/protocol.go\<close>.

  The sets of \<^verbatim>\<open>github.com/deckarep/golang-set\<close> are HOL sets. Its \<^verbatim>\<open>Pop\<close>, which removes an arbitrary
  element, is the parameter \<open>pop\<close> with the hypothesis \<open>pop_spec\<close>; gopsutil's \<^verbatim>\<open>net.Connections\<close> is the
  parameter \<open>conns\<close>. The mutex of the distributor makes three sections atomic: choosing and removing
  a port, reserving one, and replacing a pool from an earlier reading of the busy ports.
\<close>

section \<open>Protocols\<close>

definition ProtocolTCP :: string where "ProtocolTCP = ''tcp''"
definition ProtocolUDP :: string where "ProtocolUDP = ''udp''"
definition ProtocolTCPUDP :: string where "ProtocolTCPUDP = ''tcp+udp''"

lemma protocols_distinct [simp]:
  "ProtocolTCP \<noteq> ProtocolUDP" "ProtocolTCP \<noteq> ProtocolTCPUDP" "ProtocolUDP \<noteq> ProtocolTCPUDP"
  "ProtocolUDP \<noteq> ProtocolTCP" "ProtocolTCPUDP \<noteq> ProtocolTCP" "ProtocolTCPUDP \<noteq> ProtocolUDP"
  by (simp_all add: ProtocolTCP_def ProtocolUDP_def ProtocolTCPUDP_def)

definition IsValidProtocol :: "string \<Rightarrow> bool" where
  "IsValidProtocol p \<longleftrightarrow> p = ProtocolTCP \<or> p = ProtocolUDP \<or> p = ProtocolTCPUDP"

section \<open>Port ranges\<close>

definition MaxUint16 :: int where "MaxUint16 = 65535"

definition tryParsePortNumber :: "string \<Rightarrow> int res" where
  "tryParsePortNumber portNumberStr =
     (let num = atoi portNumberStr in
      if atoi_failed num then Inl (GoError ''can't parse port number %s: %s'' [AS portNumberStr])
      else if atoi_value num < 0 \<or> MaxUint16 < atoi_value num
        then Inl (GoError ''invalid port number: %d'' [AI (atoi_value num)])
      else Inr (atoi_value num))"

definition setFromRange :: "int \<Rightarrow> int \<Rightarrow> int set" where
  "setFromRange start end = foldl (\<lambda>s i. insert (start + i) s) {} [0..end - start]"

definition tryParsePortNumberRange :: "string \<Rightarrow> string \<Rightarrow> int set res" where
  "tryParsePortNumberRange rangeStart rangeEnd =
     bind_res (tryParsePortNumber rangeStart) (\<lambda>start.
     bind_res (tryParsePortNumber rangeEnd) (\<lambda>end.
       if start > end then Inl (GoError ''invalid port range %s-%s'' [AS rangeStart, AS rangeEnd])
       else Inr (setFromRange start end)))"

fun TryParsePortRanges_loop :: "int set \<Rightarrow> string list \<Rightarrow> int set res" where
  "TryParsePortRanges_loop result [] = Inr result"
| "TryParsePortRanges_loop result (rangeStr # rest) =
     (case split_on (CHR ''-'') rangeStr of
        [a] \<Rightarrow> bind_res (tryParsePortNumber a) (\<lambda>p. TryParsePortRanges_loop (insert p result) rest)
      | [a, b] \<Rightarrow> bind_res (tryParsePortNumberRange a b)
                   (\<lambda>portRange. TryParsePortRanges_loop (result \<union> portRange) rest)
      | _ \<Rightarrow> Inl (GoError ''can't parse port range: incorrect range %s'' [AS rangeStr]))"

definition TryParsePortRanges :: "string list \<Rightarrow> int set res" where
  "TryParsePortRanges portRanges = TryParsePortRanges_loop {} portRanges"

section \<open>The port distributor\<close>

record port_distributor =
  allowedPorts :: "int set"
  portsPools :: "string \<rightharpoonup> int set"
  reserved :: "int set"

record connection =
  conn_status :: string
  laddr_port :: int

definition NewPortDistributor :: "int set \<Rightarrow> port_distributor" where
  "NewPortDistributor allowed = \<lparr>allowedPorts = allowed, portsPools = Map.empty, reserved = {}\<rparr>"

definition subProtocols :: "string \<Rightarrow> string list" where
  "subProtocols protocol =
     (if protocol = ProtocolTCPUDP then [ProtocolTCP, ProtocolUDP] else [protocol])"

definition active_port :: "connection \<Rightarrow> bool" where
  "active_port c \<longleftrightarrow>
     (conn_status c = ''LISTEN'' \<or> conn_status c = ''NONE'' \<or> conn_status c = '''') \<and> laddr_port c \<noteq> 0"

definition ListBusyPorts_single ::
  "(string \<Rightarrow> connection list res) \<Rightarrow> string \<Rightarrow> int set res" where
  "ListBusyPorts_single conns protocol =
     bind_res (conns protocol) (\<lambda>connections. Inr (set (map laddr_port (filter active_port connections))))"

definition ListBusyPorts :: "(string \<Rightarrow> connection list res) \<Rightarrow> string \<Rightarrow> int set res" where
  "ListBusyPorts conns protocol =
     (if \<not> IsValidProtocol protocol then Inl (GoError ''unsupported protocol %q'' [AS protocol])
      else if protocol = ProtocolTCPUDP then
        bind_res (ListBusyPorts_single conns ProtocolTCP) (\<lambda>tcpPorts.
        bind_res (ListBusyPorts_single conns ProtocolUDP) (\<lambda>udpPorts. Inr (tcpPorts \<union> udpPorts)))
      else ListBusyPorts_single conns protocol)"

text \<open>The locked section of \<^verbatim>\<open>refresh\<close>, on a reading \<open>busyPorts\<close> taken before the lock.\<close>

definition refresh_locked :: "string \<Rightarrow> int set \<Rightarrow> port_distributor \<Rightarrow> port_distributor" where
  "refresh_locked protocol busyPorts d =
     (let res = reserved d - busyPorts in
      d\<lparr>reserved := res,
        portsPools := (portsPools d)(protocol \<mapsto> allowedPorts d - busyPorts - res)\<rparr>)"

definition refresh ::
  "(string \<Rightarrow> connection list res) \<Rightarrow> string \<Rightarrow> port_distributor \<Rightarrow> port_distributor res" where
  "refresh conns protocol d =
     bind_res (ListBusyPorts conns protocol) (\<lambda>busyPorts. Inr (refresh_locked protocol busyPorts d))"

text \<open>A failure of the second half of \<^verbatim>\<open>Refresh\<close> keeps what the first half has done.\<close>

definition Refresh ::
  "(string \<Rightarrow> connection list res) \<Rightarrow> port_distributor \<Rightarrow> goerr option \<times> port_distributor" where
  "Refresh conns d =
     (case refresh conns ProtocolTCP d of
        Inl e \<Rightarrow> (Some e, d)
      | Inr d1 \<Rightarrow> (case refresh conns ProtocolUDP d1 of
                    Inl e \<Rightarrow> (Some e, d1)
                  | Inr d2 \<Rightarrow> (None, d2)))"

text \<open>The first loop of \<^verbatim>\<open>GetRandomPort\<close>: missing pools are made before the lock is taken.\<close>

fun init_pools ::
  "(string \<Rightarrow> connection list res) \<Rightarrow> string list \<Rightarrow> port_distributor
    \<Rightarrow> goerr option \<times> port_distributor" where
  "init_pools conns [] d = (None, d)"
| "init_pools conns (p # ps) d =
     (if portsPools d p = None then
        (case refresh conns p d of
           Inl e \<Rightarrow> (Some e, d)
         | Inr d' \<Rightarrow> init_pools conns ps d')
      else init_pools conns ps d)"

text \<open>The ports in every pool of the list; None when one of the pools is missing.\<close>

fun candidates :: "port_distributor \<Rightarrow> string list \<Rightarrow> int set option" where
  "candidates d [] = None"
| "candidates d [p] = portsPools d p"
| "candidates d (p # ps) =
     (case portsPools d p of None \<Rightarrow> None
      | Some pool \<Rightarrow> map_option (\<lambda>c. pool \<inter> c) (candidates d ps))"

definition remove_from_pools :: "string list \<Rightarrow> int \<Rightarrow> port_distributor \<Rightarrow> port_distributor" where
  "remove_from_pools ps port d =
     d\<lparr>portsPools := (\<lambda>p. if p \<in> set ps then map_option (\<lambda>pool. pool - {port}) (portsPools d p)
                         else portsPools d p),
       reserved := insert port (reserved d)\<rparr>"

text \<open>The locked section of \<^verbatim>\<open>GetRandomPort\<close>.\<close>

definition pick_port ::
  "(int set \<Rightarrow> int option) \<Rightarrow> string \<Rightarrow> port_distributor \<Rightarrow> int res \<times> port_distributor" where
  "pick_port pop protocol d =
     (case candidates d (subProtocols protocol) of
        None \<Rightarrow> (Inl (GoError ''no ports available'' []), d)
      | Some c \<Rightarrow> (case pop c of
           None \<Rightarrow> (Inl (GoError ''no ports available'' []), d)
         | Some port \<Rightarrow> (Inr port, remove_from_pools (subProtocols protocol) port d)))"

definition GetRandomPort ::
  "(string \<Rightarrow> connection list res) \<Rightarrow> (int set \<Rightarrow> int option) \<Rightarrow> string \<Rightarrow> port_distributor
    \<Rightarrow> int res \<times> port_distributor" where
  "GetRandomPort conns pop protocol d =
     (case init_pools conns (subProtocols protocol) d of
        (Some e, d1) \<Rightarrow> (Inl e, d1)
      | (None, d1) \<Rightarrow> pick_port pop protocol d1)"

definition Reserve :: "string \<Rightarrow> int \<Rightarrow> port_distributor \<Rightarrow> port_distributor" where
  "Reserve protocol port d = remove_from_pools (subProtocols protocol) port d"

definition IsPortAllowed :: "port_distributor \<Rightarrow> int \<Rightarrow> bool" where
  "IsPortAllowed d port \<longleftrightarrow> port \<in> allowedPorts d"

definition getPool :: "port_distributor \<Rightarrow> string \<Rightarrow> int set res" where
  "getPool d protocol =
     (if \<not> IsValidProtocol protocol then Inl (GoError ''unsupported protocol %q'' [AS protocol])
      else if protocol = ProtocolTCPUDP then
        (case (portsPools d ProtocolTCP, portsPools d ProtocolUDP) of
           (Some tcpPool, Some udpPool) \<Rightarrow> Inr (tcpPool \<inter> udpPool)
         | _ \<Rightarrow> Inl (GoError ''port pools for %q have not been refreshed yet'' [AS protocol]))
      else (case portsPools d protocol of
              Some pool \<Rightarrow> Inr pool
            | None \<Rightarrow> Inl (GoError ''port pool for %q has not been refreshed yet'' [AS protocol])))"

definition IsPortBusy :: "port_distributor \<Rightarrow> string \<Rightarrow> int \<Rightarrow> bool res" where
  "IsPortBusy d protocol port = bind_res (getPool d protocol) (\<lambda>pool. Inr (port \<notin> pool))"

section \<open>Port ranges are parsed to exactly the ports they denote\<close>

lemma setFromRange_eq: "setFromRange start end = {start..end}"
proof -
  have *: "foldl (\<lambda>s i. insert (start + i) s) S xs = S \<union> (\<lambda>i. start + i) ` set xs" for S and xs :: "int list"
    by (induction xs arbitrary: S) auto
  have "(\<lambda>i. start + i) ` {0..end - start} = {start..end}"
    by (simp add: image_add_atLeastAtMost)
  then show ?thesis by (simp add: setFromRange_def *)
qed

lemma tryParsePortNumber_itoa:
  assumes "0 \<le> n" "n \<le> MaxUint16"
  shows "tryParsePortNumber (itoa n) = Inr n"
proof -
  have "int64_range n"
    using assms by (simp add: int64_range_def MaxUint16_def MinInt64_def MaxInt64_def)
  then show ?thesis
    using assms by (simp add: tryParsePortNumber_def atoi_itoa)
qed

lemma tryParsePortNumber_Inr:
  "tryParsePortNumber s = Inr n \<Longrightarrow> 0 \<le> n \<and> n \<le> MaxUint16 \<and> atoi s = AtoiOk n"
  by (cases "atoi s") (auto simp: tryParsePortNumber_def Let_def split: if_splits)

lemma tryParsePortNumberRange_Inr:
  "tryParsePortNumberRange a b = Inr ps \<Longrightarrow>
    \<exists>x y. ps = {x..y} \<and> 0 \<le> x \<and> x \<le> y \<and> y \<le> MaxUint16"
  by (auto simp: tryParsePortNumberRange_def bind_res_eq_Inr setFromRange_eq
      dest!: tryParsePortNumber_Inr split: if_splits)

lemma TryParsePortRanges_loop_bounds:
  "TryParsePortRanges_loop acc rs = Inr ps \<Longrightarrow> acc \<subseteq> {0..MaxUint16} \<Longrightarrow>
     acc \<subseteq> ps \<and> ps \<subseteq> {0..MaxUint16}"
proof (induction rs arbitrary: acc)
  case (Cons r rs)
  show ?case
  proof (cases "split_on (CHR ''-'') r")
    case (Cons a as)
    note sp = this
    show ?thesis
    proof (cases as)
      case Nil
      with sp Cons.prems obtain p where p: "tryParsePortNumber a = Inr p"
        and rest: "TryParsePortRanges_loop (insert p acc) rs = Inr ps"
        by (auto simp: bind_res_eq_Inr)
      from Cons.IH [OF rest] tryParsePortNumber_Inr [OF p] Cons.prems(2) show ?thesis by auto
    next
      case (Cons b bs)
      with sp Cons.prems obtain q where bs: "bs = []" and q: "tryParsePortNumberRange a b = Inr q"
        and rest: "TryParsePortRanges_loop (acc \<union> q) rs = Inr ps"
        by (cases bs) (auto simp: bind_res_eq_Inr)
      from tryParsePortNumberRange_Inr [OF q] have "q \<subseteq> {0..MaxUint16}" by auto
      with Cons.IH [OF rest] \<open>acc \<subseteq> {0..MaxUint16}\<close> show ?thesis by auto
    qed
  qed simp
qed simp

text \<open>The entries an operator writes, and the ports they mean.\<close>

datatype port_entry = PortSingle int | PortRange int int

fun print_entry :: "port_entry \<Rightarrow> string" where
  "print_entry (PortSingle n) = itoa n"
| "print_entry (PortRange a b) = itoa a @ CHR ''-'' # itoa b"

fun entry_ports :: "port_entry \<Rightarrow> int set" where
  "entry_ports (PortSingle n) = {n}"
| "entry_ports (PortRange a b) = {a..b}"

fun valid_entry :: "port_entry \<Rightarrow> bool" where
  "valid_entry (PortSingle n) \<longleftrightarrow> 0 \<le> n \<and> n \<le> MaxUint16"
| "valid_entry (PortRange a b) \<longleftrightarrow> 0 \<le> a \<and> a \<le> b \<and> b \<le> MaxUint16"

lemma itoa_no_dash: "0 \<le> n \<Longrightarrow> CHR ''-'' \<notin> set (itoa n)"
  using nat_to_string_digits [of "nat n"] is_digit_not_sign
  by (fastforce simp: itoa_def list_all_iff)

lemma TryParsePortRanges_loop_print:
  "list_all valid_entry es \<Longrightarrow>
     TryParsePortRanges_loop acc (map print_entry es) = Inr (acc \<union> \<Union> (entry_ports ` set es))"
proof (induction es arbitrary: acc)
  case (Cons e es)
  then have IH: "\<And>acc. TryParsePortRanges_loop acc (map print_entry es)
      = Inr (acc \<union> \<Union> (entry_ports ` set es))" by simp
  show ?case
  proof (cases e)
    case (PortSingle n)
    with Cons.prems show ?thesis
      by (simp add: split_on_no_sep itoa_no_dash tryParsePortNumber_itoa IH Un_assoc)
  next
    case (PortRange a b)
    with Cons.prems have "split_on (CHR ''-'') (print_entry e) = [itoa a, itoa b]"
      by (simp add: split_on_append_sep split_on_no_sep itoa_no_dash)
    with PortRange Cons.prems show ?thesis
      by (simp add: tryParsePortNumberRange_def tryParsePortNumber_itoa setFromRange_eq IH Un_assoc)
  qed
qed simp

section \<open>The atomic steps of the distributor\<close>

text \<open>
  \<open>PortTaken\<close> and \<open>PortReserved\<close> are the locked sections of \<^verbatim>\<open>GetRandomPort\<close> and \<^verbatim>\<open>Reserve\<close>;
  \<open>PoolRefreshed p busy\<close> is the locked section of \<^verbatim>\<open>refresh\<close> with any earlier reading \<open>busy\<close>.
\<close>

datatype pd_event = PortTaken string int | PortReserved string int | PoolRefreshed string "int set"

inductive pd_step ::
  "(int set \<Rightarrow> int option) \<Rightarrow> port_distributor \<Rightarrow> pd_event \<Rightarrow> port_distributor \<Rightarrow> bool"
  for pop where
  taken: "pick_port pop protocol d = (Inr port, d') \<Longrightarrow> pd_step pop d (PortTaken protocol port) d'"
| reserved_now: "pd_step pop d (PortReserved protocol port) (Reserve protocol port d)"
| refreshed: "pd_step pop d (PoolRefreshed protocol busy) (refresh_locked protocol busy d)"

inductive_cases pd_stepE: "pd_step pop d e d'"

inductive_simps pd_step_taken: "pd_step pop d (PortTaken protocol port) d'"
inductive_simps pd_step_other:
  "pd_step pop d (PortReserved protocol port) d'"
  "pd_step pop d (PoolRefreshed protocol busy) d'"

text \<open>What golang-set documents of \<^verbatim>\<open>Pop\<close>: nothing exactly for the empty set, else a member.\<close>

definition pop_spec :: "(int set \<Rightarrow> int option) \<Rightarrow> bool" where
  "pop_spec pop \<longleftrightarrow> (\<forall>S. finite S \<longrightarrow> (case pop S of None \<Rightarrow> S = {} | Some x \<Rightarrow> x \<in> S))"

lemma pop_spec_None: "pop_spec pop \<Longrightarrow> finite S \<Longrightarrow> pop S = None \<Longrightarrow> S = {}"
  unfolding pop_spec_def by (drule spec [of _ S]) simp

lemma pop_spec_Some: "pop_spec pop \<Longrightarrow> finite S \<Longrightarrow> pop S = Some x \<Longrightarrow> x \<in> S"
  unfolding pop_spec_def by (drule spec [of _ S]) simp

definition pop_least :: "int set \<Rightarrow> int option" where
  "pop_least S = (if S = {} then None else Some (Min S))"

lemma pop_least_spec: "pop_spec pop_least"
  by (auto simp: pop_spec_def pop_least_def)

definition pd_inv :: "port_distributor \<Rightarrow> bool" where
  "pd_inv d \<longleftrightarrow> finite (allowedPorts d) \<and>
     (\<forall>p pool. portsPools d p = Some pool \<longrightarrow> pool \<subseteq> allowedPorts d)"

lemma pd_inv_new: "finite A \<Longrightarrow> pd_inv (NewPortDistributor A)"
  by (simp add: pd_inv_def NewPortDistributor_def)

lemma pd_inv_remove [inv_intros]: "pd_inv d \<Longrightarrow> pd_inv (remove_from_pools ps port d)"
  by (fastforce simp: pd_inv_def remove_from_pools_def split: if_splits)

lemma pd_inv_refresh_locked [inv_intros]: "pd_inv d \<Longrightarrow> pd_inv (refresh_locked p busy d)"
  by (auto simp: pd_inv_def refresh_locked_def Let_def split: if_splits)

lemma pick_port_Inr:
  "pick_port pop protocol d = (Inr port, d') \<longleftrightarrow>
    (\<exists>c. candidates d (subProtocols protocol) = Some c \<and> pop c = Some port \<and>
         d' = remove_from_pools (subProtocols protocol) port d)"
  by (auto simp: pick_port_def split: option.splits)

lemma candidates_subset:
  "candidates d ps = Some c \<Longrightarrow> p \<in> set ps \<Longrightarrow> \<exists>pool. portsPools d p = Some pool \<and> c \<subseteq> pool"
proof (induction d ps arbitrary: c rule: candidates.induct)
  case (3 d p q qs)
  from 3(2) obtain pool c' where "portsPools d p = Some pool" "candidates d (q # qs) = Some c'"
    "c = pool \<inter> c'" by (auto split: option.splits)
  with 3(1) [of pool c'] 3(3) show ?case by fastforce
qed auto

lemma candidates_finite:
  assumes "pd_inv d" "candidates d ps = Some c"
  shows "finite c \<and> c \<subseteq> allowedPorts d"
proof -
  from assms(2) obtain p where "p \<in> set ps" by (cases ps) auto
  with candidates_subset [OF assms(2)] obtain pool where "portsPools d p = Some pool" "c \<subseteq> pool"
    by blast
  with assms(1) show ?thesis
    unfolding pd_inv_def by (meson finite_subset order_trans)
qed

lemma subProtocols_nonempty [simp]: "subProtocols protocol \<noteq> []"
  by (simp add: subProtocols_def)

lemma pick_port_sound:
  assumes "pop_spec pop" "pd_inv d" "pick_port pop protocol d = (Inr port, d')"
  shows "port \<in> allowedPorts d"
    and "\<And>p. p \<in> set (subProtocols protocol) \<Longrightarrow> \<exists>pool. portsPools d p = Some pool \<and> port \<in> pool"
proof -
  from assms(3) obtain c where c: "candidates d (subProtocols protocol) = Some c" "pop c = Some port"
    by (auto simp: pick_port_Inr)
  have "port \<in> c" "c \<subseteq> allowedPorts d"
    using candidates_finite [OF assms(2) c(1)] pop_spec_Some [OF assms(1) _ c(2)] by simp_all
  then show "port \<in> allowedPorts d" by blast
  show "\<exists>pool. portsPools d p = Some pool \<and> port \<in> pool" if "p \<in> set (subProtocols protocol)" for p
    using candidates_subset [OF c(1) that] \<open>port \<in> c\<close> by blast
qed

lemma pd_step_inv [inv_intros]: "pd_inv d \<Longrightarrow> pd_step pop d e d' \<Longrightarrow> pd_inv d'"
  by (auto elim!: pd_stepE simp: pick_port_Inr Reserve_def intro: inv_intros)

interpretation pd: step_invariant "pd_step pop" pd_inv for pop
  by unfold_locales (rule pd_step_inv)

lemma pd_step_allowed: "pd_step pop d e d' \<Longrightarrow> allowedPorts d' = allowedPorts d"
  by (auto elim!: pd_stepE simp: pick_port_Inr Reserve_def remove_from_pools_def refresh_locked_def Let_def)

lemma pd_run_allowed: "run (pd_step pop) d es d' \<Longrightarrow> allowedPorts d' = allowedPorts d"
  by (induction rule: run.induct) (auto simp: pd_step_allowed)

section \<open>A port handed out is not handed out again\<close>

text \<open>\<open>withheld d ps port\<close>: the port is reserved and in none of the pools of \<open>ps\<close>.\<close>

definition withheld :: "port_distributor \<Rightarrow> string set \<Rightarrow> int \<Rightarrow> bool" where
  "withheld d ps port \<longleftrightarrow> port \<in> reserved d \<and>
     (\<forall>p \<in> ps. \<forall>pool. portsPools d p = Some pool \<longrightarrow> port \<notin> pool)"

fun sees_busy :: "int \<Rightarrow> pd_event \<Rightarrow> bool" where
  "sees_busy port (PoolRefreshed p busy) \<longleftrightarrow> port \<in> busy"
| "sees_busy port _ \<longleftrightarrow> False"

lemma withheld_after_remove: "withheld (remove_from_pools ps port d) (set ps) port"
  by (auto simp: withheld_def remove_from_pools_def)

lemma withheld_step:
  assumes "withheld d ps port" "pd_step pop d e d'" "\<not> sees_busy port e"
  shows "withheld d' ps port"
  using assms(2,1,3)
  by (cases rule: pd_step.cases)
    (auto simp: withheld_def pick_port_Inr Reserve_def remove_from_pools_def refresh_locked_def Let_def
      split: if_splits)

lemma withheld_run:
  "run (pd_step pop) d es d' \<Longrightarrow> withheld d ps port \<Longrightarrow> \<forall>e \<in> set es. \<not> sees_busy port e
    \<Longrightarrow> withheld d' ps port"
  by (induction rule: run.induct) (auto dest: withheld_step)

lemma withheld_not_taken:
  assumes "pop_spec pop" "pd_inv d" "withheld d ps port" "pd_step pop d (PortTaken q port) d'"
  shows "ps \<inter> set (subProtocols q) = {}"
proof -
  have "pick_port pop q d = (Inr port, d')" using assms(4) by (simp add: pd_step_taken)
  note pools = pick_port_sound(2) [OF assms(1,2) this]
  show ?thesis
  proof (rule ccontr)
    assume "ps \<inter> set (subProtocols q) \<noteq> {}"
    then obtain p where "p \<in> ps" "p \<in> set (subProtocols q)" by blast
    with pools assms(3) show False by (auto simp: withheld_def)
  qed
qed

lemma pd_run_withheld:
  assumes "pop_spec pop" "pd_inv d"
    and "run (pd_step pop) d (PortTaken p port # es @ [PortTaken q port]) d'"
    and "\<forall>e \<in> set es. \<not> sees_busy port e"
  shows "set (subProtocols p) \<inter> set (subProtocols q) = {}"
proof -
  from assms(3) obtain d1 d2 where s1: "pd_step pop d (PortTaken p port) d1"
    and es: "run (pd_step pop) d1 es d2" and s2: "pd_step pop d2 (PortTaken q port) d'"
    by (auto simp: run_Cons_iff run_append_iff)
  have "withheld d1 (set (subProtocols p)) port"
    using s1 by (auto simp: pd_step_taken pick_port_Inr withheld_after_remove)
  then have "withheld d2 (set (subProtocols p)) port"
    using withheld_run [OF es] assms(4) by blast
  moreover have "pd_inv d2"
    using pd_step_inv [OF assms(2) s1] pd.run_keeps [OF es] by blast
  ultimately show ?thesis
    using withheld_not_taken [OF assms(1)] s2 by blast
qed

section \<open>The whole operations are runs of the atomic steps\<close>

lemma init_pools_run:
  "init_pools conns ps d = (r, d') \<Longrightarrow>
    \<exists>es. run (pd_step pop) d es d' \<and> (\<forall>e \<in> set es. \<exists>p busy. e = PoolRefreshed p busy)"
proof (induction conns ps d arbitrary: d' rule: init_pools.induct)
  case (1 conns d)
  then show ?case by (auto intro: exI [of _ "[]"])
next
  case (2 conns p ps d)
  show ?case
  proof (cases "portsPools d p")
    case (Some pool)
    with 2 show ?thesis by simp
  next
    case None
    show ?thesis
    proof (cases "refresh conns p d")
      case (Inl e)
      with None 2(3) show ?thesis by (auto intro: exI [of _ "[]"])
    next
      case (Inr d1)
      with None 2(3) have "init_pools conns ps d1 = (r, d')" by simp
      from 2(1) [OF None Inr this] obtain es where es: "run (pd_step pop) d1 es d'"
        "\<forall>e \<in> set es. \<exists>p busy. e = PoolRefreshed p busy" by blast
      from Inr obtain busy where "d1 = refresh_locked p busy d"
        by (auto simp: refresh_def bind_res_eq_Inr)
      then have "pd_step pop d (PoolRefreshed p busy) d1" by (auto intro: pd_step.refreshed)
      with es show ?thesis by (auto intro!: exI [of _ "PoolRefreshed p busy # es"] run_Cons)
    qed
  qed
qed

lemma GetRandomPort_run:
  assumes "GetRandomPort conns pop protocol d = (Inr port, d')"
  shows "\<exists>es. run (pd_step pop) d (es @ [PortTaken protocol port]) d' \<and>
              (\<forall>e \<in> set es. \<exists>p busy. e = PoolRefreshed p busy)"
proof -
  from assms obtain d1 where i: "init_pools conns (subProtocols protocol) d = (None, d1)"
    and p: "pick_port pop protocol d1 = (Inr port, d')"
    by (auto simp: GetRandomPort_def split: prod.splits option.splits)
  from init_pools_run [OF i] obtain es where "run (pd_step pop) d es d1"
    "\<forall>e \<in> set es. \<exists>p busy. e = PoolRefreshed p busy" by blast
  with p show ?thesis
    by (auto intro!: exI [of _ es] simp: run_append_iff run_Cons_iff pd_step_taken)
qed

lemma getPool_candidates:
  "getPool d protocol = Inr pool \<longleftrightarrow>
    IsValidProtocol protocol \<and> candidates d (subProtocols protocol) = Some pool"
proof (cases "protocol = ProtocolTCPUDP")
  case True
  then show ?thesis
    by (auto simp: getPool_def subProtocols_def IsValidProtocol_def split: option.splits)
next
  case False
  then show ?thesis
    by (simp add: getPool_def subProtocols_def split: option.splits)
qed

lemma candidates_removed:
  "candidates d ps = Some c \<Longrightarrow> set ps \<subseteq> qs \<Longrightarrow>
    candidates (d\<lparr>portsPools := (\<lambda>p. if p \<in> qs then map_option (\<lambda>pool. pool - {port}) (portsPools d p)
                                   else portsPools d p), reserved := R\<rparr>) ps = Some (c - {port})"
proof (induction d ps arbitrary: c rule: candidates.induct)
  case (3 d p q rs)
  from 3(2) obtain pool c' where "portsPools d p = Some pool" "candidates d (q # rs) = Some c'"
    "c = pool \<inter> c'" by (auto split: option.splits)
  with 3(1) [of pool c'] 3(3) show ?case by auto
qed auto

lemma init_pools_present: "\<forall>p \<in> set ps. portsPools d p \<noteq> None \<Longrightarrow> init_pools conns ps d = (None, d)"
  by (induction ps) auto

section \<open>Properties\<close>



text \<open>With its pools in place \<^verbatim>\<open>GetRandomPort\<close> fails only when no port is free for the protocol (for
  \<^verbatim>\<open>tcp+udp\<close>: free on both transports), and then changes nothing; otherwise it returns a free port,
  whose pools lose exactly that port, and which is busy for every later check.
\<close>

theorem GetRandomPort_correct:
  assumes "pop_spec pop" "pd_inv d" "getPool d protocol = Inr pool"
  shows "(pool = {} \<and> GetRandomPort conns pop protocol d = (Inl (GoError ''no ports available'' []), d)) \<or>
    (\<exists>port \<in> pool. GetRandomPort conns pop protocol d = (Inr port, Reserve protocol port d) \<and>
        getPool (Reserve protocol port d) protocol = Inr (pool - {port}) \<and>
        IsPortBusy (Reserve protocol port d) protocol port = Inr True)"
proof -
  have c: "candidates d (subProtocols protocol) = Some pool" and valid: "IsValidProtocol protocol"
    using assms(3) by (simp_all add: getPool_candidates)
  have i: "init_pools conns (subProtocols protocol) d = (None, d)"
    using candidates_subset [OF c] by (intro init_pools_present) auto
  have fin: "finite pool" using candidates_finite [OF assms(2) c] by simp
  show ?thesis
  proof (cases "pop pool")
    case None
    then have "pool = {}" by (rule pop_spec_None [OF assms(1) fin])
    with None c i show ?thesis by (simp add: GetRandomPort_def pick_port_def)
  next
    case (Some port)
    then have "port \<in> pool" by (rule pop_spec_Some [OF assms(1) fin])
    moreover have "GetRandomPort conns pop protocol d = (Inr port, Reserve protocol port d)"
      using Some c i by (simp add: GetRandomPort_def pick_port_def Reserve_def)
    moreover have "getPool (Reserve protocol port d) protocol = Inr (pool - {port})"
      using candidates_removed [OF c subset_refl] valid
      by (simp add: getPool_candidates Reserve_def remove_from_pools_def)
    ultimately show ?thesis by (auto simp: IsPortBusy_def)
  qed
qed

definition example_pools :: port_distributor where
  "example_pools = \<lparr>allowedPorts = {1, 2, 3},
     portsPools = [ProtocolTCP \<mapsto> {1, 2}, ProtocolUDP \<mapsto> {2, 3}], reserved = {}\<rparr>"

theorem GetRandomPort_correct_witness:
  "\<exists>port \<in> {2 :: int}. GetRandomPort (\<lambda>_. Inr []) pop_least ProtocolTCPUDP example_pools
     = (Inr port, Reserve ProtocolTCPUDP port example_pools)"
proof -
  have "pd_inv example_pools" by (auto simp: pd_inv_def example_pools_def split: if_splits)
  moreover have "getPool example_pools ProtocolTCPUDP = Inr {2}"
    by (auto simp: getPool_def IsValidProtocol_def example_pools_def)
  ultimately show ?thesis
    using GetRandomPort_correct [OF pop_least_spec, of example_pools ProtocolTCPUDP "{2}" "\<lambda>_. Inr []"]
    by auto
qed

text \<open>Parsing the printed form of any list of valid port entries gives exactly the union of the ports
  they denote.
\<close>

theorem port_ranges_roundtrip:
  "list_all valid_entry es \<Longrightarrow>
    TryParsePortRanges (map print_entry es) = Inr (\<Union> (entry_ports ` set es))"
  by (simp add: TryParsePortRanges_def TryParsePortRanges_loop_print)

theorem port_ranges_roundtrip_witness:
  "TryParsePortRanges (map print_entry [PortRange 20000 20002, PortSingle 80]) = Inr {80, 20000, 20001, 20002}"
proof -
  have "list_all valid_entry [PortRange 20000 20002, PortSingle 80]" by (simp add: MaxUint16_def)
  from port_ranges_roundtrip [OF this] show ?thesis by (auto simp: atLeastAtMost_iff)
qed

text \<open>Every set of ports that parses holds port numbers between 0 and 65535 only, and is finite.
\<close>

theorem port_ranges_bounds:
  assumes "TryParsePortRanges rs = Inr ps"
  shows "finite ps \<and> ps \<subseteq> {0..MaxUint16}"
proof -
  have "ps \<subseteq> {0..MaxUint16}"
    using TryParsePortRanges_loop_bounds [of "{}" rs ps] assms by (simp add: TryParsePortRanges_def)
  then show ?thesis by (auto intro: finite_subset)
qed

theorem port_ranges_bounds_witness:
  "finite {80 :: int} \<and> {80 :: int} \<subseteq> {0..MaxUint16}"
  by (rule port_ranges_bounds [of "[''80'']"])
    (simp add: TryParsePortRanges_def tryParsePortNumber_def atoi_def is_digit_def digits_val_def
      digit_val_def MaxInt64_def MinInt64_def MaxUint16_def)

text \<open>The reservation of a handed-out port is not kept per protocol: when a port that \<^verbatim>\<open>GetRandomPort\<close>
  has just handed out for UDP is in use on TCP, the next \<^verbatim>\<open>Refresh\<close> drops the reservation while it
  refreshes the TCP pool and returns the port to the UDP pool, although nothing is bound to it on UDP.
\<close>

theorem udp_reservation_dropped_by_tcp_listener:
  assumes "GetRandomPort conns pop ProtocolUDP d = (Inr port, d1)"
    and "ListBusyPorts conns ProtocolTCP = Inr busyTCP" "ListBusyPorts conns ProtocolUDP = Inr busyUDP"
    and "port \<in> busyTCP" "port \<notin> busyUDP" "port \<in> allowedPorts d1"
  shows "port \<in> reserved d1 \<and>
    (\<exists>d2 pool. Refresh conns d1 = (None, d2) \<and> portsPools d2 ProtocolUDP = Some pool \<and> port \<in> pool)"
proof
  show "port \<in> reserved d1"
    using assms(1)
    by (auto simp: GetRandomPort_def pick_port_Inr remove_from_pools_def split: prod.splits option.splits)
  show "\<exists>d2 pool. Refresh conns d1 = (None, d2) \<and> portsPools d2 ProtocolUDP = Some pool \<and> port \<in> pool"
    using assms(2-6) by (simp add: Refresh_def refresh_def refresh_locked_def Let_def)
qed

definition tcp_listener_5000 :: "string \<Rightarrow> connection list res" where
  "tcp_listener_5000 p =
     Inr (if p = ProtocolTCP then [\<lparr>conn_status = ''LISTEN'', laddr_port = 5000\<rparr>] else [])"

theorem udp_reservation_dropped_by_tcp_listener_witness:
  "\<exists>d1 d2 pool. GetRandomPort tcp_listener_5000 pop_least ProtocolUDP (NewPortDistributor {5000}) = (Inr 5000, d1) \<and>
     5000 \<in> reserved d1 \<and> Refresh tcp_listener_5000 d1 = (None, d2) \<and>
     portsPools d2 ProtocolUDP = Some pool \<and> 5000 \<in> pool"
proof -
  note ev = tcp_listener_5000_def active_port_def ListBusyPorts_def ListBusyPorts_single_def
    IsValidProtocol_def
  have "\<exists>d1. GetRandomPort tcp_listener_5000 pop_least ProtocolUDP (NewPortDistributor {5000}) = (Inr 5000, d1)
      \<and> allowedPorts d1 = {5000}"
    by (simp add: GetRandomPort_def subProtocols_def NewPortDistributor_def refresh_def
        refresh_locked_def pick_port_def pop_least_def remove_from_pools_def ev)
  then obtain d1 where d1: "GetRandomPort tcp_listener_5000 pop_least ProtocolUDP (NewPortDistributor {5000}) = (Inr 5000, d1)"
    "allowedPorts d1 = {5000}" by blast
  have "ListBusyPorts tcp_listener_5000 ProtocolTCP = Inr {5000}" "ListBusyPorts tcp_listener_5000 ProtocolUDP = Inr {}"
    by (auto simp: ev)
  from udp_reservation_dropped_by_tcp_listener [OF d1(1) this] d1 show ?thesis by auto
qed

end
