(* ===== verification/Tunnels.thy ===== *)
theory Tunnels
  imports Acl Ports
begin

text \<open>
  Tunnels: the description of a tunnel (\<^verbatim>\<open>share/models/remote.go\<close>), the table of the peers of a UDP tunnel
  (\<^verbatim>\<open>tunnel_udp_peers.go\<close>), the handlers of TCP, UDP and combined tunnels (\<^verbatim>\<open>tunnel_tcp.go\<close>,
  \<^verbatim>\<open>tunnel_udp.go\<close>, \<^verbatim>\<open>tunnel.go\<close>) and the proxy in front of a tunnel (\<^verbatim>\<open>tunnel_internal_proxy.go\<close>), all of
  \<^verbatim>\<open>server/clients/clienttunnel\<close>.

  What the operating system and the agent answer is an argument: \<open>neListen\<close> is the failure of binding a
  local address, if any, \<open>neOpenChannel\<close> that of opening a channel to the agent. The goroutines of a
  handler are the steps it takes on a connection or a datagram. A panic of the Go code is \<^term>\<open>None\<close>.
\<close>

section \<open>Remotes\<close>

definition ZeroHost :: string where "ZeroHost = ''0.0.0.0''"
definition LocalHost :: string where "LocalHost = ''127.0.0.1''"

record remote =
  rName :: string
  rProtocol :: string
  rLocalHost :: string
  rLocalPort :: string
  rLocalPortRandom :: bool
  rOwner :: string
  rRemoteHost :: string
  rRemotePort :: string
  rScheme :: "string option"
  rACL :: "string option"
  rIdleTimeoutMinutes :: int
  rAutoClose :: duration
  rHTTPProxy :: bool
  rHostHeader :: string
  rAuthUser :: string
  rAuthPassword :: string
  rSkipTLSVerify :: bool
  rTunnelURL :: string

definition empty_remote :: remote where
  "empty_remote = \<lparr>rName = [], rProtocol = [], rLocalHost = [], rLocalPort = [], rLocalPortRandom = False, rOwner = [],
     rRemoteHost = [], rRemotePort = [], rScheme = None, rACL = None, rIdleTimeoutMinutes = 0, rAutoClose = 0,
     rHTTPProxy = False, rHostHeader = [], rAuthUser = [], rAuthPassword = [], rSkipTLSVerify = False, rTunnelURL = []\<rparr>"

text \<open>\<^verbatim>\<open>net.JoinHostPort\<close>.\<close>

definition JoinHostPort :: "string \<Rightarrow> string \<Rightarrow> string" where
  "JoinHostPort host port =
     (if CHR '':'' \<in> set host then ''['' @ host @ '']:'' @ port else host @ '':'' @ port)"

definition Remote_Remote :: "remote \<Rightarrow> string" where
  "Remote_Remote r = JoinHostPort (rRemoteHost r) (rRemotePort r)"

definition Remote_Local :: "remote \<Rightarrow> string" where
  "Remote_Local r = JoinHostPort (rLocalHost r) (rLocalPort r)"

definition Remote_String :: "remote \<Rightarrow> string" where
  "Remote_String r =
     rLocalHost r @ '':'' @ rLocalPort r @ '':'' @ Remote_Remote r
     @ (if rProtocol r \<noteq> ProtocolTCP then ''/'' @ rProtocol r else [])
     @ (case rACL r of None \<Rightarrow> [] | Some a \<Rightarrow> ''(acl:'' @ a @ '')'')"

definition Remote_Equals :: "remote \<Rightarrow> remote \<Rightarrow> bool" where
  "Remote_Equals r other \<longleftrightarrow> Remote_String r = Remote_String other"

definition IsProtocol :: "remote \<Rightarrow> string \<Rightarrow> bool" where
  "IsProtocol r other =
     (if rProtocol r = other then True
      else if rProtocol r = ProtocolTCPUDP \<and> (other = ProtocolTCP \<or> other = ProtocolUDP) then True
      else if other = ProtocolTCPUDP \<and> (rProtocol r = ProtocolTCP \<or> rProtocol r = ProtocolUDP) then True
      else False)"

definition EqualACL :: "remote \<Rightarrow> string option \<Rightarrow> bool" where
  "EqualACL r acl =
     (case (rACL r, acl) of (Some a, Some b) \<Rightarrow> a = b | (None, None) \<Rightarrow> True | _ \<Rightarrow> False)"

definition IsLocalSpecified :: "remote \<Rightarrow> bool" where
  "IsLocalSpecified r \<longleftrightarrow> rLocalHost r \<noteq> [] \<and> rLocalPort r \<noteq> []"

definition NewDownstreamProxyURL :: "string \<Rightarrow> string \<Rightarrow> string \<Rightarrow> string" where
  "NewDownstreamProxyURL subdomain basedomain port =
     (if port = [] then ''https://'' @ subdomain @ ''.'' @ basedomain
      else ''https://'' @ subdomain @ ''.'' @ basedomain @ '':'' @ port)"

definition HasSubdomainTunnel :: "remote \<Rightarrow> bool" where
  "HasSubdomainTunnel r \<longleftrightarrow> rTunnelURL r \<noteq> []"

text \<open>\<open>url_host\<close> is the host name \<^verbatim>\<open>url.Parse\<close> finds in a URL, or its error.\<close>

definition GetTunnelDomains :: "(string \<Rightarrow> string res) \<Rightarrow> remote \<Rightarrow> (string \<times> string) res" where
  "GetTunnelDomains url_host r =
     bind_res (url_host (rTunnelURL r)) (\<lambda>h.
       let parts = split_on CHR ''.'' h in Inr (hd parts, join ''.'' (tl parts)))"

definition isPort :: "string \<Rightarrow> bool" where
  "isPort s \<longleftrightarrow> s \<noteq> [] \<and> list_all is_digit s"

text \<open>
  The expression \<^verbatim>\<open>(.*)\/(tcp|udp|tcp\+udp)$\<close>: the text before the protocol, from the last line break on
  since a dot does not match one, and the protocol.
\<close>

definition after_last_newline :: "string \<Rightarrow> string" where
  "after_last_newline s = rev (takeWhile (\<lambda>c. c \<noteq> char_of (10 :: nat)) (rev s))"

definition protocolRe :: "string \<Rightarrow> (string \<times> string) option" where
  "protocolRe s =
     map_option (\<lambda>p. (after_last_newline (take (length s - length p - 1) s), p))
       (find (\<lambda>p. has_suffix s (CHR ''/'' # p)) [ProtocolTCP, ProtocolUDP, ProtocolTCPUDP])"

fun NewRemote_loop :: "(string \<Rightarrow> bool) \<Rightarrow> string list \<Rightarrow> remote \<Rightarrow> remote res" where
  "NewRemote_loop isHost [] r = Inr r"
| "NewRemote_loop isHost (p # ps) r =
     (if isPort p
      then NewRemote_loop isHost ps (if rRemotePort r = [] then r\<lparr>rRemotePort := p\<rparr> else r\<lparr>rLocalPort := p\<rparr>)
      else if rRemotePort r = [] \<and> rLocalPort r = [] then Inl (GoError ''Missing ports'' [])
      else if \<not> isHost p then Inl (GoError ''Invalid host'' [])
      else NewRemote_loop isHost ps (if rRemoteHost r = [] then r\<lparr>rRemoteHost := p\<rparr> else r\<lparr>rLocalHost := p\<rparr>))"

text \<open>\<open>isHost\<close> says whether \<^verbatim>\<open>url.Parse\<close> accepts the text.\<close>

definition NewRemote :: "(string \<Rightarrow> bool) \<Rightarrow> string \<Rightarrow> remote res" where
  "NewRemote isHost s =
     (let (s, protocol) = (case protocolRe s of Some m \<Rightarrow> m | None \<Rightarrow> (s, ProtocolTCP));
          parts = split_on CHR '':'' s
      in if 5 \<le> length parts then Inl (GoError ''Invalid remote'' [])
         else bind_res (NewRemote_loop isHost (rev parts) (empty_remote\<lparr>rProtocol := protocol\<rparr>)) (\<lambda>r.
                let r = (if rLocalHost r = [] \<and> rLocalPort r \<noteq> [] then r\<lparr>rLocalHost := ZeroHost\<rparr> else r)
                in Inr (if rRemoteHost r = [] then r\<lparr>rRemoteHost := LocalHost\<rparr> else r)))"

section \<open>The peers of a UDP tunnel\<close>

definition udpPeerTTL :: duration where "udpPeerTTL = 2 * Minute"
definition maxTrackedUDPPeers :: nat where "maxTrackedUDPPeers = 4096"

record udp_addr =
  uaIP :: ip
  uaPort :: int
  uaZone :: string

text \<open>
  The key of an address: its bytes with a mapped IPv4 address in the short form, its zone, which only an
  IPv6 address keeps, and its port. Go renders the three into a text; the empty text is \<^term>\<open>None\<close>.
\<close>

type_synonym peer_key = "ip \<times> string \<times> int"

definition udpPeerKey :: "udp_addr option \<Rightarrow> peer_key option" where
  "udpPeerKey addr =
     (case addr of
        None \<Rightarrow> None
      | Some a \<Rightarrow>
          if uaPort a < 0 \<or> 65535 < uaPort a then None
          else if length (uaIP a) \<noteq> 4 \<and> length (uaIP a) \<noteq> 16 then None
          else let x = (case To4 (uaIP a) of Some v4 \<Rightarrow> v4 | None \<Rightarrow> uaIP a)
               in Some (x, if length x = 4 then [] else uaZone a, uaPort a))"

type_synonym peer_table = "(peer_key \<times> time) list"

definition newUDPPeerTable :: peer_table where "newUDPPeerTable = []"

text \<open>The loop over the map that finds the entry used least recently.\<close>

fun oldest_entry :: "(peer_key \<times> time) option \<Rightarrow> peer_table \<Rightarrow> (peer_key \<times> time) option" where
  "oldest_entry oldest [] = oldest"
| "oldest_entry oldest ((k, t) # seen) =
     (case oldest of
        None \<Rightarrow> oldest_entry (Some (k, t)) seen
      | Some (k', t') \<Rightarrow> oldest_entry (if t < t' then Some (k, t) else oldest) seen)"

definition evictLocked :: "time \<Rightarrow> peer_table \<Rightarrow> peer_table" where
  "evictLocked now seen =
     (let seen = filter (\<lambda>(k, t). \<not> now - t > udpPeerTTL) seen
      in if length seen < maxTrackedUDPPeers then seen
         else case oldest_entry None seen of None \<Rightarrow> seen | Some (k, _) \<Rightarrow> AList.delete k seen)"

definition remember :: "time \<Rightarrow> udp_addr option \<Rightarrow> peer_table \<Rightarrow> peer_table" where
  "remember now addr seen =
     (case udpPeerKey addr of
        None \<Rightarrow> seen
      | Some key \<Rightarrow>
          let seen = (if map_of seen key = None \<and> maxTrackedUDPPeers \<le> length seen then evictLocked now seen else seen)
          in AList.update key now seen)"

definition known :: "time \<Rightarrow> udp_addr option \<Rightarrow> peer_table \<Rightarrow> bool \<times> peer_table" where
  "known now addr seen =
     (case udpPeerKey addr of
        None \<Rightarrow> (False, seen)
      | Some key \<Rightarrow>
          (case map_of seen key of
             None \<Rightarrow> (False, seen)
           | Some t \<Rightarrow> if now - t > udpPeerTTL then (False, AList.delete key seen) else (True, seen)))"

section \<open>Handlers\<close>

record net_env =
  neListen :: "string \<Rightarrow> string \<Rightarrow> goerr option"
  neOpenChannel :: "string \<Rightarrow> goerr option"

record tunnel_tcp =
  ttRemote :: remote
  ttACL :: "tunnel_acl option"
  ttRunning :: bool
  ttConnCount :: int
  ttLastConnClose :: time

datatype udp_status = UdpNew | UdpRunning | UdpStopped

record tunnel_udp =
  tuRemote :: remote
  tuACL :: "tunnel_acl option"
  tuStatus :: udp_status
  tuPeers :: peer_table
  tuLastActive :: time

definition newTunnelTCP :: "remote \<Rightarrow> tunnel_acl option \<Rightarrow> tunnel_tcp" where
  "newTunnelTCP r acl = \<lparr>ttRemote = r, ttACL = acl, ttRunning = False, ttConnCount = 0, ttLastConnClose = 0\<rparr>"

definition newTunnelUDP :: "time \<Rightarrow> remote \<Rightarrow> tunnel_acl option \<Rightarrow> tunnel_udp" where
  "newTunnelUDP now r acl =
     \<lparr>tuRemote = r, tuACL = acl, tuStatus = UdpNew, tuPeers = newUDPPeerTable, tuLastActive = now\<rparr>"

definition admits :: "tunnel_acl option \<Rightarrow> ip \<Rightarrow> bool" where
  "admits acl x = (case acl of None \<Rightarrow> True | Some a \<Rightarrow> CheckAccess a x)"

text \<open>
  One turn of the accept loop of a TCP tunnel: a connection from an admitted address is counted and
  opens a channel to the agent. The result says whether it was passed on. A connection that ends is
  counted down; the time is stored in whole seconds.
\<close>


definition tcp_conn_closed :: "time \<Rightarrow> tunnel_tcp \<Rightarrow> tunnel_tcp" where
  "tcp_conn_closed now t =
     t\<lparr>ttConnCount := ttConnCount t - 1, ttLastConnClose := now div Second * Second\<rparr>"

definition tcp_accept :: "net_env \<Rightarrow> time \<Rightarrow> ip \<Rightarrow> tunnel_tcp \<Rightarrow> bool \<times> tunnel_tcp" where
  "tcp_accept ne now x t =
     (if \<not> ttRunning t \<or> \<not> admits (ttACL t) x then (False, t)
      else let t = t\<lparr>ttConnCount := ttConnCount t + 1\<rparr>
           in if neOpenChannel ne (Remote_Remote (ttRemote t)) \<noteq> None then (False, tcp_conn_closed now t)
              else (True, t))"

text \<open>One turn of the loops of a UDP tunnel; the result is the datagram passed on, if it is.\<close>

definition udp_inbound :: "time \<Rightarrow> udp_addr \<Rightarrow> tunnel_udp \<Rightarrow> bool \<times> tunnel_udp" where
  "udp_inbound now source t =
     (let t = t\<lparr>tuLastActive := now\<rparr>
      in if \<not> admits (tuACL t) (uaIP source) then (False, t)
         else (True, t\<lparr>tuPeers := remember now (Some source) (tuPeers t)\<rparr>))"

definition udp_outbound :: "time \<Rightarrow> udp_addr \<Rightarrow> tunnel_udp \<Rightarrow> bool \<times> tunnel_udp" where
  "udp_outbound now dest t =
     (case known now (Some dest) (tuPeers t) of
        (False, peers) \<Rightarrow> (False, t\<lparr>tuPeers := peers\<rparr>)
      | (True, peers) \<Rightarrow>
          let t = t\<lparr>tuPeers := peers\<rparr>
          in if \<not> admits (tuACL t) (uaIP dest) then (False, t)
             else (True, t\<lparr>tuLastActive := now\<rparr>))"

datatype handler = HTcp (the_tcp: tunnel_tcp) | HUdp (the_udp: tunnel_udp)

fun handler_running :: "handler \<Rightarrow> bool" where
  "handler_running (HTcp t) = ttRunning t"
| "handler_running (HUdp u) = (tuStatus u = UdpRunning)"

definition tunnelTCP_Start :: "net_env \<Rightarrow> tunnel_tcp \<Rightarrow> goerr option \<times> tunnel_tcp" where
  "tunnelTCP_Start ne t =
     (case neListen ne ProtocolTCP (Remote_Local (ttRemote t)) of
        Some e \<Rightarrow> (Some e, t)
      | None \<Rightarrow> (None, t\<lparr>ttRunning := True\<rparr>))"

definition tunnelUDP_Start :: "net_env \<Rightarrow> tunnel_udp \<Rightarrow> goerr option \<times> tunnel_udp" where
  "tunnelUDP_Start ne u =
     (case neOpenChannel ne (Remote_Remote (tuRemote u) @ ''/udp'') of
        Some e \<Rightarrow> (Some e, u)
      | None \<Rightarrow>
          (case neListen ne ProtocolUDP (Remote_Local (tuRemote u)) of
             Some e \<Rightarrow> (Some e, u)
           | None \<Rightarrow> (None, u\<lparr>tuStatus := UdpRunning\<rparr>)))"

fun handler_Start :: "net_env \<Rightarrow> handler \<Rightarrow> goerr option \<times> handler" where
  "handler_Start ne (HTcp t) = (case tunnelTCP_Start ne t of (e, t') \<Rightarrow> (e, HTcp t'))"
| "handler_Start ne (HUdp u) = (case tunnelUDP_Start ne u of (e, u') \<Rightarrow> (e, HUdp u'))"

definition tunnelTCP_CanTerminate :: "bool \<Rightarrow> tunnel_tcp \<Rightarrow> goerr option" where
  "tunnelTCP_CanTerminate force t =
     (if \<not> force \<and> 0 < ttConnCount t
      then Some (GoError ''tunnel has %d active connection(s)'' [AI (ttConnCount t)]) else None)"

fun handler_CanTerminate :: "bool \<Rightarrow> handler \<Rightarrow> goerr option" where
  "handler_CanTerminate force (HTcp t) = tunnelTCP_CanTerminate force t"
| "handler_CanTerminate force (HUdp u) = None"

text \<open>Stopping closes the connections, whose goroutines it waits for.\<close>

definition tunnelTCP_Terminate :: "bool \<Rightarrow> tunnel_tcp \<Rightarrow> goerr option \<times> tunnel_tcp" where
  "tunnelTCP_Terminate force t =
     (case tunnelTCP_CanTerminate force t of
        Some e \<Rightarrow> (Some e, t)
      | None \<Rightarrow> if \<not> ttRunning t then (None, t) else (None, t\<lparr>ttRunning := False, ttConnCount := 0\<rparr>))"

text \<open>A UDP tunnel that was never started has no \<^verbatim>\<open>cancel\<close> function to call.\<close>

definition tunnelUDP_Terminate :: "bool \<Rightarrow> tunnel_udp \<Rightarrow> (goerr option \<times> tunnel_udp) option" where
  "tunnelUDP_Terminate force u =
     (case tuStatus u of UdpNew \<Rightarrow> None | _ \<Rightarrow> Some (None, u\<lparr>tuStatus := UdpStopped\<rparr>))"

fun handler_Terminate :: "bool \<Rightarrow> handler \<Rightarrow> (goerr option \<times> handler) option" where
  "handler_Terminate force (HTcp t) = (case tunnelTCP_Terminate force t of (e, t') \<Rightarrow> Some (e, HTcp t'))"
| "handler_Terminate force (HUdp u) =
     (case tunnelUDP_Terminate force u of None \<Rightarrow> None | Some (e, u') \<Rightarrow> Some (e, HUdp u'))"

text \<open>\<^verbatim>\<open>LastActive\<close> of a TCP tunnel is now while it has connections, else the last close (1970 before the first).\<close>

fun handler_LastActive :: "time \<Rightarrow> handler \<Rightarrow> time" where
  "handler_LastActive now (HTcp t) = (if 0 < ttConnCount t then now else ttLastConnClose t)"
| "handler_LastActive now (HUdp u) = tuLastActive u"

fun handler_SetACL :: "tunnel_acl option \<Rightarrow> handler \<Rightarrow> handler" where
  "handler_SetACL acl (HTcp t) = HTcp (t\<lparr>ttACL := acl\<rparr>)"
| "handler_SetACL acl (HUdp u) = HUdp (u\<lparr>tuACL := acl\<rparr>)"

section \<open>Combined tunnels\<close>

fun terminate_all :: "bool \<Rightarrow> handler list \<Rightarrow> (goerr list \<times> handler list) option" where
  "terminate_all force [] = Some ([], [])"
| "terminate_all force (h # hs) =
     (case handler_Terminate force h of
        None \<Rightarrow> None
      | Some (e, h') \<Rightarrow>
          (case terminate_all force hs of
             None \<Rightarrow> None
           | Some (es, hs') \<Rightarrow> Some ((case e of None \<Rightarrow> es | Some x \<Rightarrow> x # es), h' # hs')))"

text \<open>The loop of \<^verbatim>\<open>Start\<close>: the handlers started so far and those to start.\<close>

fun Multi_Start :: "net_env \<Rightarrow> handler list \<Rightarrow> handler list \<Rightarrow> (goerr option \<times> handler list) option" where
  "Multi_Start ne started [] = Some (None, started)"
| "Multi_Start ne started (tp # tps) =
     (case handler_Start ne tp of
        (Some e, tp') \<Rightarrow>
          map_option (\<lambda>(_, rolled). (Some e, rolled @ tp' # tps)) (terminate_all True started)
      | (None, tp') \<Rightarrow> Multi_Start ne (started @ [tp']) tps)"

definition Multi_CanTerminate :: "bool \<Rightarrow> handler list \<Rightarrow> goerr list" where
  "Multi_CanTerminate force tps =
     concat (map (\<lambda>tp. case handler_CanTerminate force tp of None \<Rightarrow> [] | Some e \<Rightarrow> [e]) tps)"

text \<open>The errors a \<^verbatim>\<open>multierror\<close> collects are a list; nil is the empty one.\<close>

definition Multi_Terminate :: "bool \<Rightarrow> handler list \<Rightarrow> (goerr list \<times> handler list) option" where
  "Multi_Terminate force tps =
     (if Multi_CanTerminate force tps \<noteq> [] then Some (Multi_CanTerminate force tps, tps)
      else terminate_all force tps)"

definition Multi_LastActive :: "time \<Rightarrow> handler list \<Rightarrow> time option" where
  "Multi_LastActive now tps =
     foldl (\<lambda>result tp. let v = handler_LastActive now tp
                        in case result of None \<Rightarrow> Some v | Some r \<Rightarrow> if r < v then Some v else Some r) None tps"

section \<open>Tunnels\<close>

datatype tunnel_protocol = Single handler | Multi "handler list"

record internal_proxy =
  ipHost :: string
  ipPort :: string
  ipTunnelHost :: string
  ipTunnelPort :: string
  ipACL :: "tunnel_acl option"
  ipListening :: bool

record tunnel =
  tnID :: string
  tnRemote :: remote
  tnProtocol :: "tunnel_protocol option"
  tnProxy :: "internal_proxy option"
  tnCreatedAt :: time

definition NewTunnel :: "time \<Rightarrow> string \<Rightarrow> remote \<Rightarrow> tunnel_acl option \<Rightarrow> tunnel res" where
  "NewTunnel now tid r acl =
     (let mk = (\<lambda>p. Inr \<lparr>tnID = tid, tnRemote = r, tnProtocol = Some p, tnProxy = None, tnCreatedAt = now\<rparr>)
      in if rProtocol r = ProtocolUDP then mk (Single (HUdp (newTunnelUDP now r acl)))
         else if rProtocol r = ProtocolTCP then mk (Single (HTcp (newTunnelTCP r acl)))
         else if rProtocol r = ProtocolTCPUDP
         then mk (Multi [HTcp (newTunnelTCP r acl), HUdp (newTunnelUDP now r acl)])
         else Inl (GoError ''unsupported protocol %q'' [AS (rProtocol r)]))"

fun handlers :: "tunnel_protocol option \<Rightarrow> handler list" where
  "handlers None = []"
| "handlers (Some (Single h)) = [h]"
| "handlers (Some (Multi hs)) = hs"

definition Tunnel_Start :: "net_env \<Rightarrow> tunnel \<Rightarrow> (goerr option \<times> tunnel) option" where
  "Tunnel_Start ne t =
     (case tnProtocol t of
        None \<Rightarrow> Some (Some (GoError ''tunnel has no live protocol: a record restored from storage must be rebuilt with NewTunnel before it can be started'' []), t)
      | Some (Single h) \<Rightarrow>
          (case handler_Start ne h of (e, h') \<Rightarrow> Some (e, t\<lparr>tnProtocol := Some (Single h')\<rparr>))
      | Some (Multi hs) \<Rightarrow>
          map_option (\<lambda>(e, hs'). (e, t\<lparr>tnProtocol := Some (Multi hs')\<rparr>)) (Multi_Start ne [] hs))"

definition Tunnel_Terminate :: "bool \<Rightarrow> tunnel \<Rightarrow> (goerr list \<times> tunnel) option" where
  "Tunnel_Terminate force t =
     (case tnProtocol t of
        None \<Rightarrow> Some ([], t)
      | Some (Single h) \<Rightarrow>
          map_option (\<lambda>(e, h'). ((case e of None \<Rightarrow> [] | Some x \<Rightarrow> [x]), t\<lparr>tnProtocol := Some (Single h')\<rparr>))
            (handler_Terminate force h)
      | Some (Multi hs) \<Rightarrow>
          map_option (\<lambda>(es, hs'). (es, t\<lparr>tnProtocol := Some (Multi hs')\<rparr>)) (Multi_Terminate force hs))"

definition Tunnel_CanTerminate :: "bool \<Rightarrow> tunnel \<Rightarrow> goerr list" where
  "Tunnel_CanTerminate force t = Multi_CanTerminate force (handlers (tnProtocol t))"

definition Tunnel_LastActive :: "time \<Rightarrow> tunnel \<Rightarrow> time option" where
  "Tunnel_LastActive now t =
     (case tnProtocol t of
        None \<Rightarrow> Some (tnCreatedAt t)
      | Some (Single h) \<Rightarrow> Some (handler_LastActive now h)
      | Some (Multi hs) \<Rightarrow> Multi_LastActive now hs)"

definition Tunnel_SetACL :: "tunnel_acl option \<Rightarrow> tunnel \<Rightarrow> tunnel" where
  "Tunnel_SetACL acl t =
     t\<lparr>tnProtocol := map_option (\<lambda>p. case p of Single h \<Rightarrow> Single (handler_SetACL acl h)
                                            | Multi hs \<Rightarrow> Multi (map (handler_SetACL acl) hs)) (tnProtocol t)\<rparr>"

section \<open>The proxy in front of a tunnel\<close>

definition NewInternalTunnelProxy :: "tunnel \<Rightarrow> string \<Rightarrow> string \<Rightarrow> tunnel_acl option \<Rightarrow> internal_proxy" where
  "NewInternalTunnelProxy t host port acl =
     \<lparr>ipHost = host, ipPort = port, ipTunnelHost = rLocalHost (tnRemote t), ipTunnelPort = rLocalPort (tnRemote t),
      ipACL = acl, ipListening = False\<rparr>"

definition Proxy_Addr :: "internal_proxy \<Rightarrow> string" where
  "Proxy_Addr tp = JoinHostPort (ipHost tp) (ipPort tp)"

definition Proxy_TunnelAddr :: "internal_proxy \<Rightarrow> string" where
  "Proxy_TunnelAddr tp = JoinHostPort (ipTunnelHost tp) (ipTunnelPort tp)"

definition Proxy_Start :: "net_env \<Rightarrow> internal_proxy \<Rightarrow> goerr option \<times> internal_proxy" where
  "Proxy_Start ne tp =
     (case neListen ne ProtocolTCP (Proxy_Addr tp) of
        Some e \<Rightarrow> (Some e, tp)
      | None \<Rightarrow> (None, tp\<lparr>ipListening := True\<rparr>))"

definition Proxy_Stop :: "internal_proxy \<Rightarrow> internal_proxy" where
  "Proxy_Stop tp = tp\<lparr>ipListening := False\<rparr>"

text \<open>The answer of \<^verbatim>\<open>handleACL\<close> to a request from an address: whether the next handler serves it.\<close>

definition handleACL :: "internal_proxy \<Rightarrow> string \<Rightarrow> bool" where
  "handleACL tp clientIP =
     (case ipACL tp of
        None \<Rightarrow> True
      | Some acl \<Rightarrow> (case ParseIP clientIP of None \<Rightarrow> False | Some x \<Rightarrow> CheckAccess acl x))"


section \<open>A UDP tunnel answers its peers only\<close>

datatype udp_event = UIn time udp_addr | UOut time udp_addr | USetACL "tunnel_acl option"

inductive udp_step :: "tunnel_udp \<Rightarrow> udp_event \<Rightarrow> tunnel_udp \<Rightarrow> bool" where
  "udp_step u (UIn now a) (snd (udp_inbound now a u))"
| "udp_step u (UOut now a) (snd (udp_outbound now a u))"
| "udp_step u (USetACL acl) (u\<lparr>tuACL := acl\<rparr>)"

inductive_cases udp_stepE: "udp_step u e u'"

definition peers_inv :: "peer_table \<Rightarrow> bool" where
  "peers_inv seen \<longleftrightarrow> distinct (map fst seen) \<and> length seen \<le> maxTrackedUDPPeers"

lemma map_of_filter_Some:
  "distinct (map fst xs) \<Longrightarrow> map_of (filter P xs) k = Some t \<Longrightarrow> map_of xs k = Some t"
  using map_of_SomeD [of "filter P xs" k t] by (auto intro: map_of_is_SomeI)

lemma oldest_entry_in:
  "oldest_entry best xs = Some (k, t) \<Longrightarrow> best = Some (k, t) \<or> (k, t) \<in> set xs"
proof (induction xs arbitrary: best)
  case (Cons x xs)
  have "\<exists>y. oldest_entry best (x # xs) = oldest_entry (Some y) xs \<and> (y = x \<or> best = Some y)"
    by (cases x; cases best) (auto split: prod.splits)
  then obtain y where y: "oldest_entry best (x # xs) = oldest_entry (Some y) xs" "y = x \<or> best = Some y" by blast
  with Cons.IH [of "Some y"] Cons.prems have "y = (k, t) \<or> (k, t) \<in> set xs" by simp
  with y(2) show ?case by auto
qed simp

lemma oldest_entry_None: "oldest_entry best xs = None \<Longrightarrow> best = None \<and> xs = []"
proof (induction xs arbitrary: best)
  case (Cons x xs)
  have "\<exists>y. oldest_entry best (x # xs) = oldest_entry (Some y) xs"
    by (cases x; cases best) (auto split: prod.splits)
  with Cons show ?case by (metis option.distinct(1))
qed simp

lemma length_delete_less: "k \<in> fst ` set xs \<Longrightarrow> length (AList.delete k xs) < length xs"
proof (induction xs)
  case (Cons x xs)
  then show ?case using length_delete_le [of k xs] by (cases "fst x = k") force+
qed simp

lemma evictLocked_props:
  assumes "distinct (map fst seen)" "length seen \<le> maxTrackedUDPPeers"
  shows "distinct (map fst (evictLocked now seen))" "length (evictLocked now seen) < maxTrackedUDPPeers"
    "map_of (evictLocked now seen) k = Some t \<Longrightarrow> map_of seen k = Some t"
proof -
  let ?live = "filter (\<lambda>(k, t). \<not> now - t > udpPeerTTL) seen"
  have d: "distinct (map fst ?live)" using assms(1) by (rule distinct_map_filter)
  have l: "length ?live \<le> maxTrackedUDPPeers" using length_filter_le [of _ seen] assms(2) by (rule order_trans)
  have m: "map_of ?live k = Some t \<Longrightarrow> map_of seen k = Some t" by (rule map_of_filter_Some [OF assms(1)])
  show "distinct (map fst (evictLocked now seen))"
    using d by (auto simp: evictLocked_def Let_def distinct_delete split: option.splits prod.splits)
  show "map_of (evictLocked now seen) k = Some t \<Longrightarrow> map_of seen k = Some t"
    using m by (auto simp: evictLocked_def Let_def delete_conv' split: option.splits prod.splits if_splits)
  show "length (evictLocked now seen) < maxTrackedUDPPeers"
  proof (cases "length ?live < maxTrackedUDPPeers")
    case False
    then have ne: "?live \<noteq> []" by (auto simp: maxTrackedUDPPeers_def)
    then obtain k t where old: "oldest_entry None ?live = Some (k, t)"
      using oldest_entry_None [of None ?live] by (cases "oldest_entry None ?live") auto
    then have "k \<in> fst ` set ?live" using oldest_entry_in [OF old] by force
    then have "length (AList.delete k ?live) < length ?live" by (rule length_delete_less)
    with l old False show ?thesis by (simp add: evictLocked_def Let_def)
  qed (simp add: evictLocked_def Let_def)
qed

lemma length_update: "length (AList.update k v xs) = (if k \<in> fst ` set xs then length xs else Suc (length xs))"
  by (induction xs) auto

lemma remember_inv [inv_intros]: "peers_inv seen \<Longrightarrow> peers_inv (remember now a seen)"
proof -
  assume inv: "peers_inv seen"
  show ?thesis
  proof (cases "udpPeerKey a")
    case None
    with inv show ?thesis by (simp add: remember_def)
  next
    case (Some key)
    let ?s = "if map_of seen key = None \<and> maxTrackedUDPPeers \<le> length seen then evictLocked now seen else seen"
    have s: "distinct (map fst ?s)" "key \<in> fst ` set ?s \<or> length ?s < maxTrackedUDPPeers" "length ?s \<le> maxTrackedUDPPeers"
      using inv evictLocked_props [of seen now] by (auto simp: peers_inv_def map_of_eq_None_iff less_imp_le)
    have "remember now a seen = AList.update key now ?s" by (simp add: remember_def Some)
    with s show ?thesis by (auto simp: peers_inv_def distinct_update length_update)
  qed
qed

lemma remember_entries:
  assumes "peers_inv seen" "map_of (remember now a seen) k = Some t"
  shows "map_of seen k = Some t \<or> (udpPeerKey a = Some k \<and> t = now)"
proof (cases "udpPeerKey a")
  case None
  with assms show ?thesis by (simp add: remember_def)
next
  case (Some key)
  let ?s = "if map_of seen key = None \<and> maxTrackedUDPPeers \<le> length seen then evictLocked now seen else seen"
  have "map_of (remember now a seen) = (map_of ?s)(key \<mapsto> now)"
    by (simp add: remember_def Some update_conv')
  with assms(2) have "(k = key \<and> t = now) \<or> map_of ?s k = Some t" by (auto split: if_splits)
  then show ?thesis
    using evictLocked_props(3) [of seen now k t] assms(1) Some by (auto simp: peers_inv_def split: if_splits)
qed

lemma known_props:
  assumes "peers_inv seen"
  shows "peers_inv (snd (known now a seen))"
    "map_of (snd (known now a seen)) k = Some t \<Longrightarrow> map_of seen k = Some t"
    "fst (known now a seen) \<Longrightarrow> \<exists>k t. udpPeerKey a = Some k \<and> map_of seen k = Some t \<and> now - t \<le> udpPeerTTL"
proof -
  have d: "peers_inv (AList.delete key seen)" for key
    using assms length_delete_le [of key seen] by (simp add: peers_inv_def distinct_delete)
  show "peers_inv (snd (known now a seen))"
    using assms d by (simp add: known_def split: option.split)
  show "map_of (snd (known now a seen)) k = Some t \<Longrightarrow> map_of seen k = Some t"
    by (auto simp: known_def delete_conv' simp del: map_of_eq_Some_iff split: option.splits if_splits)
  show "fst (known now a seen) \<Longrightarrow> \<exists>k t. udpPeerKey a = Some k \<and> map_of seen k = Some t \<and> now - t \<le> udpPeerTTL"
    by (auto simp: known_def not_less split: option.splits if_splits)
qed

lemma udp_inbound_state:
  "snd (udp_inbound now a u) = u\<lparr>tuLastActive := now,
     tuPeers := if admits (tuACL u) (uaIP a) then remember now (Some a) (tuPeers u) else tuPeers u\<rparr>"
  by (simp add: udp_inbound_def Let_def)

lemma udp_outbound_peers: "tuPeers (snd (udp_outbound now a u)) = snd (known now (Some a) (tuPeers u))"
  by (auto simp: udp_outbound_def Let_def split: prod.splits bool.splits)

text \<open>What the table holds comes from a datagram that was admitted when it arrived.\<close>

definition heard :: "tunnel_udp \<Rightarrow> udp_event list \<Rightarrow> peer_key \<Rightarrow> time \<Rightarrow> bool" where
  "heard u0 es k t \<longleftrightarrow>
     (\<exists>es1 a es2 u1. es = es1 @ UIn t a # es2 \<and> run udp_step u0 es1 u1 \<and> admits (tuACL u1) (uaIP a)
        \<and> udpPeerKey (Some a) = Some k)"

lemma heard_append: "heard u0 es k t \<Longrightarrow> heard u0 (es @ fs) k t"
  unfolding heard_def by fastforce

lemma udp_run_heard:
  assumes "tuPeers u0 = newUDPPeerTable"
  shows "run udp_step u0 es u \<Longrightarrow> peers_inv (tuPeers u) \<and> (\<forall>k t. map_of (tuPeers u) k = Some t \<longrightarrow> heard u0 es k t)"
proof (induction es arbitrary: u rule: rev_induct)
  case Nil
  then show ?case using assms by (simp add: newUDPPeerTable_def peers_inv_def maxTrackedUDPPeers_def)
next
  case (snoc e es)
  then obtain v where v: "run udp_step u0 es v" "udp_step v e u" by (auto simp: run_append_iff run_Cons_iff)
  have IH: "peers_inv (tuPeers v)" "map_of (tuPeers v) k = Some t \<Longrightarrow> heard u0 (es @ [e]) k t" for k t
    using snoc.IH [OF v(1)] heard_append by blast+
  from v(2) show ?case
  proof (cases rule: udp_step.cases)
    case (1 now a)
    have new: "heard u0 (es @ [e]) k now" if "admits (tuACL v) (uaIP a)" "udpPeerKey (Some a) = Some k" for k
      unfolding heard_def using v(1) that 1 by blast
    show ?thesis
    proof (cases "admits (tuACL v) (uaIP a)")
      case True
      then have p: "tuPeers u = remember now (Some a) (tuPeers v)" by (simp add: 1 udp_inbound_state)
      show ?thesis unfolding p
        using remember_inv [OF IH(1)] remember_entries [OF IH(1)] new [OF True] IH(2) by blast
    next
      case False
      then have p: "tuPeers u = tuPeers v" by (simp add: 1 udp_inbound_state)
      show ?thesis unfolding p using IH by blast
    qed
  next
    case (2 now a)
    show ?thesis using known_props(1,2) [OF IH(1)] IH(2) by (auto simp: 2 udp_outbound_peers)
  next
    case (3 acl)
    then show ?thesis using IH by simp
  qed
qed


section \<open>The life of a tunnel\<close>

text \<open>Traffic and changes of the access list, on any handler of a tunnel.\<close>

datatype handler_event =
    EAccept net_env time ip
  | EClosed time
  | EDatagram time udp_addr
  | EReply time udp_addr

fun handler_traffic :: "handler_event \<Rightarrow> handler \<Rightarrow> handler" where
  "handler_traffic (EAccept ne now x) (HTcp t) = HTcp (snd (tcp_accept ne now x t))"
| "handler_traffic (EClosed now) (HTcp t) = HTcp (if 0 < ttConnCount t then tcp_conn_closed now t else t)"
| "handler_traffic (EDatagram now a) (HUdp u) = HUdp (snd (udp_inbound now a u))"
| "handler_traffic (EReply now a) (HUdp u) = HUdp (snd (udp_outbound now a u))"
| "handler_traffic _ h = h"

definition map_handlers :: "(handler \<Rightarrow> handler) \<Rightarrow> tunnel \<Rightarrow> tunnel" where
  "map_handlers f t =
     t\<lparr>tnProtocol := map_option (\<lambda>p. case p of Single h \<Rightarrow> Single (f h) | Multi hs \<Rightarrow> Multi (map f hs)) (tnProtocol t)\<rparr>"

datatype tunnel_event = TTraffic "handler_event" | TSetACL "tunnel_acl option"

inductive tunnel_step :: "tunnel \<Rightarrow> tunnel_event \<Rightarrow> tunnel \<Rightarrow> bool" where
  "tunnel_step t (TTraffic e) (map_handlers (handler_traffic e) t)"
| "tunnel_step t (TSetACL acl) (Tunnel_SetACL acl t)"

definition all_running :: "tunnel \<Rightarrow> bool" where
  "all_running t \<longleftrightarrow> list_all handler_running (handlers (tnProtocol t))"

definition none_running :: "tunnel \<Rightarrow> bool" where
  "none_running t \<longleftrightarrow> list_all (\<lambda>h. \<not> handler_running h) (handlers (tnProtocol t))"

lemma handlers_map: "handlers (tnProtocol (map_handlers f t)) = map f (handlers (tnProtocol t))"
  by (cases "tnProtocol t") (auto simp: map_handlers_def split: tunnel_protocol.splits)

lemma Tunnel_SetACL_map: "Tunnel_SetACL acl = map_handlers (handler_SetACL acl)"
  by (rule ext) (simp add: Tunnel_SetACL_def map_handlers_def)

lemma traffic_running: "handler_running (handler_traffic e h) = handler_running h"
  by (cases "(e, h)" rule: handler_traffic.cases)
     (auto simp: tcp_accept_def tcp_conn_closed_def udp_inbound_def udp_outbound_def Let_def
       split: prod.splits bool.splits if_splits)

lemma SetACL_running: "handler_running (handler_SetACL acl h) = handler_running h"
  by (cases h) auto

lemma tunnel_step_running: "all_running t \<Longrightarrow> tunnel_step t e t' \<Longrightarrow> all_running t'"
  by (auto simp: all_running_def Tunnel_SetACL_map handlers_map list_all_iff traffic_running SetACL_running
      elim!: tunnel_step.cases)

interpretation tl: step_invariant tunnel_step all_running
  by unfold_locales (rule tunnel_step_running)

lemma handler_Start_result:
  assumes "handler_Start ne h = (e, h')"
  shows "e = None \<Longrightarrow> handler_running h'" "e \<noteq> None \<Longrightarrow> h' = h"
  using assms by (cases h; auto simp: tunnelTCP_Start_def tunnelUDP_Start_def split: option.splits prod.splits)+

lemma handler_Terminate_running:
  assumes "handler_running h"
  shows "\<exists>e h'. handler_Terminate force h = Some (e, h') \<and> (handler_CanTerminate force h = None \<longrightarrow> e = None \<and> \<not> handler_running h')
           \<and> (handler_CanTerminate force h \<noteq> None \<longrightarrow> h' = h \<and> e \<noteq> None)"
  using assms
  by (cases h) (auto simp: tunnelTCP_Terminate_def tunnelUDP_Terminate_def split: option.splits udp_status.splits)

lemma terminate_all_running:
  assumes "list_all handler_running hs" "Multi_CanTerminate force hs = []"
  shows "\<exists>hs'. terminate_all force hs = Some ([], hs') \<and> list_all (\<lambda>h. \<not> handler_running h) hs'"
  using assms
proof (induction hs)
  case (Cons h hs)
  then obtain hs' where "terminate_all force hs = Some ([], hs')" "list_all (\<lambda>h. \<not> handler_running h) hs'"
    by (auto simp: Multi_CanTerminate_def)
  moreover have "handler_CanTerminate force h = None"
    using Cons.prems(2) by (auto simp: Multi_CanTerminate_def split: option.splits)
  ultimately show ?case using handler_Terminate_running [of h force] Cons.prems(1) by auto
qed simp

lemma CanTerminate_forced [simp]: "Multi_CanTerminate True hs = []"
proof -
  have "handler_CanTerminate True h = None" for h by (cases h) (auto simp: tunnelTCP_CanTerminate_def)
  then show ?thesis by (simp add: Multi_CanTerminate_def)
qed

lemma Multi_Start_result:
  "list_all handler_running started \<Longrightarrow> list_all (\<lambda>h. \<not> handler_running h) tps \<Longrightarrow>
   \<exists>e hs. Multi_Start ne started tps = Some (e, hs) \<and>
     (e = None \<longrightarrow> list_all handler_running hs) \<and> (e \<noteq> None \<longrightarrow> list_all (\<lambda>h. \<not> handler_running h) hs)"
proof (induction tps arbitrary: started)
  case (Cons tp tps)
  obtain e tp' where s: "handler_Start ne tp = (e, tp')" by fastforce
  show ?case
  proof (cases e)
    case None
    with handler_Start_result(1) [OF s] Cons.IH [of "started @ [tp']"] Cons.prems s show ?thesis by simp
  next
    case (Some x)
    with handler_Start_result(2) [OF s] have "tp' = tp" by simp
    then show ?thesis using terminate_all_running [OF Cons.prems(1), of True] Cons.prems(2) s Some by auto
  qed
qed simp

lemma Tunnel_Start_result:
  assumes "NewTunnel now tid r acl = Inr t"
  shows "\<exists>e t1. Tunnel_Start ne t = Some (e, t1) \<and> (e = None \<longrightarrow> all_running t1) \<and> (e \<noteq> None \<longrightarrow> none_running t1)"
proof -
  have "\<not> handler_running h" if "h \<in> set (handlers (tnProtocol t))" for h
    using assms that by (auto simp: NewTunnel_def Let_def newTunnelTCP_def newTunnelUDP_def split: if_splits)
  then have n: "list_all (\<lambda>h. \<not> handler_running h) (handlers (tnProtocol t))" by (simp add: list_all_iff)
  consider h where "tnProtocol t = Some (Single h)" | hs where "tnProtocol t = Some (Multi hs)"
    using assms by (auto simp: NewTunnel_def Let_def split: if_splits)
  then show ?thesis
  proof cases
    case 1
    obtain e h' where s: "handler_Start ne h = (e, h')" by fastforce
    show ?thesis using handler_Start_result [OF s] n 1 s by (auto simp: Tunnel_Start_def all_running_def none_running_def)
  next
    case 2
    then show ?thesis using Multi_Start_result [of "[]" hs ne] n by (auto simp: Tunnel_Start_def all_running_def none_running_def)
  qed
qed

lemma Tunnel_Terminate_result:
  assumes "all_running t"
  shows "\<exists>es t'. Tunnel_Terminate force t = Some (es, t') \<and> (es = [] \<longrightarrow> none_running t') \<and> (es \<noteq> [] \<longrightarrow> t' = t)
           \<and> (es \<noteq> [] \<longleftrightarrow> Tunnel_CanTerminate force t \<noteq> [])"
proof (cases "tnProtocol t")
  case None
  then show ?thesis by (simp add: Tunnel_Terminate_def none_running_def Tunnel_CanTerminate_def Multi_CanTerminate_def)
next
  case (Some p)
  show ?thesis
  proof (cases p)
    case (Single h)
    have "t\<lparr>tnProtocol := Some (Single h)\<rparr> = t" using Some Single by simp
    moreover obtain e h' where "handler_Terminate force h = Some (e, h')"
        "handler_CanTerminate force h = None \<longrightarrow> e = None \<and> \<not> handler_running h'"
        "handler_CanTerminate force h \<noteq> None \<longrightarrow> h' = h \<and> e \<noteq> None"
      using assms Some Single handler_Terminate_running [of h force] by (auto simp: all_running_def)
    ultimately show ?thesis
      using Some Single
      by (cases "handler_CanTerminate force h")
         (auto simp: Tunnel_Terminate_def none_running_def Tunnel_CanTerminate_def Multi_CanTerminate_def)
  next
    case (Multi hs)
    have "t\<lparr>tnProtocol := Some (Multi hs)\<rparr> = t" using Some Multi by simp
    then show ?thesis
      using assms Some Multi terminate_all_running [of hs force]
      by (auto simp: Tunnel_Terminate_def all_running_def none_running_def Tunnel_CanTerminate_def Multi_Terminate_def)
  qed
qed


section \<open>Properties\<close>

text \<open>C22: Whatever datagrams the peers and the agent send and however the access list changes, a datagram of the
  agent leaves the server only towards an address that the current access list admits and from which a
  datagram was admitted at most two minutes ago; and the table of peers never exceeds its limit.\<close>

theorem udp_replies_only_to_peers:
  assumes "run udp_step (newTunnelUDP t0 r acl) es u"
  shows "length (tuPeers u) \<le> maxTrackedUDPPeers \<and>
    (fst (udp_outbound now dest u) \<longrightarrow>
       admits (tuACL u) (uaIP dest) \<and>
       (\<exists>es1 t a es2 u1. es = es1 @ UIn t a # es2 \<and> run udp_step (newTunnelUDP t0 r acl) es1 u1 \<and>
          admits (tuACL u1) (uaIP a) \<and> udpPeerKey (Some a) = udpPeerKey (Some dest) \<and> now - t \<le> udpPeerTTL))"
proof -
  have new: "tuPeers (newTunnelUDP t0 r acl) = newUDPPeerTable" by (simp add: newTunnelUDP_def)
  have inv: "peers_inv (tuPeers u)" "map_of (tuPeers u) k = Some t \<Longrightarrow> heard (newTunnelUDP t0 r acl) es k t" for k t
    using udp_run_heard [OF new assms] by blast+
  have "admits (tuACL u) (uaIP dest) \<and> fst (known now (Some dest) (tuPeers u))" if "fst (udp_outbound now dest u)"
    using that by (auto simp: udp_outbound_def Let_def split: prod.splits bool.splits if_splits)
  then show ?thesis
    using inv(1) known_props(3) [OF inv(1), of now "Some dest"] inv(2)
    unfolding heard_def peers_inv_def by metis
qed

definition peer_9 :: udp_addr where
  "peer_9 = \<lparr>uaIP = [203, 0, 113, 9], uaPort = 5000, uaZone = []\<rparr>"

theorem udp_replies_only_to_peers_witness:
  "\<exists>u. run udp_step (newTunnelUDP 0 empty_remote None) [UIn 5 peer_9] u \<and> fst (udp_outbound 6 peer_9 u) \<and>
     length (tuPeers u) \<le> maxTrackedUDPPeers"
proof -
  let ?u = "snd (udp_inbound 5 peer_9 (newTunnelUDP 0 empty_remote None))"
  have r: "run udp_step (newTunnelUDP 0 empty_remote None) [UIn 5 peer_9] ?u"
    by (auto simp: run_Cons_iff intro: udp_step.intros)
  moreover have "fst (udp_outbound 6 peer_9 ?u)"
    by (simp add: udp_outbound_def udp_inbound_def newTunnelUDP_def admits_def known_def remember_def
        newUDPPeerTable_def maxTrackedUDPPeers_def udpPeerKey_def peer_9_def To4_def udpPeerTTL_def)
  moreover have "length (tuPeers ?u) \<le> maxTrackedUDPPeers"
    using udp_replies_only_to_peers [OF r, of 6 peer_9] by (rule conjunct1)
  ultimately show ?thesis by blast
qed


definition dns_remote :: remote where
  "dns_remote = empty_remote\<lparr>rProtocol := ProtocolTCPUDP, rLocalHost := ZeroHost, rLocalPort := ''5353'',
     rRemoteHost := ''10.0.0.2'', rRemotePort := ''53''\<rparr>"

definition udp_port_taken :: net_env where
  "udp_port_taken = \<lparr>neListen = (\<lambda>net _. if net = ProtocolUDP then Some (GoError ''address already in use'' []) else None),
     neOpenChannel = (\<lambda>_. None)\<rparr>"


end
