(* ===== verification/Clients.thy ===== *)
theory Clients
  imports ClientGroups Tunnels UserStore
begin

text \<open>
  The clients of the server: their data (\<^verbatim>\<open>server/clients/clientdata/client.go\<close>), the table that keeps them
  (\<^verbatim>\<open>server/clients/sqlite.go\<close>, \<^verbatim>\<open>init.go\<close>), the repository in memory (\<^verbatim>\<open>cr.go\<close>, \<^verbatim>\<open>cleanup.go\<close>) and the
  operations of the client service that do not start tunnels, with the checks of a user's access to a
  client (\<^verbatim>\<open>client_service.go\<close>, \<^verbatim>\<open>client_status_check.go\<close>).

  The Go code shares clients and tunnels by pointer and changes them in place, also where a later step
  of the same operation fails. The state therefore has a heap of each; a pointer is a position. The
  repository maps the id of a client to a position, as a list with distinct ids since the code iterates
  over it. The clock is the argument \<open>now\<close>, and \<open>dberr\<close> is the failure of the statements of an
  operation on the table, if any.
\<close>

section \<open>Data of a client\<close>

record client =
  clTunnelIDAutoIncrement :: int
  clID :: string
  clSessionID :: string
  clName :: string
  clOS :: string
  clOSArch :: string
  clOSFamily :: string
  clOSKernel :: string
  clOSFullName :: string
  clOSVersion :: string
  clOSVirtualizationSystem :: string
  clOSVirtualizationRole :: string
  clCPUFamily :: string
  clCPUModel :: string
  clCPUModelName :: string
  clCPUVendor :: string
  clNumCPUs :: int
  clMemoryTotal :: int
  clTimezone :: string
  clHostname :: string
  clIPv4 :: "string list"
  clIPv6 :: "string list"
  clTags :: "string list"
  clLabels :: "(string \<times> string) list"
  clVersion :: string
  clAddress :: string
  clTunnels :: "nat list"
  clDisconnectedAt :: "time option"
  clLastHeartbeatAt :: "time option"
  clClientAuthID :: string
  clAllowedUserGroups :: "string list"
  clUpdatesStatus :: "json option"
  clIPAddresses :: "json option"
  clClientConfiguration :: "json option"
  clConnection :: "nat option"
  clPaused :: bool

definition new_client :: "string \<Rightarrow> client" where
  "new_client cid = \<lparr>clTunnelIDAutoIncrement = 0, clID = cid, clSessionID = [], clName = [], clOS = [], clOSArch = [],
     clOSFamily = [], clOSKernel = [], clOSFullName = [], clOSVersion = [], clOSVirtualizationSystem = [],
     clOSVirtualizationRole = [], clCPUFamily = [], clCPUModel = [], clCPUModelName = [], clCPUVendor = [],
     clNumCPUs = 0, clMemoryTotal = 0, clTimezone = [], clHostname = [], clIPv4 = [], clIPv6 = [], clTags = [],
     clLabels = [], clVersion = [], clAddress = [], clTunnels = [], clDisconnectedAt = None,
     clLastHeartbeatAt = None, clClientAuthID = [], clAllowedUserGroups = [], clUpdatesStatus = None,
     clIPAddresses = None, clClientConfiguration = None, clConnection = None, clPaused = False\<rparr>"

definition IsConnected :: "client \<Rightarrow> bool" where
  "IsConnected c \<longleftrightarrow> clDisconnectedAt c = None"

definition CalculateConnectionState :: "client \<Rightarrow> string" where
  "CalculateConnectionState c = (if IsConnected c then ''connected'' else ''disconnected'')"

definition Obsolete :: "time \<Rightarrow> duration option \<Rightarrow> client \<Rightarrow> bool" where
  "Obsolete now keep c =
     (case clDisconnectedAt c of
        None \<Rightarrow> False
      | Some disconnectedAt \<Rightarrow> (case keep of None \<Rightarrow> False | Some d \<Rightarrow> disconnectedAt + d < now))"

text \<open>\<^verbatim>\<open>make([]string, 0, n)\<close> followed by \<^verbatim>\<open>copy\<close>, which copies into the length, not into the capacity.\<close>

definition GetIPv4 :: "client \<Rightarrow> string list" where
  "GetIPv4 c = take (length ([] :: string list)) (clIPv4 c)"

definition GetIPv6 :: "client \<Rightarrow> string list" where
  "GetIPv6 c = take (length ([] :: string list)) (clIPv6 c)"

definition SetLastHeartbeatAt :: "time \<Rightarrow> client \<Rightarrow> client" where
  "SetLastHeartbeatAt at c = c\<lparr>clDisconnectedAt := None, clLastHeartbeatAt := Some at\<rparr>"

definition NewTunnelID :: "client \<Rightarrow> string \<times> client" where
  "NewTunnelID c =
     (let n = wrap64 (clTunnelIDAutoIncrement c + 1) in (itoa n, c\<lparr>clTunnelIDAutoIncrement := n\<rparr>))"

definition BelongsTo :: "client \<Rightarrow> client_group \<Rightarrow> bool" where
  "BelongsTo c g =
     (if HasNoParams (cgParams g) then False
      else case cgParams g of
             None \<Rightarrow> False
           | Some p \<Rightarrow>
               if \<not> MatchesOneOf (pClientID p) [clID c] then False
               else if \<not> MatchesOneOf (pName p) [clName c] then False
               else if \<not> MatchesOneOf (pOS p) [clOS c] then False
               else if \<not> MatchesOneOf (pOSArch p) [clOSArch c] then False
               else if \<not> MatchesOneOf (pOSFamily p) [clOSFamily c] then False
               else if \<not> MatchesOneOf (pOSKernel p) [clOSKernel c] then False
               else if \<not> MatchesOneOf (pHostname p) [clHostname c] then False
               else if \<not> MatchesOneOf (pIPv4 p) (clIPv4 c) then False
               else if \<not> MatchesOneOf (pIPv6 p) (clIPv6 c) then False
               else if \<not> MatchesRawTags (pTag p) (clTags c) then False
               else if \<not> MatchesOneOf (pVersion p) [clVersion c] then False
               else if \<not> MatchesOneOf (pAddress p) [clAddress c] then False
               else if \<not> MatchesOneOf (pClientAuthID p) [clClientAuthID c] then False
               else if \<not> MatchesOneOf (pConnectionState p) [CalculateConnectionState c] then False
               else True)"

fun BelongsToOneOf :: "client \<Rightarrow> client_group list \<Rightarrow> bool" where
  "BelongsToOneOf c [] = False"
| "BelongsToOneOf c (cur # groups) = (if BelongsTo c cur then True else BelongsToOneOf c groups)"

definition ToCalculated :: "client \<Rightarrow> client_group list \<Rightarrow> string list \<times> string" where
  "ToCalculated c allGroups = (map cgID (filter (BelongsTo c) allGroups), CalculateConnectionState c)"

fun HasAccessViaUserGroups :: "client \<Rightarrow> string list \<Rightarrow> bool" where
  "HasAccessViaUserGroups c [] = False"
| "HasAccessViaUserGroups c (curUserGroup # userGroups) =
     (if curUserGroup = Administrators then True
      else if list_ex (\<lambda>allowedGroup. allowedGroup = curUserGroup) (clAllowedUserGroups c) then True
      else HasAccessViaUserGroups c userGroups)"

fun UserGroupHasAccessViaClientGroup :: "client \<Rightarrow> string list \<Rightarrow> client_group list \<Rightarrow> bool" where
  "UserGroupHasAccessViaClientGroup c userGroups [] = False"
| "UserGroupHasAccessViaClientGroup c userGroups (clientGroup # allClientGroups) =
     (if BelongsTo c clientGroup \<and> OneOfUserGroupsIsAllowed clientGroup userGroups then True
      else UserGroupHasAccessViaClientGroup c userGroups allClientGroups)"

section \<open>State\<close>

text \<open>A row of the table \<^verbatim>\<open>clients\<close>: what \<^verbatim>\<open>convertToSqlite\<close> keeps of a client, with its tunnels by value.\<close>

record client_row =
  rowClient :: client
  rowTunnels :: "(string \<times> remote \<times> time) list"

record client_service =
  svClients :: "client list"
  svTunnels :: "tunnel list"
  svState :: "(string \<times> nat) list"
  svRows :: "client_row list"
  svKeep :: "duration option"
  svPorts :: port_distributor
  svProxyEnabled :: bool
  svCaddy :: bool

abbreviation client_at :: "client_service \<Rightarrow> nat \<Rightarrow> client" where
  "client_at sv a \<equiv> svClients sv ! a"

definition set_client :: "nat \<Rightarrow> client \<Rightarrow> client_service \<Rightarrow> client_service" where
  "set_client a c sv = sv\<lparr>svClients := (svClients sv)[a := c]\<rparr>"

definition convertToSqlite :: "client_service \<Rightarrow> client \<Rightarrow> client_row" where
  "convertToSqlite sv c =
     \<lparr>rowClient = c\<lparr>clTunnelIDAutoIncrement := 0, clSessionID := [], clTunnels := [], clLastHeartbeatAt := None,
                    clConnection := None, clPaused := False\<rparr>,
      rowTunnels = map (\<lambda>t. (tnID (svTunnels sv ! t), tnRemote (svTunnels sv ! t), tnCreatedAt (svTunnels sv ! t)))
                     (clTunnels c)\<rparr>"

section \<open>The table of clients\<close>

text \<open>\<^verbatim>\<open>DATETIME(x)\<close> is whole seconds.\<close>

definition row_obsolete :: "time \<Rightarrow> duration option \<Rightarrow> client_row \<Rightarrow> bool" where
  "row_obsolete now keep row =
     (case (clDisconnectedAt (rowClient row), keep) of
        (Some d, Some k) \<Rightarrow> d div Second < (now - k) div Second
      | _ \<Rightarrow> False)"

definition Rows_GetAll :: "goerr option \<Rightarrow> time \<Rightarrow> duration option \<Rightarrow> client_row list \<Rightarrow> client_row list res" where
  "Rows_GetAll dberr now keep rows =
     (case dberr of Some e \<Rightarrow> Inl e | None \<Rightarrow> Inr (filter (\<lambda>r. \<not> row_obsolete now keep r) rows))"

definition Rows_Save :: "client_row \<Rightarrow> client_row list \<Rightarrow> client_row list" where
  "Rows_Save row rows = filter (\<lambda>r. clID (rowClient r) \<noteq> clID (rowClient row)) rows @ [row]"

definition Rows_Delete :: "string \<Rightarrow> client_row list \<Rightarrow> client_row list" where
  "Rows_Delete cid rows = filter (\<lambda>r. clID (rowClient r) \<noteq> cid) rows"

text \<open>\<^verbatim>\<open>convert\<close>: the tunnels of a restored client have no live handlers.\<close>

definition restore_tunnel :: "string \<times> remote \<times> time \<Rightarrow> tunnel" where
  "restore_tunnel x = (case x of (tid, r, at) \<Rightarrow>
     \<lparr>tnID = tid, tnRemote = r, tnProtocol = None, tnProxy = None, tnCreatedAt = at\<rparr>)"

definition convert_row :: "client_row \<Rightarrow> client_service \<Rightarrow> client_service" where
  "convert_row row sv =
     (let n = length (svTunnels sv)
      in sv\<lparr>svTunnels := svTunnels sv @ map restore_tunnel (rowTunnels row),
            svClients := svClients sv @ [(rowClient row)\<lparr>clTunnels := [n..<n + length (rowTunnels row)]\<rparr>]\<rparr>)"

text \<open>\<^verbatim>\<open>LoadInitialClients\<close>: clients that were connected are marked as disconnected now, and saved.\<close>

fun mark_disconnected :: "time \<Rightarrow> (string \<Rightarrow> goerr option) \<Rightarrow> nat list \<Rightarrow> client_service \<Rightarrow> goerr option \<times> client_service" where
  "mark_disconnected now saveErr [] sv = (None, sv)"
| "mark_disconnected now saveErr (a # as) sv =
     (if IsConnected (client_at sv a)
      then let c = (client_at sv a)\<lparr>clDisconnectedAt := Some now\<rparr>; sv1 = set_client a c sv
           in (case saveErr (clID c) of
                 Some e \<Rightarrow> (Some (GoError ''failed to save client: %v'' [AS (err_format e)]), sv1)
               | None \<Rightarrow> mark_disconnected now saveErr as (sv1\<lparr>svRows := Rows_Save (convertToSqlite sv1 c) (svRows sv1)\<rparr>))
      else mark_disconnected now saveErr as sv)"

definition LoadInitialClients ::
    "goerr option \<Rightarrow> (string \<Rightarrow> goerr option) \<Rightarrow> time \<Rightarrow> client_service \<Rightarrow> nat list res \<times> client_service" where
  "LoadInitialClients dberr saveErr now sv =
     (case Rows_GetAll dberr now (svKeep sv) (svRows sv) of
        Inl e \<Rightarrow> (Inl (GoError ''failed to get clients: %v'' [AS (err_format e)]), sv)
      | Inr rows \<Rightarrow>
          let sv1 = foldl (\<lambda>sv row. convert_row row sv) sv rows;
              all = [length (svClients sv)..<length (svClients sv) + length rows]
          in (case mark_disconnected now saveErr all sv1 of
                (Some e, sv2) \<Rightarrow> (Inl e, sv2)
              | (None, sv2) \<Rightarrow> (Inr all, sv2)))"

section \<open>The repository\<close>

definition NewClientRepositoryWithDB :: "nat list \<Rightarrow> client_service \<Rightarrow> client_service" where
  "NewClientRepositoryWithDB initialClients sv =
     sv\<lparr>svState := foldl (\<lambda>m a. AList.update (clID (client_at sv a)) a m) [] initialClients\<rparr>"

definition Repo_Save :: "goerr option \<Rightarrow> nat \<Rightarrow> client_service \<Rightarrow> goerr option \<times> client_service" where
  "Repo_Save dberr a sv =
     (case dberr of
        Some e \<Rightarrow> (Some (GoError ''failed to save client: %w'' [AS (err_format e)]), sv)
      | None \<Rightarrow>
          (None, sv\<lparr>svRows := Rows_Save (convertToSqlite sv (client_at sv a)) (svRows sv),
                    svState := AList.update (clID (client_at sv a)) a (svState sv)\<rparr>))"

definition Repo_Delete :: "goerr option \<Rightarrow> nat \<Rightarrow> client_service \<Rightarrow> goerr option \<times> client_service" where
  "Repo_Delete dberr a sv =
     (case dberr of
        Some e \<Rightarrow> (Some (GoError ''failed to delete a client: %w'' [AS (err_format e)]), sv)
      | None \<Rightarrow>
          (None, sv\<lparr>svRows := Rows_Delete (clID (client_at sv a)) (svRows sv),
                    svState := AList.delete (clID (client_at sv a)) (svState sv)\<rparr>))"

definition queryClients :: "(client \<Rightarrow> bool) \<Rightarrow> client_service \<Rightarrow> nat list" where
  "queryClients queryFn sv = filter (\<lambda>a. queryFn (client_at sv a)) (map snd (svState sv))"

definition DeleteObsolete :: "goerr option \<Rightarrow> time \<Rightarrow> client_service \<Rightarrow> nat list res \<times> client_service" where
  "DeleteObsolete dberr now sv =
     (case dberr of
        Some e \<Rightarrow> (Inl (GoError ''failed to delete obsolete clients: %w'' [AS (err_format e)]), sv)
      | None \<Rightarrow>
          let sv1 = sv\<lparr>svRows := filter (\<lambda>r. \<not> row_obsolete now (svKeep sv) r) (svRows sv)\<rparr>;
              clientsToDelete = queryClients (Obsolete now (svKeep sv)) sv1
          in (Inr clientsToDelete,
              sv1\<lparr>svState := foldl (\<lambda>m a. AList.delete (clID (client_at sv a)) m) (svState sv1) clientsToDelete\<rparr>))"

definition getNonObsoleteClients :: "time \<Rightarrow> client_service \<Rightarrow> nat list" where
  "getNonObsoleteClients now sv = queryClients (\<lambda>c. \<not> Obsolete now (svKeep sv) c) sv"

definition GetAllActiveClients :: "client_service \<Rightarrow> nat list" where
  "GetAllActiveClients sv = queryClients IsConnected sv"

definition Count :: "time \<Rightarrow> client_service \<Rightarrow> nat" where
  "Count now sv = length (getNonObsoleteClients now sv)"

definition CountActive :: "client_service \<Rightarrow> nat" where
  "CountActive sv = length (GetAllActiveClients sv)"

definition CountDisconnected :: "time \<Rightarrow> client_service \<Rightarrow> nat" where
  "CountDisconnected now sv = length (filter (\<lambda>a. \<not> IsConnected (client_at sv a)) (getNonObsoleteClients now sv))"

definition Repo_GetByID :: "time \<Rightarrow> string \<Rightarrow> client_service \<Rightarrow> nat option" where
  "Repo_GetByID now cid sv =
     (case map_of (svState sv) cid of
        None \<Rightarrow> None
      | Some a \<Rightarrow> if Obsolete now (svKeep sv) (client_at sv a) then None else Some a)"

definition Repo_GetActiveByID :: "string \<Rightarrow> client_service \<Rightarrow> nat option" where
  "Repo_GetActiveByID cid sv =
     (case map_of (svState sv) cid of
        None \<Rightarrow> None
      | Some a \<Rightarrow> if \<not> IsConnected (client_at sv a) then None else Some a)"

definition GetAllByClientAuthID :: "time \<Rightarrow> string \<Rightarrow> client_service \<Rightarrow> nat list" where
  "GetAllByClientAuthID now clientAuthID sv =
     filter (\<lambda>a. clClientAuthID (client_at sv a) = clientAuthID) (getNonObsoleteClients now sv)"

definition findMatchingANDClients :: "client_service \<Rightarrow> nat list \<Rightarrow> string list \<Rightarrow> nat list" where
  "findMatchingANDClients sv as tags =
     filter (\<lambda>a. list_all (\<lambda>tag. list_ex (\<lambda>clTag. tag = clTag) (clTags (client_at sv a))) tags) as"

definition findMatchingORClients :: "client_service \<Rightarrow> nat list \<Rightarrow> string list \<Rightarrow> nat list" where
  "findMatchingORClients sv as tags =
     filter (\<lambda>a. list_ex (\<lambda>clTag. list_ex (\<lambda>tag. tag = clTag) tags) (clTags (client_at sv a))) as"

definition GetClientsByTag :: "time \<Rightarrow> string list \<Rightarrow> string \<Rightarrow> bool \<Rightarrow> client_service \<Rightarrow> nat list" where
  "GetClientsByTag now tags operator allowDisconnected sv =
     (let available = (if allowDisconnected then getNonObsoleteClients now sv else GetAllActiveClients sv)
      in if equal_fold operator ''AND'' then findMatchingANDClients sv available tags
         else findMatchingORClients sv available tags)"

definition getNonObsoleteClientsByUser :: "time \<Rightarrow> user \<Rightarrow> client_group list \<Rightarrow> client_service \<Rightarrow> nat list" where
  "getNonObsoleteClientsByUser now usr clientGroups sv =
     queryClients (\<lambda>c. \<not> Obsolete now (svKeep sv) c
       \<and> (IsAdmin usr \<or> HasAccessViaUserGroups c (groups_of usr)
          \<or> UserGroupHasAccessViaClientGroup c (groups_of usr) clientGroups)) sv"

section \<open>The client service\<close>

definition GetByGroups :: "time \<Rightarrow> client_group list \<Rightarrow> client_service \<Rightarrow> nat list" where
  "GetByGroups now groups sv =
     (if groups = [] then [] else filter (\<lambda>a. BelongsToOneOf (client_at sv a) groups) (getNonObsoleteClients now sv))"

definition PopulateGroupsWithUserClients ::
    "time \<Rightarrow> client_group list \<Rightarrow> user \<Rightarrow> client_service \<Rightarrow> client_group list" where
  "PopulateGroupsWithUserClients now groups usr sv =
     (let available = getNonObsoleteClientsByUser now usr groups sv
      in map (\<lambda>g. g\<lparr>cgClientIDs := sort (cgClientIDs g @
           map (\<lambda>a. clID (client_at sv a)) (filter (\<lambda>a. BelongsTo (client_at sv a) g) available))\<rparr>) groups)"

definition getExistingClientByID :: "time \<Rightarrow> string \<Rightarrow> client_service \<Rightarrow> nat res" where
  "getExistingClientByID now clientID sv =
     (if clientID = [] then Inl (APIError StatusBadRequest ''Client id is empty'' [])
      else case Repo_GetByID now clientID sv of
             None \<Rightarrow> Inl (APIError StatusNotFound ''Client with id=%q not found.'' [AS clientID])
           | Some a \<Rightarrow> Inr a)"

definition CheckClientsAccess :: "client list \<Rightarrow> user \<Rightarrow> client_group list \<Rightarrow> goerr option" where
  "CheckClientsAccess clients usr clientGroups =
     (if IsAdmin usr then None
      else let userGroups = groups_of usr;
               clientsWithNoAccess = map clID (filter (\<lambda>c. \<not> (HasAccessViaUserGroups c userGroups
                 \<or> UserGroupHasAccessViaClientGroup c userGroups clientGroups)) clients)
           in if clientsWithNoAccess \<noteq> []
              then Some (APIError StatusForbidden ''Access denied to client(s) with ID(s): %v'' [AS (join '', '' clientsWithNoAccess)])
              else None)"

definition CheckClientAccess :: "time \<Rightarrow> string \<Rightarrow> user \<Rightarrow> client_group list \<Rightarrow> client_service \<Rightarrow> goerr option" where
  "CheckClientAccess now clientID usr groups sv =
     (case getExistingClientByID now clientID sv of
        Inl e \<Rightarrow> Some e
      | Inr a \<Rightarrow> CheckClientsAccess [client_at sv a] usr groups)"

definition Service_Terminate :: "goerr option \<Rightarrow> time \<Rightarrow> nat \<Rightarrow> client_service \<Rightarrow> goerr option \<times> client_service" where
  "Service_Terminate dberr now a sv =
     (if svKeep sv = Some 0 then Repo_Delete dberr a sv
      else let sv1 = set_client a ((client_at sv a)\<lparr>clDisconnectedAt := Some now\<rparr>) sv
           in (case Repo_GetByID now (clID (client_at sv1 a)) sv1 of
                 None \<Rightarrow> (None, sv1)
               | Some _ \<Rightarrow> Repo_Save dberr a sv1))"

text \<open>\<open>closeErr\<close> is the error of closing the connection of the client, if any.\<close>

definition ForceDelete :: "goerr option \<Rightarrow> goerr option \<Rightarrow> nat \<Rightarrow> client_service \<Rightarrow> goerr option \<times> client_service" where
  "ForceDelete closeErr dberr a sv =
     (if IsConnected (client_at sv a) \<and> clConnection (client_at sv a) \<noteq> None \<and> closeErr \<noteq> None then (closeErr, sv)
      else Repo_Delete dberr a sv)"

definition DeleteOffline :: "goerr option \<Rightarrow> time \<Rightarrow> string \<Rightarrow> client_service \<Rightarrow> goerr option \<times> client_service" where
  "DeleteOffline dberr now clientID sv =
     (case getExistingClientByID now clientID sv of
        Inl e \<Rightarrow> (Some e, sv)
      | Inr a \<Rightarrow>
          if IsConnected (client_at sv a)
          then (Some (APIError StatusBadRequest ''Client is active, should be disconnected'' []), sv)
          else Repo_Delete dberr a sv)"

definition isClientAuthIDInUse :: "time \<Rightarrow> string \<Rightarrow> string \<Rightarrow> client_service \<Rightarrow> bool" where
  "isClientAuthIDInUse now clientAuthID clientID sv =
     list_ex (\<lambda>a. clID (client_at sv a) \<noteq> clientID) (GetAllByClientAuthID now clientAuthID sv)"

text \<open>\<^verbatim>\<open>SetACL\<close>, \<^verbatim>\<open>SetUpdatesStatus\<close> and \<^verbatim>\<open>SetIPAddresses\<close> change a client in place and save it.\<close>

definition update_and_save ::
    "(client \<Rightarrow> client) \<Rightarrow> goerr option \<Rightarrow> time \<Rightarrow> string \<Rightarrow> client_service \<Rightarrow> goerr option \<times> client_service" where
  "update_and_save f dberr now clientID sv =
     (case getExistingClientByID now clientID sv of
        Inl e \<Rightarrow> (Some e, sv)
      | Inr a \<Rightarrow> Repo_Save dberr a (set_client a (f (client_at sv a)) sv))"

definition SetACL where
  "SetACL dberr now clientID allowedUserGroups sv =
     update_and_save (\<lambda>c. c\<lparr>clAllowedUserGroups := allowedUserGroups\<rparr>) dberr now clientID sv"

definition SetUpdatesStatus where
  "SetUpdatesStatus dberr now clientID updatesStatus sv =
     update_and_save (\<lambda>c. c\<lparr>clUpdatesStatus := Some updatesStatus\<rparr>) dberr now clientID sv"

definition SetIPAddresses where
  "SetIPAddresses dberr now clientID ipAddresses sv =
     update_and_save (\<lambda>c. c\<lparr>clIPAddresses := Some ipAddresses\<rparr>) dberr now clientID sv"

definition SetLastHeartbeat :: "time \<Rightarrow> string \<Rightarrow> time \<Rightarrow> client_service \<Rightarrow> goerr option \<times> client_service" where
  "SetLastHeartbeat now clientID heartbeat sv =
     (case getExistingClientByID now clientID sv of
        Inl e \<Rightarrow> (Some e, sv)
      | Inr a \<Rightarrow> (None, set_client a (SetLastHeartbeatAt heartbeat (client_at sv a)) sv))"

section \<open>The status check\<close>

definition getDueClients :: "time \<Rightarrow> duration \<Rightarrow> client_service \<Rightarrow> nat list" where
  "getDueClients now threshold sv =
     filter (\<lambda>a. case clLastHeartbeatAt (client_at sv a) of
                   None \<Rightarrow> True
                 | Some t \<Rightarrow> \<not> now - t < threshold - 10 * Second) (GetAllActiveClients sv)"

text \<open>
  What \<^verbatim>\<open>PingClients\<close> does with the answer of a client: \<open>ok\<close>, whether there was an error, and the response.
  The ping goes over the connection the client had when it was sent; the answer changes the client as
  it is when it arrives.
\<close>

definition ping_alive :: "bool \<Rightarrow> bool \<Rightarrow> string \<Rightarrow> bool" where
  "ping_alive ok failed response \<longleftrightarrow>
     (\<not> ok \<and> \<not> failed \<and> response = ''unknown request'') \<or> (ok \<and> \<not> failed \<and> response = ''null'')
     \<or> (ok \<and> \<not> failed \<and> response = [])"

definition ping_result :: "time \<Rightarrow> nat \<Rightarrow> bool \<Rightarrow> bool \<Rightarrow> string \<Rightarrow> client_service \<Rightarrow> client_service" where
  "ping_result now a ok failed response sv =
     (if ping_alive ok failed response then set_client a (SetLastHeartbeatAt now (client_at sv a)) sv
      else set_client a ((client_at sv a)\<lparr>clDisconnectedAt := Some now\<rparr>) sv)"


section \<open>The repository is well formed\<close>

text \<open>Every id is listed once and leads to a client that has it.\<close>

definition repo_wf :: "client_service \<Rightarrow> bool" where
  "repo_wf sv \<longleftrightarrow> distinct (map fst (svState sv)) \<and>
     (\<forall>cid a. map_of (svState sv) cid = Some a \<longrightarrow> a < length (svClients sv) \<and> clID (client_at sv a) = cid)"

lemma repo_wfD:
  assumes "repo_wf sv"
  shows "distinct (map fst (svState sv))"
    "map_of (svState sv) cid = Some a \<Longrightarrow> a < length (svClients sv)"
    "map_of (svState sv) cid = Some a \<Longrightarrow> clID (client_at sv a) = cid"
  using assms by (auto simp: repo_wf_def simp del: map_of_eq_Some_iff)

lemma repo_entry:
  assumes "repo_wf sv"
  shows "a \<in> set (map snd (svState sv)) \<longleftrightarrow> map_of (svState sv) (clID (client_at sv a)) = Some a"
proof
  assume "a \<in> set (map snd (svState sv))"
  then obtain cid where "(cid, a) \<in> set (svState sv)" by auto
  then have "map_of (svState sv) cid = Some a" using repo_wfD(1) [OF assms] by (simp add: map_of_is_SomeI)
  with repo_wfD(3) [OF assms this] show "map_of (svState sv) (clID (client_at sv a)) = Some a" by simp
next
  assume "map_of (svState sv) (clID (client_at sv a)) = Some a"
  then show "a \<in> set (map snd (svState sv))" using map_of_SomeD by force
qed

lemma queryClients_iff:
  assumes "repo_wf sv"
  shows "a \<in> set (queryClients f sv) \<longleftrightarrow> map_of (svState sv) (clID (client_at sv a)) = Some a \<and> f (client_at sv a)"
  using repo_entry [OF assms, of a] unfolding queryClients_def by auto

lemma set_client_simps [simp]:
  "svState (set_client a c sv) = svState sv" "svKeep (set_client a c sv) = svKeep sv"
  "svRows (set_client a c sv) = svRows sv" "svTunnels (set_client a c sv) = svTunnels sv"
  "length (svClients (set_client a c sv)) = length (svClients sv)"
  by (simp_all add: set_client_def)

lemma client_at_set:
  "client_at (set_client a c sv) b = (if a = b \<and> a < length (svClients sv) then c else client_at sv b)"
  by (cases "a = b") (auto simp: set_client_def list_update_beyond)

lemma set_client_wf [inv_intros]:
  "repo_wf sv \<Longrightarrow> clID c = clID (client_at sv a) \<Longrightarrow> repo_wf (set_client a c sv)"
  unfolding repo_wf_def by (simp add: client_at_set del: map_of_eq_Some_iff)

lemma Repo_Save_wf [inv_intros]:
  assumes "repo_wf sv" "a < length (svClients sv)"
  shows "repo_wf (snd (Repo_Save dberr a sv))"
  using assms unfolding repo_wf_def Repo_Save_def
  by (auto simp: distinct_update update_conv' simp del: map_of_eq_Some_iff split: option.splits if_splits)

lemma Repo_Delete_wf [inv_intros]: "repo_wf sv \<Longrightarrow> repo_wf (snd (Repo_Delete dberr a sv))"
  unfolding repo_wf_def Repo_Delete_def
  by (auto simp: distinct_delete delete_conv' simp del: map_of_eq_Some_iff split: option.splits if_splits)

lemma foldl_delete:
  "map_of (foldl (\<lambda>m a. AList.delete (f a) m) m as) k = (if k \<in> f ` set as then None else map_of m k)"
  by (induction as arbitrary: m) (auto simp: delete_conv')

lemma foldl_delete_distinct:
  "distinct (map fst m) \<Longrightarrow> distinct (map fst (foldl (\<lambda>m a. AList.delete (f a) m) m as))"
  by (induction as arbitrary: m) (auto simp: distinct_delete)

lemma DeleteObsolete_wf [inv_intros]: "repo_wf sv \<Longrightarrow> repo_wf (snd (DeleteObsolete dberr now sv))"
  unfolding repo_wf_def DeleteObsolete_def
  by (auto simp: Let_def foldl_delete foldl_delete_distinct simp del: map_of_eq_Some_iff split: option.splits if_splits)

lemma GetByID_Some:
  assumes "Repo_GetByID now cid sv = Some a"
  shows "map_of (svState sv) cid = Some a" "\<not> Obsolete now (svKeep sv) (client_at sv a)"
  using assms by (auto simp: Repo_GetByID_def split: option.splits if_splits)

lemma existing_Inr:
  "getExistingClientByID now cid sv = Inr a \<longleftrightarrow> cid \<noteq> [] \<and> Repo_GetByID now cid sv = Some a"
  by (auto simp: getExistingClientByID_def split: option.splits if_splits)

section \<open>Access\<close>

text \<open>The users that may see a client: administrators, the members of a group on its own list, and those of a group
  listed with a client group it belongs to.\<close>

definition may_access :: "user \<Rightarrow> client_group list \<Rightarrow> client \<Rightarrow> bool" where
  "may_access usr groups c \<longleftrightarrow>
     (\<exists>g \<in> set (groups_of usr). g = Administrators \<or> g \<in> set (clAllowedUserGroups c)
        \<or> (\<exists>cg \<in> set groups. BelongsTo c cg \<and> g \<in> set (cgAllowedUserGroups cg)))"

lemma HasAccessViaUserGroups_iff:
  "HasAccessViaUserGroups c gs \<longleftrightarrow> (\<exists>g \<in> set gs. g = Administrators \<or> g \<in> set (clAllowedUserGroups c))"
  by (induction gs) (auto simp: list_ex_iff)

lemma UserGroupHasAccessViaClientGroup_iff:
  "UserGroupHasAccessViaClientGroup c gs cgs \<longleftrightarrow>
     (\<exists>cg \<in> set cgs. BelongsTo c cg \<and> (\<exists>g \<in> set gs. g \<in> set (cgAllowedUserGroups cg)))"
  by (induction cgs) auto

lemma access_condition:
  "IsAdmin usr \<or> HasAccessViaUserGroups c (groups_of usr) \<or> UserGroupHasAccessViaClientGroup c (groups_of usr) groups
     \<longleftrightarrow> may_access usr groups c"
  unfolding HasAccessViaUserGroups_iff UserGroupHasAccessViaClientGroup_iff may_access_def IsAdmin_def by blast

lemma CheckClientsAccess_iff:
  "CheckClientsAccess cs usr groups = None \<longleftrightarrow> (\<forall>c \<in> set cs. may_access usr groups c)"
proof -
  have "CheckClientsAccess cs usr groups = None \<longleftrightarrow>
      (\<forall>c \<in> set cs. IsAdmin usr \<or> HasAccessViaUserGroups c (groups_of usr) \<or> UserGroupHasAccessViaClientGroup c (groups_of usr) groups)"
    by (auto simp: CheckClientsAccess_def Let_def filter_empty_conv)
  then show ?thesis by (simp only: access_condition)
qed

lemma listed_iff:
  assumes "repo_wf sv"
  shows "a \<in> set (getNonObsoleteClientsByUser now usr groups sv) \<longleftrightarrow>
     Repo_GetByID now (clID (client_at sv a)) sv = Some a \<and> may_access usr groups (client_at sv a)"
  unfolding getNonObsoleteClientsByUser_def queryClients_iff [OF assms] access_condition
  by (auto simp: Repo_GetByID_def split: option.splits if_splits)

text \<open>C5: A request for a single client is let through exactly if the client is in the list the user can query: both are
  the clients that exist, are not obsolete, and that the user may access as an administrator, through
  the list of the client itself or through a client group the client belongs to.\<close>

theorem client_access_exact:
  assumes "repo_wf sv" "cid \<noteq> []"
  shows "(CheckClientAccess now cid usr groups sv = None \<longleftrightarrow>
            cid \<in> clID ` client_at sv ` set (getNonObsoleteClientsByUser now usr groups sv)) \<and>
         (CheckClientAccess now cid usr groups sv = None \<longleftrightarrow>
            (\<exists>a. Repo_GetByID now cid sv = Some a \<and> may_access usr groups (client_at sv a)))"
proof -
  have check: "CheckClientAccess now cid usr groups sv = None \<longleftrightarrow>
      (\<exists>a. Repo_GetByID now cid sv = Some a \<and> may_access usr groups (client_at sv a))"
    using assms(2)
    by (auto simp: CheckClientAccess_def existing_Inr CheckClientsAccess_iff split: sum.splits)
       (auto simp: getExistingClientByID_def split: option.splits if_splits)
  have "cid \<in> clID ` client_at sv ` set (getNonObsoleteClientsByUser now usr groups sv) \<longleftrightarrow>
      (\<exists>a. clID (client_at sv a) = cid \<and> Repo_GetByID now cid sv = Some a \<and> may_access usr groups (client_at sv a))"
    using listed_iff [OF assms(1)] by (auto simp: image_iff)
  also have "\<dots> \<longleftrightarrow> (\<exists>a. Repo_GetByID now cid sv = Some a \<and> may_access usr groups (client_at sv a))"
    using repo_wfD(3) [OF assms(1)] GetByID_Some(1) by blast
  finally show ?thesis unfolding check by (intro conjI refl) (rule sym)
qed

definition example_sv :: client_service where
  "example_sv = \<lparr>svClients = [(new_client ''c1'')\<lparr>clName := ''db-17'', clClientAuthID := ''agent1''\<rparr>], svTunnels = [],
     svState = [(''c1'', 0)], svRows = [], svKeep = None, svPorts = NewPortDistributor {20000..20010},
     svProxyEnabled = False, svCaddy = False\<rparr>"

definition db_group :: client_group where
  "db_group = \<lparr>cgID = ''db'', cgDescription = [], cgParams = Some (noParams\<lparr>pName := Some [''DB-*'']\<rparr>),
     cgAllowedUserGroups = [''dba''], cgClientIDs = []\<rparr>"

definition dba_user :: user where
  "dba_user = \<lparr>uUsername = ''ann'', uPassword = [], uPasswordExpired = None, uGroups = Some [''dba''],
     uTwoFASendTo = [], uTotP = []\<rparr>"

theorem client_access_exact_witness:
  "repo_wf example_sv \<and> may_access dba_user [db_group] (client_at example_sv 0) \<and>
   CheckClientAccess 0 ''c1'' dba_user [db_group] example_sv = None"
proof -
  have wf: "repo_wf example_sv" by (simp add: repo_wf_def example_sv_def new_client_def)
  have "BelongsTo (client_at example_sv 0) db_group" by code_simp
  then have m: "may_access dba_user [db_group] (client_at example_sv 0)"
    by (simp add: may_access_def dba_user_def groups_of_def db_group_def)
  have "Repo_GetByID 0 ''c1'' example_sv = Some 0" by code_simp
  with wf m client_access_exact [OF wf, of "''c1''" 0 dba_user "[db_group]"] show ?thesis by simp
qed


section \<open>The middleware of the client routes\<close>

text \<open>
  What \<^verbatim>\<open>wrapClientAccessMiddleware\<close> of \<^verbatim>\<open>server/api_middleware.go\<close> does in turn: it writes responses and
  passes the request on. A failure to read the client groups is answered, but the check goes on with no
  groups.
\<close>

datatype middleware_act = Wrote "unit response" | PassedOn

definition wrapClientAccessMiddleware ::
    "goerr option \<Rightarrow> time \<Rightarrow> string \<Rightarrow> user res \<Rightarrow> client_group list \<Rightarrow> client_service \<Rightarrow> middleware_act list" where
  "wrapClientAccessMiddleware dberr now clientID curUser rows sv =
     (if clientID = [] then [Wrote (jsonErrorResponseWithTitle StatusBadRequest ''Missing client_id route param.'')]
      else case curUser of
        Inl e \<Rightarrow> [Wrote (jsonError e)]
      | Inr usr \<Rightarrow>
          let (acts, clientGroups) = (case Groups_GetAll dberr rows of
                Inl e \<Rightarrow> ([Wrote (jsonError e)], [])
              | Inr gs \<Rightarrow> ([], gs))
          in acts @ (case CheckClientAccess now clientID usr clientGroups sv of
                       Some e \<Rightarrow> [Wrote (jsonError e)]
                     | None \<Rightarrow> [PassedOn]))"

lemma may_access_mono: "may_access usr gs c \<Longrightarrow> set gs \<subseteq> set gs' \<Longrightarrow> may_access usr gs' c"
  unfolding may_access_def by blast

text \<open>A request that is passed on may access the client, also when the groups could not be read.\<close>

lemma middleware_passes_only_allowed:
  assumes "PassedOn \<in> set (wrapClientAccessMiddleware dberr now cid (Inr usr) rows sv)"
  shows "\<exists>a. Repo_GetByID now cid sv = Some a \<and> may_access usr rows (client_at sv a)"
proof -
  have "\<exists>gs. set gs \<subseteq> set rows \<and> CheckClientAccess now cid usr gs sv = None"
    using assms
    by (auto simp: wrapClientAccessMiddleware_def Groups_GetAll_def Let_def split: option.splits if_splits
        intro: exI [of _ "[]"] exI [of _ "sort_key (\<lambda>g. to_lower (cgID g)) rows"])
  then obtain gs where gs: "set gs \<subseteq> set rows" "CheckClientAccess now cid usr gs sv = None" by blast
  then obtain a where "Repo_GetByID now cid sv = Some a" "may_access usr gs (client_at sv a)"
    by (auto simp: CheckClientAccess_def existing_Inr CheckClientsAccess_iff split: sum.splits)
  with may_access_mono [OF _ gs(1)] show ?thesis by blast
qed

end
