(* ===== verification/ClientStart.thy ===== *)
theory ClientStart
  imports Clients
begin

text \<open>
  The start of a client when its agent connects, and the tunnels of a client: \<^verbatim>\<open>StartClient\<close>,
  \<^verbatim>\<open>startClientTunnels\<close>, \<^verbatim>\<open>StartTunnel\<close>, \<^verbatim>\<open>TerminateTunnel\<close>, \<^verbatim>\<open>SetTunnelACL\<close> and their helpers of
  \<^verbatim>\<open>server/clients/client_service.go\<close>, with the end of \<^verbatim>\<open>handleWebsocket\<close> of \<^verbatim>\<open>server/client_listener.go\<close>.
  They use the port distributor of \<open>Ports\<close>, the handlers of \<open>Tunnels\<close> and the repository of \<open>Clients\<close>.

  What lies outside the server is in \<open>start_env\<close>: the operating system, the answers of the agent, the
  comparison of versions of \<^verbatim>\<open>hashicorp/go-version\<close>, the Caddy server and the failure of saving. It answers
  the same question in the same way within one operation. \<^verbatim>\<open>StartClient\<close> is cut at the point up to which it
  only checks: it holds a lock for the client id, so starts of other clients can come in between.
\<close>

section \<open>Requests and the environment\<close>

record conn_request =
  crID :: string
  crName :: string
  crSessionID :: string
  crOS :: string
  crOSFullName :: string
  crOSVersion :: string
  crOSVirtualizationSystem :: string
  crOSVirtualizationRole :: string
  crOSArch :: string
  crOSFamily :: string
  crOSKernel :: string
  crVersion :: string
  crHostname :: string
  crCPUFamily :: string
  crCPUModel :: string
  crCPUModelName :: string
  crCPUVendor :: string
  crNumCPUs :: int
  crMemoryTotal :: int
  crTimezone :: string
  crIPv4 :: "string list"
  crIPv6 :: "string list"
  crTags :: "string list"
  crLabels :: "(string \<times> string) list"
  crRemotes :: "remote option list"
  crClientConfiguration :: "json option"

text \<open>\<open>seOldVersion\<close> is \<^term>\<open>None\<close> for a text that is no version, else whether it is below 0.6.4.\<close>

record start_env =
  seNet :: net_env
  seConns :: "string \<Rightarrow> connection list res"
  sePop :: "int set \<Rightarrow> int option"
  seTunnelAllowed :: "string \<Rightarrow> bool res"
  seOldVersion :: "string \<Rightarrow> bool option"
  seDbErr :: "goerr option"
  seUrlHost :: "string \<Rightarrow> string res"
  seAddRoute :: "string \<Rightarrow> int res"

text \<open>\<^verbatim>\<open>net.SplitHostPort\<close>.\<close>

definition after_last_colon :: "string \<Rightarrow> string" where
  "after_last_colon s = rev (takeWhile (\<lambda>c. c \<noteq> CHR '':'') (rev s))"

definition SplitHostPort :: "string \<Rightarrow> (string \<times> string) res" where
  "SplitHostPort s =
     (if CHR '':'' \<notin> set s then Inl (GoError ''address %s: missing port in address'' [AS s])
      else let port = after_last_colon s; front = take (length s - length port - 1) s
           in if hd s = CHR ''[''
              then if CHR '']'' \<notin> set s then Inl (GoError ''address %s: missing ']' in address'' [AS s])
                   else let host = takeWhile (\<lambda>c. c \<noteq> CHR '']'') (tl s)
                        in if front = CHR ''['' # host @ '']'' \<and> CHR ''['' \<notin> set host \<and> CHR '']'' \<notin> set port \<and> CHR ''['' \<notin> set port
                           then Inr (host, port)
                           else Inl (GoError ''address %s: malformed'' [AS s])
              else if CHR '':'' \<in> set front then Inl (GoError ''address %s: too many colons in address'' [AS s])
              else if CHR ''['' \<in> set s \<or> CHR '']'' \<in> set s then Inl (GoError ''address %s: malformed'' [AS s])
              else Inr (front, port))"

section \<open>Which tunnels to re-establish\<close>

definition sanitize_remote :: "remote \<Rightarrow> remote" where
  "sanitize_remote r =
     r\<lparr>rTunnelURL := [], rSkipTLSVerify := False, rAuthUser := [], rAuthPassword := [], rOwner := []\<rparr>"

fun sanitizeAgentRemotes :: "remote option list \<Rightarrow> remote list" where
  "sanitizeAgentRemotes [] = []"
| "sanitizeAgentRemotes (None # rs) = sanitizeAgentRemotes rs"
| "sanitizeAgentRemotes (Some r # rs) = sanitize_remote r # sanitizeAgentRemotes rs"

text \<open>The old remotes with their marks; \<open>mark_first\<close> marks the first one that is free and fits.\<close>

fun mark_first :: "(remote \<Rightarrow> bool) \<Rightarrow> (remote \<times> bool) list \<Rightarrow> (remote \<times> bool) list option" where
  "mark_first fits [] = None"
| "mark_first fits ((curOld, marked) # old) =
     (if \<not> marked \<and> fits curOld then Some ((curOld, True) # old)
      else map_option (\<lambda>old'. (curOld, marked) # old') (mark_first fits old))"

fun mark_local :: "remote option list \<Rightarrow> (remote \<times> bool) list \<Rightarrow> (remote \<times> bool) list option" where
  "mark_local [] old = Some old"
| "mark_local (None # new) old = mark_local new old"
| "mark_local (Some curNew # new) old =
     (if IsLocalSpecified curNew
      then (case mark_first (\<lambda>curOld. Remote_String curNew = Remote_String curOld) old of
              None \<Rightarrow> None
            | Some old' \<Rightarrow> mark_local new old')
      else mark_local new old)"

fun mark_random :: "remote option list \<Rightarrow> (remote \<times> bool) list \<Rightarrow> (remote \<times> bool) list option" where
  "mark_random [] old = Some old"
| "mark_random (None # new) old = mark_random new old"
| "mark_random (Some curNew # new) old =
     (if \<not> IsLocalSpecified curNew
      then (case mark_first (\<lambda>curOld. rLocalPortRandom curOld \<and> Remote_Remote curNew = Remote_Remote curOld
                   \<and> EqualACL curNew (rACL curOld)) old of
              None \<Rightarrow> None
            | Some old' \<Rightarrow> mark_random new old')
      else mark_random new old)"

definition forget_random_port :: "remote \<Rightarrow> remote" where
  "forget_random_port r = (if rLocalPortRandom r then r\<lparr>rLocalHost := [], rLocalPort := []\<rparr> else r)"

definition getTunnelsToReestablish :: "remote list \<Rightarrow> remote option list \<Rightarrow> remote list" where
  "getTunnelsToReestablish old new =
     (if length old < length new then []
      else case Option.bind (mark_local new (map (\<lambda>r. (r, False)) old)) (mark_random new) of
             None \<Rightarrow> []
           | Some marked \<Rightarrow> map (\<lambda>(r, _). forget_random_port r) (filter (\<lambda>(_, m). \<not> m) marked))"

definition unknown_request :: "goerr \<Rightarrow> bool" where
  "unknown_request e \<longleftrightarrow> contains_str (err_format e) ''unknown request''"

text \<open>\<^verbatim>\<open>clienttunnel.IsAllowed\<close>.\<close>

definition IsTunnelAllowed :: "start_env \<Rightarrow> string \<Rightarrow> bool res" where
  "IsTunnelAllowed env r =
     (case seTunnelAllowed env r of
        Inl e \<Rightarrow> if unknown_request e then Inr True else Inl e
      | Inr b \<Rightarrow> Inr b)"

fun exclude_loop :: "start_env \<Rightarrow> remote list \<Rightarrow> remote list \<Rightarrow> remote list \<Rightarrow> remote list res" where
  "exclude_loop env tunnels [] filtered = Inr filtered"
| "exclude_loop env tunnels (t # ts) filtered =
     (case IsTunnelAllowed env (Remote_Remote t) of
        Inl e \<Rightarrow> if unknown_request e then Inr tunnels else Inl e
      | Inr allowed \<Rightarrow> exclude_loop env tunnels ts (if allowed then filtered @ [t] else filtered))"

definition excludeNotAllowedTunnels :: "start_env \<Rightarrow> remote list \<Rightarrow> remote list res" where
  "excludeNotAllowedTunnels env tunnels = exclude_loop env tunnels tunnels []"

section \<open>Starting a tunnel\<close>

definition checkLocalPort :: "string \<Rightarrow> string \<Rightarrow> port_distributor \<Rightarrow> goerr option" where
  "checkLocalPort protocol port d =
     (let n = atoi port; localPort = atoi_value n
      in if atoi_failed n then Some (APIError StatusBadRequest ''Invalid local port: %s.'' [AS port])
         else if \<not> IsPortAllowed d localPort
         then Some (APIError StatusBadRequest ''Local port %d is not among allowed ports.'' [AI localPort])
         else case IsPortBusy d protocol localPort of
                Inl e \<Rightarrow> Some (APIError StatusBadRequest ''Cannot check local port %d: %v.'' [AI localPort])
              | Inr busy \<Rightarrow>
                  if busy then Some (APIError StatusConflict ''Local port %d already in use.'' [AI localPort]) else None)"

definition FindTunnelByRemote :: "nat \<Rightarrow> remote \<Rightarrow> client_service \<Rightarrow> nat option" where
  "FindTunnelByRemote a r sv =
     find (\<lambda>t. Remote_Equals (tnRemote (svTunnels sv ! t)) r) (clTunnels (client_at sv a))"

definition FindTunnel :: "nat \<Rightarrow> string \<Rightarrow> client_service \<Rightarrow> nat option" where
  "FindTunnel a tid sv = find (\<lambda>t. tnID (svTunnels sv ! t) = tid) (clTunnels (client_at sv a))"

definition startRegularTunnel ::
    "start_env \<Rightarrow> time \<Rightarrow> nat \<Rightarrow> remote \<Rightarrow> tunnel_acl option \<Rightarrow> client_service \<Rightarrow> (tunnel res \<times> client_service) option" where
  "startRegularTunnel env now a r acl sv =
     (let (tid, c) = NewTunnelID (client_at sv a); sv = set_client a c sv
      in case NewTunnel now tid r acl of
           Inl e \<Rightarrow> Some (Inl e, sv)
         | Inr t \<Rightarrow>
             (case Tunnel_Start (seNet env) t of
                None \<Rightarrow> None
              | Some (Some e, _) \<Rightarrow> Some (Inl e, sv)
              | Some (None, t) \<Rightarrow> Some (Inr t, sv)))"

definition localhost_acl :: "tunnel_acl option" where
  "localhost_acl = (case ParseTunnelACL ''127.0.0.1'' of Inl _ \<Rightarrow> None | Inr acl \<Rightarrow> acl)"

definition reserve_proxy_port :: "remote \<Rightarrow> client_service \<Rightarrow> client_service" where
  "reserve_proxy_port r sv =
     (if atoi_failed (atoi (rLocalPort r)) then sv
      else sv\<lparr>svPorts := Reserve (rProtocol r) (atoi_value (atoi (rLocalPort r))) (svPorts sv)\<rparr>)"

definition startTunnelWithProxy ::
    "start_env \<Rightarrow> time \<Rightarrow> nat \<Rightarrow> remote \<Rightarrow> tunnel_acl option \<Rightarrow> client_service \<Rightarrow> (tunnel res \<times> client_service) option" where
  "startTunnelWithProxy env now a r acl sv =
     (let sv = reserve_proxy_port r sv
      in case GetRandomPort (seConns env) (sePop env) (rProtocol r) (svPorts sv) of
           (Inl e, d) \<Rightarrow> Some (Inl e, sv\<lparr>svPorts := d\<rparr>)
         | (Inr port, d) \<Rightarrow>
             (case startRegularTunnel env now a (r\<lparr>rLocalHost := ''127.0.0.1'', rLocalPort := itoa port\<rparr>) localhost_acl
                     (sv\<lparr>svPorts := d\<rparr>) of
                None \<Rightarrow> None
              | Some (Inl e, sv) \<Rightarrow> Some (Inl e, sv)
              | Some (Inr t, sv) \<Rightarrow>
                  (case Proxy_Start (seNet env) (NewInternalTunnelProxy t (rLocalHost r) (rLocalPort r) acl) of
                     (Some e, _) \<Rightarrow>
                       (case Tunnel_Terminate True t of
                          None \<Rightarrow> None
                        | Some (tErr # _, _) \<Rightarrow> Some (Inl tErr, sv)
                        | Some ([], _) \<Rightarrow>
                            Some (Inl (GoError ''tunnel started and terminated because of tunnel proxy start error'' []), sv))
                   | (None, tProxy) \<Rightarrow>
                       Some (Inr (t\<lparr>tnProxy := Some tProxy,
                                    tnRemote := (tnRemote t)\<lparr>rLocalHost := ipHost tProxy, rLocalPort := ipPort tProxy\<rparr>\<rparr>), sv))))"

definition startCaddyDownstreamProxy :: "start_env \<Rightarrow> remote \<Rightarrow> client_service \<Rightarrow> goerr option" where
  "startCaddyDownstreamProxy env r sv =
     (if \<not> svCaddy sv then Some (GoError ''cannot create a downstream proxy: the caddy integration is not enabled'' [])
      else case GetTunnelDomains (seUrlHost env) r of
             Inl e \<Rightarrow> Some e
           | Inr (subdomain, _) \<Rightarrow>
               (case seAddRoute env subdomain of
                  Inl e \<Rightarrow> Some e
                | Inr status \<Rightarrow>
                    if status \<noteq> StatusOK then Some (GoError ''failed to create downstream caddy proxy: status_code: %d'' [AI status])
                    else None))"

definition add_tunnel :: "nat \<Rightarrow> tunnel \<Rightarrow> client_service \<Rightarrow> nat \<times> client_service" where
  "add_tunnel a t sv =
     (let n = length (svTunnels sv); c = client_at sv a
      in (n, (set_client a (c\<lparr>clTunnels := clTunnels c @ [n]\<rparr>) sv)\<lparr>svTunnels := svTunnels sv @ [t]\<rparr>))"

text \<open>
  A tunnel whose Caddy route could not be made keeps its own listener: only its proxy is stopped, and it
  stays in the heap without belonging to a client.
\<close>

definition StartTunnel ::
    "start_env \<Rightarrow> time \<Rightarrow> nat \<Rightarrow> remote \<Rightarrow> tunnel_acl option \<Rightarrow> client_service \<Rightarrow> (nat res \<times> client_service) option" where
  "StartTunnel env now a r acl sv =
     (case FindTunnelByRemote a r sv of
        Some t \<Rightarrow> Some (Inr t, sv)
      | None \<Rightarrow>
          if svProxyEnabled sv \<and> rHTTPProxy r
          then (case startTunnelWithProxy env now a r acl sv of
                  None \<Rightarrow> None
                | Some (Inl e, sv) \<Rightarrow> Some (Inl e, sv)
                | Some (Inr t, sv) \<Rightarrow>
                    if HasSubdomainTunnel r
                    then (case startCaddyDownstreamProxy env r sv of
                            Some e \<Rightarrow>
                              Some (Inl e, sv\<lparr>svTunnels := svTunnels sv @ [t\<lparr>tnProxy := map_option Proxy_Stop (tnProxy t)\<rparr>]\<rparr>)
                          | None \<Rightarrow> (case add_tunnel a t sv of (n, sv) \<Rightarrow> Some (Inr n, sv)))
                    else (case add_tunnel a t sv of (n, sv) \<Rightarrow> Some (Inr n, sv)))
          else (case startRegularTunnel env now a r acl sv of
                  None \<Rightarrow> None
                | Some (Inl e, sv) \<Rightarrow> Some (Inl e, sv)
                | Some (Inr t, sv) \<Rightarrow> (case add_tunnel a t sv of (n, sv) \<Rightarrow> Some (Inr n, sv))))"

text \<open>The local side of a remote: a random port, or a check of the one it names.\<close>

definition choose_local :: "start_env \<Rightarrow> remote \<Rightarrow> port_distributor \<Rightarrow> remote res \<times> port_distributor" where
  "choose_local env r d =
     (if \<not> IsLocalSpecified r
      then (case GetRandomPort (seConns env) (sePop env) (rProtocol r) d of
              (Inl e, d) \<Rightarrow> (Inl e, d)
            | (Inr port, d) \<Rightarrow> (Inr (r\<lparr>rLocalPort := itoa port, rLocalHost := ZeroHost, rLocalPortRandom := True\<rparr>), d))
      else (case checkLocalPort (rProtocol r) (rLocalPort r) d of
              Some e \<Rightarrow> (Inl e, d)
            | None \<Rightarrow> (Inr r, d)))"

definition remote_acl :: "remote \<Rightarrow> tunnel_acl option res" where
  "remote_acl r = (case rACL r of None \<Rightarrow> Inr None | Some s \<Rightarrow> ParseTunnelACL s)"

fun start_loop ::
    "start_env \<Rightarrow> time \<Rightarrow> nat \<Rightarrow> remote list \<Rightarrow> nat list \<Rightarrow> client_service \<Rightarrow> (nat list res \<times> client_service) option" where
  "start_loop env now a [] tunnels sv = Some (Inr tunnels, sv)"
| "start_loop env now a (remote # remotes) tunnels sv =
     (if \<not> IsValidProtocol (rProtocol remote)
      then Some (Inl (APIError StatusBadRequest ''Unsupported protocol %q.'' [AS (rProtocol remote)]), sv)
      else case choose_local env remote (svPorts sv) of
             (Inl e, d) \<Rightarrow> Some (Inl e, sv\<lparr>svPorts := d\<rparr>)
           | (Inr r, d) \<Rightarrow>
               (case remote_acl r of
                  Inl e \<Rightarrow> Some (Inl e, sv\<lparr>svPorts := d\<rparr>)
                | Inr acl \<Rightarrow>
                    (case StartTunnel env now a r acl (sv\<lparr>svPorts := d\<rparr>) of
                       None \<Rightarrow> None
                     | Some (Inl e, sv') \<Rightarrow>
                         Some (Inl (APIError StatusConflict ''unable to start tunnel: %s'' [AS (err_format e)]), sv')
                     | Some (Inr t, sv') \<Rightarrow> start_loop env now a remotes (tunnels @ [t]) sv')))"

definition startClientTunnels ::
    "start_env \<Rightarrow> time \<Rightarrow> nat \<Rightarrow> remote list \<Rightarrow> client_service \<Rightarrow> (nat list res \<times> client_service) option" where
  "startClientTunnels env now a remotes sv =
     (case Refresh (seConns env) (svPorts sv) of
        (Some e, d) \<Rightarrow> Some (Inl e, sv\<lparr>svPorts := d\<rparr>)
      | (None, d) \<Rightarrow> start_loop env now a remotes [] (sv\<lparr>svPorts := d\<rparr>))"

text \<open>The exported form, for a tunnel an operator asks for, saves the client afterwards.\<close>

definition StartClientTunnels ::
    "start_env \<Rightarrow> time \<Rightarrow> nat \<Rightarrow> remote list \<Rightarrow> client_service \<Rightarrow> (nat list res \<times> client_service) option" where
  "StartClientTunnels env now a remotes sv =
     (case startClientTunnels env now a remotes sv of
        None \<Rightarrow> None
      | Some (Inl e, sv) \<Rightarrow> Some (Inl e, sv)
      | Some (Inr ts, sv) \<Rightarrow>
          (case Repo_Save (seDbErr env) a sv of
             (Some e, sv) \<Rightarrow> Some (Inl e, sv)
           | (None, sv) \<Rightarrow> Some (Inr ts, sv)))"

section \<open>Starting a client\<close>

definition stop_tunnel :: "tunnel \<Rightarrow> (goerr list \<times> tunnel) option" where
  "stop_tunnel t =
     map_option (\<lambda>(es, t). (es, t\<lparr>tnProxy := map_option Proxy_Stop (tnProxy t)\<rparr>)) (Tunnel_Terminate True t)"

fun releaseTunnelsForReconnect :: "nat list \<Rightarrow> client_service \<Rightarrow> client_service option" where
  "releaseTunnelsForReconnect [] sv = Some sv"
| "releaseTunnelsForReconnect (t # ts) sv =
     (case stop_tunnel (svTunnels sv ! t) of
        None \<Rightarrow> None
      | Some (_, t') \<Rightarrow> releaseTunnelsForReconnect ts (sv\<lparr>svTunnels := (svTunnels sv)[t := t']\<rparr>))"

definition set_from_request :: "conn_request \<Rightarrow> string \<Rightarrow> string \<Rightarrow> nat \<Rightarrow> client \<Rightarrow> client" where
  "set_from_request req clientAuthID clientHost conn c =
     c\<lparr>clName := crName req, clSessionID := crSessionID req, clOS := crOS req, clOSArch := crOSArch req,
       clOSFamily := crOSFamily req, clOSKernel := crOSKernel req, clOSFullName := crOSFullName req,
       clOSVersion := crOSVersion req, clOSVirtualizationSystem := crOSVirtualizationSystem req,
       clOSVirtualizationRole := crOSVirtualizationRole req, clHostname := crHostname req,
       clCPUFamily := crCPUFamily req, clCPUModel := crCPUModel req, clCPUModelName := crCPUModelName req,
       clCPUVendor := crCPUVendor req, clNumCPUs := crNumCPUs req, clMemoryTotal := crMemoryTotal req,
       clTimezone := crTimezone req, clIPv4 := crIPv4 req, clIPv6 := crIPv6 req, clTags := crTags req,
       clLabels := crLabels req, clVersion := crVersion req, clClientConfiguration := crClientConfiguration req,
       clAddress := clientHost, clTunnels := [], clDisconnectedAt := None, clClientAuthID := clientAuthID,
       clConnection := Some conn\<rparr>"

definition NewClientFromConnRequest ::
    "nat option \<Rightarrow> string \<Rightarrow> string \<Rightarrow> conn_request \<Rightarrow> string \<Rightarrow> nat \<Rightarrow> client_service \<Rightarrow> nat \<times> client_service" where
  "NewClientFromConnRequest existingClient clientAuthID clientID req clientHost conn sv =
     (case existingClient of
        None \<Rightarrow> (length (svClients sv),
                 sv\<lparr>svClients := svClients sv @ [set_from_request req clientAuthID clientHost conn (new_client clientID)]\<rparr>)
      | Some a \<Rightarrow> (a, set_client a (set_from_request req clientAuthID clientHost conn (client_at sv a)) sv))"

definition supports_tunnel_allowed :: "start_env \<Rightarrow> string \<Rightarrow> bool" where
  "supports_tunnel_allowed env v = (case seOldVersion env v of None \<Rightarrow> True | Some older \<Rightarrow> \<not> older)"

text \<open>The checks on an existing client, with the remotes to start; nothing is changed yet.\<close>

definition check_existing ::
    "start_env \<Rightarrow> string \<Rightarrow> string \<Rightarrow> bool \<Rightarrow> conn_request \<Rightarrow> nat \<Rightarrow> client_service \<Rightarrow> remote option list res" where
  "check_existing env clientAuthID clientID authMultiuseCreds req a sv =
     (let client = client_at sv a;
          sessionReUsed = (crSessionID req \<noteq> [] \<and> crSessionID req = clSessionID client)
      in if IsConnected client \<and> \<not> sessionReUsed
         then Inl (GoError ''client is already connected: %s [%s]'' [AS (clName client), AS clientID])
         else if \<not> authMultiuseCreds \<and> clClientAuthID client \<noteq> [] \<and> clClientAuthID client \<noteq> clientAuthID
         then Inl (GoError ''client id %q is already registered to a different credential'' [AS clientID])
         else let oldTunnels = getTunnelsToReestablish (map (\<lambda>t. tnRemote (svTunnels sv ! t)) (clTunnels client)) (crRemotes req)
              in bind_res
                   (if supports_tunnel_allowed env (crVersion req)
                    then (case excludeNotAllowedTunnels env oldTunnels of
                            Inl e \<Rightarrow> Inl (GoError ''failed to filter tunnels: %v'' [AS (err_format e)])
                          | Inr ts \<Rightarrow> Inr ts)
                    else Inr oldTunnels)
                   (\<lambda>ts. Inr (crRemotes req @ map Some ts)))"

text \<open>The first part of \<^verbatim>\<open>StartClient\<close>: the host, the existing client and the remotes to start.\<close>

definition start_checks ::
    "start_env \<Rightarrow> time \<Rightarrow> string \<Rightarrow> string \<Rightarrow> string \<Rightarrow> bool \<Rightarrow> conn_request \<Rightarrow> client_service
       \<Rightarrow> ((string \<times> nat option \<times> remote option list) res \<times> client_service) option" where
  "start_checks env now clientAddr clientAuthID clientID authMultiuseCreds req sv =
     (case SplitHostPort clientAddr of
        Inl e \<Rightarrow> Some (Inl (GoError ''failed to get host for address %q: %v'' [AS clientAddr]), sv)
      | Inr (clientHost, _) \<Rightarrow>
          (case Repo_GetByID now clientID sv of
             None \<Rightarrow>
               if \<not> authMultiuseCreds \<and> isClientAuthIDInUse now clientAuthID clientID sv
               then Some (Inl (GoError ''client auth ID is already in use: %q'' [AS clientAuthID]), sv)
               else Some (Inr (clientHost, None, crRemotes req), sv)
           | Some a \<Rightarrow>
               (case check_existing env clientAuthID clientID authMultiuseCreds req a sv of
                  Inl e \<Rightarrow> Some (Inl e, sv)
                | Inr remotes \<Rightarrow>
                    (case releaseTunnelsForReconnect (clTunnels (client_at sv a)) sv of
                       None \<Rightarrow> None
                     | Some sv1 \<Rightarrow>
                         if \<not> authMultiuseCreds \<and> isClientAuthIDInUse now clientAuthID clientID sv1
                         then Some (Inl (GoError ''client auth ID is already in use: %q'' [AS clientAuthID]), sv1)
                         else Some (Inr (clientHost, Some a, remotes), sv1)))))"

text \<open>The second part: the client is made or changed, its tunnels are started, and it is saved.\<close>

definition start_register ::
    "start_env \<Rightarrow> time \<Rightarrow> string \<Rightarrow> string \<Rightarrow> nat \<Rightarrow> conn_request \<Rightarrow> string \<times> nat option \<times> remote option list \<Rightarrow> client_service
       \<Rightarrow> (nat res \<times> client_service) option" where
  "start_register env now clientAuthID clientID conn req checked sv =
     (case checked of (clientHost, existing, remotes) \<Rightarrow>
        case NewClientFromConnRequest existing clientAuthID clientID req clientHost conn sv of (a, sv1) \<Rightarrow>
          case (if clPaused (client_at sv1 a) then Some (Inr [], sv1)
                else startClientTunnels env now a (sanitizeAgentRemotes remotes) sv1) of
            None \<Rightarrow> None
          | Some (Inl e, sv2) \<Rightarrow> Some (Inl e, sv2)
          | Some (Inr _, sv2) \<Rightarrow>
              (case Repo_Save (seDbErr env) a sv2 of
                 (Some e, sv3) \<Rightarrow> Some (Inl e, sv3)
               | (None, sv3) \<Rightarrow> Some (Inr a, sv3)))"

definition StartClient ::
    "start_env \<Rightarrow> time \<Rightarrow> string \<Rightarrow> string \<Rightarrow> string \<Rightarrow> nat \<Rightarrow> bool \<Rightarrow> conn_request \<Rightarrow> client_service
       \<Rightarrow> (nat res \<times> client_service) option" where
  "StartClient env now clientAddr clientAuthID clientID conn authMultiuseCreds req sv =
     (case start_checks env now clientAddr clientAuthID clientID authMultiuseCreds req sv of
        None \<Rightarrow> None
      | Some (Inl e, sv1) \<Rightarrow> Some (Inl e, sv1)
      | Some (Inr checked, sv1) \<Rightarrow> start_register env now clientAuthID clientID conn req checked sv1)"

text \<open>\<^verbatim>\<open>getClientID\<close> of the listener; \<open>fresh\<close> is a random id.\<close>

definition getClientID :: "string \<Rightarrow> bool \<Rightarrow> bool \<Rightarrow> string \<Rightarrow> string res \<Rightarrow> string res" where
  "getClientID reqID authMultiuseCreds equateClientauthidClientid clientAuthID fresh =
     (if reqID \<noteq> [] then Inr reqID
      else if \<not> authMultiuseCreds \<and> equateClientauthidClientid then Inr clientAuthID
      else fresh)"

text \<open>The end of \<^verbatim>\<open>handleWebsocket\<close>, when the connection \<open>conn\<close> of the client is gone.\<close>

definition connection_lost :: "goerr option \<Rightarrow> time \<Rightarrow> nat \<Rightarrow> nat \<Rightarrow> client_service \<Rightarrow> client_service" where
  "connection_lost dberr now a conn sv =
     (if clConnection (client_at sv a) = Some conn then snd (Service_Terminate dberr now a sv) else sv)"

section \<open>Stopping and changing a tunnel\<close>

definition RemoveTunnelByID :: "nat \<Rightarrow> string \<Rightarrow> client_service \<Rightarrow> client_service" where
  "RemoveTunnelByID a tid sv =
     (let c = client_at sv a
      in set_client a (c\<lparr>clTunnels := filter (\<lambda>t. tnID (svTunnels sv ! t) \<noteq> tid) (clTunnels c)\<rparr>) sv)"

definition OwnsTunnel :: "nat \<Rightarrow> nat \<Rightarrow> client_service \<Rightarrow> bool" where
  "OwnsTunnel a t sv = list_ex (\<lambda>x. x = t) (clTunnels (client_at sv a))"

definition stop_proxy :: "nat \<Rightarrow> client_service \<Rightarrow> client_service" where
  "stop_proxy t sv =
     sv\<lparr>svTunnels := (svTunnels sv)[t := (svTunnels sv ! t)\<lparr>tnProxy := map_option Proxy_Stop (tnProxy (svTunnels sv ! t))\<rparr>]\<rparr>"

definition TerminateTunnel ::
    "goerr option \<Rightarrow> nat \<Rightarrow> nat \<Rightarrow> bool \<Rightarrow> client_service \<Rightarrow> (goerr list \<times> client_service) option" where
  "TerminateTunnel dberr a t force sv =
     (case Tunnel_Terminate force (svTunnels sv ! t) of
        None \<Rightarrow> None
      | Some (e # es, t') \<Rightarrow> Some (e # es, sv\<lparr>svTunnels := (svTunnels sv)[t := t']\<rparr>)
      | Some ([], t') \<Rightarrow>
          let sv1 = stop_proxy t (sv\<lparr>svTunnels := (svTunnels sv)[t := t']\<rparr>);
              sv2 = RemoveTunnelByID a (tnID t') sv1
          in Some ([], snd (Repo_Save dberr a sv2)))"

definition cleanupAfterAutoClose :: "goerr option \<Rightarrow> nat \<Rightarrow> nat \<Rightarrow> client_service \<Rightarrow> client_service" where
  "cleanupAfterAutoClose dberr a t sv =
     (if \<not> OwnsTunnel a t sv then sv
      else snd (Repo_Save dberr a (RemoveTunnelByID a (tnID (svTunnels sv ! t)) (stop_proxy t sv))))"

text \<open>A firing of the idle timer: the tunnel is stopped, or the time until the next look.\<close>

definition idle_timer ::
    "goerr option \<Rightarrow> time \<Rightarrow> nat \<Rightarrow> nat \<Rightarrow> client_service \<Rightarrow> (duration option \<times> client_service) option" where
  "idle_timer dberr now a t sv =
     (let idleTimeout = wrap64 (rIdleTimeoutMinutes (tnRemote (svTunnels sv ! t)) * Minute);
          sinceLastActive = now - (case Tunnel_LastActive now (svTunnels sv ! t) of None \<Rightarrow> 0 | Some x \<Rightarrow> x)
      in if idleTimeout < sinceLastActive
         then (case Tunnel_Terminate True (svTunnels sv ! t) of
                 None \<Rightarrow> None
               | Some (_, t') \<Rightarrow>
                   Some (None, cleanupAfterAutoClose dberr a t (sv\<lparr>svTunnels := (svTunnels sv)[t := t']\<rparr>)))
         else Some (Some (idleTimeout - sinceLastActive), sv))"

definition SetTunnelACL ::
    "goerr option \<Rightarrow> nat \<Rightarrow> nat \<Rightarrow> string option \<Rightarrow> client_service \<Rightarrow> goerr option \<times> client_service" where
  "SetTunnelACL dberr a t aclStr sv =
     (let tn = (svTunnels sv ! t)\<lparr>tnRemote := (tnRemote (svTunnels sv ! t))\<lparr>rACL := aclStr\<rparr>\<rparr>;
          sv1 = sv\<lparr>svTunnels := (svTunnels sv)[t := tn]\<rparr>
      in case (case aclStr of None \<Rightarrow> Inr None | Some s \<Rightarrow> ParseTunnelACL s) of
           Inl e \<Rightarrow> (Some e, sv1)
         | Inr acl \<Rightarrow>
             let tn2 = (Tunnel_SetACL acl tn)\<lparr>tnProxy := map_option (\<lambda>px. px\<lparr>ipACL := acl\<rparr>) (tnProxy tn)\<rparr>
             in (None, snd (Repo_Save dberr a (sv\<lparr>svTunnels := (svTunnels sv)[t := tn2]\<rparr>))))"


section \<open>What starting tunnels leaves alone\<close>

text \<open>
  Starting tunnels for a client changes its own list of tunnels and its counter, adds tunnels to the heap
  and takes ports; nothing else.
\<close>

definition core :: "client \<Rightarrow> client" where
  "core c = c\<lparr>clTunnels := [], clTunnelIDAutoIncrement := 0\<rparr>"

definition tunnel_frame :: "nat \<Rightarrow> client_service \<Rightarrow> client_service \<Rightarrow> bool" where
  "tunnel_frame a sv sv' \<longleftrightarrow>
     svState sv' = svState sv \<and> svRows sv' = svRows sv \<and> svKeep sv' = svKeep sv \<and>
     length (svClients sv') = length (svClients sv) \<and>
     (\<forall>b. b \<noteq> a \<longrightarrow> client_at sv' b = client_at sv b) \<and> core (client_at sv' a) = core (client_at sv a)"

lemma tunnel_frame_refl [simp]: "tunnel_frame a sv sv"
  by (simp add: tunnel_frame_def)

lemma tunnel_frame_trans: "tunnel_frame a s t \<Longrightarrow> tunnel_frame a t u \<Longrightarrow> tunnel_frame a s u"
  by (simp add: tunnel_frame_def)

lemma tunnel_frame_heap [simp]:
  "tunnel_frame a sv (sv\<lparr>svPorts := d\<rparr>)" "tunnel_frame a sv (sv\<lparr>svTunnels := ts\<rparr>)"
  by (simp_all add: tunnel_frame_def)

lemma tunnel_frame_ports [simp]: "tunnel_frame a (sv\<lparr>svPorts := d\<rparr>) sv' = tunnel_frame a sv sv'"
  by (simp add: tunnel_frame_def)

lemma tunnel_frame_set: "core c = core (client_at sv a) \<Longrightarrow> tunnel_frame a sv (set_client a c sv)"
  by (simp add: tunnel_frame_def client_at_set)

lemma core_tunnels [simp]: "core (c\<lparr>clTunnels := ts\<rparr>) = core c" "core (c\<lparr>clTunnelIDAutoIncrement := n\<rparr>) = core c"
  by (simp_all add: core_def)

lemma core_fields:
  assumes "core c = core d"
  shows "clID c = clID d" "clClientAuthID c = clClientAuthID d" "clDisconnectedAt c = clDisconnectedAt d"
    "clConnection c = clConnection d" "clSessionID c = clSessionID d" "Obsolete now keep c = Obsolete now keep d"
    "IsConnected c = IsConnected d"
proof -
  have sel: "f c = f d" if "\<And>x. f (core x) = f x" for f :: "client \<Rightarrow> 'b" using assms that by metis
  show "clID c = clID d" "clClientAuthID c = clClientAuthID d" "clDisconnectedAt c = clDisconnectedAt d"
    "clConnection c = clConnection d" "clSessionID c = clSessionID d"
    by (rule sel; simp add: core_def)+
  then show "Obsolete now keep c = Obsolete now keep d" "IsConnected c = IsConnected d"
    by (simp_all add: Obsolete_def IsConnected_def)
qed

lemma startRegularTunnel_frame:
  "startRegularTunnel env now a r acl sv = Some (res, sv') \<Longrightarrow> tunnel_frame a sv sv' \<and> svTunnels sv' = svTunnels sv
     \<and> clTunnels (client_at sv' a) = clTunnels (client_at sv a)"
  by (auto simp: startRegularTunnel_def NewTunnelID_def Let_def client_at_set
      intro!: tunnel_frame_set split: sum.splits option.splits prod.splits)

lemma startRegularTunnel_remote:
  "startRegularTunnel env now a r acl sv = Some (Inr t, sv') \<Longrightarrow> tnRemote t = r"
  by (auto simp: startRegularTunnel_def NewTunnelID_def Let_def NewTunnel_def Tunnel_Start_def
      split: sum.splits option.splits prod.splits if_splits tunnel_protocol.splits)

lemma startTunnelWithProxy_frame:
  assumes "startTunnelWithProxy env now a r acl sv = Some (res, sv')"
  shows "tunnel_frame a sv sv' \<and> svTunnels sv' = svTunnels sv \<and> clTunnels (client_at sv' a) = clTunnels (client_at sv a)"
proof -
  have base: "svState (reserve_proxy_port r sv) = svState sv" "tunnel_frame a sv (reserve_proxy_port r sv)"
    "svTunnels (reserve_proxy_port r sv) = svTunnels sv" "svClients (reserve_proxy_port r sv) = svClients sv"
    by (simp_all add: reserve_proxy_port_def tunnel_frame_def)
  obtain p d where g: "GetRandomPort (seConns env) (sePop env) (rProtocol r) (svPorts (reserve_proxy_port r sv)) = (p, d)"
    by fastforce
  show ?thesis
  proof (cases p)
    case (Inl e)
    with assms g have "sv' = (reserve_proxy_port r sv)\<lparr>svPorts := d\<rparr>" by (simp add: startTunnelWithProxy_def)
    with base show ?thesis by (simp add: tunnel_frame_def)
  next
    case (Inr port)
    obtain res1 where "startRegularTunnel env now a (r\<lparr>rLocalHost := ''127.0.0.1'', rLocalPort := itoa port\<rparr>) localhost_acl
        ((reserve_proxy_port r sv)\<lparr>svPorts := d\<rparr>) = Some (res1, sv')"
      using assms g Inr by (auto simp: startTunnelWithProxy_def Let_def split: option.splits prod.splits sum.splits list.splits)
    from startRegularTunnel_frame [OF this] base show ?thesis
      by (auto intro: tunnel_frame_trans)
  qed
qed

lemma startTunnelWithProxy_remote:
  assumes "startTunnelWithProxy env now a r acl sv = Some (Inr t, sv')"
  shows "\<exists>h p. tnRemote t = r\<lparr>rLocalHost := h, rLocalPort := p\<rparr>"
  using assms
  by (auto simp: startTunnelWithProxy_def Let_def dest!: startRegularTunnel_remote
      split: option.splits prod.splits sum.splits list.splits) (intro exI, rule refl)+


text \<open>
  The tunnels of a client that come from its agent: in the heap, and with none of the fields only the API
  may set.
\<close>

definition sanitized :: "remote \<Rightarrow> bool" where
  "sanitized r \<longleftrightarrow> rTunnelURL r = [] \<and> \<not> rSkipTLSVerify r \<and> rAuthUser r = [] \<and> rAuthPassword r = [] \<and> rOwner r = []"

definition clean_tunnels :: "nat \<Rightarrow> client_service \<Rightarrow> bool" where
  "clean_tunnels a sv \<longleftrightarrow>
     (\<forall>t \<in> set (clTunnels (client_at sv a)). t < length (svTunnels sv) \<and> sanitized (tnRemote (svTunnels sv ! t)))"

lemma sanitized_simps [simp]:
  "sanitized (sanitize_remote r)" "sanitized (r\<lparr>rLocalHost := h\<rparr>) = sanitized r" "sanitized (r\<lparr>rLocalPort := p\<rparr>) = sanitized r"
  "sanitized (r\<lparr>rLocalPortRandom := b\<rparr>) = sanitized r"
  by (simp_all add: sanitized_def sanitize_remote_def)

lemma sanitizeAgentRemotes_sanitized: "r \<in> set (sanitizeAgentRemotes rs) \<Longrightarrow> sanitized r"
  by (induction rs rule: sanitizeAgentRemotes.induct) auto

lemma add_tunnel_frame:
  assumes "add_tunnel a t sv = (n, sv')" "a < length (svClients sv)"
  shows "tunnel_frame a sv sv'" "clean_tunnels a sv \<Longrightarrow> sanitized (tnRemote t) \<Longrightarrow> clean_tunnels a sv'"
proof -
  have sv': "sv' = (set_client a ((client_at sv a)\<lparr>clTunnels := clTunnels (client_at sv a) @ [length (svTunnels sv)]\<rparr>) sv)\<lparr>svTunnels := svTunnels sv @ [t]\<rparr>"
    using assms(1) by (auto simp: add_tunnel_def Let_def)
  have "tunnel_frame a sv (set_client a ((client_at sv a)\<lparr>clTunnels := clTunnels (client_at sv a) @ [length (svTunnels sv)]\<rparr>) sv)"
    by (rule tunnel_frame_set) simp
  then show "tunnel_frame a sv sv'" unfolding sv' by (rule tunnel_frame_trans) simp
  show "clean_tunnels a sv \<Longrightarrow> sanitized (tnRemote t) \<Longrightarrow> clean_tunnels a sv'"
    using assms(2) unfolding sv' clean_tunnels_def by (auto simp: client_at_set nth_append set_client_def)
qed

lemma clean_tunnels_cong:
  "svTunnels sv' = svTunnels sv \<Longrightarrow> clTunnels (client_at sv' a) = clTunnels (client_at sv a) \<Longrightarrow>
     clean_tunnels a sv' = clean_tunnels a sv"
  by (simp add: clean_tunnels_def)

lemma tunnel_frame_length: "tunnel_frame a sv sv' \<Longrightarrow> length (svClients sv') = length (svClients sv)"
  by (simp add: tunnel_frame_def)

lemma StartTunnel_frame:
  assumes "StartTunnel env now a r acl sv = Some (res, sv')" "a < length (svClients sv)"
  shows "tunnel_frame a sv sv' \<and> (clean_tunnels a sv \<longrightarrow> sanitized r \<longrightarrow> clean_tunnels a sv')"
proof (cases "FindTunnelByRemote a r sv")
  case (Some t)
  with assms show ?thesis by (simp add: StartTunnel_def)
next
  case None
  define started where "started = (if svProxyEnabled sv \<and> rHTTPProxy r then startTunnelWithProxy env now a r acl sv
    else startRegularTunnel env now a r acl sv)"
  obtain res1 sv1 where s: "started = Some (res1, sv1)"
    using assms(1) None by (auto simp: StartTunnel_def started_def split: option.splits if_splits)
  have f: "tunnel_frame a sv sv1" "svTunnels sv1 = svTunnels sv" "clTunnels (client_at sv1 a) = clTunnels (client_at sv a)"
    using s startTunnelWithProxy_frame startRegularTunnel_frame unfolding started_def by (auto split: if_splits)
  have clean1: "clean_tunnels a sv \<Longrightarrow> clean_tunnels a sv1" using clean_tunnels_cong [OF f(2,3)] by simp
  have len: "a < length (svClients sv1)" using tunnel_frame_length [OF f(1)] assms(2) by simp
  have rem: "sanitized (tnRemote t)" if "res1 = Inr t" "sanitized r" for t
    using s that startTunnelWithProxy_remote startRegularTunnel_remote unfolding started_def
    by (fastforce split: if_splits)
  consider (err) "sv' = sv1" | (leak) t where "sv' = sv1\<lparr>svTunnels := svTunnels sv1 @ [t]\<rparr>"
    | (added) t n where "res1 = Inr t" "add_tunnel a t sv1 = (n, sv')"
    using assms(1) None s unfolding started_def
    by (auto simp: StartTunnel_def split: option.splits if_splits sum.splits prod.splits)
  then show ?thesis
  proof cases
    case err
    with f(1) clean1 show ?thesis by simp
  next
    case leak
    have "clean_tunnels a sv1 \<Longrightarrow> clean_tunnels a sv'" by (auto simp: leak clean_tunnels_def nth_append)
    with clean1 tunnel_frame_trans [OF f(1), of sv'] show ?thesis by (simp add: leak)
  next
    case added
    from add_tunnel_frame [OF added(2) len] f(1) clean1 rem [OF added(1)] show ?thesis
      by (blast intro: tunnel_frame_trans)
  qed
qed

lemma choose_local_sanitized: "choose_local env r d = (Inr r', d') \<Longrightarrow> sanitized r \<Longrightarrow> sanitized r'"
  by (auto simp: choose_local_def split: if_splits prod.splits sum.splits option.splits)

lemma start_loop_frame:
  assumes "start_loop env now a rs ts sv = Some (res, sv')" "a < length (svClients sv)"
  shows "tunnel_frame a sv sv' \<and> (clean_tunnels a sv \<longrightarrow> (\<forall>r \<in> set rs. sanitized r) \<longrightarrow> clean_tunnels a sv')"
  using assms
proof (induction rs arbitrary: ts sv)
  case (Cons r rs)
  have ports: "clean_tunnels a (sv\<lparr>svPorts := d\<rparr>) = clean_tunnels a sv" for d by (simp add: clean_tunnels_def)
  obtain c d where cl: "choose_local env r (svPorts sv) = (c, d)" by fastforce
  show ?case
  proof (cases "IsValidProtocol (rProtocol r) \<and> (\<exists>r' acl. c = Inr r' \<and> remote_acl r' = Inr acl)")
    case False
    with Cons.prems cl have "sv' = sv \<or> sv' = sv\<lparr>svPorts := d\<rparr>"
      by (auto split: sum.splits if_splits)
    then show ?thesis using ports by auto
  next
    case True
    then obtain r' acl where c: "c = Inr r'" "remote_acl r' = Inr acl" by blast
    obtain res1 sv1 where s: "StartTunnel env now a r' acl (sv\<lparr>svPorts := d\<rparr>) = Some (res1, sv1)"
      using Cons.prems(1) cl c True by (auto split: option.splits)
    have f: "tunnel_frame a sv sv1" "clean_tunnels a sv \<longrightarrow> sanitized r \<longrightarrow> clean_tunnels a sv1"
      using StartTunnel_frame [OF s] Cons.prems(2) ports choose_local_sanitized [of env r "svPorts sv" r' d] cl c by auto
    show ?thesis
    proof (cases res1)
      case (Inl e)
      with Cons.prems(1) cl c True s have "sv' = sv1" by auto
      with f show ?thesis by simp
    next
      case (Inr t)
      with Cons.prems(1) cl c True s have l: "start_loop env now a rs (ts @ [t]) sv1 = Some (res, sv')" by auto
      have "a < length (svClients sv1)" using Cons.prems(2) tunnel_frame_length [OF f(1)] by simp
      from Cons.IH [OF l this] f show ?thesis by (auto intro: tunnel_frame_trans)
    qed
  qed
qed simp

lemma startClientTunnels_frame:
  assumes "startClientTunnels env now a rs sv = Some (res, sv')" "a < length (svClients sv)"
  shows "tunnel_frame a sv sv' \<and> (clean_tunnels a sv \<longrightarrow> (\<forall>r \<in> set rs. sanitized r) \<longrightarrow> clean_tunnels a sv')"
proof -
  have ports: "clean_tunnels a (sv\<lparr>svPorts := d\<rparr>) = clean_tunnels a sv" for d by (simp add: clean_tunnels_def)
  obtain e d where r: "Refresh (seConns env) (svPorts sv) = (e, d)" by fastforce
  show ?thesis
  proof (cases e)
    case None
    with assms r have "start_loop env now a rs [] (sv\<lparr>svPorts := d\<rparr>) = Some (res, sv')" by (simp add: startClientTunnels_def)
    from start_loop_frame [OF this] assms(2) ports show ?thesis by simp
  next
    case (Some x)
    with assms r have "sv' = sv\<lparr>svPorts := d\<rparr>" by (simp add: startClientTunnels_def)
    then show ?thesis using ports by auto
  qed
qed


section \<open>What starting a client does\<close>

lemma release_frame:
  "releaseTunnelsForReconnect ts sv = Some sv' \<Longrightarrow>
     svState sv' = svState sv \<and> svClients sv' = svClients sv \<and> svRows sv' = svRows sv \<and> svKeep sv' = svKeep sv
     \<and> length (svTunnels sv') = length (svTunnels sv)"
  by (induction ts arbitrary: sv) (auto split: option.splits)

lemma start_checks_Inr:
  assumes "start_checks env now addr auth cid multi req sv = Some (Inr (host, existing, remotes), sv1)"
  shows "existing = Repo_GetByID now cid sv"
    "svState sv1 = svState sv" "svClients sv1 = svClients sv" "svKeep sv1 = svKeep sv"
    "existing = Some a \<Longrightarrow> check_existing env auth cid multi req a sv = Inr remotes"
    "\<not> multi \<Longrightarrow> \<not> isClientAuthIDInUse now auth cid sv"
proof -
  have use: "isClientAuthIDInUse now auth cid sv' = isClientAuthIDInUse now auth cid sv"
    if "svState sv' = svState sv" "svClients sv' = svClients sv" "svKeep sv' = svKeep sv" for sv'
    using that by (simp add: isClientAuthIDInUse_def GetAllByClientAuthID_def getNonObsoleteClients_def queryClients_def)
  consider (new) "Repo_GetByID now cid sv = None" "existing = None" "sv1 = sv" "\<not> (\<not> multi \<and> isClientAuthIDInUse now auth cid sv1)"
    | (old) b where "Repo_GetByID now cid sv = Some b" "existing = Some b" "check_existing env auth cid multi req b sv = Inr remotes"
        "releaseTunnelsForReconnect (clTunnels (client_at sv b)) sv = Some sv1" "\<not> (\<not> multi \<and> isClientAuthIDInUse now auth cid sv1)"
    using assms unfolding start_checks_def by (auto split: sum.splits option.splits prod.splits if_splits)
  then have *: "existing = Repo_GetByID now cid sv \<and> svState sv1 = svState sv \<and> svClients sv1 = svClients sv \<and> svKeep sv1 = svKeep sv
      \<and> (existing = Some a \<longrightarrow> check_existing env auth cid multi req a sv = Inr remotes)
      \<and> (\<not> multi \<longrightarrow> \<not> isClientAuthIDInUse now auth cid sv)"
  proof cases
    case new
    then show ?thesis by auto
  next
    case old
    then show ?thesis using release_frame [OF old(4)] use [of sv1] by auto
  qed
  then show "existing = Repo_GetByID now cid sv" "svState sv1 = svState sv" "svClients sv1 = svClients sv" "svKeep sv1 = svKeep sv"
    "existing = Some a \<Longrightarrow> check_existing env auth cid multi req a sv = Inr remotes"
    "\<not> multi \<Longrightarrow> \<not> isClientAuthIDInUse now auth cid sv"
    by simp_all
qed

text \<open>The client a start works on: its place, and the service with the client made or changed.\<close>

lemma NewClient_props:
  assumes "NewClientFromConnRequest existing auth cid req host conn sv = (a, sv1)"
    and "\<And>b. existing = Some b \<Longrightarrow> b < length (svClients sv)"
  shows "a = (case existing of None \<Rightarrow> length (svClients sv) | Some b \<Rightarrow> b)" "a < length (svClients sv1)"
    "client_at sv1 a = set_from_request req auth host conn (case existing of None \<Rightarrow> new_client cid | Some b \<Rightarrow> client_at sv b)"
    "b < length (svClients sv) \<Longrightarrow> b \<noteq> a \<Longrightarrow> client_at sv1 b = client_at sv b"
    "svState sv1 = svState sv" "svKeep sv1 = svKeep sv" "length (svClients sv) \<le> length (svClients sv1)"
  using assms by (auto simp: NewClientFromConnRequest_def client_at_set nth_append split: option.splits)

lemma set_from_request_fields [simp]:
  "clID (set_from_request req auth host conn c) = clID c"
  "clClientAuthID (set_from_request req auth host conn c) = auth"
  "clDisconnectedAt (set_from_request req auth host conn c) = None"
  "clConnection (set_from_request req auth host conn c) = Some conn"
  "clTunnels (set_from_request req auth host conn c) = []"
  "clPaused (set_from_request req auth host conn c) = clPaused c"
  by (simp_all add: set_from_request_def)

lemma start_register_steps:
  assumes "start_register env now auth cid conn req (host, existing, remotes) sv = Some (Inr a, sv')"
  obtains sv1 sv2 where "NewClientFromConnRequest existing auth cid req host conn sv = (a, sv1)"
    "sv2 = sv1 \<or> startClientTunnels env now a (sanitizeAgentRemotes remotes) sv1 = Some (Inr [], sv2)
       \<or> (\<exists>ts. startClientTunnels env now a (sanitizeAgentRemotes remotes) sv1 = Some (Inr ts, sv2))"
    "Repo_Save (seDbErr env) a sv2 = (None, sv')"
  using assms unfolding start_register_def
  by (auto split: prod.splits option.splits sum.splits if_splits)

lemma start_register_Inr:
  assumes "start_register env now auth cid conn req (host, existing, remotes) sv = Some (Inr a, sv')"
    and "\<And>b. existing = Some b \<Longrightarrow> b < length (svClients sv)"
  shows "a = (case existing of None \<Rightarrow> length (svClients sv) | Some b \<Rightarrow> b)"
    "a < length (svClients sv')" "clClientAuthID (client_at sv' a) = auth" "IsConnected (client_at sv' a)"
    "clConnection (client_at sv' a) = Some conn"
    "clID (client_at sv' a) = (case existing of None \<Rightarrow> cid | Some b \<Rightarrow> clID (client_at sv b))"
    "clean_tunnels a sv'" "svKeep sv' = svKeep sv"
    "b < length (svClients sv) \<Longrightarrow> b \<noteq> a \<Longrightarrow> client_at sv' b = client_at sv b"
    "map_of (svState sv') = (map_of (svState sv))(clID (client_at sv' a) \<mapsto> a)"
proof -
  obtain sv1 sv2 where n: "NewClientFromConnRequest existing auth cid req host conn sv = (a, sv1)"
    and t: "sv2 = sv1 \<or> (\<exists>res. startClientTunnels env now a (sanitizeAgentRemotes remotes) sv1 = Some (res, sv2))"
    and s: "Repo_Save (seDbErr env) a sv2 = (None, sv')"
    using start_register_steps [OF assms(1)] by metis
  note P = NewClient_props [OF n assms(2)]
  have clean1: "clean_tunnels a sv1" by (simp add: clean_tunnels_def P(3))
  have f: "tunnel_frame a sv1 sv2" "clean_tunnels a sv2"
    using t startClientTunnels_frame [of env now a "sanitizeAgentRemotes remotes" sv1] P(2) clean1 sanitizeAgentRemotes_sanitized
    by auto
  have v: "svClients sv' = svClients sv2" "svTunnels sv' = svTunnels sv2" "svKeep sv' = svKeep sv2"
    "map_of (svState sv') = (map_of (svState sv2))(clID (client_at sv2 a) \<mapsto> a)"
    using s by (auto simp: Repo_Save_def update_conv' split: option.splits)
  note c = core_fields [OF f(1) [unfolded tunnel_frame_def, THEN conjunct2, THEN conjunct2, THEN conjunct2, THEN conjunct2, THEN conjunct2]]
  show "a = (case existing of None \<Rightarrow> length (svClients sv) | Some b \<Rightarrow> b)" by (rule P(1))
  show "a < length (svClients sv')" using P(2) tunnel_frame_length [OF f(1)] v(1) by simp
  show "clClientAuthID (client_at sv' a) = auth" "IsConnected (client_at sv' a)" "clConnection (client_at sv' a) = Some conn"
    using c P(3) v(1) by (simp_all add: IsConnected_def)
  show "clID (client_at sv' a) = (case existing of None \<Rightarrow> cid | Some b \<Rightarrow> clID (client_at sv b))"
    using c P(3) v(1) by (simp add: new_client_def split: option.splits)
  show "clean_tunnels a sv'" using f(2) v by (simp add: clean_tunnels_def)
  show "svKeep sv' = svKeep sv" using f(1) v P(6) by (simp add: tunnel_frame_def)
  show "b < length (svClients sv) \<Longrightarrow> b \<noteq> a \<Longrightarrow> client_at sv' b = client_at sv b"
    using P(4) f(1) v(1) by (simp add: tunnel_frame_def)
  show "map_of (svState sv') = (map_of (svState sv))(clID (client_at sv' a) \<mapsto> a)"
    using v f(1) P(5) by (simp add: tunnel_frame_def)
qed


lemma not_in_use:
  assumes "repo_wf sv" "\<not> isClientAuthIDInUse now auth cid sv" "map_of (svState sv) k = Some b"
    "\<not> Obsolete now (svKeep sv) (client_at sv b)" "clClientAuthID (client_at sv b) = auth"
  shows "k = cid"
proof -
  have k: "clID (client_at sv b) = k" by (rule repo_wfD(3) [OF assms(1,3)])
  then have "b \<in> set (GetAllByClientAuthID now auth sv)"
    using assms(3-5) by (simp add: GetAllByClientAuthID_def getNonObsoleteClients_def queryClients_iff [OF assms(1)])
  with assms(2) k show ?thesis by (auto simp: isClientAuthIDInUse_def list_ex_iff)
qed

lemma check_existing_Inr:
  assumes "check_existing env auth cid multi req a sv = Inr remotes"
  shows "IsConnected (client_at sv a) \<Longrightarrow> crSessionID req \<noteq> [] \<and> crSessionID req = clSessionID (client_at sv a)"
    "\<not> multi \<Longrightarrow> clClientAuthID (client_at sv a) = [] \<or> clClientAuthID (client_at sv a) = auth"
  using assms by (auto simp: check_existing_def Let_def split: if_splits)

section \<open>Properties\<close>



text \<open>C16: Every tunnel of a client that was just started is free of the fields only the API may set: no public address and
  so no Caddy route, no skipped verification, no password, no owner. A compromised agent cannot set them.
  The tunnels an operator had created with a password come back from a reconnect the same way, without it.\<close>

theorem started_tunnels_sanitized:
  assumes "repo_wf sv" "StartClient env now addr auth cid conn multi req sv = Some (Inr a, sv')"
    "t \<in> set (clTunnels (client_at sv' a))"
  shows "sanitized (tnRemote (svTunnels sv' ! t)) \<and> \<not> HasSubdomainTunnel (tnRemote (svTunnels sv' ! t))"
proof -
  obtain host existing remotes sv1 where
    c: "start_checks env now addr auth cid multi req sv = Some (Inr (host, existing, remotes), sv1)" and
    r: "start_register env now auth cid conn req (host, existing, remotes) sv1 = Some (Inr a, sv')"
    using assms(2) unfolding StartClient_def by (auto split: option.splits sum.splits prod.splits)
  have b: "existing = Some b \<Longrightarrow> b < length (svClients sv1)" for b
    using start_checks_Inr(1,3) [OF c] GetByID_Some(1) repo_wfD(2) [OF assms(1)] by metis
  from start_register_Inr(7) [OF r b] assms(3) show ?thesis
    by (auto simp: clean_tunnels_def sanitized_def HasSubdomainTunnel_def)
qed

section \<open>Starting tunnels does not panic\<close>

fun stoppable_handler :: "handler \<Rightarrow> bool" where
  "stoppable_handler (HTcp _) = True"
| "stoppable_handler (HUdp u) = (tuStatus u \<noteq> UdpNew)"

definition stoppable :: "tunnel \<Rightarrow> bool" where
  "stoppable t \<longleftrightarrow> list_all stoppable_handler (handlers (tnProtocol t))"

lemma terminate_all_stoppable:
  "list_all stoppable_handler hs \<Longrightarrow> terminate_all force hs \<noteq> None"
proof (induction hs)
  case (Cons h hs)
  then show ?case
    by (cases h) (auto simp: tunnelUDP_Terminate_def split: prod.splits udp_status.splits)
qed simp

lemma stop_tunnel_total: "stoppable t \<Longrightarrow> stop_tunnel t \<noteq> None"
  using terminate_all_stoppable [of "handlers (tnProtocol t)" True]
  by (auto simp: stop_tunnel_def Tunnel_Terminate_def stoppable_def Multi_Terminate_def tunnelUDP_Terminate_def
      split: option.splits tunnel_protocol.splits handler.splits udp_status.splits)

lemma stop_tunnel_stoppable: "stop_tunnel t = Some (es, t') \<Longrightarrow> stoppable t \<Longrightarrow> stoppable t'"
proof -
  have one: "handler_Terminate True h = Some (e, h') \<Longrightarrow> stoppable_handler h \<Longrightarrow>
      stoppable_handler h'" for h h' e
    by (cases h) (auto simp: tunnelUDP_Terminate_def split: prod.splits udp_status.splits)
  have all: "terminate_all True hs = Some (es, hs') \<Longrightarrow> list_all stoppable_handler hs
      \<Longrightarrow> list_all stoppable_handler hs'" for hs hs' es
  proof (induction hs arbitrary: hs' es)
    case (Cons h hs)
    then show ?case using one [of h] by (auto split: option.splits prod.splits)
  qed simp
  assume h: "stop_tunnel t = Some (es, t')" "stoppable t"
  show "stoppable t'"
  proof (cases "tnProtocol t")
    case (Some p)
    then show ?thesis
    proof (cases p)
      case (Single x)
      with Some h one [of x] show ?thesis
        by (auto simp: stop_tunnel_def Tunnel_Terminate_def stoppable_def split: option.splits)
    next
      case (Multi hs)
      with Some h all [of hs] show ?thesis
        by (auto simp: stop_tunnel_def Tunnel_Terminate_def stoppable_def Multi_Terminate_def split: option.splits if_splits)
    qed
  qed (use h in \<open>auto simp: stop_tunnel_def Tunnel_Terminate_def stoppable_def\<close>)
qed

lemma release_total:
  assumes "\<forall>t \<in> set ts. stoppable (svTunnels sv ! t)"
  shows "releaseTunnelsForReconnect ts sv \<noteq> None"
  using assms
proof (induction ts arbitrary: sv)
  case (Cons t ts)
  then obtain es t' where s: "stop_tunnel (svTunnels sv ! t) = Some (es, t')"
    using stop_tunnel_total [of "svTunnels sv ! t"] by auto
  have "stoppable t'" using stop_tunnel_stoppable [OF s] Cons.prems by simp
  then have "stoppable (((svTunnels sv)[t := t']) ! x)" if "x \<in> set ts" for x
    using Cons.prems that by (cases "x = t"; cases "t < length (svTunnels sv)") (auto simp: list_update_beyond)
  with Cons.IH [of "sv\<lparr>svTunnels := (svTunnels sv)[t := t']\<rparr>"] s show ?case by simp
qed simp

lemma startRegularTunnel_total:
  "\<exists>res sv'. startRegularTunnel env now a r acl sv = Some (res, sv') \<and> (\<forall>t. res = Inr t \<longrightarrow> all_running t)"
proof (cases "NewTunnel now (fst (NewTunnelID (client_at sv a))) r acl")
  case (Inl e)
  then show ?thesis by (cases "NewTunnelID (client_at sv a)") (simp add: startRegularTunnel_def)
next
  case (Inr t)
  from Tunnel_Start_result [OF this, of "seNet env"] obtain e t1 where
    "Tunnel_Start (seNet env) t = Some (e, t1)" "e = None \<longrightarrow> all_running t1" by blast
  with Inr show ?thesis by (cases "NewTunnelID (client_at sv a)"; cases e) (auto simp: startRegularTunnel_def)
qed

lemma startTunnelWithProxy_total: "startTunnelWithProxy env now a r acl sv \<noteq> None"
proof -
  obtain p d where g: "GetRandomPort (seConns env) (sePop env) (rProtocol r) (svPorts (reserve_proxy_port r sv)) = (p, d)"
    by fastforce
  show ?thesis
  proof (cases p)
    case (Inl e)
    with g show ?thesis by (simp add: startTunnelWithProxy_def)
  next
    case (Inr port)
    obtain res sv' where s: "startRegularTunnel env now a (r\<lparr>rLocalHost := ''127.0.0.1'', rLocalPort := itoa port\<rparr>) localhost_acl
        ((reserve_proxy_port r sv)\<lparr>svPorts := d\<rparr>) = Some (res, sv')" "\<forall>t. res = Inr t \<longrightarrow> all_running t"
      using startRegularTunnel_total by blast
    show ?thesis
    proof (cases res)
      case (Inl e)
      with s g Inr show ?thesis by (simp add: startTunnelWithProxy_def)
    next
      case (Inr t)
      with s(2) Tunnel_Terminate_result [of t True] obtain es t' where "Tunnel_Terminate True t = Some (es, t')" by blast
      with s(1) g \<open>p = Inr port\<close> Inr show ?thesis
        by (auto simp: startTunnelWithProxy_def split: prod.splits option.splits list.splits)
    qed
  qed
qed

lemma StartTunnel_total: "StartTunnel env now a r acl sv \<noteq> None"
proof -
  obtain x where "startTunnelWithProxy env now a r acl sv = Some x"
    using startTunnelWithProxy_total [of env now a r acl sv] by blast
  moreover obtain y where "startRegularTunnel env now a r acl sv = Some y" using startRegularTunnel_total by blast
  ultimately show ?thesis
    by (auto simp: StartTunnel_def split: option.splits sum.splits prod.splits)
qed

lemma choose_local_acl: "choose_local env r d = (Inr r', d') \<Longrightarrow> remote_acl r' = remote_acl r"
  by (auto simp: choose_local_def remote_acl_def split: if_splits prod.splits sum.splits option.splits)

lemma start_loop_bad_acl:
  "\<exists>r \<in> set rs. is_err (remote_acl r) \<Longrightarrow> \<exists>e sv'. start_loop env now a rs ts sv = Some (Inl e, sv')"
proof (induction rs arbitrary: ts sv)
  case (Cons r rs)
  obtain c d where cl: "choose_local env r (svPorts sv) = (c, d)" by fastforce
  show ?case
  proof (cases "IsValidProtocol (rProtocol r) \<and> (\<exists>r' acl. c = Inr r' \<and> remote_acl r' = Inr acl)")
    case False
    with cl show ?thesis by (auto split: sum.splits)
  next
    case True
    then obtain r' acl where c: "c = Inr r'" "remote_acl r' = Inr acl" by blast
    with choose_local_acl cl have "\<not> is_err (remote_acl r)" by fastforce
    with Cons.prems have "\<exists>r \<in> set rs. is_err (remote_acl r)" by auto
    moreover obtain res sv1 where "StartTunnel env now a r' acl (sv\<lparr>svPorts := d\<rparr>) = Some (res, sv1)"
      using StartTunnel_total by fastforce
    ultimately show ?thesis using Cons.IH cl c True by (cases res) auto
  qed
qed simp


section \<open>Two starts at the same time\<close>

lemma start_register_bare:
  assumes "\<And>d. \<exists>d'. Refresh (seConns env) d = (None, d')" "seDbErr env = None"
  shows "\<exists>sv'. start_register env now auth cid conn req (host, None, []) sv = Some (Inr (length (svClients sv)), sv')"
proof -
  obtain d where "Refresh (seConns env) (svPorts sv) = (None, d)" using assms(1) by blast
  then show ?thesis
    by (simp add: start_register_def NewClientFromConnRequest_def startClientTunnels_def Repo_Save_def assms(2))
qed

lemma connected_GetByID:
  "map_of (svState sv) cid = Some a \<Longrightarrow> IsConnected (client_at sv a) \<Longrightarrow> Repo_GetByID now cid sv = Some a"
  by (simp add: Repo_GetByID_def Obsolete_def IsConnected_def)

text \<open>The exclusive use of a credential does not survive two concurrent starts. The lock of \<^verbatim>\<open>StartClient\<close> is one
  per client id, so two agents with different ids and the same credential can both pass the checks before either is
  registered. Both are then connected under the one credential that is not meant to be shared.\<close>

theorem concurrent_starts_share_credential:
  assumes "repo_wf sv" "k1 \<noteq> k2" "Repo_GetByID now k1 sv = None" "Repo_GetByID now k2 sv = None"
    and "\<not> isClientAuthIDInUse now auth k1 sv" "\<not> isClientAuthIDInUse now auth k2 sv"
    and "SplitHostPort addr1 = Inr hp1" "SplitHostPort addr2 = Inr hp2" "crRemotes req1 = []" "crRemotes req2 = []"
    and "\<And>d. \<exists>d'. Refresh (seConns env) d = (None, d')" "seDbErr env = None"
  shows "\<exists>c1 c2 a1 a2 sv1 sv2.
      start_checks env now addr1 auth k1 False req1 sv = Some (Inr c1, sv) \<and>
      start_checks env now addr2 auth k2 False req2 sv = Some (Inr c2, sv) \<and>
      start_register env now auth k1 conn1 req1 c1 sv = Some (Inr a1, sv1) \<and>
      start_register env now auth k2 conn2 req2 c2 sv1 = Some (Inr a2, sv2) \<and>
      Repo_GetByID now k1 sv2 = Some a1 \<and> Repo_GetByID now k2 sv2 = Some a2 \<and>
      clClientAuthID (client_at sv2 a1) = auth \<and> clClientAuthID (client_at sv2 a2) = auth \<and>
      IsConnected (client_at sv2 a1) \<and> IsConnected (client_at sv2 a2)"
proof -
  have c1: "start_checks env now addr1 auth k1 False req1 sv = Some (Inr (fst hp1, None, []), sv)"
    and c2: "start_checks env now addr2 auth k2 False req2 sv = Some (Inr (fst hp2, None, []), sv)"
    using assms(3-10) by (simp_all add: start_checks_def split: prod.splits)
  obtain sv1 where r1: "start_register env now auth k1 conn1 req1 (fst hp1, None, []) sv = Some (Inr (length (svClients sv)), sv1)"
    using start_register_bare assms(11,12) by blast
  obtain sv2 where r2: "start_register env now auth k2 conn2 req2 (fst hp2, None, []) sv1 = Some (Inr (length (svClients sv1)), sv2)"
    using start_register_bare assms(11,12) by blast
  note p1 = start_register_Inr [OF r1, simplified] and p2 = start_register_Inr [OF r2, simplified]
  have same: "client_at sv2 (length (svClients sv)) = client_at sv1 (length (svClients sv))"
    using p2(9) [of "length (svClients sv)"] p1(2) by simp
  have "map_of (svState sv2) k1 = Some (length (svClients sv))" "map_of (svState sv2) k2 = Some (length (svClients sv1))"
    using p1(6,10) p2(6,10) assms(2) by simp_all
  with same p1(3,4) p2(3,4) have "Repo_GetByID now k1 sv2 = Some (length (svClients sv))"
    "Repo_GetByID now k2 sv2 = Some (length (svClients sv1))"
    by (simp_all add: connected_GetByID)
  with same p1(3,4) p2(3,4) show ?thesis
    by - (intro exI conjI, rule c1, rule c2, rule r1, rule r2, simp_all)
qed

section \<open>A refused ACL\<close>

lemma getTunnelsToReestablish_none: "getTunnelsToReestablish old [] = map forget_random_port old"
  by (simp add: getTunnelsToReestablish_def comp_def)

lemma exclude_loop_all:
  "\<forall>r. seTunnelAllowed env r = Inr True \<Longrightarrow> exclude_loop env tunnels ts acc = Inr (acc @ ts)"
  by (induction ts arbitrary: acc) (auto simp: IsTunnelAllowed_def)

lemma check_existing_silent:
  assumes "crRemotes req = []" "crSessionID req = clSessionID (client_at sv a)" "crSessionID req \<noteq> []"
    "clClientAuthID (client_at sv a) = auth" "\<forall>r. seTunnelAllowed env r = Inr True"
  shows "check_existing env auth cid multi req a sv =
     Inr (map (\<lambda>t. Some (forget_random_port (tnRemote (svTunnels sv ! t)))) (clTunnels (client_at sv a)))"
  using assms
  by (simp add: check_existing_def getTunnelsToReestablish_none excludeNotAllowedTunnels_def exclude_loop_all Let_def comp_def)

lemma sanitize_keeps_acl:
  "t \<in> set ts \<Longrightarrow> remote_acl (f t) = x \<Longrightarrow> \<exists>r \<in> set (sanitizeAgentRemotes (map (\<lambda>t. Some (forget_random_port (f t))) ts)). remote_acl r = x"
  by (induction ts) (auto simp: remote_acl_def sanitize_remote_def forget_random_port_def)

lemma start_register_bad_acl:
  assumes "a < length (svClients sv)" "\<not> clPaused (client_at sv a)" "\<exists>r \<in> set (sanitizeAgentRemotes remotes). is_err (remote_acl r)"
  shows "\<exists>e sv'. start_register env now auth cid conn req (host, Some a, remotes) sv = Some (Inl e, sv') \<and>
    IsConnected (client_at sv' a) \<and> clConnection (client_at sv' a) = Some conn \<and> svState sv' = svState sv"
proof -
  obtain sv1 where n: "NewClientFromConnRequest (Some a) auth cid req host conn sv = (a, sv1)"
    by (simp add: NewClientFromConnRequest_def)
  note np = NewClient_props [OF n]
  have np': "a < length (svClients sv1)" "client_at sv1 a = set_from_request req auth host conn (client_at sv a)" "svState sv1 = svState sv"
    using np assms(1) by simp_all
  obtain e sv2 where s: "startClientTunnels env now a (sanitizeAgentRemotes remotes) sv1 = Some (Inl e, sv2)"
    using start_loop_bad_acl [OF assms(3)] by (fastforce simp: startClientTunnels_def split: prod.splits option.splits)
  have "tunnel_frame a sv1 sv2" using startClientTunnels_frame [OF s np'(1)] by simp
  then have "core (client_at sv2 a) = core (client_at sv1 a)" "svState sv2 = svState sv"
    using np'(3) by (simp_all add: tunnel_frame_def)
  moreover from this(1) have "clDisconnectedAt (client_at sv2 a) = None" "clConnection (client_at sv2 a) = Some conn"
    using core_fields np'(2) by (metis set_from_request_fields)+
  moreover have "\<not> clPaused (client_at sv1 a)" using assms(2) np'(2) by simp
  ultimately show ?thesis using n s by (auto simp: start_register_def IsConnected_def)
qed


text \<open>\<^verbatim>\<open>SetTunnelACL\<close> stores the text of an ACL before it is parsed. A text that does not parse is answered with an
  error, yet it stays on the tunnel: when the agent reconnects, naming no tunnels of its own as agents do, the start of
  the client fails on that text, and the client is left marked as connected on the connection that was refused.\<close>

theorem refused_acl_breaks_reconnect:
  assumes "repo_wf sv" "Repo_GetByID now cid sv = Some a" "t \<in> set (clTunnels (client_at sv a))" "t < length (svTunnels sv)"
    and "\<forall>x \<in> set (clTunnels (client_at sv a)). stoppable (svTunnels sv ! x)"
    and "ParseTunnelACL s = Inl e" "SplitHostPort addr = Inr hp" "crRemotes req = []"
    and "crSessionID req = clSessionID (client_at sv a)" "crSessionID req \<noteq> []"
    and "clClientAuthID (client_at sv a) = auth" "\<not> isClientAuthIDInUse now auth cid sv" "\<not> clPaused (client_at sv a)"
    and "\<forall>r. seTunnelAllowed env r = Inr True"
  shows "\<exists>sv1. SetTunnelACL dberr a t (Some s) sv = (Some e, sv1) \<and>
    (\<exists>e' sv2. StartClient env now addr auth cid conn False req sv1 = Some (Inl e', sv2) \<and>
       Repo_GetByID now cid sv2 = Some a \<and> IsConnected (client_at sv2 a) \<and> clConnection (client_at sv2 a) = Some conn)"
proof -
  define tn where "tn = (svTunnels sv ! t)\<lparr>tnRemote := (tnRemote (svTunnels sv ! t))\<lparr>rACL := Some s\<rparr>\<rparr>"
  define sv1 where "sv1 = sv\<lparr>svTunnels := (svTunnels sv)[t := tn]\<rparr>"
  have set: "SetTunnelACL dberr a t (Some s) sv = (Some e, sv1)"
    using assms(6) by (simp add: SetTunnelACL_def sv1_def tn_def Let_def)
  have same: "client_at sv1 b = client_at sv b" "svState sv1 = svState sv" "svClients sv1 = svClients sv" for b
    by (simp_all add: sv1_def)
  have stop: "stoppable (svTunnels sv1 ! x)" if "x \<in> set (clTunnels (client_at sv a))" for x
    using assms(4,5) that by (cases "x = t") (auto simp: sv1_def tn_def stoppable_def)
  obtain sv2 where rel: "releaseTunnelsForReconnect (clTunnels (client_at sv1 a)) sv1 = Some sv2"
    using release_total [of "clTunnels (client_at sv1 a)" sv1] stop same(1) by auto
  note f = release_frame [OF rel]
  have use: "isClientAuthIDInUse now auth cid sv2 = isClientAuthIDInUse now auth cid sv"
    using f same by (simp add: isClientAuthIDInUse_def GetAllByClientAuthID_def getNonObsoleteClients_def queryClients_def sv1_def)
  define rs where "rs = map (\<lambda>x. Some (forget_random_port (tnRemote (svTunnels sv1 ! x)))) (clTunnels (client_at sv1 a))"
  have checks: "start_checks env now addr auth cid False req sv1 = Some (Inr (fst hp, Some a, rs), sv2)"
  proof -
    have "Repo_GetByID now cid sv1 = Some a"
      using assms(2) by (auto simp: Repo_GetByID_def sv1_def split: option.splits if_splits)
    moreover have "check_existing env auth cid False req a sv1 = Inr rs"
      unfolding rs_def by (rule check_existing_silent) (use assms(8-11,14) same(1) in simp_all)
    ultimately show ?thesis using assms(7,12) rel use by (simp add: start_checks_def split: prod.splits)
  qed
  have a: "a < length (svClients sv2)" "client_at sv2 a = client_at sv a"
    using repo_wfD(2) [OF assms(1) GetByID_Some(1) [OF assms(2)]] f same by simp_all
  have "remote_acl (tnRemote (svTunnels sv1 ! t)) = Inl e" using assms(4,6) by (simp add: sv1_def tn_def remote_acl_def)
  then have "\<exists>r \<in> set (sanitizeAgentRemotes rs). remote_acl r = Inl e"
    unfolding rs_def using sanitize_keeps_acl [of t _ "\<lambda>x. tnRemote (svTunnels sv1 ! x)"] assms(3) same(1) by simp
  then have bad: "\<exists>r \<in> set (sanitizeAgentRemotes rs). is_err (remote_acl r)" by (auto intro!: bexI)
  obtain e' sv3 where r: "start_register env now auth cid conn req (fst hp, Some a, rs) sv2 = Some (Inl e', sv3)"
    "IsConnected (client_at sv3 a)" "clConnection (client_at sv3 a) = Some conn" "svState sv3 = svState sv2"
    using start_register_bad_acl [OF a(1) _ bad] assms(13) a(2) by metis
  have "map_of (svState sv3) cid = Some a" using r(4) f same(2) GetByID_Some(1) [OF assms(2)] by simp
  with r checks set show ?thesis by (auto simp: StartClient_def intro: connected_GetByID)
qed

section \<open>Changing the ACL of a proxied tunnel\<close>

text \<open>Behind a proxy the tunnel itself admits only 127.0.0.1, where the proxy connects from. \<^verbatim>\<open>SetTunnelACL\<close> gives the
  new ACL to the proxy and to the inner tunnel alike. An ACL that does not name 127.0.0.1 therefore makes the inner tunnel
  refuse every connection of its own proxy.\<close>

theorem acl_change_cuts_off_proxy:
  assumes "tnProtocol (svTunnels sv ! t) = Some (Single (HTcp tcp))" "tnProxy (svTunnels sv ! t) = Some px" "t < length (svTunnels sv)"
    and "ParseTunnelACL s = Inr (Some acl)" "\<not> CheckAccess acl [127, 0, 0, 1]"
  shows "\<exists>sv' tcp' px'. SetTunnelACL dberr a t (Some s) sv = (None, sv') \<and>
     tnProtocol (svTunnels sv' ! t) = Some (Single (HTcp tcp')) \<and> tnProxy (svTunnels sv' ! t) = Some px' \<and> ipACL px' = Some acl \<and>
     (\<forall>ne now. fst (tcp_accept ne now [127, 0, 0, 1] tcp') = False)"
  using assms
  by (auto simp: SetTunnelACL_def Let_def Tunnel_SetACL_def tcp_accept_def admits_def Repo_Save_def
      split: option.splits)


section \<open>An example\<close>

text \<open>A quiet host, an agent that allows everything, and a client with one tunnel behind a password.\<close>

definition quiet_env :: start_env where
  "quiet_env = \<lparr>seNet = \<lparr>neListen = (\<lambda>_ _. None), neOpenChannel = (\<lambda>_. None)\<rparr>, seConns = (\<lambda>_. Inr []),
     sePop = (\<lambda>s. if s = {} then None else Some (Min s)), seTunnelAllowed = (\<lambda>_. Inr True), seOldVersion = (\<lambda>_. Some False),
     seDbErr = None, seUrlHost = (\<lambda>_. Inr []), seAddRoute = (\<lambda>_. Inr 200)\<rparr>"

definition agent_request :: conn_request where
  "agent_request = \<lparr>crID = [], crName = ''web-3'', crSessionID = ''s1'', crOS = [], crOSFullName = [], crOSVersion = [],
     crOSVirtualizationSystem = [], crOSVirtualizationRole = [], crOSArch = [], crOSFamily = [], crOSKernel = [],
     crVersion = ''1.0.0'', crHostname = [], crCPUFamily = [], crCPUModel = [], crCPUModelName = [], crCPUVendor = [],
     crNumCPUs = 4, crMemoryTotal = 0, crTimezone = [], crIPv4 = [], crIPv6 = [], crTags = [], crLabels = [], crRemotes = [],
     crClientConfiguration = None\<rparr>"

definition web_remote :: remote where
  "web_remote = empty_remote\<lparr>rProtocol := ProtocolTCP, rLocalHost := ZeroHost, rLocalPort := ''21'',
     rRemoteHost := ''10.0.0.2'', rRemotePort := ''80'', rScheme := Some ''http'', rHTTPProxy := True,
     rAuthUser := ''ann'', rAuthPassword := ''secret''\<rparr>"

definition web_tunnel :: tunnel where
  "web_tunnel = \<lparr>tnID = ''1'', tnRemote = web_remote, tnProtocol = Some (Single (HTcp (newTunnelTCP web_remote localhost_acl))),
     tnProxy = Some \<lparr>ipHost = ZeroHost, ipPort = ''21'', ipTunnelHost = ''127.0.0.1'', ipTunnelPort = ''22'',
       ipACL = None, ipListening = True\<rparr>, tnCreatedAt = 0\<rparr>"

definition web_sv :: client_service where
  "web_sv = \<lparr>svClients = [(new_client ''c1'')\<lparr>clClientAuthID := ''agent1'', clSessionID := ''s1'', clTunnels := [0]\<rparr>],
     svTunnels = [web_tunnel], svState = [(''c1'', 0)], svRows = [], svKeep = None,
     svPorts = NewPortDistributor (set [20, 21, 22, 23]), svProxyEnabled = True, svCaddy = False\<rparr>"

lemma web_sv_wf: "repo_wf web_sv"
  by (simp add: repo_wf_def web_sv_def new_client_def)

lemma addr_parts: "SplitHostPort ''198.51.100.7:4711'' = Inr (''198.51.100.7'', ''4711'')"
  by code_simp

lemma quiet_Refresh: "\<exists>d'. Refresh (seConns quiet_env) d = (None, d')"
  by (simp add: Refresh_def refresh_def ListBusyPorts_def ListBusyPorts_single_def quiet_env_def IsValidProtocol_def
      ProtocolTCP_def ProtocolUDP_def ProtocolTCPUDP_def)

lemma web_reconnect:
  "case StartClient quiet_env 0 ''198.51.100.7:4711'' ''agent1'' ''c1'' 7 False agent_request web_sv of
     Some (Inr a, sv') \<Rightarrow> a = 0 \<and> clTunnels (client_at sv' 0) = [1] \<and> rLocalPort (tnRemote (svTunnels sv' ! 1)) = ''21''
   | _ \<Rightarrow> False"
  by code_simp

text \<open>The client asked for a password when the tunnel was made; after the reconnect it asks for none.\<close>

theorem started_tunnels_sanitized_witness:
  "\<exists>sv'. StartClient quiet_env 0 ''198.51.100.7:4711'' ''agent1'' ''c1'' 7 False agent_request web_sv = Some (Inr 0, sv') \<and>
     rAuthPassword (tnRemote (svTunnels web_sv ! 0)) = ''secret'' \<and>
     rLocalPort (tnRemote (svTunnels sv' ! 1)) = ''21'' \<and> rAuthPassword (tnRemote (svTunnels sv' ! 1)) = []"
proof -
  obtain sv' where s: "StartClient quiet_env 0 ''198.51.100.7:4711'' ''agent1'' ''c1'' 7 False agent_request web_sv = Some (Inr 0, sv')"
    and t: "clTunnels (client_at sv' 0) = [1]" "rLocalPort (tnRemote (svTunnels sv' ! 1)) = ''21''"
    using web_reconnect by (auto split: option.splits prod.splits sum.splits)
  have "sanitized (tnRemote (svTunnels sv' ! 1))"
    using started_tunnels_sanitized [OF web_sv_wf s, of 1] t by simp
  with s t show ?thesis by (simp add: sanitized_def web_sv_def web_tunnel_def web_remote_def)
qed


theorem concurrent_starts_share_credential_witness:
  "\<exists>a1 a2 sv2. Repo_GetByID 0 ''x'' sv2 = Some a1 \<and> Repo_GetByID 0 ''y'' sv2 = Some a2 \<and>
     clClientAuthID (client_at sv2 a1) = ''agent2'' \<and> clClientAuthID (client_at sv2 a2) = ''agent2'' \<and>
     IsConnected (client_at sv2 a1) \<and> IsConnected (client_at sv2 a2)"
proof -
  have "Repo_GetByID 0 ''x'' web_sv = None" "Repo_GetByID 0 ''y'' web_sv = None"
    "\<not> isClientAuthIDInUse 0 ''agent2'' ''x'' web_sv" "\<not> isClientAuthIDInUse 0 ''agent2'' ''y'' web_sv"
    by code_simp+
  moreover have "crRemotes agent_request = []" "seDbErr quiet_env = None" by (simp_all add: agent_request_def quiet_env_def)
  ultimately show ?thesis
    using concurrent_starts_share_credential [OF web_sv_wf, of "''x''" "''y''" 0 "''agent2''" _ _ _ _ agent_request agent_request quiet_env 1 2]
      addr_parts quiet_Refresh by fastforce
qed

lemma web_sv_facts:
  "Repo_GetByID 0 ''c1'' web_sv = Some 0" "is_err (ParseTunnelACL ''any'')"
  "\<not> isClientAuthIDInUse 0 ''agent1'' ''c1'' web_sv" "\<not> clPaused (client_at web_sv 0)"
  by code_simp+

theorem refused_acl_breaks_reconnect_witness:
  "\<exists>e sv1 e' sv2. SetTunnelACL None 0 0 (Some ''any'') web_sv = (Some e, sv1) \<and>
     StartClient quiet_env 0 ''198.51.100.7:4711'' ''agent1'' ''c1'' 7 False agent_request sv1 = Some (Inl e', sv2) \<and>
     IsConnected (client_at sv2 0)"
proof -
  have "clTunnels (client_at web_sv 0) = [0]" "length (svTunnels web_sv) = 1" "stoppable (svTunnels web_sv ! 0)"
    "crRemotes agent_request = []" "crSessionID agent_request = clSessionID (client_at web_sv 0)" "crSessionID agent_request \<noteq> []"
    "clClientAuthID (client_at web_sv 0) = ''agent1''" "\<forall>r. seTunnelAllowed quiet_env r = Inr True"
    by (simp_all add: web_sv_def web_tunnel_def stoppable_def agent_request_def quiet_env_def)
  moreover obtain e where e: "ParseTunnelACL ''any'' = Inl e"
    using web_sv_facts(2) by (auto simp: is_err_def split: sum.splits)
  ultimately show ?thesis
    using refused_acl_breaks_reconnect [OF web_sv_wf web_sv_facts(1) _ _ _ e addr_parts, of 0 agent_request "''agent1''" quiet_env None 7]
      web_sv_facts(3,4) by auto
qed

theorem acl_change_cuts_off_proxy_witness:
  "\<exists>acl sv' tcp'. ParseTunnelACL ''203.0.113.0/24'' = Inr (Some acl) \<and> CheckAccess acl [203, 0, 113, 9] \<and>
     SetTunnelACL None 0 0 (Some ''203.0.113.0/24'') web_sv = (None, sv') \<and>
     tnProtocol (svTunnels sv' ! 0) = Some (Single (HTcp tcp')) \<and> fst (tcp_accept (seNet quiet_env) 0 [127, 0, 0, 1] tcp') = False"
proof -
  have "case ParseTunnelACL ''203.0.113.0/24'' of Inr (Some acl) \<Rightarrow> CheckAccess acl [203, 0, 113, 9] \<and> \<not> CheckAccess acl [127, 0, 0, 1]
      | _ \<Rightarrow> False" by code_simp
  then obtain acl where p: "ParseTunnelACL ''203.0.113.0/24'' = Inr (Some acl)" "CheckAccess acl [203, 0, 113, 9]" "\<not> CheckAccess acl [127, 0, 0, 1]"
    by (auto split: sum.splits option.splits)
  have "tnProtocol (svTunnels web_sv ! 0) = Some (Single (HTcp (newTunnelTCP web_remote localhost_acl)))" "0 < length (svTunnels web_sv)"
    "\<exists>px. tnProxy (svTunnels web_sv ! 0) = Some px"
    by (simp_all add: web_sv_def web_tunnel_def)
  with acl_change_cuts_off_proxy [OF _ _ _ p(1) p(3), of web_sv 0] p show ?thesis by fastforce
qed

end
