(* ===== verification/Query.thy ===== *)
theory Query
  imports ClientGroups
begin

text \<open>
  Listing with filters, sorting and pages: \<^verbatim>\<open>share/query\<close>. The parameters of a request are parsed, checked
  against what an endpoint supports, and either turned into a SQL statement with bound parameters or
  evaluated on the JSON form of an entry.

  \<^verbatim>\<open>url.Values\<close> and the maps of supported names are association lists with distinct keys in the order in
  which Go iterates over them. Texts are ASCII, which matters where a regular expression takes one
  character or ignores case. Numbers of a JSON document are integers below \<open>10 ^ 21\<close> that a
  \<^verbatim>\<open>float64\<close> holds exactly. A regular expression with other operators than the ones a wildcard
  produces is left to the parameter \<open>regexp\<close>: \<^term>\<open>None\<close> when it does not compile, and what it matches otherwise.
\<close>

type_synonym url_values = "(string \<times> string list) list"
type_synonym supported = "(string \<times> bool) list"
type_synonym regexp = "string \<Rightarrow> (string \<Rightarrow> bool) option"

definition is_supported :: "supported \<Rightarrow> string \<Rightarrow> bool" where
  "is_supported m k \<longleftrightarrow> map_of m k = Some True"

definition value_list :: "url_values \<Rightarrow> string \<Rightarrow> string list" where
  "value_list values k = (case map_of values k of None \<Rightarrow> [] | Some vs \<Rightarrow> vs)"

text \<open>The class \<^verbatim>\<open>\w\<close> of regular expressions.\<close>

definition is_word :: "char \<Rightarrow> bool" where
  "is_word c \<longleftrightarrow> (let n = of_char c :: nat in
     (48 \<le> n \<and> n \<le> 57) \<or> (65 \<le> n \<and> n \<le> 90) \<or> (97 \<le> n \<and> n \<le> 122) \<or> n = 95)"

section \<open>Sorting\<close>

record sort_option =
  soColumn :: string
  soIsASC :: bool

fun parse_sorts :: "string list \<Rightarrow> sort_option list" where
  "parse_sorts [] = []"
| "parse_sorts (s # ss) =
     (let so = trim_space s
      in if so = [] then parse_sorts ss
         else (if has_prefix so ''-''
               then \<lparr>soColumn = trim_left so CHR ''-'', soIsASC = False\<rparr>
               else \<lparr>soColumn = so, soIsASC = True\<rparr>) # parse_sorts ss)"

definition ParseSortOptions :: "url_values \<Rightarrow> sort_option list" where
  "ParseSortOptions values = parse_sorts (value_list values ''sort'')"

definition ValidateSortOptions :: "sort_option list \<Rightarrow> supported \<Rightarrow> goerr list" where
  "ValidateSortOptions so supportedFields =
     map (\<lambda>s. APIError StatusBadRequest (''unsupported sort field '%s'' @ [CHR 0x27]) [AS (soColumn s)])
       (filter (\<lambda>s. \<not> is_supported supportedFields (soColumn s)) so)"

section \<open>Filters\<close>

record filter_option =
  foColumn :: "string list"
  foOperator :: string
  foValues :: "string list"
  foLogical :: string
  foCompareFunc :: string

definition Code :: "string \<Rightarrow> string" where
  "Code fot =
     (if fot = ''eq'' then ''='' else if fot = ''gt'' then ''>'' else if fot = ''lt'' then ''<''
      else if fot = ''since'' then ''>='' else if fot = ''until'' then ''<='' else ''='')"

definition filter_key :: "string \<Rightarrow> string \<Rightarrow> string" where
  "filter_key col operator = col @ ''['' @ operator @ '']''"

definition isSupported :: "filter_option \<Rightarrow> supported \<Rightarrow> bool" where
  "isSupported fo supportedFields \<longleftrightarrow>
     list_all (\<lambda>col. (foOperator fo = '''' \<and> is_supported supportedFields col) \<or>
       is_supported supportedFields (filter_key col (foOperator fo))) (foColumn fo)"

definition setWildcardColumns :: "supported \<Rightarrow> filter_option \<Rightarrow> filter_option" where
  "setWildcardColumns supportedFields fo =
     fo\<lparr>foColumn := sort (filter (\<lambda>field. \<not> contains_str field ''['') (map fst supportedFields))\<rparr>"

definition unsupported_filter :: "filter_option \<Rightarrow> goerr" where
  "unsupported_filter fo =
     APIError StatusBadRequest (''unsupported filter field '%s'' @ [CHR 0x27]) [AS (''filter['' @ join ''|'' (foColumn fo) @ '']''
       @ (if foOperator fo \<noteq> '''' then ''['' @ foOperator fo @ '']'' else ''''))]"

definition validate_filter :: "supported \<Rightarrow> filter_option \<Rightarrow> goerr list \<times> filter_option" where
  "validate_filter supportedFields fo =
     (let wild = foColumn fo = [''*''];
          fo1 = (if wild then setWildcardColumns supportedFields fo else fo)
      in if wild \<and> foColumn fo1 = []
         then ([APIError StatusBadRequest (''unsupported filter field 'filter[*]'' @ [CHR 0x27]) []], fo1)
         else if \<not> isSupported fo1 supportedFields then ([unsupported_filter fo1], fo1)
         else ([], fo1))"

definition ValidateFilterOptions :: "filter_option list \<Rightarrow> supported \<Rightarrow> goerr list \<times> filter_option list" where
  "ValidateFilterOptions fo supportedFields =
     (let rs = map (validate_filter supportedFields) fo in (concat (map fst rs), map snd rs))"

text \<open>
  \<^verbatim>\<open>^filter\[([\w|*]+)](\[(\w+)])?\<close>: the column group and the operator group, which is empty when it
  takes no part in the match. Neither expression is anchored at the end.
\<close>

definition filterRegex :: "string \<Rightarrow> (string \<times> string) option" where
  "filterRegex key =
     (if \<not> has_prefix key ''filter['' then None
      else let rest = drop 7 key;
               in_class = (\<lambda>c. is_word c \<or> c = CHR ''|'' \<or> c = CHR ''*'');
               col = takeWhile in_class rest;
               after = dropWhile in_class rest
           in if col = [] \<or> \<not> has_prefix after '']'' then None
              else Some (col,
                case drop 1 after of
                  [] \<Rightarrow> []
                | c # cs \<Rightarrow>
                    if c = CHR ''['' \<and> takeWhile is_word cs \<noteq> [] \<and> has_prefix (dropWhile is_word cs) '']''
                    then takeWhile is_word cs else []))"

text \<open>
  \<^verbatim>\<open>^(and|or){1}\((.+)\)\<close>: the operator and the text up to the last closing parenthesis of the line.
\<close>

definition up_to_last_paren :: "string \<Rightarrow> string option" where
  "up_to_last_paren s =
     (case dropWhile (\<lambda>c. c \<noteq> CHR '')'') (rev (takeWhile (\<lambda>c. c \<noteq> CHR 0x0A) s)) of
        [] \<Rightarrow> None
      | _ # t \<Rightarrow> if t = [] then None else Some (rev t))"

definition valuesLogicalOpsblock :: "string \<Rightarrow> (string \<times> string) option" where
  "valuesLogicalOpsblock s =
     (if has_prefix s ''and('' then map_option (Pair ''and'') (up_to_last_paren (drop 4 s))
      else if has_prefix s ''or('' then map_option (Pair ''or'') (up_to_last_paren (drop 3 s))
      else None)"

fun getFilterValues_loop :: "string list \<Rightarrow> string list \<Rightarrow> string \<Rightarrow> string list \<times> string" where
  "getFilterValues_loop [] outValues op = (outValues, op)"
| "getFilterValues_loop (v # vs) outValues op =
     (let trimmed = trim_space v;
          (op1, text) = (case valuesLogicalOpsblock trimmed of None \<Rightarrow> (op, trimmed) | Some (o1, t) \<Rightarrow> (o1, t))
      in getFilterValues_loop vs (outValues @ map trim_space (split_on CHR '','' text)) op1)"

definition getFilterValues :: "string list \<Rightarrow> string list \<times> string" where
  "getFilterValues values = getFilterValues_loop values [] ''''"

definition getOrValues :: "string list \<Rightarrow> string list" where
  "getOrValues values = concat (map (\<lambda>v. split_on CHR '','' (trim_space v)) values)"

definition parse_filter :: "string \<times> string list \<Rightarrow> filter_option option" where
  "parse_filter kv =
     (let (filterKey, filterValues) = kv
      in if \<not> has_prefix filterKey ''filter'' \<or> filterValues = [] then None
         else let (operands, logicalOperator) = getFilterValues filterValues
              in if operands = [] then None
                 else case filterRegex filterKey of
                        None \<Rightarrow> None
                      | Some (m1, m3) \<Rightarrow>
                          let filterColumn = trim_space m1
                          in if filterColumn = [] then None
                             else Some \<lparr>foColumn = split_on CHR ''|'' filterColumn, foOperator = trim_space m3,
                                        foValues = operands, foLogical = logicalOperator, foCompareFunc = ''''\<rparr>)"

definition ParseFilterOptions :: "url_values \<Rightarrow> filter_option list" where
  "ParseFilterOptions values = List.map_filter parse_filter values"

definition SplitFilters :: "filter_option list \<Rightarrow> supported \<Rightarrow> filter_option list \<times> filter_option list" where
  "SplitFilters options keys =
     (let isThese = (\<lambda>o1. list_ex (\<lambda>c. map_of keys c \<noteq> None) (foColumn o1))
      in (filter isThese options, filter (\<lambda>o1. \<not> isThese o1) options))"

section \<open>Fields\<close>

record fields_option =
  fdResource :: string
  fdFields :: "string list"

definition fieldsRegex :: "string \<Rightarrow> string option" where
  "fieldsRegex key =
     (if \<not> has_prefix key ''fields['' then None
      else let rest = drop 7 key
           in if takeWhile is_word rest = [] \<or> \<not> has_prefix (dropWhile is_word rest) '']'' then None
              else Some (takeWhile is_word rest))"

definition parse_fields :: "string \<times> string list \<Rightarrow> fields_option option" where
  "parse_fields kv =
     (let (fieldsKey, fieldsValues) = kv
      in if \<not> has_prefix fieldsKey ''fields'' \<or> fieldsValues = [] then None
         else let orValues = getOrValues fieldsValues
              in if orValues = [] then None
                 else case fieldsRegex fieldsKey of
                        None \<Rightarrow> None
                      | Some m1 \<Rightarrow>
                          let fieldsResource = trim_space m1
                          in if fieldsResource = [] then None
                             else Some \<lparr>fdResource = fieldsResource, fdFields = orValues\<rparr>)"

definition ParseFieldsOptions :: "url_values \<Rightarrow> fields_option list" where
  "ParseFieldsOptions values = List.map_filter parse_fields values"

definition ValidateFieldsOptions :: "fields_option list \<Rightarrow> (string \<times> supported) list \<Rightarrow> goerr list" where
  "ValidateFieldsOptions fieldOptions supportedFields =
     concat (map (\<lambda>fo.
       case map_of supportedFields (fdResource fo) of
         None \<Rightarrow> [APIError StatusBadRequest ''unsupported resource in fields: %q'' [AS (fdResource fo)]]
       | Some fs \<Rightarrow>
           map (\<lambda>field. APIError StatusBadRequest ''unsupported field %q for resource %q'' [AS field, AS (fdResource fo)])
             (filter (\<lambda>field. \<not> is_supported fs field) (fdFields fo))) fieldOptions)"

definition RequestedFields :: "fields_option list \<Rightarrow> string \<Rightarrow> string list" where
  "RequestedFields fos resource =
     remdups (concat (map fdFields (filter (\<lambda>res. fdResource res = resource) fos)))"

section \<open>Pages\<close>

record pagination =
  pgLimit :: string
  pgOffset :: string
  pgValidatedLimit :: int
  pgValidatedOffset :: int

record pagination_config =
  pcMaxLimit :: int
  pcDefaultLimit :: int

definition NewPagination :: "int \<Rightarrow> int \<Rightarrow> pagination" where
  "NewPagination limit offset =
     \<lparr>pgLimit = itoa limit, pgOffset = itoa offset, pgValidatedLimit = limit, pgValidatedOffset = offset\<rparr>"

definition ValidatePagination :: "pagination option \<Rightarrow> pagination_config \<Rightarrow> goerr list \<times> pagination option" where
  "ValidatePagination pg config =
     (case pg of
        None \<Rightarrow> ([], None)
      | Some p \<Rightarrow>
          let limitText = (if pgLimit p = '''' then itoa (pcDefaultLimit config) else pgLimit p);
              limit = atoi limitText;
              limitErrs =
                (if atoi_failed limit then [APIError StatusBadRequest ''pagination limit must be a number'' []]
                 else (if pcMaxLimit config < atoi_value limit
                       then [APIError StatusBadRequest ''pagination limit too big (%v) maximum is %v'' [AS limitText, AI (pcMaxLimit config)]]
                       else [])
                    @ (if atoi_value limit \<le> 0 then [APIError StatusBadRequest ''pagination limit must be positive'' []] else []));
              offset = atoi (pgOffset p);
              offsetErrs =
                (if atoi_failed offset then [APIError StatusBadRequest ''pagination offset must be a number'' []]
                 else if atoi_value offset < 0 then [APIError StatusBadRequest ''pagination offset must not be negative'' []]
                 else [])
          in (limitErrs @ offsetErrs,
              Some (p\<lparr>pgLimit := limitText, pgValidatedLimit := atoi_value limit, pgValidatedOffset := atoi_value offset\<rparr>)))"

definition ParsePagination :: "url_values \<Rightarrow> pagination" where
  "ParsePagination values =
     \<lparr>pgLimit = (case value_list values ''page[limit]'' of [] \<Rightarrow> '''' | l # _ \<Rightarrow> l),
      pgOffset = (case value_list values ''page[offset]'' of [] \<Rightarrow> ''0'' | off # _ \<Rightarrow> off),
      pgValidatedLimit = 0, pgValidatedOffset = 0\<rparr>"

definition GetStartEnd :: "pagination \<Rightarrow> int \<Rightarrow> int \<times> int" where
  "GetStartEnd p count =
     (let totalCount = (if count < 0 then 0 else count);
          start0 = pgValidatedOffset p;
          start1 = (if start0 < 0 then 0 else start0);
          start = (if totalCount < start1 then totalCount else start1);
          end0 = wrap64 (start + pgValidatedLimit p);
          end1 = (if end0 < start \<or> totalCount < end0 then totalCount else end0)
      in (start, end1))"

section \<open>The options of a request\<close>

record list_options =
  loSorts :: "sort_option list"
  loFilters :: "filter_option list"
  loFields :: "fields_option list"
  loPagination :: "pagination option"

definition NewOptions :: "url_values \<Rightarrow> url_values \<Rightarrow> url_values \<Rightarrow> url_values \<Rightarrow> list_options" where
  "NewOptions q sortsDefault filtersDefault fieldsDefault =
     (let sorts = ParseSortOptions q; filters = ParseFilterOptions q; fs = ParseFieldsOptions q
      in \<lparr>loSorts = (if sorts \<noteq> [] then sorts else ParseSortOptions sortsDefault),
          loFilters = (if filters \<noteq> [] then filters else ParseFilterOptions filtersDefault),
          loFields = (if fs \<noteq> [] then fs else ParseFieldsOptions fieldsDefault),
          loPagination = Some (ParsePagination q)\<rparr>)"

definition GetListOptions :: "url_values \<Rightarrow> list_options" where
  "GetListOptions q = NewOptions q [] [] []"

definition ValidateListOptions :: "list_options \<Rightarrow> supported \<Rightarrow> supported \<Rightarrow> (string \<times> supported) list option \<Rightarrow>
    pagination_config option \<Rightarrow> goerr list \<times> list_options" where
  "ValidateListOptions lo supportedSorts supportedFilters supportedFields paginationConfig =
     (let sortErrs = ValidateSortOptions (loSorts lo) supportedSorts;
          (filterErrs, filters) = ValidateFilterOptions (loFilters lo) supportedFilters;
          (fieldErrs, fds) = (case supportedFields of
              Some fs \<Rightarrow> (ValidateFieldsOptions (loFields lo) fs, loFields lo)
            | None \<Rightarrow> ([], []));
          (pageErrs, page) = (case paginationConfig of
              Some c \<Rightarrow> ValidatePagination (loPagination lo) c
            | None \<Rightarrow> ([], None))
      in (sortErrs @ filterErrs @ fieldErrs @ pageErrs,
          lo\<lparr>loFilters := filters, loFields := fds, loPagination := page\<rparr>))"

section \<open>SQL\<close>

definition filter_part :: "string \<Rightarrow> filter_option \<Rightarrow> string \<Rightarrow> string \<Rightarrow> string \<times> string" where
  "filter_part dbDriverName fo col val =
     (let operator = Code (foOperator fo);
          (lhs, placeholder) =
            (if foCompareFunc fo \<noteq> '''' then (foCompareFunc fo @ ''('' @ col @ '')'', foCompareFunc fo @ ''(?)'')
             else (col, ''?''));
          part = lhs @ '' '' @ operator @ '' '' @ placeholder
      in if val = '''' then (''('' @ part @ '' OR '' @ col @ '' IS NULL)'', val)
         else if contains_str val ''*'' \<and> operator = ''=''
         then (''LOWER('' @ col @ '') LIKE ? ESCAPE '' @ [CHR 0x27] @
                 (if dbDriverName = ''mysql'' then [CHR 0x5C, CHR 0x5C] else [CHR 0x5C]) @ [CHR 0x27],
               replace_char (to_lower (replace_char val CHR ''%'' [CHR 0x5C, CHR ''%''])) CHR ''*'' ''%'')
         else (part, val))"

definition filter_parts :: "string \<Rightarrow> filter_option \<Rightarrow> (string \<times> string) list" where
  "filter_parts dbDriverName fo =
     concat (map (\<lambda>col. map (filter_part dbDriverName fo col) (foValues fo)) (foColumn fo))"

definition where_part :: "string list \<Rightarrow> string list" where
  "where_part orParts =
     (case orParts of
        [] \<Rightarrow> []
      | [p] \<Rightarrow> [p]
      | _ \<Rightarrow> [''('' @ join '' OR '' orParts @ '')''])"

definition AddWhere :: "string \<Rightarrow> filter_option list \<Rightarrow> string \<Rightarrow> string list \<Rightarrow> string \<times> string list" where
  "AddWhere dbDriverName filterOptions q params =
     (let parts = map (filter_parts dbDriverName) filterOptions;
          whereParts = concat (map (\<lambda>ps. where_part (map fst ps)) parts);
          params1 = params @ concat (map (map snd) parts)
      in if whereParts = [] then (q, params1)
         else (q @ (if contains_str (to_upper q) '' WHERE '' then '' AND '' else '' WHERE '')
                 @ join '' AND '' whereParts, params1))"

definition AddOrderBy :: "sort_option list \<Rightarrow> string \<Rightarrow> string" where
  "AddOrderBy sortOptions q =
     (if sortOptions = [] then q
      else q @ '' ORDER BY '' @
        join '', '' (map (\<lambda>so. soColumn so @ '' '' @ (if soIsASC so then ''ASC'' else ''DESC'')) sortOptions))"

definition ReplaceStarSelect :: "fields_option list \<Rightarrow> string \<Rightarrow> string" where
  "ReplaceStarSelect fieldOptions q =
     (if \<not> has_prefix (to_upper q) ''SELECT * '' then q
      else if fieldOptions = [] then q
      else replace_first q ''*''
        (join '', '' (concat (map (\<lambda>fo. map (\<lambda>field. fdResource fo @ ''.'' @ field) (fdFields fo)) fieldOptions))))"

definition addLimitOffset :: "pagination option \<Rightarrow> string \<Rightarrow> string list \<Rightarrow> string \<times> string list" where
  "addLimitOffset pg q params =
     (case pg of
        None \<Rightarrow> (q, params)
      | Some p \<Rightarrow> (q @ '' LIMIT ? OFFSET ?'', params @ [pgLimit p, pgOffset p]))"

definition AppendOptionsToQuery :: "string \<Rightarrow> list_options option \<Rightarrow> string \<Rightarrow> string list \<Rightarrow> string \<times> string list" where
  "AppendOptionsToQuery dbDriverName lo q params =
     (case lo of
        None \<Rightarrow> (q, params)
      | Some opts \<Rightarrow>
          let (q1, params1) = AddWhere dbDriverName (loFilters opts) q params
          in addLimitOffset (loPagination opts)
               (ReplaceStarSelect (loFields opts) (AddOrderBy (loSorts opts) q1)) params1)"

definition ConvertListOptionsToQuery :: "string \<Rightarrow> list_options option \<Rightarrow> string \<Rightarrow> string \<times> string list" where
  "ConvertListOptionsToQuery dbDriverName lo q = AppendOptionsToQuery dbDriverName lo q []"

definition ConvertRetrieveOptionsToQuery :: "fields_option list \<Rightarrow> string \<Rightarrow> string" where
  "ConvertRetrieveOptionsToQuery ro q = ReplaceStarSelect ro q"

section \<open>Dates\<close>

text \<open>
  \<^verbatim>\<open>time.Parse\<close> with the layouts \<^verbatim>\<open>time.RFC3339\<close> and \<^verbatim>\<open>2006-01-02\<close>. A number that is not fixed to two
  digits may have one; Go allows that for the hour. The result is in nanoseconds since 1970.
\<close>

definition getnum :: "bool \<Rightarrow> string \<Rightarrow> (nat \<times> string) option" where
  "getnum fixed s =
     (case s of
        [] \<Rightarrow> None
      | a # as \<Rightarrow>
          if \<not> is_digit a then None
          else case as of
                 [] \<Rightarrow> if fixed then None else Some (digit_val a, as)
               | b # bs \<Rightarrow>
                   if is_digit b then Some (10 * digit_val a + digit_val b, bs)
                   else if fixed then None else Some (digit_val a, as))"

definition getyear :: "string \<Rightarrow> (nat \<times> string) option" where
  "getyear s =
     (if 4 \<le> length s \<and> list_all is_digit (take 4 s) then Some (digits_val (take 4 s), drop 4 s) else None)"

definition skip_char :: "char \<Rightarrow> string \<Rightarrow> string option" where
  "skip_char c s = (case s of [] \<Rightarrow> None | x # xs \<Rightarrow> if x = c then Some xs else None)"

definition isLeap :: "nat \<Rightarrow> bool" where
  "isLeap y \<longleftrightarrow> y mod 4 = 0 \<and> (y mod 100 \<noteq> 0 \<or> y mod 400 = 0)"

definition month_days :: "nat list" where
  "month_days = [31, 28, 31, 30, 31, 30, 31, 31, 30, 31, 30, 31]"

definition daysIn :: "nat \<Rightarrow> nat \<Rightarrow> nat" where
  "daysIn m y = (if m = 2 \<and> isLeap y then 29 else month_days ! (m - 1))"

text \<open>The days from the first of January 1970 to a date: whole years, whole months, days.\<close>

definition days_before_year :: "nat \<Rightarrow> int" where
  "days_before_year y =
     (let n = int y - 1 in 365 * n + n div 4 - n div 100 + n div 400) - 719162"

definition date_days :: "nat \<Rightarrow> nat \<Rightarrow> nat \<Rightarrow> int" where
  "date_days y m d =
     days_before_year y + int (sum_list (map (\<lambda>k. daysIn k y) [1..<m])) + int d - 1"

definition parse_ymd :: "string \<Rightarrow> (nat \<times> nat \<times> nat \<times> string) option" where
  "parse_ymd s =
     Option.bind (getyear s) (\<lambda>(y, s1).
     Option.bind (skip_char CHR ''-'' s1) (\<lambda>s2.
     Option.bind (getnum True s2) (\<lambda>(m, s3).
     if m = 0 \<or> 12 < m then None
     else Option.bind (skip_char CHR ''-'' s3) (\<lambda>s4.
     Option.bind (getnum True s4) (\<lambda>(d, s5). Some (y, m, d, s5))))))"

definition valid_day :: "nat \<Rightarrow> nat \<Rightarrow> nat \<Rightarrow> bool" where
  "valid_day y m d \<longleftrightarrow> 1 \<le> d \<and> d \<le> daysIn m y"

definition parse_date_only :: "string \<Rightarrow> time option" where
  "parse_date_only s =
     Option.bind (parse_ymd s) (\<lambda>(y, m, d, rest).
       if rest = [] \<and> valid_day y m d then Some (date_days y m d * 24 * Hour) else None)"

definition parse_fraction :: "string \<Rightarrow> int \<times> string" where
  "parse_fraction s =
     (case s of
        p # c # cs \<Rightarrow>
          if (p = CHR ''.'' \<or> p = CHR '','') \<and> is_digit c
          then let ds = takeWhile is_digit (c # cs); used = take 9 ds
               in (int (digits_val used) * 10 ^ (9 - length used), dropWhile is_digit (c # cs))
          else (0, s)
      | _ \<Rightarrow> (0, s))"

definition parse_zone :: "string \<Rightarrow> (int \<times> string) option" where
  "parse_zone s =
     (case s of
        [] \<Rightarrow> None
      | z # zs \<Rightarrow>
          if z = CHR ''Z'' then Some (0, zs)
          else if length s < 6 \<or> s ! 3 \<noteq> CHR '':'' then None
          else Option.bind (getnum True (take 2 zs)) (\<lambda>(hr, _).
               Option.bind (getnum True (take 2 (drop 3 zs))) (\<lambda>(mm, _).
               if 24 < hr \<or> 60 < mm then None
               else if z = CHR ''+'' then Some (int hr * 3600 + int mm * 60, drop 5 zs)
               else if z = CHR ''-'' then Some (- (int hr * 3600 + int mm * 60), drop 5 zs)
               else None)))"

definition parse_clock :: "string \<Rightarrow> (int \<times> string) option" where
  "parse_clock s =
     Option.bind (getnum False s) (\<lambda>(h, s1). if 24 \<le> h then None else
     Option.bind (skip_char CHR '':'' s1) (\<lambda>s2.
     Option.bind (getnum True s2) (\<lambda>(mi, s3). if 60 \<le> mi then None else
     Option.bind (skip_char CHR '':'' s3) (\<lambda>s4.
     Option.bind (getnum True s4) (\<lambda>(sec, s5). if 60 \<le> sec then None else
     let (ns, s6) = parse_fraction s5
     in Some ((int h * 3600 + int mi * 60 + int sec) * Second + ns, s6))))))"

definition parse_RFC3339 :: "string \<Rightarrow> time option" where
  "parse_RFC3339 s =
     Option.bind (parse_ymd s) (\<lambda>(y, m, d, s1).
     Option.bind (skip_char CHR ''T'' s1) (\<lambda>s2.
     Option.bind (parse_clock s2) (\<lambda>(clock, s3).
     Option.bind (parse_zone s3) (\<lambda>(off, s4).
     if s4 = [] \<and> valid_day y m d then Some (date_days y m d * 24 * Hour + clock - off * Second) else None))))"

section \<open>Filters in memory\<close>

definition MatchIfDate :: "string \<Rightarrow> string \<Rightarrow> filter_option \<Rightarrow> bool res" where
  "MatchIfDate dateValueStr filterValueStr fo =
     (case (case parse_RFC3339 filterValueStr of None \<Rightarrow> parse_date_only filterValueStr | Some t \<Rightarrow> Some t) of
        None \<Rightarrow> Inl (GoError ''filter value not valid simple or RFC3339 date'' [])
      | Some filterDateValue \<Rightarrow>
          (case parse_RFC3339 dateValueStr of
             None \<Rightarrow> Inl (GoError ''value not valid RFC3339 date'' [])
           | Some dateValue \<Rightarrow>
               if foOperator fo = ''gt'' then Inr (filterDateValue < dateValue)
               else if foOperator fo = ''lt'' \<and> dateValue < filterDateValue then Inr True
               else if foOperator fo = ''eq''
               then Inr (\<not> dateValue < filterDateValue \<and> \<not> filterDateValue + (24 * Hour - 1) < dateValue)
               else Inr False))"

text \<open>\<^verbatim>\<open>fmt.Sprint\<close> of a decoded JSON value. Maps are printed in the order of their keys.\<close>

fun sprint :: "json \<Rightarrow> string" where
  "sprint JNull = ''<nil>''"
| "sprint (JBool b) = (if b then ''true'' else ''false'')"
| "sprint (JNum n) = itoa n"
| "sprint (JStr s) = s"
| "sprint (JArr xs) = ''['' @ join '' '' (map sprint xs) @ '']''"
| "sprint (JObj kvs) =
     ''map['' @ join '' '' (map (\<lambda>(k, v). k @ '':'' @ v) (sort_key fst (map (\<lambda>(k, j). (k, sprint j)) kvs))) @ '']''"

definition field_texts :: "json \<Rightarrow> string list" where
  "field_texts j =
     (case j of
        JArr xs \<Rightarrow> map sprint xs
      | JObj kvs \<Rightarrow> map (\<lambda>(k, v). k @ '': '' @ sprint v) kvs
      | _ \<Rightarrow> [sprint j])"

text \<open>The expressions a wildcard produces: literal characters, any character but a newline, and \<^verbatim>\<open>.*?\<close>.\<close>

datatype rx = RLit char | RAny | RStar

definition is_meta :: "char \<Rightarrow> bool" where
  "is_meta c \<longleftrightarrow> c \<in> set ''+*?()|[]{}^$'' \<or> c = CHR 0x5C"

fun rx_tokens :: "string \<Rightarrow> rx list option" where
  "rx_tokens [] = Some []"
| "rx_tokens (c # cs) =
     (if c = CHR ''.''
      then (if has_prefix cs ''*?'' then map_option ((#) RStar) (rx_tokens (drop 2 cs))
            else map_option ((#) RAny) (rx_tokens cs))
      else if is_meta c then None
      else map_option ((#) (RLit c)) (rx_tokens cs))"

fun rx_match :: "rx list \<Rightarrow> string \<Rightarrow> bool" where
  "rx_match [] s \<longleftrightarrow> s = []"
| "rx_match (RLit c # ts) s \<longleftrightarrow> (case s of [] \<Rightarrow> False | x # xs \<Rightarrow> lower_char x = lower_char c \<and> rx_match ts xs)"
| "rx_match (RAny # ts) s \<longleftrightarrow> (case s of [] \<Rightarrow> False | x # xs \<Rightarrow> x \<noteq> CHR 0x0A \<and> rx_match ts xs)"
| "rx_match (RStar # ts) s \<longleftrightarrow>
     rx_match ts s \<or> (case s of [] \<Rightarrow> False | x # xs \<Rightarrow> x \<noteq> CHR 0x0A \<and> rx_match (RStar # ts) xs)"

definition regexp_compile :: "regexp \<Rightarrow> string \<Rightarrow> (string \<Rightarrow> bool) option" where
  "regexp_compile regexp body =
     (case rx_tokens body of
        Some ts \<Rightarrow> Some (rx_match ts)
      | None \<Rightarrow> regexp (''(?i)^'' @ body @ ''$''))"

definition value_matches :: "regexp \<Rightarrow> filter_option \<Rightarrow> string \<Rightarrow> string \<Rightarrow> bool" where
  "value_matches regexp fo text filterValue =
     (case MatchIfDate text filterValue fo of
        Inr m \<Rightarrow> m
      | Inl _ \<Rightarrow>
          if \<not> contains_str filterValue ''*'' then equal_fold filterValue text
          else case regexp_compile regexp (replace_char filterValue CHR ''*'' ''.*?'') of
                 None \<Rightarrow> equal_fold filterValue text
               | Some matchString \<Rightarrow> matchString text)"

text \<open>The map \<^verbatim>\<open>matches\<close> is the list of its keys.\<close>

fun mark_filter_values :: "regexp \<Rightarrow> filter_option \<Rightarrow> string \<Rightarrow> string list \<Rightarrow> string list \<Rightarrow> string list" where
  "mark_filter_values regexp fo text [] matched = matched"
| "mark_filter_values regexp fo text (v # vs) matched =
     mark_filter_values regexp fo text vs
       (if v \<in> set matched then matched else if value_matches regexp fo text v then v # matched else matched)"

fun mark_texts :: "regexp \<Rightarrow> filter_option \<Rightarrow> string list \<Rightarrow> string list \<Rightarrow> string list" where
  "mark_texts regexp fo [] matched = matched"
| "mark_texts regexp fo (t # ts) matched = mark_texts regexp fo ts (mark_filter_values regexp fo t (foValues fo) matched)"

fun mark_columns :: "regexp \<Rightarrow> (string \<times> json) list \<Rightarrow> filter_option \<Rightarrow> string list \<Rightarrow> string list \<Rightarrow> string list res" where
  "mark_columns regexp valueMap fo [] matched = Inr matched"
| "mark_columns regexp valueMap fo (col # cols) matched =
     (case map_of valueMap col of
        None \<Rightarrow> Inl (GoError ''unsupported filter column: %s'' [AS col])
      | Some j \<Rightarrow> mark_columns regexp valueMap fo cols (mark_texts regexp fo (field_texts j) matched))"

definition matchesFilter :: "regexp \<Rightarrow> (string \<times> json) list \<Rightarrow> filter_option \<Rightarrow> bool res" where
  "matchesFilter regexp valueMap fo =
     bind_res (mark_columns regexp valueMap fo (foColumn fo) []) (\<lambda>matched.
       Inr (if foLogical fo = ''and'' then length matched = length (foValues fo) else 0 < length matched))"

fun MatchesFilters :: "regexp \<Rightarrow> (string \<times> json) list \<Rightarrow> filter_option list \<Rightarrow> bool res" where
  "MatchesFilters regexp valueMap [] = Inr True"
| "MatchesFilters regexp valueMap (f # fs) =
     bind_res (matchesFilter regexp valueMap f) (\<lambda>m. if m then MatchesFilters regexp valueMap fs else Inr False)"

section \<open>Properties of pages\<close>

lemma wrap64_add_start:
  assumes "0 \<le> start" "int64_range start" "int64_range limit"
  shows "wrap64 (start + limit) = (if MaxInt64 < start + limit then start + limit - 18446744073709551616 else start + limit)"
proof (cases "MaxInt64 < start + limit")
  case True
  with assms show ?thesis by (simp add: wrap64_overflow int64_range_def MaxInt64_def)
next
  case False
  with assms have "int64_range (start + limit)" by (simp add: int64_range_def MinInt64_def MaxInt64_def)
  with False show ?thesis by (simp add: wrap64_id)
qed

lemma GetStartEnd_eq:
  assumes "int64_range (pgValidatedOffset p)" "int64_range (pgValidatedLimit p)" "int64_range count"
  shows "GetStartEnd p count =
    (let n = max 0 count; start = min (max 0 (pgValidatedOffset p)) n
     in (start, if pgValidatedLimit p < 0 then n else min (start + pgValidatedLimit p) n))"
proof -
  define n where "n = max 0 count"
  define start where "start = min (max 0 (pgValidatedOffset p)) n"
  have start: "0 \<le> start" "start \<le> n" "int64_range start" "n \<le> MaxInt64"
    using assms by (auto simp: start_def n_def int64_range_def MinInt64_def MaxInt64_def)
  have n: "(if count < 0 then 0 else count) = n" by (simp add: n_def)
  have s: "(if n < (if pgValidatedOffset p < 0 then 0 else pgValidatedOffset p) then n
      else (if pgValidatedOffset p < 0 then 0 else pgValidatedOffset p)) = start"
    by (auto simp: start_def n_def)
  have "GetStartEnd p count = (start, if wrap64 (start + pgValidatedLimit p) < start \<or> n < wrap64 (start + pgValidatedLimit p)
      then n else wrap64 (start + pgValidatedLimit p))"
    by (simp only: GetStartEnd_def Let_def n s)
  also have "\<dots> = (start, if pgValidatedLimit p < 0 then n else min (start + pgValidatedLimit p) n)"
    using start assms(2) wrap64_add_start [OF start(1,3) assms(2)]
    by (auto simp: int64_range_def MinInt64_def MaxInt64_def)
  finally show ?thesis by (simp add: n_def start_def Let_def)
qed

lemma ValidatePagination_ok:
  assumes "ValidatePagination (Some p) config = ([], Some p1)"
  shows "0 < pgValidatedLimit p1" "pgValidatedLimit p1 \<le> pcMaxLimit config" "0 \<le> pgValidatedOffset p1"
    "int64_range (pgValidatedLimit p1)" "int64_range (pgValidatedOffset p1)"
  using assms atoi_value_range by (auto simp: ValidatePagination_def Let_def split: if_splits)

text \<open>C33: The range \<^verbatim>\<open>Pagination.GetStartEnd\<close> returns can always be used to slice a list of that many entries, for every
  offset and limit a 64-bit integer holds, also when adding them overflows. For a page that was validated it
  is the page asked for: as many entries as the limit says, or as there are left after the offset.
\<close>

theorem page_range_valid:
  assumes "int64_range (pgValidatedOffset p)" "int64_range (pgValidatedLimit p)" "0 \<le> count" "int64_range count"
    and "GetStartEnd p count = (start, stop)"
  shows "0 \<le> start \<and> start \<le> stop \<and> stop \<le> count \<and>
    (ValidatePagination (Some r) config = ([], Some p) \<longrightarrow>
      start = min (pgValidatedOffset p) count \<and> stop - start = min (pgValidatedLimit p) (count - start) \<and>
      stop - start \<le> pcMaxLimit config)"
  using assms ValidatePagination_ok [of r config p]
  by (auto simp: GetStartEnd_eq Let_def)

theorem page_range_valid_witness:
  "GetStartEnd \<lparr>pgLimit = ''50'', pgOffset = ''9223372036854775807'', pgValidatedLimit = 50,
      pgValidatedOffset = 9223372036854775807\<rparr> 7 = (7, 7) \<and>
   (0 :: int) \<le> 7 \<and> (7 :: int) \<le> 7 \<and>
   ValidatePagination (Some (ParsePagination [(''page[limit]'', [''3'']), (''page[offset]'', [''5''])]))
      \<lparr>pcMaxLimit = 500, pcDefaultLimit = 50\<rparr> =
     ([], Some \<lparr>pgLimit = ''3'', pgOffset = ''5'', pgValidatedLimit = 3, pgValidatedOffset = 5\<rparr>) \<and>
   (7 :: int) - 5 = min 3 (7 - 5)"
proof -
  let ?p = "\<lparr>pgLimit = ''50'', pgOffset = ''9223372036854775807'', pgValidatedLimit = 50,
      pgValidatedOffset = 9223372036854775807\<rparr>"
  let ?q = "\<lparr>pgLimit = ''3'', pgOffset = ''5'', pgValidatedLimit = 3, pgValidatedOffset = 5\<rparr>"
  let ?r = "ParsePagination [(''page[limit]'', [''3'']), (''page[offset]'', [''5''])]"
  let ?c = "\<lparr>pcMaxLimit = 500, pcDefaultLimit = 50\<rparr>"
  have g: "GetStartEnd ?p 7 = (7, 7)" by code_simp
  have h: "GetStartEnd ?q 7 = (5, 7)" by code_simp
  have v: "ValidatePagination (Some ?r) ?c = ([], Some ?q)" by code_simp
  have ranges: "int64_range (pgValidatedOffset ?p)" "int64_range (pgValidatedLimit ?p)" "int64_range 7"
    "int64_range (pgValidatedOffset ?q)" "int64_range (pgValidatedLimit ?q)"
    by (simp_all add: int64_range_def MinInt64_def MaxInt64_def)
  from page_range_valid [OF ranges(1,2) _ ranges(3) g]
    page_range_valid [OF ranges(4,5) _ ranges(3) h, of ?r ?c] g v
  show ?thesis by simp
qed

section \<open>Properties of the statements\<close>

text \<open>What a filter lets into the text of a statement: everything but its values, of which only whether they are empty and
  whether they hold a wildcard.\<close>

definition shape :: "filter_option \<Rightarrow> string list \<times> string \<times> string \<times> (bool \<times> bool) list" where
  "shape fo = (foColumn fo, foOperator fo, foCompareFunc fo, map (\<lambda>v. (v = '''', contains_str v ''*'')) (foValues fo))"

text \<open>Names an endpoint supports: words, for a range filter followed by its operator in brackets.\<close>

definition plain_names :: "supported \<Rightarrow> bool" where
  "plain_names m \<longleftrightarrow> list_all (\<lambda>(k, _). takeWhile is_word k \<noteq> [] \<and>
     (dropWhile is_word k = [] \<or> has_prefix (dropWhile is_word k) ''['')) m"

lemma filter_part_text:
  assumes "foOperator fo = foOperator fo'" "foCompareFunc fo = foCompareFunc fo'"
    and "(v = '''') = (v' = '''')" "contains_str v ''*'' = contains_str v' ''*''"
  shows "fst (filter_part d fo col v) = fst (filter_part d fo' col v')"
  using assms by (simp add: filter_part_def Let_def)

lemma filter_parts_text:
  assumes "shape fo = shape fo'"
  shows "map fst (filter_parts d fo) = map fst (filter_parts d fo')"
proof -
  have "map (\<lambda>v. fst (filter_part d fo col v)) (foValues fo) = map (\<lambda>v. fst (filter_part d fo' col v)) (foValues fo')" for col
  proof (rule nth_equalityI)
    from assms have len: "length (foValues fo) = length (foValues fo')"
      by (auto simp: shape_def dest: map_eq_imp_length_eq)
    then show "length (map (\<lambda>v. fst (filter_part d fo col v)) (foValues fo)) =
      length (map (\<lambda>v. fst (filter_part d fo' col v)) (foValues fo'))" by simp
    fix i assume i: "i < length (map (\<lambda>v. fst (filter_part d fo col v)) (foValues fo))"
    from assms have "map (\<lambda>v. (v = '''', contains_str v ''*'')) (foValues fo) ! i =
      map (\<lambda>v. (v = '''', contains_str v ''*'')) (foValues fo') ! i" by (simp add: shape_def)
    with i len have "(foValues fo ! i = '''') = (foValues fo' ! i = '''')"
      "contains_str (foValues fo ! i) ''*'' = contains_str (foValues fo' ! i) ''*''" by simp_all
    then have "fst (filter_part d fo col (foValues fo ! i)) = fst (filter_part d fo' col (foValues fo' ! i))"
      by (rule filter_part_text [rotated 2]) (use assms in \<open>simp_all add: shape_def\<close>)
    with i len show "map (\<lambda>v. fst (filter_part d fo col v)) (foValues fo) ! i =
      map (\<lambda>v. fst (filter_part d fo' col v)) (foValues fo') ! i" by simp
  qed
  with assms show ?thesis
    by (simp add: filter_parts_def map_concat comp_def shape_def)
qed

lemma filter_lists_text:
  "map shape fos = map shape fos' \<Longrightarrow>
     map (\<lambda>fo. map fst (filter_parts d fo)) fos = map (\<lambda>fo. map fst (filter_parts d fo)) fos'"
proof (induction fos arbitrary: fos')
  case (Cons fo fos)
  then obtain fo' fs' where fos': "fos' = fo' # fs'" by (cases fos') auto
  with Cons.prems have "shape fo = shape fo'" "map shape fos = map shape fs'" by simp_all
  with Cons.IH show ?case unfolding fos' list.map using filter_parts_text by blast
qed simp

lemma AddWhere_text:
  assumes "map shape fos = map shape fos'"
  shows "fst (AddWhere d fos q ps) = fst (AddWhere d fos' q ps')"
proof -
  have "map where_part (map (\<lambda>fo. map fst (filter_parts d fo)) fos) =
      map where_part (map (\<lambda>fo. map fst (filter_parts d fo)) fos')"
    by (rule arg_cong [OF filter_lists_text [OF assms]])
  then have "map (\<lambda>fo. where_part (map fst (filter_parts d fo))) fos = map (\<lambda>fo. where_part (map fst (filter_parts d fo))) fos'"
    by (simp only: map_map comp_def)
  then show ?thesis unfolding AddWhere_def Let_def map_map comp_def by simp
qed

lemma count_join:
  "count_list (join sep xs) c = sum_list (map (\<lambda>x. count_list x c) xs) + count_list sep c * (length xs - 1)"
  by (induction sep xs rule: join.induct) simp_all

lemma count_where_part:
  "sum_list (map (\<lambda>x. count_list x CHR ''?'') (where_part xs)) = sum_list (map (\<lambda>x. count_list x CHR ''?'') xs)"
  by (cases xs rule: remdups_adj.cases) (simp_all add: where_part_def count_join)

lemma word_no_question: "list_all is_word col \<Longrightarrow> count_list col CHR ''?'' = 0"
  by (induction col) (auto simp: is_word_def)

lemma filter_part_placeholder:
  assumes "list_all is_word col" "foCompareFunc fo = ''''"
  shows "count_list (fst (filter_part d fo col v)) CHR ''?'' = 1"
  using word_no_question [OF assms(1)] assms(2)
  by (simp add: filter_part_def Let_def Code_def)

lemma sum_list_ones: "(\<And>x. x \<in> set xs \<Longrightarrow> f x = 1) \<Longrightarrow> sum_list (map f xs) = length xs"
  by (induction xs) auto

lemma filter_parts_placeholders:
  assumes "\<And>col. col \<in> set (foColumn fo) \<Longrightarrow> list_all is_word col" "foCompareFunc fo = ''''"
  shows "sum_list (map (\<lambda>p. count_list (fst p) CHR ''?'') (filter_parts d fo)) = length (filter_parts d fo)"
  by (rule sum_list_ones) (use assms in \<open>auto simp: filter_parts_def filter_part_placeholder\<close>)

lemma sum_list_map_concat: "sum_list (map f (concat xss)) = sum_list (map (\<lambda>xs. sum_list (map f xs)) xss)"
  by (induction xss) simp_all

lemma AddWhere_placeholders:
  assumes "\<And>fo col. fo \<in> set fos \<Longrightarrow> col \<in> set (foColumn fo) \<Longrightarrow> list_all is_word col"
    and "\<And>fo. fo \<in> set fos \<Longrightarrow> foCompareFunc fo = ''''"
  shows "\<exists>text new. AddWhere d fos q ps = (q @ text, ps @ new) \<and> count_list text CHR ''?'' = length new"
proof -
  define parts where "parts = map (filter_parts d) fos"
  define wp where "wp = concat (map (\<lambda>p. where_part (map fst p)) parts)"
  have "sum_list (map (\<lambda>x. count_list x CHR ''?'') wp) =
      sum_list (map (\<lambda>p. sum_list (map (\<lambda>x. count_list x CHR ''?'') (map fst p))) parts)"
    by (simp add: wp_def sum_list_map_concat count_where_part comp_def)
  also have "\<dots> = sum_list (map length parts)"
    unfolding parts_def map_map comp_def
    by (rule arg_cong [where f = sum_list], rule map_cong [OF refl], rule filter_parts_placeholders) (use assms in auto)
  also have "\<dots> = length (concat (map (map snd) parts))" by (simp add: length_concat comp_def)
  finally have count: "sum_list (map (\<lambda>x. count_list x CHR ''?'') wp) = length (concat (map (map snd) parts))" .
  show ?thesis
  proof (cases "wp = []")
    case True
    from True have "AddWhere d fos q ps = (q @ [], ps @ concat (map (map snd) parts))"
      unfolding AddWhere_def Let_def parts_def [symmetric] wp_def [symmetric] by simp
    moreover from True count have "count_list [] CHR ''?'' = length (concat (map (map snd) parts))" by simp
    ultimately show ?thesis by blast
  next
    case False
    let ?text = "(if contains_str (to_upper q) '' WHERE '' then '' AND '' else '' WHERE '') @ join '' AND '' wp"
    from False have "AddWhere d fos q ps = (q @ ?text, ps @ concat (map (map snd) parts))"
      unfolding AddWhere_def Let_def parts_def [symmetric] wp_def [symmetric] by simp
    moreover from count have "count_list ?text CHR ''?'' = length (concat (map (map snd) parts))"
      by (simp add: count_join)
    ultimately show ?thesis by blast
  qed
qed

lemma split_on_set: "p \<in> set (split_on c s) \<Longrightarrow> set p \<subseteq> set s"
proof (induction s arbitrary: p)
  case (Cons x xs)
  then show ?case by (cases "split_on c xs") (fastforce split: if_splits)+
qed simp

lemma trim_space_set: "set (trim_space s) \<subseteq> set s"
  by (auto simp: trim_space_def dest!: set_dropWhileD)

lemma word_not_bracket: "\<not> is_word CHR ''[''"
  by (simp add: is_word_def)

lemma filterRegex_column:
  assumes "filterRegex key = Some (col, operator)" "c \<in> set col"
  shows "is_word c \<or> c = CHR ''|'' \<or> c = CHR ''*''"
  using assms by (auto simp: filterRegex_def Let_def split: if_splits dest: set_takeWhileD)

lemma parsed_columns:
  assumes "fo \<in> set (ParseFilterOptions vals)"
  shows "foCompareFunc fo = ''''" "col \<in> set (foColumn fo) \<Longrightarrow> CHR ''['' \<notin> set col"
proof -
  from assms obtain k vs where p: "parse_filter (k, vs) = Some fo"
    by (auto simp: ParseFilterOptions_def List.map_filter_def)
  then obtain m1 m3 where m: "filterRegex k = Some (m1, m3)" "foColumn fo = split_on CHR ''|'' (trim_space m1)"
    and cf: "foCompareFunc fo = ''''"
    by (auto simp: parse_filter_def Let_def split: if_splits option.splits prod.splits)
  show "foCompareFunc fo = ''''" by (rule cf)
  assume "col \<in> set (foColumn fo)"
  with m(2) have "set col \<subseteq> set m1" using split_on_set trim_space_set by fastforce
  with filterRegex_column [OF m(1)] word_not_bracket show "CHR ''['' \<notin> set col" by auto
qed

lemma plain_name:
  assumes "plain_names m" "is_supported m k"
  shows "takeWhile is_word k \<noteq> []" "dropWhile is_word k = [] \<or> has_prefix (dropWhile is_word k) ''[''"
  using assms by (auto simp: plain_names_def is_supported_def list_all_iff dest!: map_of_SomeD)

lemma dropWhile_not_word:
  assumes "CHR ''['' \<notin> set col" "has_prefix (dropWhile is_word col @ rest) ''[''"
  shows "list_all is_word col"
proof (cases "dropWhile is_word col")
  case Nil
  then show ?thesis by (simp add: dropWhile_eq_Nil_conv list_all_iff)
next
  case (Cons c cs)
  then have "c \<in> set col" by (metis list.set_intros(1) set_dropWhileD)
  with Cons assms show ?thesis by auto
qed

lemma supported_column:
  assumes "plain_names m" "CHR ''['' \<notin> set col"
    and "is_supported m col \<or> is_supported m (filter_key col operator)"
  shows "col \<noteq> [] \<and> list_all is_word col"
  using assms(3)
proof
  assume "is_supported m col"
  from plain_name [OF assms(1) this] assms(2) dropWhile_not_word [OF assms(2), of "[]"] show ?thesis
    by (auto simp: dropWhile_eq_Nil_conv list_all_iff)
next
  assume s: "is_supported m (filter_key col operator)"
  have "dropWhile is_word (filter_key col operator) \<noteq> []"
    by (auto simp: filter_key_def dropWhile_eq_Nil_conv word_not_bracket)
  with plain_name(2) [OF assms(1) s] have "has_prefix (dropWhile is_word (filter_key col operator)) ''[''" by blast
  moreover have "list_all is_word col \<or> dropWhile is_word (filter_key col operator) = dropWhile is_word col @ ''['' @ operator @ '']''"
    by (metis dropWhile_append1 filter_key_def list_all_iff)
  ultimately have "list_all is_word col" using dropWhile_not_word [OF assms(2)] by metis
  moreover have "col \<noteq> []"
    using plain_name(1) [OF assms(1) s] word_not_bracket by (cases col) (auto simp: filter_key_def)
  ultimately show ?thesis by simp
qed

lemma isSupported_column:
  "isSupported fo m \<Longrightarrow> col \<in> set (foColumn fo) \<Longrightarrow> is_supported m col \<or> is_supported m (filter_key col (foOperator fo))"
  by (auto simp: isSupported_def list_all_iff)

lemma validate_filter_ok:
  assumes "validate_filter m fo = ([], fo1)"
  shows "isSupported fo1 m" "foCompareFunc fo1 = foCompareFunc fo"
    "foColumn fo1 = foColumn fo \<or> (\<forall>col \<in> set (foColumn fo1). CHR ''['' \<notin> set col)"
  using assms
  by (auto simp: validate_filter_def Let_def setWildcardColumns_def contains_char_iff split: if_splits)

lemma validated_filters:
  assumes "ValidateFilterOptions fos m = ([], fos1)" "fo1 \<in> set fos1"
  obtains fo where "fo \<in> set fos" "validate_filter m fo = ([], fo1)"
proof -
  from assms obtain fo where "fo \<in> set fos" "fo1 = snd (validate_filter m fo)" "fst (validate_filter m fo) = []"
    by (auto simp: ValidateFilterOptions_def Let_def)
  with that show ?thesis by (metis prod.collapse)
qed

lemma request_filter_columns:
  assumes "plain_names m" "ValidateFilterOptions (ParseFilterOptions vals) m = ([], fos)" "fo \<in> set fos"
  shows "foCompareFunc fo = ''''"
    and "col \<in> set (foColumn fo) \<Longrightarrow> col \<noteq> [] \<and> list_all is_word col \<and>
      (is_supported m col \<or> is_supported m (filter_key col (foOperator fo)))"
proof -
  from validated_filters [OF assms(2,3)] obtain fo0 where
    fo0: "fo0 \<in> set (ParseFilterOptions vals)" "validate_filter m fo0 = ([], fo)" .
  note ok = validate_filter_ok [OF fo0(2)]
  from ok(2) parsed_columns(1) [OF fo0(1)] show "foCompareFunc fo = ''''" by simp
  assume col: "col \<in> set (foColumn fo)"
  from ok(3) col parsed_columns(2) [OF fo0(1)] have "CHR ''['' \<notin> set col" by auto
  moreover note isSupported_column [OF ok(1) col]
  ultimately show "col \<noteq> [] \<and> list_all is_word col \<and>
      (is_supported m col \<or> is_supported m (filter_key col (foOperator fo)))"
    using supported_column [OF assms(1)] by blast
qed

text \<open>C13: Filters from a request cannot change the text of a statement. After validation every column named in the statement
  is a word that the endpoint supports for that operator; the values are bound parameters, one for each placeholder;
  and the text depends on a value only in whether it is empty and whether it holds a wildcard.
\<close>

theorem filters_cannot_inject_sql:
  assumes "plain_names m" "ValidateFilterOptions (ParseFilterOptions vals) m = ([], fos)"
  shows "(\<forall>fo \<in> set fos. \<forall>col \<in> set (foColumn fo). col \<noteq> [] \<and> list_all is_word col \<and>
        (is_supported m col \<or> is_supported m (filter_key col (foOperator fo)))) \<and>
    (\<exists>text new. AddWhere d fos q ps = (q @ text, ps @ new) \<and> count_list text CHR ''?'' = length new) \<and>
    (\<forall>fos' ps'. map shape fos' = map shape fos \<longrightarrow> fst (AddWhere d fos' q ps') = fst (AddWhere d fos q ps))"
proof (intro conjI ballI allI impI)
  fix fo col assume "fo \<in> set fos" "col \<in> set (foColumn fo)"
  note cols = request_filter_columns(2) [OF assms this]
  from cols show "col \<noteq> []" "list_all is_word col"
    "is_supported m col \<or> is_supported m (filter_key col (foOperator fo))" by simp_all
next
  show "\<exists>text new. AddWhere d fos q ps = (q @ text, ps @ new) \<and> count_list text CHR ''?'' = length new"
    by (rule AddWhere_placeholders) (use request_filter_columns [OF assms] in auto)
next
  fix fos' ps' assume "map shape fos' = map shape fos"
  then show "fst (AddWhere d fos' q ps') = fst (AddWhere d fos q ps)" by (rule AddWhere_text)
qed

definition library_filters :: supported where
  "library_filters = [(''id'', True), (''name'', True), (''created_at[gt]'', True)]"

definition library_query :: url_values where
  "library_query = [(''filter[name|id]'', [[CHR 0x27] @ '' OR 1=1 --,ba*'']), (''filter[created_at][gt]'', [''2024-01-01''])]"

definition library_parsed :: "filter_option list" where
  "library_parsed =
     [\<lparr>foColumn = [''name'', ''id''], foOperator = '''', foValues = [[CHR 0x27] @ '' OR 1=1 --'', ''ba*''], foLogical = '''', foCompareFunc = ''''\<rparr>,
      \<lparr>foColumn = [''created_at''], foOperator = ''gt'', foValues = [''2024-01-01''], foLogical = '''', foCompareFunc = ''''\<rparr>]"

lemma library_validated: "ValidateFilterOptions (ParseFilterOptions library_query) library_filters = ([], library_parsed)"
  by code_simp

theorem filters_cannot_inject_sql_witness:
  "\<exists>text new. AddWhere ''sqlite3'' library_parsed ''SELECT * FROM commands'' [] = (''SELECT * FROM commands'' @ text, [] @ new) \<and>
     count_list text CHR ''?'' = length new"
proof -
  have "plain_names library_filters" by code_simp
  from filters_cannot_inject_sql [OF this library_validated] show ?thesis by blast
qed

section \<open>Wildcards\<close>

text \<open>
  \<^verbatim>\<open>x LIKE p ESCAPE '\'\<close> as the databases document it: a percent sign stands for any text, an underscore for any
  character, the escape character makes the next of these three literal, and letters match without regard to case.
\<close>

definition backslash :: char where
  "backslash = CHR 0x5C"

definition like_spec :: "(string \<Rightarrow> string \<Rightarrow> bool) \<Rightarrow> bool" where
  "like_spec like \<longleftrightarrow>
     (\<forall>s. like s [] \<longleftrightarrow> s = []) \<and>
     (\<forall>s p. like s (CHR ''%'' # p) \<longleftrightarrow> (\<exists>u t. s = u @ t \<and> like t p)) \<and>
     (\<forall>s p. like s (CHR ''_'' # p) \<longleftrightarrow> (\<exists>x t. s = x # t \<and> like t p)) \<and>
     (\<forall>s p c. c \<in> {CHR ''%'', CHR ''_'', backslash} \<longrightarrow>
        (like s (backslash # c # p) \<longleftrightarrow> (\<exists>t. s = c # t \<and> like t p))) \<and>
     (\<forall>s p c. c \<notin> {CHR ''%'', CHR ''_'', backslash} \<longrightarrow>
        (like s (c # p) \<longleftrightarrow> (\<exists>x t. s = x # t \<and> lower_char x = lower_char c \<and> like t p)))"

lemma like_specD:
  assumes "like_spec like"
  shows "like s [] \<longleftrightarrow> s = []"
    and "like s (CHR ''%'' # p) \<longleftrightarrow> (\<exists>u t. s = u @ t \<and> like t p)"
    and "like s (CHR ''_'' # p) \<longleftrightarrow> (\<exists>x t. s = x # t \<and> like t p)"
    and "c \<in> {CHR ''%'', CHR ''_'', backslash} \<Longrightarrow> like s (backslash # c # p) \<longleftrightarrow> (\<exists>t. s = c # t \<and> like t p)"
    and "c \<notin> {CHR ''%'', CHR ''_'', backslash} \<Longrightarrow>
      like s (c # p) \<longleftrightarrow> (\<exists>x t. s = x # t \<and> lower_char x = lower_char c \<and> like t p)"
  using assms [unfolded like_spec_def, THEN conjunct1, rule_format]
    assms [unfolded like_spec_def, THEN conjunct2, THEN conjunct1, rule_format]
    assms [unfolded like_spec_def, THEN conjunct2, THEN conjunct2, THEN conjunct1, rule_format]
    assms [unfolded like_spec_def, THEN conjunct2, THEN conjunct2, THEN conjunct2, THEN conjunct1, rule_format]
    assms [unfolded like_spec_def, THEN conjunct2, THEN conjunct2, THEN conjunct2, THEN conjunct2, rule_format]
  by (simp_all only:)

text \<open>A function with this behaviour.\<close>

fun like_ref :: "string \<Rightarrow> string \<Rightarrow> bool" where
  "like_ref [] s \<longleftrightarrow> s = []"
| "like_ref (c # p) s \<longleftrightarrow>
     (if c = CHR ''%'' then like_ref p s \<or> (case s of [] \<Rightarrow> False | _ # t \<Rightarrow> like_ref (c # p) t)
      else if c = CHR ''_'' then (case s of [] \<Rightarrow> False | _ # t \<Rightarrow> like_ref p t)
      else if c = CHR 0x5C
      then (case p of [] \<Rightarrow> False | d # p1 \<Rightarrow> (case s of [] \<Rightarrow> False | x # t \<Rightarrow> x = d \<and> like_ref p1 t))
      else (case s of [] \<Rightarrow> False | x # t \<Rightarrow> lower_char x = lower_char c \<and> like_ref p t))"

lemma like_ref_percent: "like_ref (CHR ''%'' # p) s \<longleftrightarrow> (\<exists>u t. s = u @ t \<and> like_ref p t)"
proof (induction s)
  case (Cons x s)
  show ?case
  proof
    assume "like_ref (CHR ''%'' # p) (x # s)"
    then have "like_ref p (x # s) \<or> (\<exists>u t. s = u @ t \<and> like_ref p t)" using Cons.IH by (auto split: if_splits)
    then show "\<exists>u t. x # s = u @ t \<and> like_ref p t" by (metis append_Cons append_Nil)
  next
    assume "\<exists>u t. x # s = u @ t \<and> like_ref p t"
    then show "like_ref (CHR ''%'' # p) (x # s)" using Cons.IH by (auto simp: Cons_eq_append_conv)
  qed
qed auto

lemma like_ref_spec: "like_spec (\<lambda>s p. like_ref p s)"
  unfolding like_spec_def backslash_def
proof (intro conjI allI impI)
  fix s p
  show "like_ref (CHR ''%'' # p) s \<longleftrightarrow> (\<exists>u t. s = u @ t \<and> like_ref p t)" by (rule like_ref_percent)
qed (auto split: list.splits)

text \<open>The parameter that a value with a wildcard is bound to.\<close>

lemma lower_char_special [simp]:
  "lower_char CHR ''%'' = CHR ''%''" "lower_char CHR ''*'' = CHR ''*''" "lower_char CHR ''_'' = CHR ''_''"
  "lower_char backslash = backslash"
  by (simp_all add: lower_char_def backslash_def)

lemma lower_char_cases: "lower_char c = c \<or> (97 \<le> (of_char (lower_char c) :: nat) \<and> of_char (lower_char c) \<le> (122 :: nat))"
  by (auto simp: lower_char_def Let_def)

lemma lower_char_eq_special:
  assumes "d \<in> {CHR ''%'', CHR ''*'', CHR ''_'', backslash}"
  shows "lower_char c = d \<longleftrightarrow> c = d"
  using assms lower_char_cases [of c] lower_char_special(4) by (auto simp: backslash_def)

lemma lower_char_idem [simp]: "lower_char (lower_char c) = lower_char c"
proof -
  consider "lower_char c = c" | "97 \<le> (of_char (lower_char c) :: nat)" using lower_char_cases [of c] by blast
  then show ?thesis by cases (simp_all add: lower_char_def [of "lower_char c"] Let_def)
qed

definition like_pattern :: "string \<Rightarrow> string" where
  "like_pattern val = replace_char (to_lower (replace_char val CHR ''%'' [CHR 0x5C, CHR ''%''])) CHR ''*'' ''%''"

lemma like_pattern_simps:
  "like_pattern [] = []"
  "like_pattern (c # v) =
     (if c = CHR ''%'' then [backslash, CHR ''%''] else if c = CHR ''*'' then ''%'' else [lower_char c]) @ like_pattern v"
  using lower_char_eq_special [of "CHR ''*''" c] lower_char_special(4)
  by (auto simp: like_pattern_def replace_char_def to_lower_def backslash_def)

lemma filter_part_wildcard:
  assumes "CHR ''*'' \<in> set val" "Code (foOperator fo) = ''=''"
  shows "snd (filter_part d fo col val) = like_pattern val"
  using assms by (auto simp: filter_part_def Let_def contains_char_iff like_pattern_def)

lemma glob_lower_Cons:
  "c \<noteq> CHR ''*'' \<Longrightarrow> glob (lower_char c # p) s \<longleftrightarrow> (\<exists>t. s = lower_char c # t \<and> glob p t)"
  using lower_char_eq_special [of "CHR ''*''" c] by (auto simp: glob_char_iff)

lemma like_pattern_glob:
  assumes "like_spec like"
  shows "CHR ''_'' \<notin> set val \<Longrightarrow> backslash \<notin> set val \<Longrightarrow>
    like (to_lower s) (like_pattern val) \<longleftrightarrow> glob (to_lower val) (to_lower s)"
proof (induction val arbitrary: s)
  case Nil
  show ?case using like_specD(1) [OF assms] by (simp add: like_pattern_simps to_lower_def)
next
  case (Cons c val)
  have IH: "like t (like_pattern val) \<longleftrightarrow> glob (to_lower val) t" if "to_lower t = t" for t
    using Cons.IH [of t] Cons.prems that by simp
  have low: "to_lower t = t" if "to_lower s = u @ t" for u t
    using arg_cong [OF that, of "map lower_char"] that by (auto simp: to_lower_def comp_def)
  consider "c = CHR ''%''" | "c = CHR ''*''" | "c \<noteq> CHR ''%''" "c \<noteq> CHR ''*''" by blast
  then show ?case
  proof cases
    case 1
    have "like (to_lower s) (backslash # CHR ''%'' # like_pattern val) \<longleftrightarrow>
        (\<exists>t. to_lower s = CHR ''%'' # t \<and> like t (like_pattern val))"
      by (rule like_specD(4) [OF assms]) simp
    also have "\<dots> \<longleftrightarrow> (\<exists>t. to_lower s = CHR ''%'' # t \<and> glob (to_lower val) t)"
      using IH low [of "''%''"] by auto
    finally show ?thesis using 1 by (simp add: like_pattern_simps to_lower_def glob_char_iff)
  next
    case 2
    have "like (to_lower s) (CHR ''%'' # like_pattern val) \<longleftrightarrow> (\<exists>u t. to_lower s = u @ t \<and> glob (to_lower val) t)"
      unfolding like_specD(2) [OF assms] using IH low by blast
    with 2 show ?thesis by (simp add: like_pattern_simps to_lower_def glob_star_iff)
  next
    case 3
    with Cons.prems have "lower_char c \<notin> {CHR ''%'', CHR ''_'', backslash}"
      using lower_char_eq_special [of _ c] by auto
    then have "like (to_lower s) (lower_char c # like_pattern val) \<longleftrightarrow>
        (\<exists>x t. to_lower s = x # t \<and> lower_char x = lower_char (lower_char c) \<and> like t (like_pattern val))"
      by (rule like_specD(5) [OF assms])
    also have "\<dots> \<longleftrightarrow> (\<exists>t. to_lower s = lower_char c # t \<and> glob (to_lower val) t)"
    proof -
      have "lower_char x = x \<and> to_lower t = t" if "to_lower s = x # t" for x t
        using low [of "[]" "x # t"] that by (simp add: to_lower_def)
      with IH show ?thesis by auto
    qed
    finally show ?thesis using 3 by (simp add: like_pattern_simps to_lower_def glob_lower_Cons)
  qed
qed

text \<open>A text with a wildcard is not a date.\<close>

lemma digit_not_star [simp]: "\<not> is_digit CHR ''*''"
  by (simp add: is_digit_def)

lemma getnum_star: "getnum f s = Some (n, r) \<Longrightarrow> CHR ''*'' \<in> set s \<Longrightarrow> CHR ''*'' \<in> set r"
  by (auto simp: getnum_def split: list.splits if_splits)

lemma getyear_star:
  assumes "getyear s = Some (n, r)" "CHR ''*'' \<in> set s"
  shows "CHR ''*'' \<in> set r"
proof -
  from assms(1) have d: "list_all is_digit (take 4 s)" "r = drop 4 s" by (auto simp: getyear_def split: if_splits)
  have "set s = set (take 4 s) \<union> set (drop 4 s)" by (metis append_take_drop_id set_append)
  with assms(2) d show ?thesis by (auto simp: list_all_iff)
qed

lemma skip_char_star: "skip_char c s = Some r \<Longrightarrow> c \<noteq> CHR ''*'' \<Longrightarrow> CHR ''*'' \<in> set s \<Longrightarrow> CHR ''*'' \<in> set r"
  by (auto simp: skip_char_def split: list.splits if_splits)

lemma parse_ymd_star:
  assumes "parse_ymd s = Some (y, m, d, r)" "CHR ''*'' \<in> set s"
  shows "CHR ''*'' \<in> set r"
proof -
  from assms(1) obtain s1 s2 s3 s4 where s: "getyear s = Some (y, s1)" "skip_char CHR ''-'' s1 = Some s2"
    "getnum True s2 = Some (m, s3)" "skip_char CHR ''-'' s3 = Some s4" "getnum True s4 = Some (d, r)"
    by (auto simp: parse_ymd_def bind_eq_Some_conv split: if_splits)
  from getyear_star [OF s(1) assms(2)] have "CHR ''*'' \<in> set s2" using skip_char_star [OF s(2)] by simp
  from getnum_star [OF s(3) this] have "CHR ''*'' \<in> set s4" using skip_char_star [OF s(4)] by simp
  from getnum_star [OF s(5) this] show ?thesis .
qed

lemma parse_fraction_star: "parse_fraction s = (n, r) \<Longrightarrow> CHR ''*'' \<in> set s \<Longrightarrow> CHR ''*'' \<in> set r"
proof -
  assume a: "parse_fraction s = (n, r)" "CHR ''*'' \<in> set s"
  have digits: "CHR ''*'' \<in> set t \<Longrightarrow> CHR ''*'' \<in> set (dropWhile is_digit t)" for t
    by (induction t) auto
  from a digits show ?thesis
    by (auto simp: parse_fraction_def Let_def split: list.splits if_splits)
qed

lemma parse_clock_star:
  assumes "parse_clock s = Some (n, r)" "CHR ''*'' \<in> set s"
  shows "CHR ''*'' \<in> set r"
proof -
  from assms(1) obtain h mi sec s1 s2 s3 s4 s5 where s: "getnum False s = Some (h, s1)" "skip_char CHR '':'' s1 = Some s2"
    "getnum True s2 = Some (mi, s3)" "skip_char CHR '':'' s3 = Some s4" "getnum True s4 = Some (sec, s5)"
    "r = snd (parse_fraction s5)"
    by (auto simp: parse_clock_def bind_eq_Some_conv Let_def case_prod_beta split: if_splits)
  from getnum_star [OF s(1) assms(2)] have "CHR ''*'' \<in> set s2" using skip_char_star [OF s(2)] by simp
  from getnum_star [OF s(3) this] have "CHR ''*'' \<in> set s4" using skip_char_star [OF s(4)] by simp
  from getnum_star [OF s(5) this] have "CHR ''*'' \<in> set s5" .
  with parse_fraction_star s(6) show ?thesis by (metis prod.collapse)
qed

lemma getnum_two: "getnum True s = Some (n, r) \<Longrightarrow> \<exists>a b. s = a # b # r \<and> is_digit a \<and> is_digit b"
  by (auto simp: getnum_def split: list.splits if_splits)

lemma parse_zone_star:
  assumes "parse_zone s = Some (n, r)" "CHR ''*'' \<in> set s"
  shows "CHR ''*'' \<in> set r"
proof -
  obtain z zs where s: "s = z # zs" using assms(2) by (cases s) auto
  show ?thesis
  proof (cases "z = CHR ''Z''")
    case True
    with assms s show ?thesis by (auto simp: parse_zone_def)
  next
    case False
    with assms s obtain hr mm r1 r2 where p: "5 \<le> length zs" "zs ! 2 = CHR '':''" "getnum True (take 2 zs) = Some (hr, r1)"
      "getnum True (take 2 (drop 3 zs)) = Some (mm, r2)" "z = CHR ''+'' \<or> z = CHR ''-''" "r = drop 5 zs"
      by (auto simp: parse_zone_def bind_eq_Some_conv split: if_splits)
    from p(1) obtain a b c d e rest where zs: "zs = a # b # c # d # e # rest"
      by (auto simp: numeral_eq_Suc Suc_le_length_iff)
    from p getnum_two [OF p(3)] getnum_two [OF p(4)] assms(2) s show ?thesis
      by (auto simp: zs)
  qed
qed

lemma star_not_date:
  assumes "CHR ''*'' \<in> set v"
  shows "MatchIfDate text v fo = Inl (GoError ''filter value not valid simple or RFC3339 date'' [])"
proof -
  have "parse_date_only v = None"
  proof (rule ccontr)
    assume "parse_date_only v \<noteq> None"
    then obtain y m d where "parse_ymd v = Some (y, m, d, [])"
      by (auto simp: parse_date_only_def bind_eq_Some_conv split: if_splits)
    from parse_ymd_star [OF this assms] show False by simp
  qed
  moreover have "parse_RFC3339 v = None"
  proof (rule ccontr)
    assume "parse_RFC3339 v \<noteq> None"
    then obtain y m d s1 s2 clock s3 off s4 where p: "parse_ymd v = Some (y, m, d, s1)" "skip_char CHR ''T'' s1 = Some s2"
      "parse_clock s2 = Some (clock, s3)" "parse_zone s3 = Some (off, s4)" "s4 = []"
      by (auto simp: parse_RFC3339_def bind_eq_Some_conv split: if_splits)
    from parse_ymd_star [OF p(1) assms] have "CHR ''*'' \<in> set s2" using skip_char_star [OF p(2)] by simp
    from parse_zone_star [OF p(4) parse_clock_star [OF p(3) this]] p(5) show False by simp
  qed
  ultimately show ?thesis by (simp add: MatchIfDate_def)
qed

text \<open>Values whose only special character is the wildcard, and the expressions made from them.\<close>

definition simple_value :: "string \<Rightarrow> bool" where
  "simple_value v \<longleftrightarrow> list_all (\<lambda>c. c = CHR ''*'' \<or> (\<not> is_meta c \<and> c \<noteq> CHR ''.'')) v"

definition wildcard_rx :: "string \<Rightarrow> rx list" where
  "wildcard_rx v = map (\<lambda>c. if c = CHR ''*'' then RStar else RLit c) v"

lemma rx_tokens_wildcard:
  "simple_value v \<Longrightarrow> rx_tokens (replace_char v CHR ''*'' ''.*?'') = Some (wildcard_rx v)"
  by (induction v) (auto simp: simple_value_def wildcard_rx_def replace_char_def)

lemma rx_star_iff: "rx_match (RStar # ts) s \<longleftrightarrow> (\<exists>u t. s = u @ t \<and> CHR 0x0A \<notin> set u \<and> rx_match ts t)"
proof (induction s)
  case (Cons x s)
  show ?case
  proof
    assume "rx_match (RStar # ts) (x # s)"
    then consider "rx_match ts (x # s)" | u t where "x \<noteq> CHR 0x0A" "s = u @ t" "CHR 0x0A \<notin> set u" "rx_match ts t"
      using Cons.IH by auto
    then show "\<exists>u t. x # s = u @ t \<and> CHR 0x0A \<notin> set u \<and> rx_match ts t"
    proof cases
      case 1
      then show ?thesis by (intro exI [of _ "[]"] exI [of _ "x # s"]) simp
    next
      case 2
      then show ?thesis by (intro exI [of _ "x # u"] exI [of _ t]) simp
    qed
  next
    assume "\<exists>u t. x # s = u @ t \<and> CHR 0x0A \<notin> set u \<and> rx_match ts t"
    then consider "rx_match ts (x # s)" | u t where "x \<noteq> CHR 0x0A" "s = u @ t" "CHR 0x0A \<notin> set u" "rx_match ts t"
      by (auto simp: Cons_eq_append_conv)
    then show "rx_match (RStar # ts) (x # s)"
    proof cases
      case 2
      then have "rx_match (RStar # ts) s" using Cons.IH by blast
      with 2(1) show ?thesis by simp
    qed simp
  qed
qed auto

lemma wildcard_rx_glob:
  "CHR 0x0A \<notin> set s \<Longrightarrow> rx_match (wildcard_rx v) s \<longleftrightarrow> glob (to_lower v) (to_lower s)"
proof (induction v arbitrary: s)
  case Nil
  show ?case by (simp add: wildcard_rx_def to_lower_def)
next
  case (Cons c v)
  show ?case
  proof (cases "c = CHR ''*''")
    case True
    have parts: "CHR 0x0A \<notin> set u \<and> CHR 0x0A \<notin> set t" if "s = u @ t" for u t
      using that Cons.prems by auto
    have "rx_match (wildcard_rx (c # v)) s \<longleftrightarrow> (\<exists>u t. s = u @ t \<and> CHR 0x0A \<notin> set u \<and> rx_match (wildcard_rx v) t)"
      using True rx_star_iff [of "wildcard_rx v" s] by (simp add: wildcard_rx_def del: rx_match.simps)
    also have "\<dots> \<longleftrightarrow> (\<exists>u t. s = u @ t \<and> glob (to_lower v) (to_lower t))"
      using parts Cons.IH by blast
    also have "\<dots> \<longleftrightarrow> (\<exists>u t. to_lower s = u @ t \<and> glob (to_lower v) t)"
      by (auto simp: to_lower_def map_eq_append_conv)
    finally show ?thesis using True by (simp add: to_lower_def glob_star_iff)
  next
    case False
    then have "rx_match (wildcard_rx (c # v)) s \<longleftrightarrow>
        (\<exists>x t. s = x # t \<and> lower_char x = lower_char c \<and> rx_match (wildcard_rx v) t)"
      by (auto simp: wildcard_rx_def split: list.splits)
    also have "\<dots> \<longleftrightarrow> (\<exists>x t. s = x # t \<and> lower_char x = lower_char c \<and> glob (to_lower v) (to_lower t))"
      using Cons by auto
    also have "\<dots> \<longleftrightarrow> glob (lower_char c # to_lower v) (to_lower s)"
      using False by (auto simp: glob_lower_Cons to_lower_def map_eq_Cons_conv)
    finally show ?thesis by (simp add: to_lower_def)
  qed
qed

lemma value_matches_wildcard:
  assumes "CHR ''*'' \<in> set v" "simple_value v" "CHR 0x0A \<notin> set text"
  shows "value_matches rx fo text v \<longleftrightarrow> glob (to_lower v) (to_lower text)"
  using assms
  by (simp add: value_matches_def star_not_date contains_char_iff regexp_compile_def rx_tokens_wildcard wildcard_rx_glob)

text \<open>Both ways of evaluating a filter agree on wildcards. A value whose only special character is the wildcard, compared in memory
  through a regular expression or in SQL through the bound parameter of a \<^verbatim>\<open>LIKE\<close>, selects the same texts: those the
  value describes without regard to case, with \<^verbatim>\<open>*\<close> standing for any text.
\<close>

theorem wildcard_backends_agree:
  assumes "like_spec like" "CHR ''*'' \<in> set v" "simple_value v" "CHR ''_'' \<notin> set v"
    and "CHR 0x0A \<notin> set text" "Code (foOperator fo) = ''=''"
  shows "(value_matches rx fo text v \<longleftrightarrow> glob (to_lower v) (to_lower text)) \<and>
    (like (to_lower text) (snd (filter_part d fo col v)) \<longleftrightarrow> value_matches rx fo text v)"
proof -
  have "value_matches rx fo text v \<longleftrightarrow> glob (to_lower v) (to_lower text)"
    by (rule value_matches_wildcard) (use assms in auto)
  moreover have "is_meta backslash" "backslash \<noteq> CHR ''*''" by (simp_all add: is_meta_def backslash_def)
  then have "backslash \<notin> set v" using assms(3) unfolding simple_value_def list_all_iff by blast
  ultimately show ?thesis
    unfolding filter_part_wildcard [OF assms(2,6)] using like_pattern_glob [OF assms(1,4)] by blast
qed

definition name_filter :: "string \<Rightarrow> filter_option" where
  "name_filter v = \<lparr>foColumn = [''name''], foOperator = '''', foValues = [v], foLogical = '''', foCompareFunc = ''''\<rparr>"

theorem wildcard_backends_agree_witness:
  "value_matches (\<lambda>_. None) (name_filter ''ba*'') ''Backup 100%'' ''ba*'' \<and>
   like_ref (snd (filter_part ''sqlite3'' (name_filter ''ba*'') ''name'' ''ba*'')) (to_lower ''Backup 100%'')"
proof -
  have "simple_value ''ba*''" "CHR ''*'' \<in> set ''ba*''" "CHR ''_'' \<notin> set ''ba*''" "CHR 0x0A \<notin> set ''Backup 100%''"
    "Code (foOperator (name_filter ''ba*'')) = ''=''" by code_simp+
  from wildcard_backends_agree [OF like_ref_spec this(2,1,3,4,5), of "\<lambda>_. None" "''sqlite3''" "''name''"]
  have "like_ref (snd (filter_part ''sqlite3'' (name_filter ''ba*'') ''name'' ''ba*'')) (to_lower ''Backup 100%'') \<longleftrightarrow>
      value_matches (\<lambda>_. None) (name_filter ''ba*'') ''Backup 100%'' ''ba*''" by blast
  moreover have "value_matches (\<lambda>_. None) (name_filter ''ba*'') ''Backup 100%'' ''ba*''" by code_simp
  ultimately show ?thesis by blast
qed

text \<open>Outside these values the two differ from each other and from what the value says. In memory a full stop
  stands for any character, so \<^verbatim>\<open>10.1.1*\<close> selects the address \<^verbatim>\<open>10.111.5.5\<close>. In SQL an underscore stands for any character,
  and a percent sign that follows a backslash stands for any text, because only the percent sign is escaped.
\<close>

theorem wildcards_overmatch:
  assumes "like_spec like" "Code (foOperator fo) = ''=''"
  shows "value_matches rx fo ''10.111.5.5'' ''10.1.1*'' \<and> \<not> glob ''10.1.1*'' ''10.111.5.5'' \<and>
    like ''abc'' (snd (filter_part d fo col ''a_*'')) \<and> \<not> glob ''a_*'' ''abc'' \<and>
    like (backslash # ''abc'') (snd (filter_part d fo col (backslash # ''%*''))) \<and> \<not> glob (backslash # ''%*'') (backslash # ''abc'')"
proof (intro conjI)
  have "regexp_compile rx (replace_char ''10.1.1*'' CHR ''*'' ''.*?'') = Some (rx_match
      [RLit CHR ''1'', RLit CHR ''0'', RAny, RLit CHR ''1'', RAny, RLit CHR ''1'', RStar])"
    by (simp add: regexp_compile_def replace_char_def is_meta_def)
  then show "value_matches rx fo ''10.111.5.5'' ''10.1.1*''"
    by (simp add: value_matches_def star_not_date contains_char_iff)
  show "\<not> glob ''10.1.1*'' ''10.111.5.5''" "\<not> glob ''a_*'' ''abc''"
    "\<not> glob (backslash # ''%*'') (backslash # ''abc'')"
    by (simp_all add: glob_char_iff backslash_def)
  have "snd (filter_part d fo col ''a_*'') = ''a_%''"
    using filter_part_wildcard [OF _ assms(2), of "''a_*''"] by (simp add: like_pattern_simps lower_char_def)
  moreover have "like ''abc'' ''a_%''"
    using like_specD(1,2,3) [OF assms(1)] like_specD(5) [OF assms(1), of "CHR ''a''"] by (auto simp: backslash_def)
  ultimately show "like ''abc'' (snd (filter_part d fo col ''a_*''))" by simp
  have "snd (filter_part d fo col (backslash # ''%*'')) = [backslash, backslash] @ ''%%''"
    using filter_part_wildcard [OF _ assms(2), of "backslash # ''%*''"] by (simp add: like_pattern_simps backslash_def lower_char_def)
  moreover have "like (backslash # ''abc'') ([backslash, backslash] @ ''%%'')"
    using like_specD(1,2) [OF assms(1)] like_specD(4) [OF assms(1), of backslash] by auto
  ultimately show "like (backslash # ''abc'') (snd (filter_part d fo col (backslash # ''%*'')))" by simp
qed

theorem wildcards_overmatch_witness:
  "value_matches (\<lambda>_. None) (name_filter ''10.1.1*'') ''10.111.5.5'' ''10.1.1*'' \<and>
   like_ref (snd (filter_part ''sqlite3'' (name_filter ''a_*'') ''name'' ''a_*'')) ''abc''"
proof -
  have "Code (foOperator (name_filter v)) = ''=''" for v by (simp add: name_filter_def Code_def)
  from wildcards_overmatch [OF like_ref_spec this] show ?thesis by blast
qed

text \<open>The map of matched values after all columns.\<close>

lemma mark_filter_values_keys:
  "distinct m \<Longrightarrow> distinct (mark_filter_values rx fo text vs m) \<and>
     set (mark_filter_values rx fo text vs m) = set m \<union> {v \<in> set vs. value_matches rx fo text v}"
  by (induction rx fo "text" vs m rule: mark_filter_values.induct) auto

lemma mark_texts_keys:
  "distinct m \<Longrightarrow> distinct (mark_texts rx fo texts m) \<and>
     set (mark_texts rx fo texts m) = set m \<union> {v \<in> set (foValues fo). \<exists>text \<in> set texts. value_matches rx fo text v}"
  by (induction rx fo texts m rule: mark_texts.induct) (auto simp: mark_filter_values_keys)

definition column_matches :: "regexp \<Rightarrow> (string \<times> json) list \<Rightarrow> filter_option \<Rightarrow> string \<Rightarrow> bool" where
  "column_matches rx valueMap fo v \<longleftrightarrow>
     (\<exists>col \<in> set (foColumn fo). \<exists>j. map_of valueMap col = Some j \<and> (\<exists>text \<in> set (field_texts j). value_matches rx fo text v))"

lemma mark_columns_keys:
  "distinct m \<Longrightarrow> \<forall>col \<in> set cols. map_of valueMap col \<noteq> None \<Longrightarrow>
     \<exists>m1. mark_columns rx valueMap fo cols m = Inr m1 \<and> distinct m1 \<and>
       set m1 = set m \<union> {v \<in> set (foValues fo). \<exists>col \<in> set cols. \<exists>j. map_of valueMap col = Some j \<and>
         (\<exists>text \<in> set (field_texts j). value_matches rx fo text v)}"
proof (induction rx valueMap fo cols m rule: mark_columns.induct)
  case (2 rx valueMap fo col cols m)
  then obtain j where j: "map_of valueMap col = Some j" by auto
  note keys = mark_texts_keys [OF "2.prems"(1), of rx fo "field_texts j"]
  from "2.IH" [OF j conjunct1 [OF keys]] "2.prems"(2) obtain m1 where
    "mark_columns rx valueMap fo cols (mark_texts rx fo (field_texts j) m) = Inr m1" "distinct m1"
    "set m1 = set (mark_texts rx fo (field_texts j) m) \<union> {v \<in> set (foValues fo). \<exists>col \<in> set cols. \<exists>j. map_of valueMap col = Some j \<and>
         (\<exists>text \<in> set (field_texts j). value_matches rx fo text v)}" by auto
  with keys j show ?case by (intro exI [of _ m1]) auto
qed auto

lemma distinct_sublist_full:
  assumes "distinct m" "set m = {v \<in> set vs. P v}"
  shows "length m = length vs \<longleftrightarrow> distinct vs \<and> (\<forall>v \<in> set vs. P v)"
proof -
  have sub: "card (set m) \<le> card (set vs)" by (rule card_mono) (auto simp: assms)
  have "length m = length vs \<longleftrightarrow> card (set m) = length vs" using distinct_card [OF assms(1)] by simp
  also have "\<dots> \<longleftrightarrow> card (set m) = card (set vs) \<and> card (set vs) = length vs"
    using sub card_length [of vs] by linarith
  also have "\<dots> \<longleftrightarrow> set m = set vs \<and> distinct vs"
    using card_subset_eq [of "set vs" "set m"] distinct_card card_distinct by (auto simp: assms)
  finally show ?thesis by (auto simp: assms)
qed

text \<open>A filter on an entry in memory holds, when all its columns exist, exactly if one of its values matches one of the
  texts of one of its columns. With \<^verbatim>\<open>and(...)\<close> it holds exactly if every value does so and no value is given twice:
  a value that is repeated makes the filter fail for every entry.
\<close>

theorem memory_filter_exact:
  assumes "\<forall>col \<in> set (foColumn fo). map_of valueMap col \<noteq> None"
  shows "matchesFilter rx valueMap fo =
    Inr (if foLogical fo = ''and'' then distinct (foValues fo) \<and> (\<forall>v \<in> set (foValues fo). column_matches rx valueMap fo v)
         else \<exists>v \<in> set (foValues fo). column_matches rx valueMap fo v)"
proof -
  obtain m where m: "mark_columns rx valueMap fo (foColumn fo) [] = Inr m" "distinct m"
    "set m = {v \<in> set (foValues fo). column_matches rx valueMap fo v}"
    using mark_columns_keys [of "[]" "foColumn fo" valueMap rx fo] assms by (auto simp: column_matches_def)
  have "0 < length m \<longleftrightarrow> set m \<noteq> {}" by simp
  also have "\<dots> \<longleftrightarrow> (\<exists>v \<in> set (foValues fo). column_matches rx valueMap fo v)" unfolding m(3) by blast
  finally have "0 < length m \<longleftrightarrow> (\<exists>v \<in> set (foValues fo). column_matches rx valueMap fo v)" .
  with m distinct_sublist_full [OF m(2,3)] show ?thesis by (simp add: matchesFilter_def)
qed

definition tag_filter :: "string list \<Rightarrow> filter_option" where
  "tag_filter vs = \<lparr>foColumn = [''tags''], foOperator = '''', foValues = vs, foLogical = ''and'', foCompareFunc = ''''\<rparr>"

definition tagged_entry :: "(string \<times> json) list" where
  "tagged_entry = [(''tags'', JArr [JStr ''Linux'', JStr ''Datacenter 4''])]"

theorem memory_filter_exact_witness:
  "matchesFilter (\<lambda>_. None) tagged_entry (tag_filter [''linux'', ''data*'']) = Inr True \<and>
   matchesFilter (\<lambda>_. None) tagged_entry (tag_filter [''linux'', ''linux'']) = Inr False"
proof -
  have cols: "\<forall>col \<in> set (foColumn (tag_filter vs)). map_of tagged_entry col \<noteq> None" for vs
    by (simp add: tag_filter_def tagged_entry_def)
  have "matchesFilter (\<lambda>_. None) tagged_entry (tag_filter [''linux'', ''data*'']) = Inr True" by code_simp
  moreover have "matchesFilter (\<lambda>_. None) tagged_entry (tag_filter [''linux'', ''linux'']) = Inr False"
    unfolding memory_filter_exact [OF cols] by (simp add: tag_filter_def)
  ultimately show ?thesis by blast
qed

end
