(* ===== verification/ClientAuth.thy ===== *)
theory ClientAuth
  imports ClientStart Query BanList
begin

text \<open>
  The credentials of the agents: \<^verbatim>\<open>server/clientsauth\<close>, their check when an agent connects
  (\<^verbatim>\<open>authUser\<close> of \<^verbatim>\<open>server/client_listener.go\<close>) and the handlers of
  \<^verbatim>\<open>server/api_handler_clientsauth.go\<close>. A credential is kept in a table, in a JSON file, or in the configuration.

  What the operating system, the database, bcrypt and SHA-256 answer to one call is the record \<open>auth_env\<close>. The cache in front of the
  file is go-cache, a record of its operations with \<open>auth_cache_spec\<close>. The file is \<open>Pairs\<close> of ids and
  passwords with distinct ids, the JSON value \<^verbatim>\<open>null\<close>, which decodes into a nil map, or text that does not decode.
  A panic is \<^term>\<open>None\<close>. Entries of the audit log are left out.
\<close>

section \<open>Credentials and passwords\<close>

record client_auth =
  caID :: string
  caPassword :: string

definition validateStorableCredential :: "client_auth \<Rightarrow> goerr option" where
  "validateStorableCredential ca =
     (if caID ca = '''' then Some (GoError ''refusing to store a client auth credential with an empty id'' [])
      else if caPassword ca = '''' then Some (GoError ''refusing to store a client auth credential with an empty password'' [])
      else None)"

datatype auth_file = Pairs "(string \<times> string) list" | NullMap | Garbled

text \<open>The end of writing the file: it cannot be opened, or writing fails after it was truncated.\<close>

datatype save_end = SaveOk | SaveNotOpened goerr | SaveNotWritten goerr

record auth_env =
  aeDbErr :: "goerr option"
  aeReadErr :: "goerr option"
  aeSave :: save_end
  aeGenerate :: "string \<Rightarrow> string res"
  aeCompare :: "string \<Rightarrow> string \<Rightarrow> bool"
  aeSha256 :: "string \<Rightarrow> byte list"
  aeRegexp :: regexp
  aeDriver :: string
  aeTable :: string
  aeSelect :: "string \<Rightarrow> string list \<Rightarrow> client_auth list res"
  aeCount :: "string \<Rightarrow> string list \<Rightarrow> int res"

definition bcryptPrefixes :: "string list" where
  "bcryptPrefixes = [''$2a$'', ''$2b$'', ''$2y$'']"

definition IsHashed :: "string \<Rightarrow> bool" where
  "IsHashed stored \<longleftrightarrow> list_ex (has_prefix stored) bcryptPrefixes"

definition HashPassword :: "auth_env \<Rightarrow> string \<Rightarrow> string res" where
  "HashPassword env password =
     (if password = '''' then Inl (GoError ''refusing to hash an empty credential'' [])
      else if IsHashed password then Inr password
      else aeGenerate env password)"

definition VerifyPassword :: "auth_env \<Rightarrow> string \<Rightarrow> string \<Rightarrow> bool" where
  "VerifyPassword env stored provided =
     (if stored = '''' \<or> provided = '''' then False
      else if IsHashed stored then aeCompare env stored provided
      else stored = provided)"

section \<open>The providers\<close>

record 'c auth_cache =
  acGet :: "time \<Rightarrow> 'c \<Rightarrow> string \<Rightarrow> client_auth option"
  acAdd :: "time \<Rightarrow> string \<Rightarrow> client_auth \<Rightarrow> duration \<Rightarrow> 'c \<Rightarrow> 'c option"
  acDelete :: "string \<Rightarrow> 'c \<Rightarrow> 'c"

datatype 'c auth_provider =
    DatabaseProvider "client_auth list"
  | FileProvider auth_file 'c
  | SingleProvider client_auth

definition CacheKey :: "string \<Rightarrow> string" where
  "CacheKey i = ''client-auth-'' @ i"

definition file_load :: "auth_env \<Rightarrow> auth_file \<Rightarrow> (string \<times> string) list option res" where
  "file_load env f =
     (case aeReadErr env of
        Some e \<Rightarrow> Inl (GoError ''failed to read proxiport clients auth file %q: %s'' [AS (err_format e)])
      | None \<Rightarrow>
          (case f of
             Pairs m \<Rightarrow> Inr (Some m)
           | NullMap \<Rightarrow> Inr None
           | Garbled \<Rightarrow> Inl (GoError ''invalid JSON'' [])))"

definition decode_failed :: "goerr \<Rightarrow> goerr" where
  "decode_failed e = GoError ''failed to decode proxiport clients auth file: %v'' [AS (err_format e)]"

definition encode_failed :: "goerr \<Rightarrow> goerr" where
  "encode_failed e = GoError ''failed to encode proxiport clients auth file: %v'' [AS (err_format e)]"

text \<open>The file is opened with \<^verbatim>\<open>O_TRUNC\<close> and written in place.\<close>

definition file_save :: "auth_env \<Rightarrow> (string \<times> string) list option \<Rightarrow> auth_file \<Rightarrow> goerr option \<times> auth_file" where
  "file_save env m f =
     (case aeSave env of
        SaveNotOpened e \<Rightarrow> (Some (GoError ''failed to open proxiport clients auth file: %v'' [AS (err_format e)]), f)
      | SaveNotWritten e \<Rightarrow> (Some (GoError ''failed to write proxiport clients auth: %v'' [AS (err_format e)]), Garbled)
      | SaveOk \<Rightarrow> (None, case m of None \<Rightarrow> NullMap | Some ps \<Rightarrow> Pairs ps))"

definition pair_lookup :: "(string \<times> string) list option \<Rightarrow> string \<Rightarrow> string option" where
  "pair_lookup m i = (case m of None \<Rightarrow> None | Some ps \<Rightarrow> map_of ps i)"

text \<open>\<^verbatim>\<open>Get\<close> after a miss: the second half puts the credential read from the file into the cache.\<close>

definition file_get_store :: "'c auth_cache \<Rightarrow> time \<Rightarrow> string \<Rightarrow> string \<Rightarrow> 'c \<Rightarrow> client_auth option res \<times> 'c" where
  "file_get_store ops now i pw c =
     (let ca = \<lparr>caID = i, caPassword = pw\<rparr>
      in case acAdd ops now (CacheKey i) ca (60 * Minute) c of
           None \<Rightarrow> (Inl (GoError ''Item %s already exists'' [AS (CacheKey i)]), c)
         | Some c1 \<Rightarrow> (Inr (Some ca), c1))"

definition File_Get :: "auth_env \<Rightarrow> 'c auth_cache \<Rightarrow> time \<Rightarrow> string \<Rightarrow> auth_file \<Rightarrow> 'c \<Rightarrow> client_auth option res \<times> 'c" where
  "File_Get env ops now i f c =
     (case acGet ops now c (CacheKey i) of
        Some credential \<Rightarrow> (Inr (Some credential), c)
      | None \<Rightarrow>
          (case file_load env f of
             Inl e \<Rightarrow> (Inl (decode_failed e), c)
           | Inr m \<Rightarrow>
               (case pair_lookup m i of
                  None \<Rightarrow> (Inr None, c)
                | Some pw \<Rightarrow> file_get_store ops now i pw c)))"

definition Database_Get :: "auth_env \<Rightarrow> string \<Rightarrow> client_auth list \<Rightarrow> client_auth option res" where
  "Database_Get env i rows = (case aeDbErr env of Some e \<Rightarrow> Inl e | None \<Rightarrow> Inr (find (\<lambda>r. caID r = i) rows))"

definition Single_Get :: "string \<Rightarrow> client_auth \<Rightarrow> client_auth option" where
  "Single_Get i client = (if caID client = i then Some client else None)"

definition Auth_Get :: "auth_env \<Rightarrow> 'c auth_cache \<Rightarrow> time \<Rightarrow> string \<Rightarrow> 'c auth_provider \<Rightarrow> client_auth option res \<times> 'c auth_provider" where
  "Auth_Get env ops now i p =
     (case p of
        DatabaseProvider rows \<Rightarrow> (Database_Get env i rows, p)
      | FileProvider f c \<Rightarrow> (let (r, c1) = File_Get env ops now i f c in (r, FileProvider f c1))
      | SingleProvider client \<Rightarrow> (Inr (Single_Get i client), p))"

text \<open>Both drivers let the code recognise a violated key, which is answered with \<^term>\<open>False\<close>.\<close>

definition Database_Add :: "auth_env \<Rightarrow> client_auth \<Rightarrow> client_auth list \<Rightarrow> bool res \<times> client_auth list" where
  "Database_Add env ca rows =
     (case validateStorableCredential ca of
        Some e \<Rightarrow> (Inl e, rows)
      | None \<Rightarrow>
          (case aeDbErr env of
             Some e \<Rightarrow> (Inl e, rows)
           | None \<Rightarrow> if list_ex (\<lambda>r. caID r = caID ca) rows then (Inr False, rows) else (Inr True, rows @ [ca])))"

definition File_Add :: "auth_env \<Rightarrow> client_auth \<Rightarrow> auth_file \<Rightarrow> (bool res \<times> auth_file) option" where
  "File_Add env ca f =
     (case validateStorableCredential ca of
        Some e \<Rightarrow> Some (Inl e, f)
      | None \<Rightarrow>
          (case file_load env f of
             Inl e \<Rightarrow> Some (Inl (decode_failed e), f)
           | Inr m \<Rightarrow>
               if pair_lookup m (caID ca) \<noteq> None then Some (Inr False, f)
               else (case m of
                       None \<Rightarrow> None
                     | Some ps \<Rightarrow>
                         (case file_save env (Some (AList.update (caID ca) (caPassword ca) ps)) f of
                            (Some e, f1) \<Rightarrow> Some (Inl (encode_failed e), f1)
                          | (None, f1) \<Rightarrow> Some (Inr True, f1)))))"

definition Auth_Add :: "auth_env \<Rightarrow> client_auth \<Rightarrow> 'c auth_provider \<Rightarrow> (bool res \<times> 'c auth_provider) option" where
  "Auth_Add env ca p =
     (case p of
        SingleProvider client \<Rightarrow> Some (Inl (GoError ''not implemented'' []), p)
      | DatabaseProvider rows \<Rightarrow> (let (r, rows1) = Database_Add env ca rows in Some (r, DatabaseProvider rows1))
      | FileProvider f c \<Rightarrow> map_option (\<lambda>(r, f1). (r, FileProvider f1 c)) (File_Add env ca f))"

text \<open>
  \<^verbatim>\<open>Update\<close> and \<^verbatim>\<open>Delete\<close> of the file provider take no lock. Each is cut between what it reads and what it writes:
  \<open>file_put\<close> is the second half, after the map was read and changed.
\<close>

definition file_put :: "auth_env \<Rightarrow> (string \<times> string) list option \<Rightarrow> auth_file \<Rightarrow> 'c \<Rightarrow> goerr option \<times> 'c auth_provider" where
  "file_put env m f c =
     (case file_save env m f of
        (Some e, f1) \<Rightarrow> (Some (encode_failed e), FileProvider f1 c)
      | (None, f1) \<Rightarrow> (None, FileProvider f1 c))"

definition file_update_read :: "auth_env \<Rightarrow> client_auth \<Rightarrow> auth_file \<Rightarrow> (string \<times> string) list res" where
  "file_update_read env ca f =
     (case file_load env f of
        Inl e \<Rightarrow> Inl (decode_failed e)
      | Inr m \<Rightarrow>
          (case m of
             None \<Rightarrow> Inl (GoError ''client auth with ID %q not found'' [AS (caID ca)])
           | Some ps \<Rightarrow>
               if map_of ps (caID ca) = None then Inl (GoError ''client auth with ID %q not found'' [AS (caID ca)])
               else Inr (AList.update (caID ca) (caPassword ca) ps)))"

definition Database_Update :: "auth_env \<Rightarrow> client_auth \<Rightarrow> client_auth list \<Rightarrow> goerr option \<times> client_auth list" where
  "Database_Update env ca rows =
     (case validateStorableCredential ca of
        Some e \<Rightarrow> (Some e, rows)
      | None \<Rightarrow>
          (case aeDbErr env of
             Some e \<Rightarrow> (Some e, rows)
           | None \<Rightarrow> (None, map (\<lambda>r. if caID r = caID ca then r\<lparr>caPassword := caPassword ca\<rparr> else r) rows)))"

definition File_Update :: "auth_env \<Rightarrow> 'c auth_cache \<Rightarrow> client_auth \<Rightarrow> auth_file \<Rightarrow> 'c \<Rightarrow> goerr option \<times> 'c auth_provider" where
  "File_Update env ops ca f c =
     (case validateStorableCredential ca of
        Some e \<Rightarrow> (Some e, FileProvider f c)
      | None \<Rightarrow>
          (case file_update_read env ca f of
             Inl e \<Rightarrow> (Some e, FileProvider f c)
           | Inr ps \<Rightarrow> file_put env (Some ps) f (acDelete ops (CacheKey (caID ca)) c)))"

definition Auth_Update :: "auth_env \<Rightarrow> 'c auth_cache \<Rightarrow> client_auth \<Rightarrow> 'c auth_provider \<Rightarrow> goerr option \<times> 'c auth_provider" where
  "Auth_Update env ops ca p =
     (case p of
        SingleProvider client \<Rightarrow> (Some (GoError ''not implemented'' []), p)
      | DatabaseProvider rows \<Rightarrow> (let (r, rows1) = Database_Update env ca rows in (r, DatabaseProvider rows1))
      | FileProvider f c \<Rightarrow> File_Update env ops ca f c)"

definition Database_Delete :: "auth_env \<Rightarrow> string \<Rightarrow> client_auth list \<Rightarrow> goerr option \<times> client_auth list" where
  "Database_Delete env i rows =
     (case aeDbErr env of Some e \<Rightarrow> (Some e, rows) | None \<Rightarrow> (None, filter (\<lambda>r. caID r \<noteq> i) rows))"

definition File_Delete :: "auth_env \<Rightarrow> 'c auth_cache \<Rightarrow> string \<Rightarrow> auth_file \<Rightarrow> 'c \<Rightarrow> goerr option \<times> 'c auth_provider" where
  "File_Delete env ops i f c =
     (case file_load env f of
        Inl e \<Rightarrow> (Some (decode_failed e), FileProvider f c)
      | Inr m \<Rightarrow> file_put env (map_option (AList.delete i) m) f (acDelete ops (CacheKey i) c))"

definition Auth_Delete :: "auth_env \<Rightarrow> 'c auth_cache \<Rightarrow> string \<Rightarrow> 'c auth_provider \<Rightarrow> goerr option \<times> 'c auth_provider" where
  "Auth_Delete env ops i p =
     (case p of
        SingleProvider client \<Rightarrow> (Some (GoError ''not implemented'' []), p)
      | DatabaseProvider rows \<Rightarrow> (let (r, rows1) = Database_Delete env i rows in (r, DatabaseProvider rows1))
      | FileProvider f c \<Rightarrow> File_Delete env ops i f c)"

definition IsWriteable :: "'c auth_provider \<Rightarrow> bool" where
  "IsWriteable p = (case p of SingleProvider _ \<Rightarrow> False | _ \<Rightarrow> True)"

definition auth_json :: "client_auth \<Rightarrow> (string \<times> json) list" where
  "auth_json ca = (''id'', JStr (caID ca)) # (if caPassword ca = '''' then [] else [(''password'', JStr (caPassword ca))])"

fun filter_auths :: "regexp \<Rightarrow> filter_option list \<Rightarrow> client_auth list \<Rightarrow> client_auth list res" where
  "filter_auths rx fos [] = Inr []"
| "filter_auths rx fos (v # vs) =
     bind_res (MatchesFilters rx (auth_json v) fos) (\<lambda>m.
     bind_res (filter_auths rx fos vs) (\<lambda>r. Inr (if m then v # r else r)))"

definition file_getAll :: "auth_env \<Rightarrow> auth_file \<Rightarrow> client_auth list res" where
  "file_getAll env f =
     (case file_load env f of
        Inl e \<Rightarrow> Inl (decode_failed e)
      | Inr m \<Rightarrow>
          let ps = (case m of None \<Rightarrow> [] | Some ps \<Rightarrow> ps)
          in if list_ex (\<lambda>(i, pw). i = '''' \<or> pw = '''') ps
             then Inl (GoError ''empty client auth ID or password is not allowed'' [])
             else Inr (map (\<lambda>(i, pw). \<lparr>caID = i, caPassword = pw\<rparr>) ps))"

definition SortByID :: "client_auth list \<Rightarrow> client_auth list" where
  "SortByID a = sort_key caID a"

definition Database_GetFiltered :: "auth_env \<Rightarrow> list_options \<Rightarrow> (client_auth list \<times> int) res" where
  "Database_GetFiltered env lo =
     (let lo1 = lo\<lparr>loSorts := loSorts lo @ [\<lparr>soColumn = ''id'', soIsASC = True\<rparr>]\<rparr>;
          (rQuery, rParams) = ConvertListOptionsToQuery (aeDriver env) (Some lo1) (''SELECT id,password FROM '' @ aeTable env);
          (cQuery, cParams) = ConvertListOptionsToQuery (aeDriver env) (Some (lo1\<lparr>loPagination := None, loSorts := []\<rparr>))
            (''SELECT COUNT(id) FROM '' @ aeTable env)
      in bind_res (aeCount env cQuery cParams) (\<lambda>n. bind_res (aeSelect env rQuery rParams) (\<lambda>rs. Inr (rs, n))))"

text \<open>A missing page is a nil pointer that the file and the single provider follow.\<close>

definition File_GetFiltered :: "auth_env \<Rightarrow> list_options \<Rightarrow> auth_file \<Rightarrow> (client_auth list \<times> int) res option" where
  "File_GetFiltered env lo f =
     (case bind_res (file_getAll env f) (\<lambda>ca. if loFilters lo \<noteq> [] then filter_auths (aeRegexp env) (loFilters lo) ca else Inr ca) of
        Inl e \<Rightarrow> Some (Inl e)
      | Inr ca \<Rightarrow>
          (case loPagination lo of
             None \<Rightarrow> None
           | Some pg \<Rightarrow>
               let l = int (length ca); (start, stop) = GetStartEnd pg l
               in Some (Inr (take (nat (stop - start)) (drop (nat start) (SortByID ca)), l))))"

definition Single_GetFiltered :: "auth_env \<Rightarrow> list_options \<Rightarrow> client_auth \<Rightarrow> (client_auth list \<times> int) res option" where
  "Single_GetFiltered env lo client =
     (if loFilters lo \<noteq> []
      then Some (bind_res (MatchesFilters (aeRegexp env) (auth_json client) (loFilters lo)) (\<lambda>m.
             Inr (if m then ([client], 1) else ([], 0))))
      else case loPagination lo of
             None \<Rightarrow> None
           | Some pg \<Rightarrow> Some (Inr (if 0 < fst (GetStartEnd pg 1) then ([], 1) else ([client], 1))))"

definition Auth_GetFiltered :: "auth_env \<Rightarrow> list_options \<Rightarrow> 'c auth_provider \<Rightarrow> (client_auth list \<times> int) res option" where
  "Auth_GetFiltered env lo p =
     (case p of
        DatabaseProvider rows \<Rightarrow> Some (Database_GetFiltered env lo)
      | FileProvider f c \<Rightarrow> File_GetFiltered env lo f
      | SingleProvider client \<Rightarrow> Single_GetFiltered env lo client)"

lemmas Auth_Get_defs = Auth_Get_def Database_Get_def Single_Get_def
lemmas Auth_Add_defs = Auth_Add_def Database_Add_def File_Add_def
lemmas Auth_Update_defs = Auth_Update_def Database_Update_def File_Update_def
lemmas Auth_Delete_defs = Auth_Delete_def Database_Delete_def File_Delete_def

section \<open>An agent logs in\<close>

record 'c client_listener =
  clBannedClientAuths :: ban_list
  clBannedIPs :: "max_ban_list option"
  clProvider :: "'c auth_provider"

definition NewClientListener :: "int \<Rightarrow> int \<Rightarrow> int \<Rightarrow> 'c auth_provider \<Rightarrow> 'c client_listener" where
  "NewClientListener clientLoginWait maxFailedLogin banSeconds authProvider =
     \<lparr>clBannedClientAuths = NewBanList (clientLoginWait * Second),
      clBannedIPs = (if 0 < maxFailedLogin \<and> 0 < banSeconds
                     then Some (NewMaxBadAttemptsBanList maxFailedLogin (banSeconds * Second)) else None),
      clProvider = authProvider\<rparr>"

text \<open>\<^verbatim>\<open>IP.IsLoopback\<close>.\<close>

definition IsLoopback :: "ip \<Rightarrow> bool" where
  "IsLoopback x = (case To4 x of Some v4 \<Rightarrow> hd v4 = 127 | None \<Rightarrow> x = replicate 15 0 @ [1])"

definition is_relay :: "string \<Rightarrow> bool" where
  "is_relay ip = (case ParseIP ip of Some x \<Rightarrow> IsLoopback x | None \<Rightarrow> False)"

definition ipBanList :: "string \<Rightarrow> 'c client_listener \<Rightarrow> max_ban_list option" where
  "ipBanList ip cl = (if is_relay ip then None else clBannedIPs cl)"

definition credentialFingerprint :: "auth_env \<Rightarrow> string \<Rightarrow> string \<Rightarrow> string" where
  "credentialFingerprint env clientAuthID password = hex_encode (aeSha256 env (clientAuthID @ [CHR 0x00] @ password))"

definition getIP :: "string \<Rightarrow> string" where
  "getIP remoteAddr = (case SplitHostPort remoteAddr of Inl _ \<Rightarrow> remoteAddr | Inr (host, _) \<Rightarrow> host)"

definition maybeUpgradeClientAuthHash :: "auth_env \<Rightarrow> 'c auth_cache \<Rightarrow> string \<Rightarrow> client_auth \<Rightarrow> 'c client_listener \<Rightarrow> 'c client_listener" where
  "maybeUpgradeClientAuthHash env ops i ca cl =
     (if caPassword ca = '''' \<or> IsHashed (caPassword ca) \<or> \<not> IsWriteable (clProvider cl) then cl
      else case HashPassword env (caPassword ca) of
             Inl e \<Rightarrow> cl
           | Inr hashed \<Rightarrow> cl\<lparr>clProvider := snd (Auth_Update env ops \<lparr>caID = i, caPassword = hashed\<rparr> (clProvider cl))\<rparr>)"

definition failed_login :: "auth_env \<Rightarrow> time \<Rightarrow> string \<Rightarrow> string \<Rightarrow> string \<Rightarrow> 'c client_listener \<Rightarrow> unit res \<times> 'c client_listener" where
  "failed_login env now clientAuthID ip password cl =
     (Inl (GoError ''invalid authentication for client auth id: %s'' [AS clientAuthID]),
      cl\<lparr>clBannedClientAuths := BanList_Add now clientAuthID (clBannedClientAuths cl),
         clBannedIPs := (case ipBanList ip cl of
            None \<Rightarrow> clBannedIPs cl
          | Some l \<Rightarrow> Some (AddDistinctBadAttempt now ip (credentialFingerprint env clientAuthID password) l))\<rparr>)"

definition authUser :: "auth_env \<Rightarrow> 'c auth_cache \<Rightarrow> time \<Rightarrow> string \<Rightarrow> string \<Rightarrow> string \<Rightarrow> 'c client_listener \<Rightarrow> unit res \<times> 'c client_listener" where
  "authUser env ops now clientAuthID remoteAddr password cl =
     (if BanList_IsBanned now clientAuthID (clBannedClientAuths cl) then (Inl ErrTooManyRequests, cl)
      else case Auth_Get env ops now clientAuthID (clProvider cl) of
             (Inl e, p) \<Rightarrow> (Inl e, cl\<lparr>clProvider := p\<rparr>)
           | (Inr clientAuth, p) \<Rightarrow>
               let cl1 = cl\<lparr>clProvider := p\<rparr>; ip = getIP remoteAddr
               in if password = '''' then failed_login env now clientAuthID ip password cl1
                  else (case clientAuth of
                          None \<Rightarrow> failed_login env now clientAuthID ip password cl1
                        | Some ca \<Rightarrow>
                            if \<not> VerifyPassword env (caPassword ca) password
                            then failed_login env now clientAuthID ip password cl1
                            else let cl2 = maybeUpgradeClientAuthHash env ops clientAuthID ca cl1
                                 in (Inr (), cl2\<lparr>clBannedIPs := (case ipBanList ip cl2 of
                                       None \<Rightarrow> clBannedIPs cl2
                                     | Some l \<Rightarrow> Some (AddSuccessAttempt ip l))\<rparr>)))"

section \<open>The handlers\<close>

definition MinCredentialsLength :: nat where "MinCredentialsLength = 3"

record clientAuthPayload =
  capID :: string

definition newClientAuthPayload :: "client_auth \<Rightarrow> clientAuthPayload" where
  "newClientAuthPayload ca = \<lparr>capID = caID ca\<rparr>"

definition isClientsAuthWriteable :: "bool \<Rightarrow> 'c auth_provider \<Rightarrow> bool" where
  "isClientsAuthWriteable authWrite p \<longleftrightarrow> IsWriteable p \<and> authWrite"

definition getClientsAuthMode :: "bool \<Rightarrow> 'c auth_provider \<Rightarrow> string" where
  "getClientsAuthMode authWrite p = (if isClientsAuthWriteable authWrite p then ''Read Write'' else ''Read Only'')"

definition allowClientAuthWrite :: "bool \<Rightarrow> 'c auth_provider \<Rightarrow> 'a response option" where
  "allowClientAuthWrite authWrite p =
     (if \<not> IsWriteable p
      then Some (jsonErrorResponseWithErrCode 405 ''ERR_CODE_CLIENT_AUTH_SINGLE'' ''Client authentication is enabled only for a single user.'' [])
      else if \<not> authWrite
      then Some (jsonErrorResponseWithErrCode 405 ''ERR_CODE_CLIENT_AUTH_RO'' ''Client authentication has been attached in read-only mode.'' [])
      else None)"

definition handleGetClientAuth :: "auth_env \<Rightarrow> 'c auth_cache \<Rightarrow> time \<Rightarrow> string \<Rightarrow> 'c auth_provider \<Rightarrow> clientAuthPayload response \<times> 'c auth_provider" where
  "handleGetClientAuth env ops now clientAuthID p =
     (case Auth_Get env ops now clientAuthID p of
        (Inl e, p1) \<Rightarrow> (jsonError e, p1)
      | (Inr None, p1) \<Rightarrow> (Response StatusNotFound (Inl (GoError ''Client Auth with ID %q not found'' [AS clientAuthID])), p1)
      | (Inr (Some ca), p1) \<Rightarrow> (writeJSONResponse StatusOK (newClientAuthPayload ca), p1))"

definition auth_filters :: supported where
  "auth_filters = [(''id'', True)]"

definition handleGetClientsAuth :: "auth_env \<Rightarrow> url_values \<Rightarrow> 'c auth_provider \<Rightarrow> (clientAuthPayload list \<times> int) response option" where
  "handleGetClientsAuth env q p =
     (let (errs, options) = ValidateListOptions (NewOptions q [] [] []) [] auth_filters None
            (Some \<lparr>pcMaxLimit = 500, pcDefaultLimit = 50\<rparr>)
      in if errs \<noteq> [] then Some (jsonErrors errs)
         else map_option (\<lambda>r. case r of
                Inl e \<Rightarrow> jsonErrorResponse StatusInternalServerError e
              | Inr (rClients, count) \<Rightarrow> writeJSONResponse StatusOK (map newClientAuthPayload rClients, count))
              (Auth_GetFiltered env options p))"

definition handlePostClientsAuth :: "auth_env \<Rightarrow> bool \<Rightarrow> client_auth res \<Rightarrow> 'c auth_provider \<Rightarrow> (unit response \<times> 'c auth_provider) option" where
  "handlePostClientsAuth env authWrite body p =
     (case allowClientAuthWrite authWrite p of
        Some r \<Rightarrow> Some (r, p)
      | None \<Rightarrow>
          (case body of
             Inl e \<Rightarrow> Some (jsonError e, p)
           | Inr newClient \<Rightarrow>
               if length (caID newClient) < MinCredentialsLength
               then Some (jsonErrorResponseWithDetail StatusBadRequest ''ERR_CODE_INVALID_REQUEST'' ''Invalid or missing ID.'' [] ''Min size is 3.'', p)
               else if length (caPassword newClient) < MinCredentialsLength
               then Some (jsonErrorResponseWithDetail StatusBadRequest ''ERR_CODE_INVALID_REQUEST'' ''Invalid or missing password.'' [] ''Min size is 3.'', p)
               else (case HashPassword env (caPassword newClient) of
                       Inl e \<Rightarrow> Some (jsonErrorResponse StatusInternalServerError e, p)
                     | Inr hashed \<Rightarrow>
                         (case Auth_Add env (newClient\<lparr>caPassword := hashed\<rparr>) p of
                            None \<Rightarrow> None
                          | Some (Inl e, p1) \<Rightarrow> Some (jsonErrorResponse StatusInternalServerError e, p1)
                          | Some (Inr added, p1) \<Rightarrow>
                              if \<not> added
                              then Some (jsonErrorResponseWithDetail StatusConflict ''ERR_CODE_ALREADY_EXIST'' ''Client Auth with ID %q already exist.'' [AS (caID newClient)] '''', p1)
                              else Some (writeJSONResponse StatusCreated (), p1)))))"

text \<open>\<^verbatim>\<open>strconv.ParseBool\<close>.\<close>

definition ParseBool :: "string \<Rightarrow> bool option" where
  "ParseBool s =
     (if s \<in> {''1'', ''t'', ''T'', ''true'', ''TRUE'', ''True''} then Some True
      else if s \<in> {''0'', ''f'', ''F'', ''false'', ''FALSE'', ''False''} then Some False
      else None)"

text \<open>\<open>closeErr\<close> and \<open>dbErr\<close> are the errors of closing the connection of a client and of deleting its row, if any.\<close>

fun force_delete_all :: "(nat \<Rightarrow> goerr option) \<Rightarrow> (nat \<Rightarrow> goerr option) \<Rightarrow> nat list \<Rightarrow> client_service \<Rightarrow> goerr option \<times> client_service" where
  "force_delete_all closeErr dbErr [] sv = (None, sv)"
| "force_delete_all closeErr dbErr (a # as) sv =
     (case ForceDelete (closeErr a) (dbErr a) a sv of
        (Some e, sv1) \<Rightarrow> (Some e, sv1)
      | (None, sv1) \<Rightarrow> force_delete_all closeErr dbErr as sv1)"

definition handleDeleteClientAuth ::
    "auth_env \<Rightarrow> 'c auth_cache \<Rightarrow> (nat \<Rightarrow> goerr option) \<Rightarrow> (nat \<Rightarrow> goerr option) \<Rightarrow> time \<Rightarrow> bool \<Rightarrow> string \<Rightarrow> string \<Rightarrow>
     client_service \<Rightarrow> 'c auth_provider \<Rightarrow> unit response \<times> client_service \<times> 'c auth_provider" where
  "handleDeleteClientAuth env ops closeErr dbErr now authWrite clientAuthID forceStr sv p =
     (case allowClientAuthWrite authWrite p of
        Some r \<Rightarrow> (r, sv, p)
      | None \<Rightarrow>
          if clientAuthID = ''''
          then (jsonErrorResponseWithErrCode StatusBadRequest ''ERR_CODE_MISSING_ROUTE_VAR'' ''Missing 'client_auth_id' route param.'' [], sv, p)
          else case (if forceStr \<noteq> '''' then ParseBool forceStr else Some False) of
                 None \<Rightarrow> (jsonErrorResponseWithErrCode StatusBadRequest ''ERR_CODE_INVALID_REQUEST'' ''Invalid force param %v.'' [AS forceStr], sv, p)
               | Some force \<Rightarrow>
                   (case Auth_Get env ops now clientAuthID p of
                      (Inl e, p1) \<Rightarrow> (jsonErrorResponse StatusInternalServerError e, sv, p1)
                    | (Inr None, p1) \<Rightarrow>
                        (jsonErrorResponseWithErrCode StatusNotFound ''ERR_CODE_CLIENT_AUTH_NOT_FOUND'' ''Client Auth with ID=%q not found.'' [AS clientAuthID], sv, p1)
                    | (Inr (Some _), p1) \<Rightarrow>
                        let allClients = GetAllByClientAuthID now clientAuthID sv
                        in if \<not> force \<and> allClients \<noteq> []
                           then (jsonErrorResponseWithErrCode StatusConflict ''ERR_CODE_CLIENT_AUTH_HAS_CLIENT''
                                   ''Client Auth expected to have no active or disconnected bound client(s), got %d.'' [AI (int (length allClients))], sv, p1)
                           else (case force_delete_all closeErr dbErr allClients sv of
                                   (Some e, sv1) \<Rightarrow> (jsonErrorResponse StatusInternalServerError e, sv1, p1)
                                 | (None, sv1) \<Rightarrow>
                                     (case Auth_Delete env ops clientAuthID p1 of
                                        (Some e, p2) \<Rightarrow> (jsonErrorResponse StatusInternalServerError e, sv1, p2)
                                      | (None, p2) \<Rightarrow> (writeJSONResponse StatusNoContent (), sv1, p2)))))"

section \<open>The cache\<close>

definition auth_cache_spec :: "'c auth_cache \<Rightarrow> bool" where
  "auth_cache_spec ops \<longleftrightarrow>
     (\<forall>now k v d c. acAdd ops now k v d c = None \<longleftrightarrow> acGet ops now c k \<noteq> None) \<and>
     (\<forall>now k v d c c1 t k'. acAdd ops now k v d c = Some c1 \<longrightarrow>
        acGet ops t c1 k' = (if k' = k then (if t \<le> now + d then Some v else None) else acGet ops t c k')) \<and>
     (\<forall>t k k' c. acGet ops t (acDelete ops k c) k' = (if k' = k then None else acGet ops t c k'))"

lemma auth_cacheD:
  assumes "auth_cache_spec ops"
  shows "acAdd ops now k v d c = None \<longleftrightarrow> acGet ops now c k \<noteq> None"
    and "acAdd ops now k v d c = Some c1 \<Longrightarrow>
      acGet ops t c1 k' = (if k' = k then (if t \<le> now + d then Some v else None) else acGet ops t c k')"
    and "acGet ops t (acDelete ops k c) k' = (if k' = k then None else acGet ops t c k')"
  using assms [unfolded auth_cache_spec_def, THEN conjunct1, rule_format]
    assms [unfolded auth_cache_spec_def, THEN conjunct2, THEN conjunct1, rule_format]
    assms [unfolded auth_cache_spec_def, THEN conjunct2, THEN conjunct2, rule_format]
  by (simp_all only:)

text \<open>A cache with this behaviour.\<close>

definition map_auth_cache :: "(string \<Rightarrow> (client_auth \<times> time) option) auth_cache" where
  "map_auth_cache =
     \<lparr>acGet = (\<lambda>now c k. case c k of None \<Rightarrow> None | Some (v, t) \<Rightarrow> if now \<le> t then Some v else None),
      acAdd = (\<lambda>now k v d c. if (case c k of None \<Rightarrow> False | Some (_, t) \<Rightarrow> now \<le> t) then None else Some (c(k \<mapsto> (v, now + d)))),
      acDelete = (\<lambda>k c. c(k := None))\<rparr>"

lemma map_auth_cache_spec: "auth_cache_spec map_auth_cache"
  by (auto simp: auth_cache_spec_def map_auth_cache_def split: option.splits if_splits)

lemma CacheKey_inj [simp]: "CacheKey i = CacheKey j \<longleftrightarrow> i = j"
  by (simp add: CacheKey_def)

section \<open>Stored credentials are well formed\<close>

definition storable :: "client_auth \<Rightarrow> bool" where
  "storable ca \<longleftrightarrow> caID ca \<noteq> '''' \<and> caPassword ca \<noteq> ''''"

lemma validateStorable_None [simp]: "validateStorableCredential ca = None \<longleftrightarrow> storable ca"
  by (simp add: validateStorableCredential_def storable_def)

definition pairs_ok :: "(string \<times> string) list \<Rightarrow> bool" where
  "pairs_ok ps \<longleftrightarrow> distinct (map fst ps) \<and> (\<forall>i pw. (i, pw) \<in> set ps \<longrightarrow> i \<noteq> '''' \<and> pw \<noteq> '''')"

definition file_ok :: "auth_file \<Rightarrow> bool" where
  "file_ok f = (case f of Pairs ps \<Rightarrow> pairs_ok ps | _ \<Rightarrow> True)"

text \<open>What the cache holds is also in the file, unless the file was destroyed.\<close>

definition stored_pw :: "auth_file \<Rightarrow> string \<Rightarrow> string option" where
  "stored_pw f i = (case f of Pairs ps \<Rightarrow> map_of ps i | _ \<Rightarrow> None)"

definition cache_ok :: "'c auth_cache \<Rightarrow> auth_file \<Rightarrow> 'c \<Rightarrow> bool" where
  "cache_ok ops f c \<longleftrightarrow>
     (\<forall>t i ca. acGet ops t c (CacheKey i) = Some ca \<longrightarrow>
        storable ca \<and> caID ca = i \<and> (f \<noteq> Garbled \<longrightarrow> stored_pw f i = Some (caPassword ca)))"

definition provider_ok :: "'c auth_cache \<Rightarrow> 'c auth_provider \<Rightarrow> bool" where
  "provider_ok ops p =
     (case p of
        DatabaseProvider rows \<Rightarrow> distinct (map caID rows) \<and> list_all storable rows
      | FileProvider f c \<Rightarrow> file_ok f \<and> cache_ok ops f c
      | SingleProvider client \<Rightarrow> storable client)"

lemma pairs_ok_update: "pairs_ok ps \<Longrightarrow> i \<noteq> '''' \<Longrightarrow> pw \<noteq> '''' \<Longrightarrow> pairs_ok (AList.update i pw ps)"
  unfolding pairs_ok_def
proof (intro conjI allI impI)
  assume ok: "distinct (map fst ps) \<and> (\<forall>i pw. (i, pw) \<in> set ps \<longrightarrow> i \<noteq> '''' \<and> pw \<noteq> '''')" and new: "i \<noteq> ''''" "pw \<noteq> ''''"
  then show d: "distinct (map fst (AList.update i pw ps))" by (simp add: distinct_update)
  fix j q assume "(j, q) \<in> set (AList.update i pw ps)"
  with d have "map_of (AList.update i pw ps) j = Some q" by (simp add: map_of_is_SomeI)
  with ok new show "j \<noteq> ''''" "q \<noteq> ''''" by (auto simp: update_conv' split: if_splits dest!: map_of_SomeD)
qed

lemma pairs_ok_delete: "pairs_ok ps \<Longrightarrow> pairs_ok (AList.delete i ps)"
  unfolding pairs_ok_def using distinct_delete [of ps i] by (auto simp: AList.delete_eq)

lemma file_load_ok: "file_ok f \<Longrightarrow> file_load env f = Inr (Some ps) \<Longrightarrow> f = Pairs ps \<and> pairs_ok ps"
  by (auto simp: file_load_def file_ok_def split: option.splits auth_file.splits)

lemma file_load_stored: "file_load env f = Inr m \<Longrightarrow> f \<noteq> Garbled \<and> stored_pw f i = pair_lookup m i"
  by (auto simp: file_load_def stored_pw_def pair_lookup_def split: option.splits auth_file.splits)

lemma file_save_ok:
  assumes "file_ok f" "\<And>ps. m = Some ps \<Longrightarrow> pairs_ok ps" "cache_ok ops f c" "f \<noteq> Garbled"
    and "\<And>t j ca. acGet ops t c (CacheKey j) = Some ca \<Longrightarrow> pair_lookup m j = stored_pw f j"
  shows "provider_ok ops (FileProvider (snd (file_save env m f)) c)"
proof (cases "aeSave env")
  case SaveOk
  define f1 where "f1 = (case m of None \<Rightarrow> NullMap | Some ps \<Rightarrow> Pairs ps)"
  have "stored_pw f1 j = pair_lookup m j" for j by (simp add: f1_def stored_pw_def pair_lookup_def split: option.splits)
  with assms(3-5) have "cache_ok ops f1 c" unfolding cache_ok_def by (metis (no_types, lifting))
  with assms(2) SaveOk show ?thesis by (auto simp: provider_ok_def file_save_def f1_def file_ok_def split: option.splits)
qed (use assms in \<open>auto simp: provider_ok_def file_save_def file_ok_def cache_ok_def\<close>)

lemma file_put_ok:
  "provider_ok ops (FileProvider (snd (file_save env m f)) c) \<Longrightarrow> provider_ok ops (snd (file_put env m f c))"
  by (auto simp: file_put_def split: prod.splits option.splits)

lemma cache_ok_delete: "auth_cache_spec ops \<Longrightarrow> cache_ok ops f c \<Longrightarrow> cache_ok ops f (acDelete ops k c)"
  by (auto simp: cache_ok_def auth_cacheD(3))

lemma cached_other:
  assumes "auth_cache_spec ops" "acGet ops t (acDelete ops (CacheKey i) c) (CacheKey j) = Some ca"
  shows "j \<noteq> i"
  using assms by (auto simp: auth_cacheD(3))

lemma File_Get_cases:
  obtains (hit) ca where "acGet ops now c (CacheKey i) = Some ca" "File_Get env ops now i f c = (Inr (Some ca), c)"
  | (failed) e where "acGet ops now c (CacheKey i) = None" "File_Get env ops now i f c = (Inl e, c)"
  | (absent) m where "acGet ops now c (CacheKey i) = None" "file_load env f = Inr m" "pair_lookup m i = None"
      "File_Get env ops now i f c = (Inr None, c)"
  | (read) ps pw c1 where "acGet ops now c (CacheKey i) = None" "file_load env f = Inr (Some ps)" "map_of ps i = Some pw"
      "acAdd ops now (CacheKey i) \<lparr>caID = i, caPassword = pw\<rparr> (60 * Minute) c = Some c1"
      "File_Get env ops now i f c = (Inr (Some \<lparr>caID = i, caPassword = pw\<rparr>), c1)"
proof (cases "acGet ops now c (CacheKey i)")
  case (Some ca)
  then show thesis by (intro hit [of ca]) (simp_all add: File_Get_def)
next
  case None
  note miss = this
  show thesis
  proof (cases "file_load env f")
    case (Inl e)
    with miss show thesis by (intro failed) (simp_all add: File_Get_def)
  next
    case (Inr m)
    note m = this
    show thesis
    proof (cases "pair_lookup m i")
      case None
      with miss m show thesis by (intro absent) (simp_all add: File_Get_def)
    next
      case (Some pw)
      then obtain ps where ps: "m = Some ps" "map_of ps i = Some pw" by (auto simp: pair_lookup_def split: option.splits)
      let ?add = "acAdd ops now (CacheKey i) \<lparr>caID = i, caPassword = pw\<rparr> (60 * Minute) c"
      show thesis
      proof (cases ?add)
        case None
        with miss m Some show thesis by (intro failed) (simp_all add: File_Get_def file_get_store_def Let_def)
      next
        case (Some c1)
        with miss m ps \<open>pair_lookup m i = Some pw\<close> show thesis by (intro read) (simp_all add: File_Get_def file_get_store_def Let_def)
      qed
    qed
  qed
qed

text \<open>The contract of a store of credentials, which the login and the handlers rely on.\<close>

locale credential_store =
  fixes ok :: "'p \<Rightarrow> bool"
    and getter :: "'e \<Rightarrow> time \<Rightarrow> string \<Rightarrow> 'p \<Rightarrow> client_auth option res \<times> 'p"
    and adder :: "'e \<Rightarrow> client_auth \<Rightarrow> 'p \<Rightarrow> (bool res \<times> 'p) option"
    and updater :: "'e \<Rightarrow> client_auth \<Rightarrow> 'p \<Rightarrow> goerr option \<times> 'p"
    and deleter :: "'e \<Rightarrow> string \<Rightarrow> 'p \<Rightarrow> goerr option \<times> 'p"
  assumes get_ok: "ok p \<Longrightarrow> ok (snd (getter env now i p))"
    and get_storable: "ok p \<Longrightarrow> fst (getter env now i p) = Inr (Some ca) \<Longrightarrow> storable ca \<and> caID ca = i"
    and add_ok: "ok p \<Longrightarrow> adder env ca p = Some (r, p1) \<Longrightarrow> ok p1"
    and update_ok: "ok p \<Longrightarrow> ok (snd (updater env ca p))"
    and delete_ok: "ok p \<Longrightarrow> ok (snd (deleter env i p))"
begin

text \<open>A credential that was read can be changed or removed, in the same state or a later one.\<close>

lemma get_then_update: "ok p \<Longrightarrow> ok (snd (updater env' ca (snd (getter env now i p))))"
  by (intro update_ok get_ok)

lemma get_then_delete: "ok p \<Longrightarrow> ok (snd (deleter env' j (snd (getter env now i p))))"
  by (intro delete_ok get_ok)

lemma get_again: "ok p \<Longrightarrow> fst (getter env' now' i (snd (getter env now j p))) = Inr (Some ca) \<Longrightarrow> storable ca \<and> caID ca = i"
  using get_storable [OF get_ok] by blast

end

definition store_ok :: "'c auth_cache \<Rightarrow> 'c auth_provider \<Rightarrow> bool" where
  "store_ok ops p \<longleftrightarrow> auth_cache_spec ops \<and> provider_ok ops p"

lemma Auth_Get_ok:
  assumes "store_ok ops p" "Auth_Get env ops now i p = (r, p1)"
  shows "store_ok ops p1 \<and> (r = Inr (Some ca) \<longrightarrow> storable ca \<and> caID ca = i)"
proof (cases p)
  case (DatabaseProvider rows)
  have "storable ca \<and> caID ca = i" if "find (\<lambda>r. caID r = i) rows = Some ca"
    using that assms(1) DatabaseProvider
    by (auto simp: find_Some_iff store_ok_def provider_ok_def list_all_iff)
  with assms DatabaseProvider show ?thesis by (auto simp: Auth_Get_defs split: option.splits)
next
  case (SingleProvider client)
  with assms show ?thesis by (auto simp: Auth_Get_defs store_ok_def provider_ok_def split: if_splits)
next
  case (FileProvider f c)
  with assms(1) have ok: "file_ok f" "cache_ok ops f c" "auth_cache_spec ops" by (simp_all add: store_ok_def provider_ok_def)
  show ?thesis
  proof (cases rule: File_Get_cases [of ops now c i env f])
    case (read ps pw c1)
    from file_load_ok [OF ok(1) read(2)] read(3) have new: "i \<noteq> ''''" "pw \<noteq> ''''" "stored_pw f i = Some pw"
      by (auto simp: pairs_ok_def stored_pw_def dest!: map_of_SomeD)
    have "cache_ok ops f c1"
      unfolding cache_ok_def auth_cacheD(2) [OF ok(3) read(4)]
      using ok(2) new by (auto simp: cache_ok_def storable_def split: if_splits)
    with assms FileProvider read new ok show ?thesis by (auto simp: Auth_Get_defs store_ok_def provider_ok_def storable_def)
  qed (use assms FileProvider ok in \<open>auto simp: Auth_Get_defs store_ok_def provider_ok_def cache_ok_def\<close>)
qed

lemma Auth_Add_ok:
  assumes "store_ok ops p" "Auth_Add env ca p = Some (r, p1)"
  shows "store_ok ops p1"
proof (cases p)
  case (FileProvider f c)
  show ?thesis
  proof (cases "p1 = p")
    case False
    with assms FileProvider obtain ps where ps: "storable ca" "file_load env f = Inr (Some ps)" "map_of ps (caID ca) = None"
      "p1 = FileProvider (snd (file_save env (Some (AList.update (caID ca) (caPassword ca) ps)) f)) c"
      by (auto simp: Auth_Add_defs pair_lookup_def split: option.splits sum.splits if_splits prod.splits)
    from assms(1) FileProvider have ok: "file_ok f" "cache_ok ops f c" "auth_cache_spec ops"
      by (simp_all add: store_ok_def provider_ok_def)
    note f = file_load_stored [OF ps(2)]
    have "provider_ok ops p1" unfolding ps(4)
    proof (rule file_save_ok)
      from file_load_ok [OF ok(1) ps(2)] ps(1) show "pairs_ok qs" if "Some (AList.update (caID ca) (caPassword ca) ps) = Some qs" for qs
        using that by (auto simp: storable_def intro: pairs_ok_update)
      fix t j ca' assume "acGet ops t c (CacheKey j) = Some ca'"
      with ok(2) f have "stored_pw f j = Some (caPassword ca')" by (auto simp: cache_ok_def)
      with f ps(3) show "pair_lookup (Some (AList.update (caID ca) (caPassword ca) ps)) j = stored_pw f j"
        by (auto simp: pair_lookup_def update_conv')
    qed (use ok f in auto)
    with ok show ?thesis by (simp add: store_ok_def)
  qed (use assms in simp)
next
  case (DatabaseProvider rows)
  then show ?thesis
  proof (cases "p1 = p")
    case False
    with assms DatabaseProvider have "storable ca" "\<not> list_ex (\<lambda>r. caID r = caID ca) rows" "p1 = DatabaseProvider (rows @ [ca])"
      by (auto simp: Auth_Add_defs split: option.splits if_splits)
    with assms(1) DatabaseProvider show ?thesis
      by (auto simp: store_ok_def provider_ok_def list_ex_iff image_iff)
  qed (use assms in simp)
qed (use assms in \<open>simp add: Auth_Add_defs\<close>)

lemma caID_repassword [simp]: "caID (if b then r\<lparr>caPassword := pw\<rparr> else r) = caID r"
  by simp

lemma Auth_Update_ok:
  assumes "store_ok ops p"
  shows "store_ok ops (snd (Auth_Update env ops ca p))"
proof (cases p)
  case (FileProvider f c)
  with assms have ok: "file_ok f" "cache_ok ops f c" "auth_cache_spec ops" by (simp_all add: store_ok_def provider_ok_def)
  have "provider_ok ops (snd (file_put env (Some ps) f (acDelete ops (CacheKey (caID ca)) c)))"
    if new: "storable ca" "file_update_read env ca f = Inr ps" for ps
  proof (rule file_put_ok, rule file_save_ok)
    from new(2) obtain qs where qs: "file_load env f = Inr (Some qs)" "ps = AList.update (caID ca) (caPassword ca) qs"
      by (auto simp: file_update_read_def split: sum.splits option.splits if_splits)
    note f = file_load_stored [OF qs(1)]
    from f show "f \<noteq> Garbled" by blast
    from qs file_load_ok [OF ok(1) qs(1)] new(1) show "pairs_ok ps'" if "Some ps = Some ps'" for ps'
      using that by (auto simp: storable_def intro: pairs_ok_update)
    fix t j ca' assume "acGet ops t (acDelete ops (CacheKey (caID ca)) c) (CacheKey j) = Some ca'"
    from cached_other [OF ok(3) this] f qs(2) show "pair_lookup (Some ps) j = stored_pw f j"
      by (auto simp: pair_lookup_def update_conv')
  qed (use ok in \<open>auto intro: cache_ok_delete\<close>)
  with assms FileProvider ok show ?thesis
    by (auto simp: Auth_Update_defs store_ok_def split: option.splits sum.splits)
next
  case (DatabaseProvider rows)
  with assms show ?thesis
    by (auto simp: Auth_Update_defs store_ok_def provider_ok_def list_all_iff storable_def comp_def split: option.splits)
qed (use assms in \<open>simp add: Auth_Update_defs\<close>)

lemma Auth_Delete_ok:
  assumes "store_ok ops p"
  shows "store_ok ops (snd (Auth_Delete env ops i p))"
proof (cases p)
  case (FileProvider f c)
  with assms have ok: "file_ok f" "cache_ok ops f c" "auth_cache_spec ops" by (simp_all add: store_ok_def provider_ok_def)
  have "provider_ok ops (snd (file_put env (map_option (AList.delete i) m) f (acDelete ops (CacheKey i) c)))"
    if m: "file_load env f = Inr m" for m
  proof (rule file_put_ok, rule file_save_ok)
    note f = file_load_stored [OF m]
    from f show "f \<noteq> Garbled" by blast
    from m file_load_ok [OF ok(1), of env] show "pairs_ok ps" if "map_option (AList.delete i) m = Some ps" for ps
      using that by (auto intro: pairs_ok_delete)
    fix t j ca assume "acGet ops t (acDelete ops (CacheKey i) c) (CacheKey j) = Some ca"
    from cached_other [OF ok(3) this] f show "pair_lookup (map_option (AList.delete i) m) j = stored_pw f j"
      by (auto simp: pair_lookup_def delete_conv' split: option.splits)
  qed (use ok in \<open>auto intro: cache_ok_delete\<close>)
  with assms FileProvider ok show ?thesis
    by (auto simp: Auth_Delete_defs store_ok_def split: sum.splits)
qed (use assms in \<open>auto simp: Auth_Delete_defs store_ok_def provider_ok_def list_all_iff distinct_map_filter split: option.splits\<close>)

interpretation cs: credential_store "store_ok ops" "\<lambda>env. Auth_Get env ops" Auth_Add "\<lambda>env. Auth_Update env ops" "\<lambda>env. Auth_Delete env ops"
  for ops
proof unfold_locales
  show "store_ok ops (snd (Auth_Get env ops now i p))" if "store_ok ops p" for p env now i
    using Auth_Get_ok [OF that] by (metis prod.collapse)
  show "storable ca \<and> caID ca = i" if "store_ok ops p" "fst (Auth_Get env ops now i p) = Inr (Some ca)" for p env now i ca
    using Auth_Get_ok [OF that(1)] that(2) by (metis prod.collapse)
qed (auto intro: Auth_Add_ok Auth_Update_ok Auth_Delete_ok)

section \<open>Runs\<close>

datatype auth_event =
    AgentLogin auth_env time string string string
  | AuthShown auth_env time string
  | AuthCreated auth_env bool "client_auth res"
  | AuthDeleted auth_env "nat \<Rightarrow> goerr option" "nat \<Rightarrow> goerr option" time bool string string

inductive auth_step :: "'c auth_cache \<Rightarrow> 'c client_listener \<times> client_service \<Rightarrow> auth_event \<Rightarrow> 'c client_listener \<times> client_service \<Rightarrow> bool"
  for ops where
  agent_login: "authUser env ops now i remoteAddr pw cl = (r, cl1) \<Longrightarrow>
    auth_step ops (cl, sv) (AgentLogin env now i remoteAddr pw) (cl1, sv)"
| auth_shown: "handleGetClientAuth env ops now i (clProvider cl) = (r, p) \<Longrightarrow>
    auth_step ops (cl, sv) (AuthShown env now i) (cl\<lparr>clProvider := p\<rparr>, sv)"
| auth_created: "handlePostClientsAuth env authWrite body (clProvider cl) = Some (r, p) \<Longrightarrow>
    auth_step ops (cl, sv) (AuthCreated env authWrite body) (cl\<lparr>clProvider := p\<rparr>, sv)"
| auth_panicked: "handlePostClientsAuth env authWrite body (clProvider cl) = None \<Longrightarrow>
    auth_step ops (cl, sv) (AuthCreated env authWrite body) (cl, sv)"
| auth_deleted: "handleDeleteClientAuth env ops closeErr dbErr now authWrite i forceStr sv (clProvider cl) = (r, sv1, p) \<Longrightarrow>
    auth_step ops (cl, sv) (AuthDeleted env closeErr dbErr now authWrite i forceStr) (cl\<lparr>clProvider := p\<rparr>, sv1)"

lemma upgrade_ok:
  "store_ok ops (clProvider cl) \<Longrightarrow> store_ok ops (clProvider (maybeUpgradeClientAuthHash env ops i ca cl))"
  using cs.update_ok by (auto simp: maybeUpgradeClientAuthHash_def split: sum.splits)

lemma authUser_ok:
  assumes "store_ok ops (clProvider cl)"
  shows "store_ok ops (clProvider (snd (authUser env ops now i remoteAddr pw cl)))"
proof -
  obtain r p where g: "Auth_Get env ops now i (clProvider cl) = (r, p)" by fastforce
  with cs.get_ok [OF assms, of env now i] have p: "store_ok ops p" by simp
  then have "store_ok ops (clProvider (maybeUpgradeClientAuthHash env ops i ca (cl\<lparr>clProvider := p\<rparr>)))" for ca
    by (intro upgrade_ok) simp
  with g p assms show ?thesis
    by (auto simp: authUser_def failed_login_def Let_def split: sum.splits option.splits)
qed

lemma handlePost_ok:
  "store_ok ops p \<Longrightarrow> handlePostClientsAuth env authWrite body p = Some (r, p1) \<Longrightarrow> store_ok ops p1"
  by (auto simp: handlePostClientsAuth_def split: option.splits sum.splits if_splits intro: cs.add_ok)

lemma handleDelete_ok:
  assumes "store_ok ops p" "handleDeleteClientAuth env ops closeErr dbErr now authWrite i forceStr sv p = (r, sv1, p1)"
  shows "store_ok ops p1"
proof -
  obtain g p0 where g: "Auth_Get env ops now i p = (g, p0)" by fastforce
  with cs.get_ok [OF assms(1), of env now i] have p0: "store_ok ops p0" by simp
  obtain de p2 where d: "Auth_Delete env ops i p0 = (de, p2)" by fastforce
  with cs.delete_ok [OF p0, of env i] have "store_ok ops p2" by simp
  with assms g p0 d show ?thesis
    by (auto simp: handleDeleteClientAuth_def Let_def split: option.splits sum.splits if_splits prod.splits)
qed

interpretation ag: step_invariant "auth_step ops" "\<lambda>s. store_ok ops (clProvider (fst s))" for ops
proof unfold_locales
  fix s s' :: "'a client_listener \<times> client_service" and e
  assume ok: "store_ok ops (clProvider (fst s))" and step: "auth_step ops s e s'"
  from step show "store_ok ops (clProvider (fst s'))"
  proof (cases rule: auth_step.cases)
    case (agent_login env now i remoteAddr pw cl r cl1 sv)
    with ok authUser_ok [of ops cl env now i remoteAddr pw] show ?thesis by simp
  next
    case (auth_shown env now i cl r p sv)
    obtain g p1 where g: "Auth_Get env ops now i (clProvider cl) = (g, p1)" by fastforce
    with ok auth_shown cs.get_ok [of ops "clProvider cl" env now i] show ?thesis
      by (auto simp: handleGetClientAuth_def split: sum.splits option.splits)
  next
    case (auth_created env authWrite body cl r p sv)
    with ok show ?thesis by (auto intro: handlePost_ok)
  next
    case (auth_deleted env closeErr dbErr now authWrite i forceStr sv cl r sv1 p)
    with ok show ?thesis by (auto intro: handleDelete_ok)
  qed (use ok in auto)
qed

section \<open>The map behind the providers\<close>

definition lookup_pw :: "'c auth_provider \<Rightarrow> string \<Rightarrow> string option" where
  "lookup_pw p i =
     (case p of
        DatabaseProvider rows \<Rightarrow> map_option caPassword (find (\<lambda>r. caID r = i) rows)
      | FileProvider f c \<Rightarrow> stored_pw f i
      | SingleProvider client \<Rightarrow> if caID client = i then Some (caPassword client) else None)"

definition readable :: "'c auth_provider \<Rightarrow> bool" where
  "readable p = (case p of FileProvider f c \<Rightarrow> f \<noteq> Garbled | _ \<Rightarrow> True)"

lemma file_load_Inr: "f \<noteq> Garbled \<Longrightarrow> aeReadErr env = None \<Longrightarrow> \<exists>m. file_load env f = Inr m"
  by (cases f) (auto simp: file_load_def)

lemma Get_lookup:
  assumes "store_ok ops p" "readable p" "Auth_Get env ops now i p = (Inr r, p1)"
  shows "r = map_option (\<lambda>pw. \<lparr>caID = i, caPassword = pw\<rparr>) (lookup_pw p i)"
proof -
  have r: "map_option caPassword r = lookup_pw p i"
  proof (cases p)
    case (FileProvider f c)
    with assms have ok: "cache_ok ops f c" "f \<noteq> Garbled" by (simp_all add: store_ok_def provider_ok_def readable_def)
    show ?thesis
    proof (cases rule: File_Get_cases [of ops now c i env f])
      case (hit ca)
      with ok have "stored_pw f i = Some (caPassword ca)" by (auto simp: cache_ok_def)
      moreover from assms FileProvider hit(2) have "r = Some ca" by (simp add: Auth_Get_defs)
      ultimately show ?thesis using FileProvider by (simp add: lookup_pw_def)
    next
      case (absent m)
      with assms FileProvider file_load_stored [OF absent(2), of i] show ?thesis
        by (auto simp: Auth_Get_defs lookup_pw_def)
    next
      case (read ps pw c1)
      with assms FileProvider file_load_stored [OF read(2), of i] show ?thesis
        by (auto simp: Auth_Get_defs lookup_pw_def pair_lookup_def)
    qed (use assms FileProvider in \<open>auto simp: Auth_Get_defs\<close>)
  qed (use assms in \<open>auto simp: Auth_Get_defs lookup_pw_def split: option.splits\<close>)
  show ?thesis
  proof (cases r)
    case (Some ca)
    with Auth_Get_ok [OF assms(1,3), of ca] have "caID ca = i" by blast
    moreover from r Some have "lookup_pw p i = Some (caPassword ca)" by simp
    ultimately show ?thesis using Some by (cases ca) simp
  qed (use r in simp)
qed

lemma Get_keeps:
  assumes "Auth_Get env ops now i p = (r, p1)"
  shows "lookup_pw p1 = lookup_pw p" "readable p1 = readable p"
  using assms by (cases p; fastforce simp: Auth_Get_defs lookup_pw_def readable_def split: prod.splits)+

lemma Get_total:
  assumes "store_ok ops p" "readable p" "aeDbErr env = None" "aeReadErr env = None"
  obtains p1 where "Auth_Get env ops now i p = (Inr (map_option (\<lambda>pw. \<lparr>caID = i, caPassword = pw\<rparr>) (lookup_pw p i)), p1)"
proof -
  obtain r p1 where g: "Auth_Get env ops now i p = (r, p1)" by fastforce
  have "\<not> is_err r"
  proof (cases p)
    case (FileProvider f c)
    with assms obtain m where m: "file_load env f = Inr m" "auth_cache_spec ops"
      using file_load_Inr [of f env] by (auto simp: readable_def store_ok_def)
    from g FileProvider m show ?thesis
      by (auto simp: Auth_Get_defs File_Get_def file_get_store_def Let_def auth_cacheD(1) [OF m(2)] split: option.splits)
  qed (use g assms in \<open>auto simp: Auth_Get_defs\<close>)
  then obtain x where "r = Inr x" by (cases r) auto
  with that g Get_lookup [OF assms(1,2)] show ?thesis by blast
qed

lemma Add_lookup:
  assumes "store_ok ops p" "readable p" "\<forall>e. aeSave env \<noteq> SaveNotWritten e" "Auth_Add env ca p = Some (r, p1)"
  shows "readable p1" "lookup_pw p1 = (if r = Inr True then (lookup_pw p)(caID ca \<mapsto> caPassword ca) else lookup_pw p)"
    "r = Inr True \<Longrightarrow> lookup_pw p (caID ca) = None"
proof -
  have "readable p1 \<and> lookup_pw p1 = (if r = Inr True then (lookup_pw p)(caID ca \<mapsto> caPassword ca) else lookup_pw p) \<and>
      (r = Inr True \<longrightarrow> lookup_pw p (caID ca) = None)"
  proof (cases p)
    case (DatabaseProvider rows)
    have "find (\<lambda>r. caID r = i) (rows @ [ca]) = (if i = caID ca then Some ca else find (\<lambda>r. caID r = i) rows)"
      if "\<not> list_ex (\<lambda>r. caID r = caID ca) rows" for i
      using that by (induction rows) auto
    moreover have "find (\<lambda>r. caID r = caID ca) rows = None" if "\<not> list_ex (\<lambda>r. caID r = caID ca) rows"
      using that by (auto simp: find_None_iff list_ex_iff)
    ultimately show ?thesis using assms DatabaseProvider
      by (auto simp: Auth_Add_defs lookup_pw_def readable_def fun_eq_iff split: option.splits if_splits)
  next
    case (FileProvider f c)
    show ?thesis
    proof (cases "file_load env f")
      case (Inr m)
      note f = file_load_stored [OF Inr]
      from assms FileProvider Inr f show ?thesis
        by (cases "aeSave env")
          (auto simp: Auth_Add_defs lookup_pw_def readable_def file_save_def stored_pw_def pair_lookup_def update_conv' fun_eq_iff
            split: option.splits if_splits)
    qed (use assms FileProvider in \<open>auto simp: Auth_Add_defs split: option.splits\<close>)
  qed (use assms in \<open>auto simp: Auth_Add_defs\<close>)
  then show "readable p1" "lookup_pw p1 = (if r = Inr True then (lookup_pw p)(caID ca \<mapsto> caPassword ca) else lookup_pw p)"
    "r = Inr True \<Longrightarrow> lookup_pw p (caID ca) = None" by simp_all
qed

lemma Update_lookup:
  assumes "readable p" "\<forall>e. aeSave env \<noteq> SaveNotWritten e" "Auth_Update env ops ca p = (r, p1)"
  shows "readable p1" "lookup_pw p1 = (if r = None \<and> lookup_pw p (caID ca) \<noteq> None then (lookup_pw p)(caID ca \<mapsto> caPassword ca) else lookup_pw p)"
proof -
  have "readable p1 \<and> lookup_pw p1 = (if r = None \<and> lookup_pw p (caID ca) \<noteq> None then (lookup_pw p)(caID ca \<mapsto> caPassword ca) else lookup_pw p)"
  proof (cases p)
    case (DatabaseProvider rows)
    have "map_option caPassword (find (\<lambda>r. caID r = i) (map (\<lambda>r. if caID r = caID ca then r\<lparr>caPassword := caPassword ca\<rparr> else r) rows)) =
        (if i = caID ca \<and> find (\<lambda>r. caID r = caID ca) rows \<noteq> None then Some (caPassword ca)
         else map_option caPassword (find (\<lambda>r. caID r = i) rows))" for i
      by (induction rows) auto
    with assms DatabaseProvider show ?thesis
      by (auto simp: Auth_Update_defs lookup_pw_def readable_def fun_eq_iff split: option.splits if_splits)
  next
    case (FileProvider f c)
    show ?thesis
    proof (cases "file_update_read env ca f")
      case (Inr ps)
      then obtain qs where qs: "file_load env f = Inr (Some qs)" "ps = AList.update (caID ca) (caPassword ca) qs" "map_of qs (caID ca) \<noteq> None"
        by (auto simp: file_update_read_def split: sum.splits option.splits if_splits)
      note f = file_load_stored [OF qs(1)]
      from assms FileProvider Inr f qs show ?thesis
        by (cases "aeSave env")
          (auto simp: Auth_Update_defs file_put_def lookup_pw_def readable_def file_save_def stored_pw_def pair_lookup_def update_conv' fun_eq_iff
            split: option.splits if_splits)
    qed (use assms FileProvider in \<open>auto simp: Auth_Update_defs split: option.splits\<close>)
  qed (use assms in \<open>auto simp: Auth_Update_defs\<close>)
  then show "readable p1" "lookup_pw p1 = (if r = None \<and> lookup_pw p (caID ca) \<noteq> None then (lookup_pw p)(caID ca \<mapsto> caPassword ca) else lookup_pw p)"
    by simp_all
qed

lemma Delete_lookup:
  assumes "readable p" "\<forall>e. aeSave env \<noteq> SaveNotWritten e" "Auth_Delete env ops i p = (r, p1)"
  shows "readable p1" "lookup_pw p1 = (if r = None then (lookup_pw p)(i := None) else lookup_pw p)"
proof -
  have "readable p1 \<and> lookup_pw p1 = (if r = None then (lookup_pw p)(i := None) else lookup_pw p)"
  proof (cases p)
    case (DatabaseProvider rows)
    have "find (\<lambda>r. caID r = j) (filter (\<lambda>r. caID r \<noteq> i) rows) = (if j = i then None else find (\<lambda>r. caID r = j) rows)" for j
      by (induction rows) auto
    with assms DatabaseProvider show ?thesis
      by (auto simp: Auth_Delete_defs lookup_pw_def readable_def fun_eq_iff split: option.splits if_splits)
  next
    case (FileProvider f c)
    show ?thesis
    proof (cases "file_load env f")
      case (Inr m)
      note f = file_load_stored [OF Inr]
      from assms FileProvider Inr f show ?thesis
        by (cases "aeSave env"; cases m)
          (auto simp: Auth_Delete_defs file_put_def lookup_pw_def readable_def file_save_def stored_pw_def pair_lookup_def delete_conv' fun_eq_iff
            split: if_splits)
    qed (use assms FileProvider in \<open>auto simp: Auth_Delete_defs\<close>)
  qed (use assms in \<open>auto simp: Auth_Delete_defs\<close>)
  then show "readable p1" "lookup_pw p1 = (if r = None then (lookup_pw p)(i := None) else lookup_pw p)" by simp_all
qed

section \<open>Properties\<close>


lemma authUser_accepts:
  "fst (authUser env ops now i remoteAddr pw cl) = Inr () \<longleftrightarrow>
     \<not> BanList_IsBanned now i (clBannedClientAuths cl) \<and> pw \<noteq> '''' \<and>
     (\<exists>ca. fst (Auth_Get env ops now i (clProvider cl)) = Inr (Some ca) \<and> caPassword ca \<noteq> '''' \<and>
        (if IsHashed (caPassword ca) then aeCompare env (caPassword ca) pw else caPassword ca = pw))"
proof -
  obtain r p where g: "Auth_Get env ops now i (clProvider cl) = (r, p)" by fastforce
  then show ?thesis
    by (auto simp: authUser_def failed_login_def VerifyPassword_def Let_def split: sum.splits option.splits if_splits)
qed

text \<open>C4: Exactly who gets in. An agent is accepted if and only if its id is not waiting after a failure, it sends a
  password, and the credential stored for the id is not empty and matches: a hash by bcrypt, an old clear one literally.
  A login never changes the waiting of another id or the ban of another address, and a login through a relay on
  the own host changes no ban of an address at all.
\<close>

theorem agent_login_exact:
  "(fst (authUser env ops now i remoteAddr pw cl) = Inr () \<longleftrightarrow>
     \<not> BanList_IsBanned now i (clBannedClientAuths cl) \<and> pw \<noteq> '''' \<and>
     (\<exists>ca. fst (Auth_Get env ops now i (clProvider cl)) = Inr (Some ca) \<and> caPassword ca \<noteq> '''' \<and>
        (if IsHashed (caPassword ca) then aeCompare env (caPassword ca) pw else caPassword ca = pw))) \<and>
   (\<forall>j t. j \<noteq> i \<longrightarrow> BanList_IsBanned t j (clBannedClientAuths (snd (authUser env ops now i remoteAddr pw cl))) =
      BanList_IsBanned t j (clBannedClientAuths cl)) \<and>
   (\<forall>l l' ip t. clBannedIPs cl = Some l \<and> clBannedIPs (snd (authUser env ops now i remoteAddr pw cl)) = Some l' \<and>
      (ip \<noteq> getIP remoteAddr \<or> is_relay (getIP remoteAddr)) \<longrightarrow> IsBanned t ip l' = IsBanned t ip l)"
proof -
  obtain r p where g: "Auth_Get env ops now i (clProvider cl) = (r, p)" by fastforce
  have up: "clBannedClientAuths (maybeUpgradeClientAuthHash env ops i ca cl1) = clBannedClientAuths cl1"
    "clBannedIPs (maybeUpgradeClientAuthHash env ops i ca cl1) = clBannedIPs cl1" for ca and cl1 :: "'a client_listener"
    by (simp_all add: maybeUpgradeClientAuthHash_def split: sum.splits)
  show ?thesis
  proof (intro conjI allI impI)
    show "fst (authUser env ops now i remoteAddr pw cl) = Inr () \<longleftrightarrow>
     \<not> BanList_IsBanned now i (clBannedClientAuths cl) \<and> pw \<noteq> '''' \<and>
     (\<exists>ca. fst (Auth_Get env ops now i (clProvider cl)) = Inr (Some ca) \<and> caPassword ca \<noteq> '''' \<and>
        (if IsHashed (caPassword ca) then aeCompare env (caPassword ca) pw else caPassword ca = pw))"
      by (rule authUser_accepts)
  next
    fix j t assume "j \<noteq> i"
    then show "BanList_IsBanned t j (clBannedClientAuths (snd (authUser env ops now i remoteAddr pw cl))) =
        BanList_IsBanned t j (clBannedClientAuths cl)"
      using g by (auto simp: authUser_def failed_login_def Let_def up BanList_Add_def BanList_IsBanned_def split: sum.splits option.splits)
  next
    fix l l' ip t
    assume "clBannedIPs cl = Some l \<and> clBannedIPs (snd (authUser env ops now i remoteAddr pw cl)) = Some l' \<and>
      (ip \<noteq> getIP remoteAddr \<or> is_relay (getIP remoteAddr))"
    then have l: "clBannedIPs cl = Some l" "clBannedIPs (snd (authUser env ops now i remoteAddr pw cl)) = Some l'"
      and ip: "ip \<noteq> getIP remoteAddr \<or> is_relay (getIP remoteAddr)" by blast+
    have "l' = l \<or> (\<not> is_relay (getIP remoteAddr) \<and> (\<exists>d. l' = AddDistinctBadAttempt now (getIP remoteAddr) d l)) \<or>
        (\<not> is_relay (getIP remoteAddr) \<and> l' = AddSuccessAttempt (getIP remoteAddr) l)"
      using l g by (auto simp: authUser_def failed_login_def ipBanList_def Let_def up split: sum.splits option.splits if_splits)
    then show "IsBanned t ip l' = IsBanned t ip l"
    proof (elim disjE conjE exE)
      fix d assume "\<not> is_relay (getIP remoteAddr)" and l': "l' = AddDistinctBadAttempt now (getIP remoteAddr) d l"
      with ip have "ip \<noteq> getIP remoteAddr" by blast
      then show ?thesis by (simp add: l' IsBanned_visitor AddDistinctBadAttempt_def Let_def)
    next
      assume "\<not> is_relay (getIP remoteAddr)" and l': "l' = AddSuccessAttempt (getIP remoteAddr) l"
      with ip have "ip \<noteq> getIP remoteAddr" by blast
      then show ?thesis by (simp add: l' IsBanned_visitor AddSuccessAttempt_def split: option.splits)
    qed simp
  qed
qed


text \<open>What bcrypt documents: a hash it generates is recognised as one and compares equal to its password.\<close>

definition agent_bcrypt_spec :: "auth_env \<Rightarrow> bool" where
  "agent_bcrypt_spec env \<longleftrightarrow> (\<forall>pw h. aeGenerate env pw = Inr h \<longrightarrow> IsHashed h \<and> aeCompare env h pw)"

lemma not_banned_later:
  "\<not> BanList_IsBanned now i l \<Longrightarrow> now \<le> now' \<Longrightarrow> \<not> BanList_IsBanned now' i l"
  by (auto simp: BanList_IsBanned_def split: option.splits)

lemma accepted_by_lookup:
  assumes "store_ok ops (clProvider cl)" "readable (clProvider cl)" "aeDbErr env = None" "aeReadErr env = None"
    and "\<not> BanList_IsBanned now i (clBannedClientAuths cl)" "pw \<noteq> ''''"
  shows "fst (authUser env ops now i remoteAddr pw cl) = Inr () \<longleftrightarrow>
    (\<exists>stored. lookup_pw (clProvider cl) i = Some stored \<and> stored \<noteq> '''' \<and>
       (if IsHashed stored then aeCompare env stored pw else stored = pw))"
proof -
  obtain p1 where "Auth_Get env ops now i (clProvider cl) =
      (Inr (map_option (\<lambda>pw. \<lparr>caID = i, caPassword = pw\<rparr>) (lookup_pw (clProvider cl) i)), p1)"
    using Get_total [OF assms(1-4)] .
  with assms(5,6) show ?thesis unfolding authUser_accepts by (cases "lookup_pw (clProvider cl) i") auto
qed

lemma login_lookup:
  assumes "store_ok ops (clProvider cl)" "readable (clProvider cl)" "\<forall>e. aeSave env \<noteq> SaveNotWritten e" "agent_bcrypt_spec env"
    and "authUser env ops now i remoteAddr pw cl = (Inr (), cl1)"
  obtains stored where "readable (clProvider cl1)" "lookup_pw (clProvider cl1) i = Some stored" "stored \<noteq> ''''"
    "if IsHashed stored then aeCompare env stored pw else stored = pw" "clBannedClientAuths cl1 = clBannedClientAuths cl"
proof -
  from assms(5) authUser_accepts [of env ops now i remoteAddr pw cl] obtain ca where
    acc: "fst (Auth_Get env ops now i (clProvider cl)) = Inr (Some ca)" "caPassword ca \<noteq> ''''" "pw \<noteq> ''''"
      "if IsHashed (caPassword ca) then aeCompare env (caPassword ca) pw else caPassword ca = pw"
      "\<not> BanList_IsBanned now i (clBannedClientAuths cl)" by auto
  then obtain p where g: "Auth_Get env ops now i (clProvider cl) = (Inr (Some ca), p)" by (metis prod.collapse)
  define clp where "clp = cl\<lparr>clProvider := p\<rparr>"
  from Get_lookup [OF assms(1,2) g] have p: "readable p" "lookup_pw p i = Some (caPassword ca)"
    using Get_keeps [OF g] assms(2) by (cases "lookup_pw (clProvider cl) i"; simp)+
  from acc have v: "VerifyPassword env (caPassword ca) pw" by (simp add: VerifyPassword_def)
  have cl1: "clProvider cl1 = clProvider (maybeUpgradeClientAuthHash env ops i ca clp)"
    "clBannedClientAuths cl1 = clBannedClientAuths (maybeUpgradeClientAuthHash env ops i ca clp)"
    using assms(5) g acc(3,5) v by (auto simp: authUser_def Let_def clp_def)
  have same: "clBannedClientAuths (maybeUpgradeClientAuthHash env ops i ca clp) = clBannedClientAuths cl"
    by (simp add: maybeUpgradeClientAuthHash_def clp_def split: sum.splits)
  show thesis
  proof (cases "\<exists>h. \<not> IsHashed (caPassword ca) \<and> IsWriteable p \<and> HashPassword env (caPassword ca) = Inr h")
    case False
    then have "maybeUpgradeClientAuthHash env ops i ca clp = clp"
      by (auto simp: maybeUpgradeClientAuthHash_def clp_def split: sum.splits)
    with that [of "caPassword ca"] cl1 same p acc show thesis by (simp add: clp_def)
  next
    case True
    then obtain h where h: "\<not> IsHashed (caPassword ca)" "IsWriteable p" "HashPassword env (caPassword ca) = Inr h" by blast
    obtain r p2 where u: "Auth_Update env ops \<lparr>caID = i, caPassword = h\<rparr> p = (r, p2)" by fastforce
    from h acc(2) have gen: "aeGenerate env (caPassword ca) = Inr h" by (simp add: HashPassword_def)
    with assms(4) have hash: "IsHashed h" "aeCompare env h (caPassword ca)" by (auto simp: agent_bcrypt_spec_def)
    have prov: "clProvider cl1 = p2" using cl1 h u acc(2) by (simp add: maybeUpgradeClientAuthHash_def clp_def)
    note up = Update_lookup [OF p(1) assms(3) u]
    from up(2) p(2) have "lookup_pw p2 i = Some h \<or> lookup_pw p2 i = Some (caPassword ca)" by auto
    then show thesis
    proof
      assume "lookup_pw p2 i = Some h"
      moreover from hash(1) have "h \<noteq> ''''" by (auto simp: IsHashed_def bcryptPrefixes_def)
      ultimately show thesis using that [of h] up(1) prov hash acc(4) h(1) cl1(2) same by simp
    next
      assume "lookup_pw p2 i = Some (caPassword ca)"
      then show thesis using that [of "caPassword ca"] up(1) prov acc cl1(2) same by simp
    qed
  qed
qed

text \<open>An agent that was accepted is accepted again with the same password, from any address and at any later time, also when
  its clear password was replaced by a hash at the first login or that replacement failed. This needs that the store can be
  read then, and that the file was not destroyed by a write that broke off.
\<close>

theorem agent_accepted_again:
  assumes "store_ok ops (clProvider cl)" "readable (clProvider cl)" "\<forall>e. aeSave env \<noteq> SaveNotWritten e" "agent_bcrypt_spec env"
    and "authUser env ops now i remoteAddr pw cl = (Inr (), cl1)" "now \<le> now'"
    and "aeDbErr env' = None" "aeReadErr env' = None" "aeCompare env' = aeCompare env"
  shows "fst (authUser env' ops now' i remoteAddr' pw cl1) = Inr ()"
proof -
  obtain stored where s: "readable (clProvider cl1)" "lookup_pw (clProvider cl1) i = Some stored" "stored \<noteq> ''''"
    "if IsHashed stored then aeCompare env stored pw else stored = pw" "clBannedClientAuths cl1 = clBannedClientAuths cl"
    using login_lookup [OF assms(1-5)] .
  from assms(5) authUser_accepts [of env ops now i remoteAddr pw cl] have "pw \<noteq> ''''"
    "\<not> BanList_IsBanned now i (clBannedClientAuths cl)" by auto
  with not_banned_later [OF _ assms(6)] s(5) have free: "\<not> BanList_IsBanned now' i (clBannedClientAuths cl1)" "pw \<noteq> ''''" by auto
  from authUser_ok [OF assms(1), of env now i remoteAddr pw] assms(5) have ok: "store_ok ops (clProvider cl1)" by simp
  from accepted_by_lookup [OF ok s(1) assms(7,8) free] s(2-4) assms(9) show ?thesis by simp
qed


lemma Get_after_loss:
  assumes "clProvider cl = FileProvider Garbled c" "acGet ops t c (CacheKey j) = None"
  shows "is_err (fst (authUser env ops t j remoteAddr pw cl))"
  using assms by (auto simp: authUser_def Auth_Get_defs File_Get_def file_load_def split: option.splits)

text \<open>Replacing a clear password by its hash can destroy all credentials. The file is truncated before it is written, so when
  writing fails during the login of one agent, that login succeeds, and from then on every agent whose credential is not in the
  cache is refused, with whatever password.
\<close>

theorem failed_upgrade_destroys_file:
  assumes "auth_cache_spec ops" "clProvider cl = FileProvider (Pairs ps) c" "map_of ps i = Some pw" "i \<noteq> ''''" "pw \<noteq> ''''"
    and "\<not> IsHashed pw" "\<not> BanList_IsBanned now i (clBannedClientAuths cl)" "acGet ops now c (CacheKey i) = None"
    and "aeReadErr env = None" "aeGenerate env pw = Inr h" "h \<noteq> ''''" "aeSave env = SaveNotWritten e"
    and "authUser env ops now i remoteAddr pw cl = (r, cl1)"
  shows "r = Inr () \<and>
    (\<forall>j env' t remoteAddr' pw'. (j = i \<or> acGet ops t c (CacheKey j) = None) \<longrightarrow>
       is_err (fst (authUser env' ops t j remoteAddr' pw' cl1)))"
proof -
  let ?ca = "\<lparr>caID = i, caPassword = pw\<rparr>"
  obtain c1 where c1: "acAdd ops now (CacheKey i) ?ca (60 * Minute) c = Some c1"
    using auth_cacheD(1) [OF assms(1)] assms(8) by (metis option.exhaust)
  have g: "Auth_Get env ops now i (clProvider cl) = (Inr (Some ?ca), FileProvider (Pairs ps) c1)"
    using assms(2,3,8,9) c1 by (simp add: Auth_Get_defs File_Get_def file_load_def pair_lookup_def file_get_store_def)
  have u: "Auth_Update env ops \<lparr>caID = i, caPassword = h\<rparr> (FileProvider (Pairs ps) c1) =
      (Some (encode_failed (GoError ''failed to write proxiport clients auth: %v'' [AS (err_format e)])),
       FileProvider Garbled (acDelete ops (CacheKey i) c1))"
    using assms(3,4,9,11,12)
    by (simp add: Auth_Update_defs file_update_read_def file_load_def file_put_def file_save_def storable_def split: option.splits)
  have v: "VerifyPassword env pw pw" using assms(5,6) by (simp add: VerifyPassword_def)
  have up: "maybeUpgradeClientAuthHash env ops i ?ca (cl\<lparr>clProvider := FileProvider (Pairs ps) c1\<rparr>) =
      cl\<lparr>clProvider := FileProvider Garbled (acDelete ops (CacheKey i) c1)\<rparr>"
    using u assms(5,6,10) by (simp add: maybeUpgradeClientAuthHash_def HashPassword_def IsWriteable_def)
  have r: "r = Inr ()" "clProvider cl1 = FileProvider Garbled (acDelete ops (CacheKey i) c1)"
    using assms(5,7,13) g v up by (auto simp: authUser_def Let_def)
  have "acGet ops t (acDelete ops (CacheKey i) c1) (CacheKey j) = None" if "j = i \<or> acGet ops t c (CacheKey j) = None" for t j
    using that unfolding auth_cacheD(3) [OF assms(1)] auth_cacheD(2) [OF assms(1) c1] by auto
  then have "is_err (fst (authUser env' ops t j remoteAddr' pw' cl1))" if "j = i \<or> acGet ops t c (CacheKey j) = None" for j env' t remoteAddr' pw'
    using Get_after_loss [OF r(2)] that by blast
  with r(1) show ?thesis by blast
qed

text \<open>A deleted credential can survive in the cache. \<^verbatim>\<open>Delete\<close> clears the cache before it writes the file and holds no
  lock; an agent that logs in between puts the credential back, and is accepted with it for another hour although the
  deletion was answered as done and the file no longer holds it.
\<close>

theorem deleted_credential_survives:
  assumes "auth_cache_spec ops" "map_of ps i = Some pw" "pw \<noteq> ''''" "\<not> IsHashed pw" "aeReadErr env = None"
    and "Auth_Get env ops now i (FileProvider (Pairs ps) (acDelete ops (CacheKey i) c)) = (g, FileProvider (Pairs ps) c1)"
    and "aeSave env' = SaveOk" "file_put env' (Some (AList.delete i ps)) (Pairs ps) c1 = (d, p)"
    and "clProvider cl = p" "\<not> BanList_IsBanned t i (clBannedClientAuths cl)" "t \<le> now + Hour"
  shows "d = None \<and> lookup_pw p i = None \<and> fst (authUser env'' ops t i remoteAddr pw cl) = Inr ()"
proof -
  let ?ca = "\<lparr>caID = i, caPassword = pw\<rparr>"
  let ?c0 = "acDelete ops (CacheKey i) c"
  have miss: "acGet ops now ?c0 (CacheKey i) = None" by (simp add: auth_cacheD(3) [OF assms(1)])
  then obtain c2 where c2: "acAdd ops now (CacheKey i) ?ca (60 * Minute) ?c0 = Some c2"
    using auth_cacheD(1) [OF assms(1)] by (metis option.exhaust)
  with assms(2,5,6) miss have "c1 = c2"
    by (simp add: Auth_Get_defs File_Get_def file_load_def pair_lookup_def file_get_store_def)
  with auth_cacheD(2) [OF assms(1) c2, of t "CacheKey i"] assms(11) have hit: "acGet ops t c1 (CacheKey i) = Some ?ca" by simp
  from assms(7,8) have p: "d = None" "p = FileProvider (Pairs (AList.delete i ps)) c1"
    by (auto simp: file_put_def file_save_def)
  have "fst (Auth_Get env'' ops t i (clProvider cl)) = Inr (Some ?ca)"
    using hit p assms(9) by (simp add: Auth_Get_defs File_Get_def)
  with assms(3,4,10) have "fst (authUser env'' ops t i remoteAddr pw cl) = Inr ()" by (simp add: authUser_accepts)
  with p show ?thesis by (simp add: lookup_pw_def stored_pw_def delete_conv')
qed

text \<open>Two agents that share a credential can refuse each other. When both find the cache empty and read the file before
  either has stored what it read, the second one to store it gets an error and is not let in, although its
  password is right.
\<close>

theorem concurrent_reads_refused:
  assumes "auth_cache_spec ops" "acGet ops now c (CacheKey i) = None" "file_get_store ops now i pw c = (r1, c1)"
    and "now \<le> now'" "now' \<le> now + Hour" "file_get_store ops now' i pw c1 = (r2, c2)"
  shows "r1 = Inr (Some \<lparr>caID = i, caPassword = pw\<rparr>) \<and> is_err r2"
proof -
  let ?ca = "\<lparr>caID = i, caPassword = pw\<rparr>"
  obtain c0 where c0: "acAdd ops now (CacheKey i) ?ca (60 * Minute) c = Some c0"
    using auth_cacheD(1) [OF assms(1)] assms(2) by (metis option.exhaust)
  with assms(3) have r1: "r1 = Inr (Some ?ca)" "c1 = c0" by (simp_all add: file_get_store_def)
  from auth_cacheD(2) [OF assms(1) c0, of now' "CacheKey i"] assms(5) have "acGet ops now' c1 (CacheKey i) \<noteq> None"
    by (simp add: r1)
  then have "acAdd ops now' (CacheKey i) ?ca (60 * Minute) c1 = None" using auth_cacheD(1) [OF assms(1)] by blast
  with assms(6) r1 show ?thesis by (auto simp: file_get_store_def)
qed

section \<open>Examples\<close>

definition agent_env :: auth_env where
  "agent_env = \<lparr>aeDbErr = None, aeReadErr = None, aeSave = SaveOk, aeGenerate = (\<lambda>pw. Inr (''$2a$'' @ pw)),
     aeCompare = (\<lambda>h pw. h = ''$2a$'' @ pw), aeSha256 = (\<lambda>_. []), aeRegexp = (\<lambda>_. None), aeDriver = ''sqlite3'', aeTable = ''auth'',
     aeSelect = (\<lambda>_ _. Inr []), aeCount = (\<lambda>_ _. Inr 0)\<rparr>"

definition full_disk :: auth_env where
  "full_disk = agent_env\<lparr>aeSave := SaveNotWritten (GoError ''no space left on device'' [])\<rparr>"

definition two_agents :: "(string \<times> string) list" where
  "two_agents = [(''alpha'', ''secret-a''), (''beta'', ''$2a$secret-b'')]"

definition file_listener :: "(string \<Rightarrow> (client_auth \<times> time) option) client_listener" where
  "file_listener = NewClientListener 2 5 3600 (FileProvider (Pairs two_agents) Map.empty)"

lemma agent_env_simps:
  "file_load agent_env (Pairs ps) = Inr (Some ps)" "file_save agent_env (Some ps) f = (None, Pairs ps)"
  "aeDbErr agent_env = None" "aeReadErr agent_env = None" "aeCompare agent_env = (\<lambda>h pw. h = ''$2a$'' @ pw)"
  "aeGenerate agent_env pw = Inr (''$2a$'' @ pw)" "\<forall>e. aeSave agent_env \<noteq> SaveNotWritten e" "aeSave agent_env = SaveOk"
  by (simp_all add: file_load_def file_save_def agent_env_def)

lemma not_hashed: "\<not> IsHashed ''secret-a''" "\<not> IsHashed ''secret-c''"
  by (simp_all add: IsHashed_def bcryptPrefixes_def has_prefix_def)

lemma file_listener_provider: "clProvider file_listener = FileProvider (Pairs two_agents) Map.empty"
  by (simp add: file_listener_def NewClientListener_def)

lemma agent_env_bcrypt: "agent_bcrypt_spec agent_env"
  by (simp add: agent_bcrypt_spec_def agent_env_def IsHashed_def bcryptPrefixes_def has_prefix_def)

lemma file_listener_ok: "store_ok map_auth_cache (clProvider file_listener)" "readable (clProvider file_listener)"
proof -
  have "acGet map_auth_cache t Map.empty k = None" for t k by (simp add: map_auth_cache_def)
  then show "store_ok map_auth_cache (clProvider file_listener)" "readable (clProvider file_listener)"
    using map_auth_cache_spec
    by (auto simp: store_ok_def provider_ok_def file_listener_def NewClientListener_def file_ok_def pairs_ok_def
      two_agents_def cache_ok_def readable_def)
qed

lemma file_listener_free: "\<not> BanList_IsBanned now i (clBannedClientAuths file_listener)"
  by (simp add: file_listener_def NewClientListener_def NewBanList_def BanList_IsBanned_def)

lemma alpha_login: "fst (authUser agent_env map_auth_cache 0 ''alpha'' ''198.51.100.7:22'' ''secret-a'' file_listener) = Inr ()"
proof -
  have "fst (Auth_Get agent_env map_auth_cache 0 ''alpha'' (clProvider file_listener)) = Inr (Some \<lparr>caID = ''alpha'', caPassword = ''secret-a''\<rparr>)"
    by (simp add: file_listener_def NewClientListener_def Auth_Get_defs File_Get_def map_auth_cache_def file_load_def agent_env_def
        two_agents_def pair_lookup_def file_get_store_def Let_def)
  moreover have "\<not> IsHashed ''secret-a''" by (simp add: IsHashed_def bcryptPrefixes_def has_prefix_def)
  ultimately show ?thesis by (simp add: authUser_accepts file_listener_free)
qed


theorem agent_login_exact_witness:
  "fst (authUser agent_env map_auth_cache 0 ''alpha'' ''198.51.100.7:22'' ''secret-a'' file_listener) = Inr () \<and>
   \<not> BanList_IsBanned 1 ''beta'' (clBannedClientAuths (snd (authUser agent_env map_auth_cache 0 ''alpha'' ''198.51.100.7:22'' ''guess'' file_listener)))"
proof -
  have "BanList_IsBanned 1 ''beta'' (clBannedClientAuths (snd (authUser agent_env map_auth_cache 0 ''alpha'' ''198.51.100.7:22'' ''guess'' file_listener))) =
      BanList_IsBanned 1 ''beta'' (clBannedClientAuths file_listener)"
    by (rule agent_login_exact [THEN conjunct2, THEN conjunct1, rule_format]) simp
  with alpha_login file_listener_free show ?thesis by simp
qed


theorem agent_accepted_again_witness:
  "fst (authUser agent_env map_auth_cache (2 * Hour) ''alpha'' ''203.0.113.9:22'' ''secret-a''
     (snd (authUser agent_env map_auth_cache 0 ''alpha'' ''198.51.100.7:22'' ''secret-a'' file_listener))) = Inr ()"
proof -
  obtain cl1 where l: "authUser agent_env map_auth_cache 0 ''alpha'' ''198.51.100.7:22'' ''secret-a'' file_listener = (Inr (), cl1)"
    using alpha_login by (metis prod.collapse)
  have save: "\<forall>e. aeSave agent_env \<noteq> SaveNotWritten e" by (simp add: agent_env_def)
  from agent_accepted_again [OF file_listener_ok save agent_env_bcrypt l, of "2 * Hour" agent_env] l show ?thesis
    by (simp add: agent_env_def)
qed


theorem failed_upgrade_destroys_file_witness:
  "is_err (fst (authUser agent_env map_auth_cache 9 ''beta'' ''203.0.113.9:22'' ''secret-b''
     (snd (authUser full_disk map_auth_cache 0 ''alpha'' ''198.51.100.7:22'' ''secret-a'' file_listener))))"
proof -
  obtain r cl1 where l: "authUser full_disk map_auth_cache 0 ''alpha'' ''198.51.100.7:22'' ''secret-a'' file_listener = (r, cl1)" by fastforce
  have c: "acGet map_auth_cache t Map.empty k = None" for t k by (simp add: map_auth_cache_def)
  have e: "aeReadErr full_disk = None" "aeGenerate full_disk ''secret-a'' = Inr ''$2a$secret-a''"
    "aeSave full_disk = SaveNotWritten (GoError ''no space left on device'' [])" by (simp_all add: full_disk_def agent_env_def)
  have m: "map_of two_agents ''alpha'' = Some ''secret-a''" by (simp add: two_agents_def)
  have "is_err (fst (authUser agent_env map_auth_cache 9 ''beta'' ''203.0.113.9:22'' ''secret-b'' cl1))"
    by (rule failed_upgrade_destroys_file [OF map_auth_cache_spec file_listener_provider m _ _ not_hashed(1) file_listener_free c e(1,2) _ e(3) l,
        THEN conjunct2, rule_format]) (use c in simp_all)
  with l show ?thesis by simp
qed

theorem deleted_credential_survives_witness:
  "\<exists>c1 p. Auth_Get agent_env map_auth_cache 0 ''alpha'' (FileProvider (Pairs two_agents) Map.empty) =
        (Inr (Some \<lparr>caID = ''alpha'', caPassword = ''secret-a''\<rparr>), FileProvider (Pairs two_agents) c1) \<and>
     file_put agent_env (Some (AList.delete ''alpha'' two_agents)) (Pairs two_agents) c1 = (None, p) \<and> lookup_pw p ''alpha'' = None \<and>
     fst (authUser agent_env map_auth_cache (30 * Minute) ''alpha'' ''203.0.113.9:22'' ''secret-a'' (file_listener\<lparr>clProvider := p\<rparr>)) = Inr ()"
proof -
  have del: "acDelete map_auth_cache (CacheKey ''alpha'') Map.empty = Map.empty" by (auto simp: map_auth_cache_def)
  have m: "map_of two_agents ''alpha'' = Some ''secret-a''" by (simp add: two_agents_def)
  obtain c1 where g: "Auth_Get agent_env map_auth_cache 0 ''alpha'' (FileProvider (Pairs two_agents) (acDelete map_auth_cache (CacheKey ''alpha'') Map.empty)) =
        (Inr (Some \<lparr>caID = ''alpha'', caPassword = ''secret-a''\<rparr>), FileProvider (Pairs two_agents) c1)"
    by (simp add: del Auth_Get_defs File_Get_def map_auth_cache_def agent_env_simps m pair_lookup_def file_get_store_def Let_def)
  obtain d p where f: "file_put agent_env (Some (AList.delete ''alpha'' two_agents)) (Pairs two_agents) c1 = (d, p)" by fastforce
  have free: "\<not> BanList_IsBanned (30 * Minute) ''alpha'' (clBannedClientAuths (file_listener\<lparr>clProvider := p\<rparr>))" using file_listener_free by simp
  have p: "clProvider (file_listener\<lparr>clProvider := p\<rparr>) = p" by simp
  have "d = None \<and> lookup_pw p ''alpha'' = None \<and>
      fst (authUser agent_env map_auth_cache (30 * Minute) ''alpha'' ''203.0.113.9:22'' ''secret-a'' (file_listener\<lparr>clProvider := p\<rparr>)) = Inr ()"
    by (rule deleted_credential_survives [OF map_auth_cache_spec m _ not_hashed(1) agent_env_simps(4) g agent_env_simps(8) f p free]) simp_all
  with g f del show ?thesis by auto
qed

theorem concurrent_reads_refused_witness:
  "is_err (fst (file_get_store map_auth_cache 1 ''alpha'' ''secret-a'' (snd (file_get_store map_auth_cache 0 ''alpha'' ''secret-a'' Map.empty))))"
proof -
  obtain r1 c1 where 1: "file_get_store map_auth_cache 0 ''alpha'' ''secret-a'' Map.empty = (r1, c1)" by fastforce
  obtain r2 c2 where 2: "file_get_store map_auth_cache 1 ''alpha'' ''secret-a'' c1 = (r2, c2)" by fastforce
  from concurrent_reads_refused [OF map_auth_cache_spec _ 1 _ _ 2] 1 2 show ?thesis by (simp add: map_auth_cache_def)
qed

end
