(* ===== verification/Jobs.thy ===== *)
theory Jobs
  imports Clients Enc Query
begin

text \<open>
  Command jobs: their data (\<^verbatim>\<open>share/models/job.go\<close>) and the database that keeps them (\<^verbatim>\<open>server/api/jobs\<close>), with the
  retries of a busy database (\<^verbatim>\<open>db/sqlite/sqlite.go\<close>).

  The column \<^verbatim>\<open>details\<close> is the record \<open>job_details\<close>, or \<^term>\<open>None\<close> when its text does not decode. A time is an
  instant; the text that the driver writes for an instant in UTC orders like the instant. What the database,
  the cipher and the random generator answer to one call is the record \<open>jobs_env\<close>; the rows that a query
  text selects are a parameter of it.
\<close>

section \<open>Jobs\<close>

record job_result =
  jrStdOut :: string
  jrStdErr :: string
  jrSummary :: string

record job =
  jJID :: string
  jStatus :: string
  jFinishedAt :: "time option"
  jClientID :: string
  jClientName :: string
  jCommand :: string
  jCwd :: string
  jInterpreter :: string
  jPID :: "int option"
  jStartedAt :: time
  jCreatedBy :: string
  jTimeoutSec :: int
  jMultiJobID :: "string option"
  jScheduleID :: "string option"
  jError :: string
  jResult :: "job_result option"
  jIsSudo :: bool
  jIsScript :: bool
  jStreamResult :: bool

abbreviation JobStatusSuccessful :: string where "JobStatusSuccessful \<equiv> ''successful''"
abbreviation JobStatusRunning :: string where "JobStatusRunning \<equiv> ''running''"
abbreviation JobStatusFailed :: string where "JobStatusFailed \<equiv> ''failed''"
abbreviation JobStatusUnknown :: string where "JobStatusUnknown \<equiv> ''unknown''"
abbreviation ChannelStdout :: string where "ChannelStdout \<equiv> ''stdout''"
abbreviation ChannelStderr :: string where "ChannelStderr \<equiv> ''stderr''"

record job_client_tags =
  jtTags :: "string list"
  jtOperator :: string

definition JobClientTags_String :: "job_client_tags option \<Rightarrow> string" where
  "JobClientTags_String jct =
     (case jct of
        None \<Rightarrow> ''[]''
      | Some t \<Rightarrow>
          (let tagsList = join '','' (jtTags t)
           in case length (jtTags t) of
                0 \<Rightarrow> ''[]''
              | Suc 0 \<Rightarrow> ''['' @ tagsList @ '']''
              | _ \<Rightarrow> ''['' @ (if jtOperator t = '''' then ''OR'' else jtOperator t) @ '': '' @ tagsList @ '']''))"

record multi_job =
  mjJID :: string
  mjStartedAt :: time
  mjCreatedBy :: string
  mjScheduleID :: "string option"
  mjClientIDs :: "string list"
  mjGroupIDs :: "string list"
  mjClientTags :: "job_client_tags option"
  mjCommand :: string
  mjCwd :: string
  mjInterpreter :: string
  mjTimeoutSec :: int
  mjConcurrent :: bool
  mjAbortOnErr :: bool
  mjJobs :: "job list"
  mjIsSudo :: bool
  mjIsScript :: bool

section \<open>Rows\<close>

record job_details =
  jdCommand :: string
  jdCwd :: string
  jdIsSudo :: bool
  jdIsScript :: bool
  jdInterpreter :: string
  jdPID :: "int option"
  jdTimeoutSec :: int
  jdError :: string
  jdResult :: "job_result option"
  jdClientName :: string

record job_row =
  rwJID :: string
  rwStatus :: string
  rwFinishedAt :: "time option"
  rwStartedAt :: time
  rwCreatedBy :: string
  rwClientID :: string
  rwMultiJobID :: "string option"
  rwDetails :: "job_details option"

record multi_job_row =
  mrJID :: string
  mrStartedAt :: time
  mrCreatedBy :: string
  mrScheduleID :: "string option"
  mrClientIDs :: "string list"
  mrGroupIDs :: "string list"
  mrClientTags :: "job_client_tags option"
  mrCommand :: string
  mrInterpreter :: string
  mrCwd :: string
  mrIsSudo :: bool
  mrTimeoutSec :: int
  mrConcurrent :: bool
  mrAbortOnErr :: bool

record job_db =
  dbJobs :: "job_row list"
  dbMultiJobs :: "multi_job_row list"

datatype sql_error = ErrBusy | ErrConstraint | SqlError goerr

record jobs_env =
  jeGcm :: aead
  jeEnc :: Envelope
  jeNonce :: "string \<Rightarrow> string \<Rightarrow> string res"
  jeDbErr :: "goerr option"
  jeExec :: "nat \<Rightarrow> sql_error option"
  jeUpdateErr :: "string \<Rightarrow> goerr option"
  jeSelect :: "string \<Rightarrow> string list \<Rightarrow> job_db \<Rightarrow> (job_row \<times> string option) list res"
  jeSelectMulti :: "string \<Rightarrow> string list \<Rightarrow> job_db \<Rightarrow> multi_job_row list res"
  jeCount :: "string \<Rightarrow> string list \<Rightarrow> job_db \<Rightarrow> int res"

section \<open>Retries of a busy database\<close>

definition DefaultMaxAttempts :: nat where "DefaultMaxAttempts = 5"

text \<open>The second component is the number of attempts made; \<open>err\<close> is the error of the previous one.\<close>

function retry_loop :: "(nat \<Rightarrow> sql_error + 'r) \<Rightarrow> nat \<Rightarrow> sql_error option \<Rightarrow> (sql_error option + 'r) \<times> nat" where
  "retry_loop retryAbleFn attempt err =
     (if DefaultMaxAttempts < attempt then (Inl err, attempt - 1)
      else if 1 < attempt \<and> err \<noteq> None \<and> err \<noteq> Some ErrBusy then (Inl err, attempt - 1)
      else case retryAbleFn attempt of
             Inr r \<Rightarrow> (Inr r, attempt)
           | Inl e \<Rightarrow> retry_loop retryAbleFn (attempt + 1) (Some e))"
  by pat_completeness auto
termination by (relation "measure (\<lambda>(_, attempt, _). Suc DefaultMaxAttempts - attempt)") auto

declare retry_loop.simps [simp del]

definition WithRetryWhenBusy :: "(nat \<Rightarrow> sql_error + 'r) \<Rightarrow> (sql_error option + 'r) \<times> nat" where
  "WithRetryWhenBusy retryAbleFn = retry_loop retryAbleFn 1 None"

section \<open>Encryption of results\<close>

definition isPlaintextField :: "string \<Rightarrow> bool" where
  "isPlaintextField v \<longleftrightarrow> v \<noteq> '''' \<and> \<not> IsEncrypted v"

definition encryptStringField :: "aead \<Rightarrow> string res \<Rightarrow> Envelope \<Rightarrow> (string \<Rightarrow> bool) \<Rightarrow> string \<Rightarrow> string res" where
  "encryptStringField gcm rnd e alreadyEncrypted v =
     (if v = '''' \<or> alreadyEncrypted v then Inr v else Encrypt gcm rnd e v)"

definition decryptStringField :: "aead \<Rightarrow> Envelope \<Rightarrow> string \<Rightarrow> string res" where
  "decryptStringField gcm e v = (if v = '''' then Inr v else Decrypt gcm e v)"

definition encryptDetailsResult :: "jobs_env \<Rightarrow> string \<Rightarrow> (string \<Rightarrow> bool) \<Rightarrow> job_details \<Rightarrow> job_details res" where
  "encryptDetailsResult env jid alreadyEncrypted d =
     (if \<not> Enabled (jeEnc env) then Inr d
      else bind_res (encryptStringField (jeGcm env) (jeNonce env jid ''error'') (jeEnc env) alreadyEncrypted (jdError d)) (\<lambda>err.
           case jdResult d of
             None \<Rightarrow> Inr (d\<lparr>jdError := err\<rparr>)
           | Some r \<Rightarrow>
               bind_res (encryptStringField (jeGcm env) (jeNonce env jid ''stdout'') (jeEnc env) alreadyEncrypted (jrStdOut r)) (\<lambda>out.
               bind_res (encryptStringField (jeGcm env) (jeNonce env jid ''stderr'') (jeEnc env) alreadyEncrypted (jrStdErr r)) (\<lambda>err2.
                 Inr (d\<lparr>jdError := err, jdResult := Some (r\<lparr>jrStdOut := out, jrStdErr := err2\<rparr>)\<rparr>)))))"

definition unreadableFieldNotice :: string where
  "unreadableFieldNotice = ''<unavailable: encrypted with a key this server does not have>''"

definition decryptJobResult :: "jobs_env \<Rightarrow> job \<Rightarrow> job res" where
  "decryptJobResult env j =
     bind_res (decryptStringField (jeGcm env) (jeEnc env) (jError j)) (\<lambda>err.
       case jResult j of
         None \<Rightarrow> Inr (j\<lparr>jError := err\<rparr>)
       | Some r \<Rightarrow>
           bind_res (decryptStringField (jeGcm env) (jeEnc env) (jrStdOut r)) (\<lambda>out.
           bind_res (decryptStringField (jeGcm env) (jeEnc env) (jrStdErr r)) (\<lambda>err2.
             Inr (j\<lparr>jError := err, jResult := Some (r\<lparr>jrStdOut := out, jrStdErr := err2\<rparr>)\<rparr>))))"

definition decryptFieldOrNotice :: "jobs_env \<Rightarrow> string \<Rightarrow> string" where
  "decryptFieldOrNotice env v =
     (case decryptStringField (jeGcm env) (jeEnc env) v of Inl _ \<Rightarrow> unreadableFieldNotice | Inr out \<Rightarrow> out)"

definition decryptJobResultInList :: "jobs_env \<Rightarrow> job \<Rightarrow> job" where
  "decryptJobResultInList env j =
     j\<lparr>jError := decryptFieldOrNotice env (jError j),
       jResult := map_option (\<lambda>r. r\<lparr>jrStdOut := decryptFieldOrNotice env (jrStdOut r),
                                    jrStdErr := decryptFieldOrNotice env (jrStdErr r)\<rparr>) (jResult j)\<rparr>"

section \<open>Conversions\<close>

text \<open>\<^verbatim>\<open>Scan\<close> of the column \<^verbatim>\<open>details\<close> fails on a text that does not decode.\<close>

definition Details_Scan :: "job_row \<Rightarrow> job_details res" where
  "Details_Scan row =
     (case rwDetails row of
        None \<Rightarrow> Inl (GoError ''failed to decode %s field: %v'' [AS ''details''])
      | Some d \<Rightarrow> Inr d)"

definition Job_convert :: "job_row \<times> string option \<Rightarrow> job_details \<Rightarrow> job" where
  "Job_convert rs d =
     (case rs of (row, scheduleID) \<Rightarrow>
        \<lparr>jJID = rwJID row, jStatus = rwStatus row, jFinishedAt = rwFinishedAt row, jClientID = rwClientID row,
         jClientName = jdClientName d, jCommand = jdCommand d, jCwd = jdCwd d, jInterpreter = jdInterpreter d,
         jPID = jdPID d, jStartedAt = rwStartedAt row, jCreatedBy = rwCreatedBy row, jTimeoutSec = jdTimeoutSec d,
         jMultiJobID = rwMultiJobID row, jScheduleID = scheduleID, jError = jdError d, jResult = jdResult d,
         jIsSudo = jdIsSudo d, jIsScript = jdIsScript d, jStreamResult = False\<rparr>)"

fun convertJobs :: "(job_row \<times> string option) list \<Rightarrow> job list res" where
  "convertJobs [] = Inr []"
| "convertJobs (cur # list) =
     bind_res (Details_Scan (fst cur)) (\<lambda>d. bind_res (convertJobs list) (\<lambda>js. Inr (Job_convert cur d # js)))"

definition Job_details :: "job \<Rightarrow> job_details" where
  "Job_details j = \<lparr>jdCommand = jCommand j, jdCwd = jCwd j, jdIsSudo = jIsSudo j, jdIsScript = jIsScript j,
     jdInterpreter = jInterpreter j, jdPID = jPID j, jdTimeoutSec = jTimeoutSec j, jdError = jError j,
     jdResult = jResult j, jdClientName = jClientName j\<rparr>"

definition Job_convertToSqlite :: "job \<Rightarrow> job_details \<Rightarrow> job_row" where
  "Job_convertToSqlite j d = \<lparr>rwJID = jJID j, rwStatus = jStatus j, rwFinishedAt = jFinishedAt j, rwStartedAt = jStartedAt j,
     rwCreatedBy = jCreatedBy j, rwClientID = jClientID j, rwMultiJobID = jMultiJobID j, rwDetails = Some d\<rparr>"

definition toSqlite :: "jobs_env \<Rightarrow> job \<Rightarrow> job_row res" where
  "toSqlite env j =
     (if Enabled (jeEnc env)
      then bind_res (encryptDetailsResult env (jJID j) (IsEncryptedBy (jeGcm env) (jeEnc env)) (Job_details j)) (\<lambda>clone.
             Inr (Job_convertToSqlite j clone))
      else Inr (Job_convertToSqlite j (Job_details j)))"

section \<open>The table of jobs\<close>

definition schedule_of :: "job_db \<Rightarrow> job_row \<Rightarrow> string option" where
  "schedule_of db row =
     (case rwMultiJobID row of
        None \<Rightarrow> None
      | Some m \<Rightarrow> (case find (\<lambda>mr. mrJID mr = m) (dbMultiJobs db) of None \<Rightarrow> None | Some mr \<Rightarrow> mrScheduleID mr))"

definition GetByJID :: "jobs_env \<Rightarrow> string \<Rightarrow> string \<Rightarrow> job_db \<Rightarrow> job option res" where
  "GetByJID env clientID jid db =
     (case jeDbErr env of
        Some e \<Rightarrow> Inl e
      | None \<Rightarrow>
          (case find (\<lambda>row. rwJID row = jid \<and> rwClientID row = clientID) (dbJobs db) of
             None \<Rightarrow> Inr None
           | Some row \<Rightarrow>
               bind_res (Details_Scan row) (\<lambda>d.
               bind_res (decryptJobResult env (Job_convert (row, schedule_of db row) d)) (\<lambda>j. Inr (Some j)))))"

definition replace_row :: "job_row \<Rightarrow> job_row list \<Rightarrow> job_row list" where
  "replace_row row rows = filter (\<lambda>r. rwJID r \<noteq> rwJID row) rows @ [row]"

definition sql_failure :: "sql_error option \<Rightarrow> goerr" where
  "sql_failure err =
     (case err of
        Some (SqlError e) \<Rightarrow> e
      | Some ErrBusy \<Rightarrow> GoError ''database is locked'' []
      | _ \<Rightarrow> GoError ''constraint failed'' [])"

definition SaveJob :: "jobs_env \<Rightarrow> job \<Rightarrow> job_db \<Rightarrow> goerr option \<times> job_db" where
  "SaveJob env j db =
     (case toSqlite env j of
        Inl e \<Rightarrow> (Some e, db)
      | Inr row \<Rightarrow>
          (case fst (WithRetryWhenBusy (\<lambda>n. case jeExec env n of Some e \<Rightarrow> Inl e | None \<Rightarrow> Inr (replace_row row (dbJobs db)))) of
             Inl err \<Rightarrow> (Some (sql_failure err), db)
           | Inr rows \<Rightarrow> (None, db\<lparr>dbJobs := rows\<rparr>)))"

definition CreateJob :: "jobs_env \<Rightarrow> job \<Rightarrow> job_db \<Rightarrow> goerr option \<times> job_db" where
  "CreateJob env j db =
     (case toSqlite env j of
        Inl e \<Rightarrow> (Some e, db)
      | Inr row \<Rightarrow>
          (case fst (WithRetryWhenBusy (\<lambda>n. case jeExec env n of
                        Some e \<Rightarrow> Inl e
                      | None \<Rightarrow> if rwJID row \<in> set (map rwJID (dbJobs db)) then Inl ErrConstraint
                                else Inr (dbJobs db @ [row]))) of
             Inl err \<Rightarrow> (if err = Some ErrConstraint then None else Some (sql_failure err), db)
           | Inr rows \<Rightarrow> (None, db\<lparr>dbJobs := rows\<rparr>)))"

section \<open>The backfill at startup\<close>

definition needs_backfill :: "job_details \<Rightarrow> bool" where
  "needs_backfill d \<longleftrightarrow> isPlaintextField (jdError d) \<or>
     (case jdResult d of None \<Rightarrow> False | Some r \<Rightarrow> isPlaintextField (jrStdOut r) \<or> isPlaintextField (jrStdErr r))"

definition update_details :: "string \<Rightarrow> string \<Rightarrow> job_details \<Rightarrow> job_row list \<Rightarrow> job_row list" where
  "update_details jid clientID d rows =
     map (\<lambda>r. if rwJID r = jid \<and> rwClientID r = clientID then r\<lparr>rwDetails := Some d\<rparr> else r) rows"

fun backfill_rows :: "jobs_env \<Rightarrow> job_row list \<Rightarrow> job_row list \<Rightarrow> goerr option \<times> job_row list" where
  "backfill_rows env [] rows = (None, rows)"
| "backfill_rows env (r # rs) rows =
     (case rwDetails r of
        None \<Rightarrow> backfill_rows env rs rows
      | Some d \<Rightarrow>
          if \<not> needs_backfill d then backfill_rows env rs rows
          else (case encryptDetailsResult env (rwJID r) IsEncrypted d of
                  Inl e \<Rightarrow> (Some (GoError ''encrypt jid %q: %w'' [AS (rwJID r), AS (err_format e)]), rows)
                | Inr d1 \<Rightarrow>
                    (case jeUpdateErr env (rwJID r) of
                       Some e \<Rightarrow> (Some (GoError ''update jid %q: %w'' [AS (rwJID r), AS (err_format e)]), rows)
                     | None \<Rightarrow> backfill_rows env rs (update_details (rwJID r) (rwClientID r) d1 rows))))"

definition encryptExistingResults :: "jobs_env \<Rightarrow> job_db \<Rightarrow> goerr option \<times> job_db" where
  "encryptExistingResults env db =
     (if \<not> Enabled (jeEnc env) then (None, db)
      else case jeDbErr env of
             Some e \<Rightarrow> (Some (GoError ''read jobs: %w'' [AS (err_format e)]), db)
           | None \<Rightarrow> (case backfill_rows env (dbJobs db) (dbJobs db) of (err, rows) \<Rightarrow> (err, db\<lparr>dbJobs := rows\<rparr>)))"

text \<open>A failed backfill is logged only.\<close>

definition NewSqliteProvider :: "jobs_env \<Rightarrow> job_db \<Rightarrow> job_db" where
  "NewSqliteProvider env db = snd (encryptExistingResults env db)"

section \<open>Listings\<close>

definition DefaultLimit :: int where "DefaultLimit = 100"
definition MaxLimit :: int where "MaxLimit = 1000"

abbreviation jobs_driver :: string where "jobs_driver \<equiv> ''sqlite3''"

definition jobsWithScheduleID :: string where
  "jobsWithScheduleID = ''(SELECT jobs.*, schedule_id FROM jobs LEFT JOIN multi_jobs ON jobs.multi_job_id = multi_jobs.jid) jobs''"

definition Jobs_List :: "jobs_env \<Rightarrow> list_options \<Rightarrow> job_db \<Rightarrow> job list res" where
  "Jobs_List env options db =
     (let options1 = (if loSorts options = []
                      then options\<lparr>loSorts := [\<lparr>soColumn = ''DATETIME(finished_at)'', soIsASC = False\<rparr>,
                                              \<lparr>soColumn = ''jid'', soIsASC = True\<rparr>]\<rparr> else options);
          (q, params) = AppendOptionsToQuery jobs_driver (Some options1) (''SELECT jobs.* FROM '' @ jobsWithScheduleID) []
      in bind_res (jeSelect env q params db) (\<lambda>res.
         bind_res (convertJobs res) (\<lambda>js. Inr (map (decryptJobResultInList env) js))))"

definition Jobs_Count :: "jobs_env \<Rightarrow> list_options \<Rightarrow> job_db \<Rightarrow> int res" where
  "Jobs_Count env options db =
     (let (q, params) = AppendOptionsToQuery jobs_driver (Some (options\<lparr>loPagination := None\<rparr>))
                          (''SELECT count(*) FROM '' @ jobsWithScheduleID) []
      in jeCount env q params db)"

section \<open>Multi-client jobs\<close>

definition MultiJob_convert :: "multi_job_row \<Rightarrow> multi_job" where
  "MultiJob_convert r = \<lparr>mjJID = mrJID r, mjStartedAt = mrStartedAt r, mjCreatedBy = mrCreatedBy r, mjScheduleID = mrScheduleID r,
     mjClientIDs = mrClientIDs r, mjGroupIDs = mrGroupIDs r, mjClientTags = mrClientTags r, mjCommand = mrCommand r,
     mjCwd = mrCwd r, mjInterpreter = mrInterpreter r, mjTimeoutSec = mrTimeoutSec r, mjConcurrent = mrConcurrent r,
     mjAbortOnErr = mrAbortOnErr r, mjJobs = [], mjIsSudo = mrIsSudo r, mjIsScript = False\<rparr>"

definition convertMultiJobToSqlite :: "multi_job \<Rightarrow> multi_job_row" where
  "convertMultiJobToSqlite mj = \<lparr>mrJID = mjJID mj, mrStartedAt = mjStartedAt mj, mrCreatedBy = mjCreatedBy mj,
     mrScheduleID = mjScheduleID mj, mrClientIDs = mjClientIDs mj, mrGroupIDs = mjGroupIDs mj,
     mrClientTags = mjClientTags mj, mrCommand = mjCommand mj, mrInterpreter = mjInterpreter mj, mrCwd = mjCwd mj,
     mrIsSudo = mjIsSudo mj, mrTimeoutSec = mjTimeoutSec mj, mrConcurrent = mjConcurrent mj, mrAbortOnErr = mjAbortOnErr mj\<rparr>"

definition SaveMultiJob :: "goerr option \<Rightarrow> multi_job \<Rightarrow> job_db \<Rightarrow> goerr option \<times> job_db" where
  "SaveMultiJob dberr mj db =
     (case dberr of
        Some e \<Rightarrow> (Some e, db)
      | None \<Rightarrow> (None, db\<lparr>dbMultiJobs := filter (\<lambda>r. mrJID r \<noteq> mjJID mj) (dbMultiJobs db) @ [convertMultiJobToSqlite mj]\<rparr>))"

definition multi_job_options :: "string \<Rightarrow> list_options" where
  "multi_job_options jid =
     \<lparr>loSorts = [\<lparr>soColumn = ''DATETIME(started_at)'', soIsASC = False\<rparr>, \<lparr>soColumn = ''jid'', soIsASC = True\<rparr>],
      loFilters = [\<lparr>foColumn = [''multi_job_id''], foOperator = '''', foValues = [jid], foLogical = '''', foCompareFunc = ''''\<rparr>],
      loFields = [], loPagination = Some (NewPagination DefaultLimit 0)\<rparr>"

definition GetMultiJob :: "jobs_env \<Rightarrow> string \<Rightarrow> job_db \<Rightarrow> multi_job option res" where
  "GetMultiJob env jid db =
     (case jeDbErr env of
        Some e \<Rightarrow> Inl e
      | None \<Rightarrow>
          (case find (\<lambda>r. mrJID r = jid) (dbMultiJobs db) of
             None \<Rightarrow> Inr None
           | Some r \<Rightarrow>
               bind_res (Jobs_List env (multi_job_options jid) db) (\<lambda>jobs. Inr (Some ((MultiJob_convert r)\<lparr>mjJobs := jobs\<rparr>)))))"

record multi_job_summary =
  msJID :: string
  msStartedAt :: time
  msCreatedBy :: string
  msScheduleID :: "string option"

definition Summary_convert :: "multi_job_row \<Rightarrow> multi_job_summary" where
  "Summary_convert r = \<lparr>msJID = mrJID r, msStartedAt = mrStartedAt r, msCreatedBy = mrCreatedBy r, msScheduleID = mrScheduleID r\<rparr>"

definition GetMultiJobSummaries :: "jobs_env \<Rightarrow> list_options \<Rightarrow> job_db \<Rightarrow> multi_job_summary list res" where
  "GetMultiJobSummaries env options db =
     (let options1 = (if loSorts options = []
                      then options\<lparr>loSorts := [\<lparr>soColumn = ''DATETIME(started_at)'', soIsASC = False\<rparr>,
                                              \<lparr>soColumn = ''jid'', soIsASC = True\<rparr>]\<rparr> else options);
          (q, params) = ConvertListOptionsToQuery jobs_driver (Some options1) ''SELECT jid, started_at, created_by, schedule_id FROM multi_jobs''
      in bind_res (jeSelectMulti env q params db) (\<lambda>res. Inr (map Summary_convert res)))"

definition CountMultiJobs :: "jobs_env \<Rightarrow> list_options \<Rightarrow> job_db \<Rightarrow> int res" where
  "CountMultiJobs env options db =
     (let (q, params) = ConvertListOptionsToQuery jobs_driver (Some (options\<lparr>loPagination := None\<rparr>)) ''SELECT count(*) FROM multi_jobs''
      in jeCount env q params db)"

section \<open>Cleanup\<close>

text \<open>\<^verbatim>\<open>ORDER BY started_at DESC LIMIT -1 OFFSET maxJobs\<close>: the jobs older than the newest \<open>maxJobs\<close>.\<close>

definition older_jobs :: "int \<Rightarrow> job_row list \<Rightarrow> job_row list" where
  "older_jobs maxJobs rows = drop (nat maxJobs) (sort_key (\<lambda>r. - rwStartedAt r) rows)"

definition older_multi :: "int \<Rightarrow> job_row list \<Rightarrow> string list" where
  "older_multi maxJobs rows = List.map_filter rwMultiJobID (older_jobs maxJobs rows)"

definition delete_multi_jobs :: "int \<Rightarrow> job_db \<Rightarrow> job_db" where
  "delete_multi_jobs maxJobs db =
     db\<lparr>dbMultiJobs := filter (\<lambda>m. mrJID m \<notin> set (older_multi maxJobs (dbJobs db))) (dbMultiJobs db)\<rparr>"

definition delete_multi_jobs_jobs :: "int \<Rightarrow> job_db \<Rightarrow> job_db" where
  "delete_multi_jobs_jobs maxJobs db =
     db\<lparr>dbJobs := filter (\<lambda>r. case rwMultiJobID r of None \<Rightarrow> True | Some m \<Rightarrow> m \<notin> set (older_multi maxJobs (dbJobs db))) (dbJobs db)\<rparr>"

definition delete_single_jobs :: "int \<Rightarrow> job_db \<Rightarrow> job_db" where
  "delete_single_jobs maxJobs db =
     db\<lparr>dbJobs := filter (\<lambda>r. \<not> (rwJID r \<in> set (map rwJID (older_jobs maxJobs (dbJobs db))) \<and> rwMultiJobID r = None)) (dbJobs db)\<rparr>"

definition CleanupJobsMultiJobs :: "(nat \<Rightarrow> goerr option) \<Rightarrow> int \<Rightarrow> job_db \<Rightarrow> goerr option \<times> job_db" where
  "CleanupJobsMultiJobs dberr maxJobs db =
     (case dberr 1 of
        Some e \<Rightarrow> (Some (GoError ''deleting multi jobs: %v'' [AS (err_format e)]), db)
      | None \<Rightarrow>
          let db1 = delete_multi_jobs maxJobs db
          in (case dberr 2 of
                Some e \<Rightarrow> (Some (GoError ''deleting multi jobs' jobs: %v'' [AS (err_format e)]), db1)
              | None \<Rightarrow>
                  let db2 = delete_multi_jobs_jobs maxJobs db1
                  in (case dberr 3 of
                        Some e \<Rightarrow> (Some (GoError ''deleting jobs: %v'' [AS (err_format e)]), db2)
                      | None \<Rightarrow> (None, delete_single_jobs maxJobs db2))))"

section \<open>Retries end\<close>

lemma retry_loop_exact:
  assumes "retry_loop f k err = (r, n)" "1 \<le> k" "k \<le> DefaultMaxAttempts" "1 < k \<Longrightarrow> err = Some ErrBusy" "k = 1 \<Longrightarrow> err = None"
  shows "k \<le> n \<and> n \<le> DefaultMaxAttempts \<and> (\<forall>i. k \<le> i \<and> i < n \<longrightarrow> f i = Inl ErrBusy) \<and>
    (case r of Inr x \<Rightarrow> f n = Inr x
     | Inl e \<Rightarrow> \<exists>e'. e = Some e' \<and> f n = Inl e' \<and> (e' = ErrBusy \<longrightarrow> n = DefaultMaxAttempts))"
  using assms
proof (induction f k err arbitrary: r n rule: retry_loop.induct)
  case (1 f k err)
  have stays: "\<not> (1 < k \<and> err \<noteq> None \<and> err \<noteq> Some ErrBusy)" using "1.prems"(4) by blast
  have eq: "retry_loop f k err = (case f k of Inr r \<Rightarrow> (Inr r, k) | Inl e \<Rightarrow> retry_loop f (k + 1) (Some e))"
    unfolding retry_loop.simps [of f k err] using stays "1.prems"(3) by auto
  show ?case
  proof (cases "f k")
    case (Inr x)
    with 1(2) eq have "r = Inr x" "n = k" by auto
    with Inr 1(3,4) show ?thesis by auto
  next
    case (Inl e)
    with 1(2) eq have step: "retry_loop f (k + 1) (Some e) = (r, n)" by simp
    show ?thesis
    proof (cases "k < DefaultMaxAttempts \<and> e = ErrBusy")
      case True
      from 1(1) [OF _ stays Inl step] True 1(3,4)
      have IH: "k + 1 \<le> n \<and> n \<le> DefaultMaxAttempts \<and> (\<forall>i. k + 1 \<le> i \<and> i < n \<longrightarrow> f i = Inl ErrBusy) \<and>
        (case r of Inr x \<Rightarrow> f n = Inr x
         | Inl e \<Rightarrow> \<exists>e'. e = Some e' \<and> f n = Inl e' \<and> (e' = ErrBusy \<longrightarrow> n = DefaultMaxAttempts))" by simp
      then have "f i = Inl ErrBusy" if "k \<le> i" "i < n" for i
        using that Inl True by (cases "i = k") auto
      with IH show ?thesis by auto
    next
      case False
      then have "retry_loop f (k + 1) (Some e) = (Inl (Some e), k)"
        unfolding retry_loop.simps [of f "k + 1"] using 1(3,4) by auto
      then have "r = Inl (Some e)" "n = k" using step by simp_all
      with Inl False 1(4) show ?thesis by auto
    qed
  qed
qed

text \<open>C30: A statement on a busy database is attempted at least once and at most five times. It is repeated exactly as long as the
  database is busy; the call ends with the first other outcome, which is what it returns, or with the
  fifth busy answer.
\<close>

theorem retries_end:
  "\<exists>r n. WithRetryWhenBusy f = (r, n) \<and> 1 \<le> n \<and> n \<le> 5 \<and> (\<forall>i. 1 \<le> i \<and> i < n \<longrightarrow> f i = Inl ErrBusy) \<and>
     (case r of Inr x \<Rightarrow> f n = Inr x
      | Inl e \<Rightarrow> \<exists>e'. e = Some e' \<and> f n = Inl e' \<and> (e' = ErrBusy \<longrightarrow> n = 5))"
proof -
  obtain r n where e: "retry_loop f 1 None = (r, n)" by (cases "retry_loop f 1 None")
  from retry_loop_exact [OF e] show ?thesis using e by (simp add: WithRetryWhenBusy_def DefaultMaxAttempts_def split: sum.splits)
qed

theorem retries_end_witness:
  "WithRetryWhenBusy (\<lambda>n. if n < 3 then Inl ErrBusy else Inr n) = (Inr 3, 3) \<and>
   (\<exists>r n. WithRetryWhenBusy (\<lambda>n. if n < 3 then Inl ErrBusy else Inr n) = (r, n) \<and> 1 \<le> n \<and> n \<le> 5)"
proof
  show "WithRetryWhenBusy (\<lambda>n. if n < 3 then Inl ErrBusy else Inr n) = (Inr 3, 3)"
    by (simp add: WithRetryWhenBusy_def retry_loop.simps DefaultMaxAttempts_def)
  show "\<exists>r n. WithRetryWhenBusy (\<lambda>n. if n < 3 then Inl ErrBusy else Inr n) = (r, n) \<and> 1 \<le> n \<and> n \<le> 5"
    using retries_end [of "\<lambda>n. if n < 3 then Inl ErrBusy else Inr n"] by blast
qed

lemma retry_reaches:
  assumes "\<And>n. f n \<noteq> Inl ErrBusy"
  shows "fst (WithRetryWhenBusy f) = (case f 1 of Inl e \<Rightarrow> Inl (Some e) | Inr x \<Rightarrow> Inr x)"
  using assms [of 1] by (auto simp: WithRetryWhenBusy_def retry_loop.simps DefaultMaxAttempts_def split: sum.splits)

lemma retry_result:
  assumes "fst (WithRetryWhenBusy f) = Inr x"
  shows "\<exists>n. f n = Inr x"
proof -
  obtain r n where e: "retry_loop f 1 None = (r, n)" by (cases "retry_loop f 1 None")
  with assms have "r = Inr x" by (simp add: WithRetryWhenBusy_def)
  with retry_loop_exact [OF e] show ?thesis by (auto simp: DefaultMaxAttempts_def)
qed

section \<open>Cleanup\<close>

lemma filter_sort_key: "filter P (sort_key f xs) = sort_key f (filter P xs)"
  by (rule filter_sort)

lemma drop_filter_subset: "set (drop n (filter P xs)) \<subseteq> set (drop n xs)"
proof (induction xs arbitrary: n)
  case (Cons x xs)
  show ?case
  proof (cases n)
    case 0
    then show ?thesis by auto
  next
    case (Suc m)
    have "set (drop (Suc m) (filter P xs)) \<subseteq> set (drop m (filter P xs))" by (rule set_drop_subset_set_drop) simp
    with Cons.IH [of m] Suc show ?thesis by (cases "P x") auto
  qed
qed simp

lemma older_jobs_subset: "set (older_jobs n rows) \<subseteq> set rows"
  unfolding older_jobs_def by (metis set_drop_subset set_sort)

lemma older_jobs_filter: "set (older_jobs n (filter P rows)) \<subseteq> set (older_jobs n rows)"
  unfolding older_jobs_def filter_sort_key [symmetric] by (rule drop_filter_subset)

lemma newest_length: "length (filter (\<lambda>r. r \<notin> set (older_jobs n rows)) rows) \<le> nat n"
proof -
  have "length (filter (\<lambda>r. r \<notin> set (older_jobs n rows)) rows)
      = length (filter (\<lambda>r. r \<notin> set (older_jobs n rows)) (sort_key (\<lambda>r. - rwStartedAt r) rows))"
    by (simp add: filter_sort_key)
  also have "\<dots> = length (filter (\<lambda>r. r \<notin> set (older_jobs n rows)) (take (nat n) (sort_key (\<lambda>r. - rwStartedAt r) rows)))"
    unfolding older_jobs_def
    by (subst append_take_drop_id [of "nat n" "sort_key (\<lambda>r. - rwStartedAt r) rows", symmetric], subst filter_append)
       (simp add: filter_empty_conv)
  also have "\<dots> \<le> nat n" by (metis (no_types, lifting) le_trans length_filter_le length_take min.cobounded2)
  finally show ?thesis .
qed

lemma older_multi_iff: "m \<in> set (older_multi n rows) \<longleftrightarrow> (\<exists>r \<in> set (older_jobs n rows). rwMultiJobID r = Some m)"
  unfolding older_multi_def List.map_filter_def by (auto simp: image_iff)

definition kept_job :: "int \<Rightarrow> job_row list \<Rightarrow> job_row \<Rightarrow> bool" where
  "kept_job n rows r =
     (case rwMultiJobID r of None \<Rightarrow> True | Some m \<Rightarrow> m \<notin> set (older_multi n rows))"

lemma cleanup_result:
  assumes "CleanupJobsMultiJobs (\<lambda>_. None) n db = (err, db')"
  shows "err = None"
    and "dbMultiJobs db' = filter (\<lambda>m. mrJID m \<notin> set (older_multi n (dbJobs db))) (dbMultiJobs db)"
    and "dbJobs db' = (let rows = filter (kept_job n (dbJobs db)) (dbJobs db)
           in filter (\<lambda>r. \<not> (rwJID r \<in> set (map rwJID (older_jobs n rows)) \<and> rwMultiJobID r = None)) rows)"
  using assms by (auto simp: CleanupJobsMultiJobs_def delete_multi_jobs_def delete_multi_jobs_jobs_def delete_single_jobs_def
    Let_def kept_job_def [abs_def] cong: option.case_cong)


section \<open>Results at rest\<close>

text \<open>A cipher, a key and a source of nonces that work.\<close>

definition env_ok :: "jobs_env \<Rightarrow> bool" where
  "env_ok env \<longleftrightarrow> aead_spec (jeGcm env) \<and> length (dek (jeEnc env)) = 32 \<and>
     (\<forall>jid f. \<exists>n. jeNonce env jid f = Inr n \<and> length n = NonceSize)"

abbreviation sealed_by :: "jobs_env \<Rightarrow> string \<Rightarrow> bool" where
  "sealed_by env \<equiv> IsEncryptedBy (jeGcm env) (jeEnc env)"

definition details_done :: "jobs_env \<Rightarrow> (string \<Rightarrow> bool) \<Rightarrow> job_details \<Rightarrow> bool" where
  "details_done env al d \<longleftrightarrow> (jdError d = '''' \<or> al (jdError d) \<or> sealed_by env (jdError d)) \<and>
     (case jdResult d of None \<Rightarrow> True
      | Some r \<Rightarrow> (jrStdOut r = '''' \<or> al (jrStdOut r) \<or> sealed_by env (jrStdOut r)) \<and>
                  (jrStdErr r = '''' \<or> al (jrStdErr r) \<or> sealed_by env (jrStdErr r)))"

abbreviation sealed_details :: "jobs_env \<Rightarrow> job_details \<Rightarrow> bool" where
  "sealed_details env \<equiv> details_done env (sealed_by env)"

definition output_fields :: "job \<Rightarrow> string list" where
  "output_fields j = jError j # (case jResult j of None \<Rightarrow> [] | Some r \<Rightarrow> [jrStdOut r, jrStdErr r])"

lemma env_ok_enabled: "env_ok env \<Longrightarrow> Enabled (jeEnc env)"
  by (auto simp: env_ok_def Enabled_def)

lemma encrypt_field:
  assumes "env_ok env"
  shows "\<exists>w. encryptStringField (jeGcm env) (jeNonce env jid f) (jeEnc env) al v = Inr w \<and>
    (v = '''' \<and> w = '''' \<or> v \<noteq> '''' \<and> al v \<and> w = v \<or>
     v \<noteq> '''' \<and> \<not> al v \<and> w \<noteq> '''' \<and> sealed_by env w \<and> Decrypt (jeGcm env) (jeEnc env) w = Inr v)"
proof -
  from assms obtain n where n: "jeNonce env jid f = Inr n" "length n = NonceSize"
    and k: "aead_spec (jeGcm env)" "length (dek (jeEnc env)) = 32" unfolding env_ok_def by blast
  note s = Envelope_sealed [OF k(1) n(2) k(2), of v]
  have "sealed (jeGcm env) (jeEnc env) n v \<noteq> ''''" by (simp add: sealed_def envelopeV1Prefix_def)
  moreover have "sealed_by env (sealed (jeGcm env) (jeEnc env) n v)"
    using s env_ok_enabled [OF assms] by (simp add: IsEncryptedBy_def)
  ultimately show ?thesis using s n(1) by (auto simp: encryptStringField_def)
qed

lemma decrypt_sealed: "sealed_by env v \<Longrightarrow> \<exists>w. decryptStringField (jeGcm env) (jeEnc env) v = Inr w"
  by (auto simp: IsEncryptedBy_def decryptStringField_def is_err_def split: sum.splits)

lemma sealed_encrypted: "sealed_by env v \<Longrightarrow> IsEncrypted v"
  by (simp add: IsEncryptedBy_def)

lemma encrypt_details:
  assumes "env_ok env"
  shows "\<exists>d'. encryptDetailsResult env jid al d = Inr d' \<and> details_done env al d' \<and>
    (\<forall>j. jError j = jdError d \<longrightarrow> jResult j = jdResult d \<longrightarrow> (\<forall>v \<in> set (output_fields j). \<not> al v) \<longrightarrow>
       decryptJobResult env (j\<lparr>jError := jdError d', jResult := jdResult d'\<rparr>) = Inr j) \<and>
    jdResult d' = map_option (\<lambda>r. r\<lparr>jrStdOut := jrStdOut (the (jdResult d')), jrStdErr := jrStdErr (the (jdResult d'))\<rparr>) (jdResult d) \<and>
    d' = d\<lparr>jdError := jdError d', jdResult := jdResult d'\<rparr>"
proof -
  note field = encrypt_field [where al = al, OF assms]
  obtain e where e: "encryptStringField (jeGcm env) (jeNonce env jid ''error'') (jeEnc env) al (jdError d) = Inr e"
    and e': "jdError d = '''' \<and> e = '''' \<or> jdError d \<noteq> '''' \<and> al (jdError d) \<and> e = jdError d \<or>
      jdError d \<noteq> '''' \<and> \<not> al (jdError d) \<and> e \<noteq> '''' \<and> sealed_by env e \<and> Decrypt (jeGcm env) (jeEnc env) e = Inr (jdError d)"
    using field [where jid = jid and f = "''error''" and v = "jdError d"] by blast
  show ?thesis
  proof (cases "jdResult d")
    case None
    show ?thesis
      using e e' None env_ok_enabled [OF assms]
      by (intro exI [of _ "d\<lparr>jdError := e\<rparr>"])
        (auto simp: encryptDetailsResult_def details_done_def decryptJobResult_def decryptStringField_def output_fields_def)
  next
    case (Some r)
    obtain o1 where o1: "encryptStringField (jeGcm env) (jeNonce env jid ''stdout'') (jeEnc env) al (jrStdOut r) = Inr o1"
      and o1': "jrStdOut r = '''' \<and> o1 = '''' \<or> jrStdOut r \<noteq> '''' \<and> al (jrStdOut r) \<and> o1 = jrStdOut r \<or>
        jrStdOut r \<noteq> '''' \<and> \<not> al (jrStdOut r) \<and> o1 \<noteq> '''' \<and> sealed_by env o1 \<and> Decrypt (jeGcm env) (jeEnc env) o1 = Inr (jrStdOut r)"
      using field [where jid = jid and f = "''stdout''" and v = "jrStdOut r"] by blast
    obtain o2 where o2: "encryptStringField (jeGcm env) (jeNonce env jid ''stderr'') (jeEnc env) al (jrStdErr r) = Inr o2"
      and o2': "jrStdErr r = '''' \<and> o2 = '''' \<or> jrStdErr r \<noteq> '''' \<and> al (jrStdErr r) \<and> o2 = jrStdErr r \<or>
        jrStdErr r \<noteq> '''' \<and> \<not> al (jrStdErr r) \<and> o2 \<noteq> '''' \<and> sealed_by env o2 \<and> Decrypt (jeGcm env) (jeEnc env) o2 = Inr (jrStdErr r)"
      using field [where jid = jid and f = "''stderr''" and v = "jrStdErr r"] by blast
    show ?thesis
      using e e' o1 o1' o2 o2' Some env_ok_enabled [OF assms]
      by (intro exI [of _ "d\<lparr>jdError := e, jdResult := Some (r\<lparr>jrStdOut := o1, jrStdErr := o2\<rparr>)\<rparr>"])
        (auto simp: encryptDetailsResult_def details_done_def decryptJobResult_def decryptStringField_def output_fields_def)
  qed
qed

lemma find_append_None: "find P xs = None \<Longrightarrow> find P (xs @ ys) = find P ys"
  by (induction xs) (auto split: if_splits)

lemma schedule_of_jobs [simp]: "schedule_of (db\<lparr>dbJobs := rows\<rparr>) row = schedule_of db row"
  by (simp add: schedule_of_def cong: option.case_cong)

lemma replace_row_find:
  "find (\<lambda>r. rwJID r = rwJID row \<and> rwClientID r = rwClientID row) (replace_row row rows) = Some row"
proof -
  have "find (\<lambda>r. rwJID r = rwJID row \<and> rwClientID r = rwClientID row) (filter (\<lambda>r. rwJID r \<noteq> rwJID row) rows) = None"
    by (simp add: find_None_iff)
  from find_append_None [OF this] show ?thesis by (simp add: replace_row_def)
qed

lemma SaveJob_result:
  assumes "SaveJob env j db = (None, db')"
  shows "\<exists>row. toSqlite env j = Inr row \<and> db' = db\<lparr>dbJobs := replace_row row (dbJobs db)\<rparr>"
proof -
  from assms obtain row where row: "toSqlite env j = Inr row" by (auto simp: SaveJob_def split: sum.splits)
  with assms obtain rows where
    r: "fst (WithRetryWhenBusy (\<lambda>n. case jeExec env n of Some e \<Rightarrow> Inl e | None \<Rightarrow> Inr (replace_row row (dbJobs db)))) = Inr rows"
    and d: "db' = db\<lparr>dbJobs := rows\<rparr>" by (auto simp: SaveJob_def split: sum.splits)
  from retry_result [OF r] have "rows = replace_row row (dbJobs db)" by (auto split: option.splits)
  with row d show ?thesis by blast
qed

lemma toSqlite_row:
  assumes "toSqlite env j = Inr row"
  shows "\<exists>d. row = Job_convertToSqlite j d"
  using assms by (cases "encryptDetailsResult env (jJID j) (sealed_by env) (Job_details j)") (auto simp: toSqlite_def split: if_splits)

lemma GetByJID_saved:
  assumes "jeDbErr env = None" "row = Job_convertToSqlite j d" "db' = db\<lparr>dbJobs := replace_row row (dbJobs db)\<rparr>"
  shows "GetByJID env (jClientID j) (jJID j) db' =
    bind_res (decryptJobResult env (Job_convert (row, schedule_of db row) d)) (\<lambda>j. Inr (Some j))"
proof -
  have "find (\<lambda>r. rwJID r = jJID j \<and> rwClientID r = jClientID j) (replace_row row (dbJobs db)) = Some row"
    using replace_row_find [of row] by (simp add: assms(2) Job_convertToSqlite_def)
  then show ?thesis
    using assms by (simp add: GetByJID_def Details_Scan_def) (simp add: Job_convertToSqlite_def)
qed

lemma decrypt_sealed_details:
  assumes "sealed_details env d" "jError j = jdError d" "jResult j = jdResult d"
  shows "\<exists>j'. decryptJobResult env j = Inr j'"
proof -
  have field: "\<exists>w. decryptStringField (jeGcm env) (jeEnc env) v = Inr w" if "v = '''' \<or> sealed_by env v" for v
    using that
  proof
    assume "v = ''''"
    then show ?thesis by (simp add: decryptStringField_def)
  qed (rule decrypt_sealed)
  from assms have 1: "jError j = '''' \<or> sealed_by env (jError j)" by (simp add: details_done_def)
  show ?thesis
  proof (cases "jResult j")
    case None
    with field [OF 1] show ?thesis by (auto simp: decryptJobResult_def)
  next
    case (Some r)
    then have "jdResult d = Some r" using assms(3) by simp
    with assms(1) have "jrStdOut r = '''' \<or> sealed_by env (jrStdOut r)" "jrStdErr r = '''' \<or> sealed_by env (jrStdErr r)"
      by (auto simp: details_done_def)
    from field [OF 1] field [OF this(1)] field [OF this(2)] Some show ?thesis by (auto simp: decryptJobResult_def)
  qed
qed


definition demo_job :: job where
  "demo_job = \<lparr>jJID = ''j1'', jStatus = JobStatusSuccessful, jFinishedAt = Some 20, jClientID = ''c1'', jClientName = ''web'',
     jCommand = ''id'', jCwd = '''', jInterpreter = '''', jPID = Some 7, jStartedAt = 10, jCreatedBy = ''alice'', jTimeoutSec = 60,
     jMultiJobID = None, jScheduleID = None, jError = '''',
     jResult = Some \<lparr>jrStdOut = ''enc:v1:x'', jrStdErr = '''', jrSummary = ''''\<rparr>,
     jIsSudo = False, jIsScript = False, jStreamResult = False\<rparr>"

definition demo_env :: "string \<Rightarrow> jobs_env" where
  "demo_env key = \<lparr>jeGcm = toy_aead, jeEnc = NewEnvelope key, jeNonce = (\<lambda>_ _. Inr (replicate 12 CHR ''n'')), jeDbErr = None,
     jeExec = (\<lambda>n. if n = 1 then Some ErrBusy else None), jeUpdateErr = (\<lambda>_. None), jeSelect = (\<lambda>_ _ _. Inr []),
     jeSelectMulti = (\<lambda>_ _ _. Inr []), jeCount = (\<lambda>_ _ _. Inr 0)\<rparr>"

abbreviation demo_key :: string where "demo_key \<equiv> replicate 32 CHR ''k''"

lemma demo_env_ok: "env_ok (demo_env demo_key)"
  by (simp add: env_ok_def demo_env_def toy_aead_spec NewEnvelope_def NonceSize_def)

lemma demo_save:
  "toSqlite (demo_env key) demo_job = Inr row \<Longrightarrow>
   SaveJob (demo_env key) demo_job \<lparr>dbJobs = [], dbMultiJobs = []\<rparr> = (None, \<lparr>dbJobs = [row], dbMultiJobs = []\<rparr>)"
  by (simp add: SaveJob_def WithRetryWhenBusy_def retry_loop.simps DefaultMaxAttempts_def demo_env_def replace_row_def)


text \<open>Without a key the output of a command is stored as it is. Output that only looks like an encrypted value then makes the job
  unreadable: reading it fails, and so does every later report of its result.
\<close>

theorem plain_output_unreadable:
  assumes "\<not> Enabled (jeEnc env)" "jeDbErr env = None" "jResult j = Some r" "IsEncrypted (jrStdOut r)"
    "SaveJob env j db = (None, db')"
  shows "\<exists>e. GetByJID env (jClientID j) (jJID j) db' = Inl e"
proof -
  from SaveJob_result [OF assms(5)] obtain row where
    row: "toSqlite env j = Inr row" and db': "db' = db\<lparr>dbJobs := replace_row row (dbJobs db)\<rparr>" by blast
  from row assms(1) have r: "row = Job_convertToSqlite j (Job_details j)" by (simp add: toSqlite_def)
  have n: "jrStdOut r \<noteq> ''''" using assms(4) by (auto simp: IsEncrypted_def envelopePrefix_def)
  have "Job_convert (row, schedule_of db row) (Job_details j) = j\<lparr>jStreamResult := False, jScheduleID := schedule_of db row\<rparr>"
    by (simp add: r Job_convert_def Job_convertToSqlite_def Job_details_def)
  moreover have "\<exists>e. decryptJobResult env (j\<lparr>jStreamResult := False, jScheduleID := schedule_of db row\<rparr>) = Inl e"
    using assms(1,3,4) n
    by (cases "decryptStringField (jeGcm env) (jeEnc env) (jError j)") (auto simp: decryptJobResult_def decryptStringField_def Decrypt_def)
  ultimately show ?thesis unfolding GetByJID_saved [OF assms(2) r db'] by auto
qed

theorem plain_output_unreadable_witness:
  "\<exists>db'. SaveJob (demo_env []) demo_job \<lparr>dbJobs = [], dbMultiJobs = []\<rparr> = (None, db') \<and>
     (\<exists>e. GetByJID (demo_env []) ''c1'' ''j1'' db' = Inl e)"
proof -
  have off: "\<not> Enabled (jeEnc (demo_env []))" by (simp add: demo_env_def NewEnvelope_def Enabled_def)
  then obtain row where "toSqlite (demo_env []) demo_job = Inr row" by (simp add: toSqlite_def)
  note s = demo_save [OF this]
  have e: "IsEncrypted ''enc:v1:x''" by code_simp
  have "jClientID demo_job = ''c1''" "jJID demo_job = ''j1''" "jeDbErr (demo_env []) = None"
    "jResult demo_job = Some \<lparr>jrStdOut = ''enc:v1:x'', jrStdErr = '''', jrSummary = ''''\<rparr>"
    by (simp_all add: demo_job_def demo_env_def)
  with plain_output_unreadable [OF off _ _ _ s] e s show ?thesis by auto
qed


section \<open>The backfill\<close>

definition backfilled :: "jobs_env \<Rightarrow> job_row \<Rightarrow> job_row \<Rightarrow> bool" where
  "backfilled env r r' \<longleftrightarrow>
     (case rwDetails r of
        None \<Rightarrow> r' = r
      | Some d \<Rightarrow>
          if \<not> needs_backfill d then r' = r
          else (case encryptDetailsResult env (rwJID r) IsEncrypted d of
                  Inl _ \<Rightarrow> False | Inr d1 \<Rightarrow> r' = r\<lparr>rwDetails := Some d1\<rparr>))"

lemma update_details_single:
  assumes "distinct (map rwJID rows)" "r \<in> set rows"
  shows "update_details (rwJID r) (rwClientID r) d rows = map (\<lambda>x. if x = r then r\<lparr>rwDetails := Some d\<rparr> else x) rows"
  unfolding update_details_def
proof (rule map_cong [OF refl])
  fix x assume "x \<in> set rows"
  with assms have "rwJID x = rwJID r \<longleftrightarrow> x = r" by (metis distinct_map inj_onD)
  then show "(if rwJID x = rwJID r \<and> rwClientID x = rwClientID r then x\<lparr>rwDetails := Some d\<rparr> else x)
    = (if x = r then r\<lparr>rwDetails := Some d\<rparr> else x)" by auto
qed

lemma backfill_rows_exact:
  assumes "backfill_rows env rs rows = (None, rows')" "distinct (map rwJID rows)" "set rs \<subseteq> set rows" "distinct (map rwJID rs)"
  shows "list_all2 (\<lambda>r r'. rwJID r' = rwJID r \<and> (if r \<in> set rs then backfilled env r r' else r' = r)) rows rows'"
  using assms
proof (induction env rs rows rule: backfill_rows.induct)
  case (1 env rows)
  then show ?case by (simp add: list.rel_refl)
next
  case (2 env r rs rows)
  have notin: "r \<notin> set rs" using "2.prems"(4) by (auto simp: image_iff)
  show ?case
  proof (cases "\<exists>d. rwDetails r = Some d \<and> needs_backfill d")
    case False
    then have "backfill_rows env rs rows = (None, rows')" using "2.prems"(1) by (auto split: option.splits if_splits)
    with 2 False have "list_all2 (\<lambda>r r'. rwJID r' = rwJID r \<and> (if r \<in> set rs then backfilled env r r' else r' = r)) rows rows'"
      by (cases "rwDetails r") auto
    then show ?thesis
      by (rule list.rel_mono_strong) (use False notin in \<open>auto simp: backfilled_def split: option.splits\<close>)
  next
    case True
    then obtain d where d: "rwDetails r = Some d" "needs_backfill d" by blast
    with "2.prems"(1) obtain d1 where d1: "encryptDetailsResult env (rwJID r) IsEncrypted d = Inr d1" "jeUpdateErr env (rwJID r) = None"
      and rest: "backfill_rows env rs (update_details (rwJID r) (rwClientID r) d1 rows) = (None, rows')"
      by (auto split: sum.splits option.splits)
    define rows1 where "rows1 = update_details (rwJID r) (rwClientID r) d1 rows"
    have rin: "r \<in> set rows" using "2.prems"(3) by simp
    note single = update_details_single [OF "2.prems"(2) rin, of d1, folded rows1_def]
    have ids: "map rwJID rows1 = map rwJID rows" by (simp add: single comp_def)
    have sub: "set rs \<subseteq> set rows1" using "2.prems"(3) notin by (auto simp: single)
    have IH: "list_all2 (\<lambda>r r'. rwJID r' = rwJID r \<and> (if r \<in> set rs then backfilled env r r' else r' = r)) rows1 rows'"
      using 2(3) [OF d(1) _ d1(1,2)] d(2) rest ids sub "2.prems"(2,4) unfolding rows1_def by simp
    have new: "r\<lparr>rwDetails := Some d1\<rparr> \<notin> set rs"
    proof
      assume "r\<lparr>rwDetails := Some d1\<rparr> \<in> set rs"
      then have "rwJID (r\<lparr>rwDetails := Some d1\<rparr>) \<in> rwJID ` set rs" by (rule imageI)
      with "2.prems"(4) show False by simp
    qed
    have self: "backfilled env r (r\<lparr>rwDetails := Some d1\<rparr>)" using d d1 by (simp add: backfilled_def)
    show ?thesis using IH unfolding single list_all2_map1
      by (rule list.rel_mono_strong) (use self notin new in \<open>auto split: if_splits\<close>)
  qed
qed

lemma backfilled_done:
  assumes "env_ok env" "backfilled env r r'"
  shows "(\<forall>d. rwDetails r' = Some d \<longrightarrow> \<not> needs_backfill d) \<and>
    (\<forall>d s. rwDetails r = Some d \<longrightarrow> (\<forall>v \<in> set (output_fields (Job_convert (r, s) d)). \<not> IsEncrypted v) \<longrightarrow>
       (\<exists>d'. rwDetails r' = Some d' \<and> decryptJobResult env (Job_convert (r', s) d') = Inr (Job_convert (r, s) d)))"
proof (cases "\<exists>d. rwDetails r = Some d \<and> needs_backfill d")
  case False
  have plain: "decryptJobResult env (Job_convert (r, s) d) = Inr (Job_convert (r, s) d)"
    if "\<forall>v \<in> set (output_fields (Job_convert (r, s) d)). \<not> IsEncrypted v" for s d
    using that by (auto simp: decryptJobResult_def decryptStringField_def Decrypt_def output_fields_def split: option.splits)
  from False assms(2) have "r' = r" by (auto simp: backfilled_def split: option.splits)
  with False plain show ?thesis by auto
next
  case True
  then obtain d where d: "rwDetails r = Some d" "needs_backfill d" by blast
  from encrypt_details [OF assms(1), of "rwJID r" IsEncrypted d] obtain d' where
    d': "encryptDetailsResult env (rwJID r) IsEncrypted d = Inr d'" "details_done env IsEncrypted d'"
    and open_: "\<forall>j. jError j = jdError d \<longrightarrow> jResult j = jdResult d \<longrightarrow> (\<forall>v \<in> set (output_fields j). \<not> IsEncrypted v) \<longrightarrow>
       decryptJobResult env (j\<lparr>jError := jdError d', jResult := jdResult d'\<rparr>) = Inr j"
    and eq: "d' = d\<lparr>jdError := jdError d', jdResult := jdResult d'\<rparr>" by blast
  from d d'(1) assms(2) have r': "r' = r\<lparr>rwDetails := Some d'\<rparr>" by (simp add: backfilled_def)
  have "\<not> needs_backfill d'"
    using d'(2) sealed_encrypted by (auto simp: needs_backfill_def isPlaintextField_def details_done_def split: option.splits)
  moreover have "decryptJobResult env (Job_convert (r', s) d') = Inr (Job_convert (r, s) d)"
    if "\<forall>v \<in> set (output_fields (Job_convert (r, s) d)). \<not> IsEncrypted v" for s
  proof -
    obtain a b where "d' = d\<lparr>jdError := a, jdResult := b\<rparr>" using eq by blast
    then have "Job_convert (r', s) d' = (Job_convert (r, s) d)\<lparr>jError := jdError d', jResult := jdResult d'\<rparr>"
      by (simp add: r' Job_convert_def)
    then show ?thesis using open_ [rule_format, of "Job_convert (r, s) d"] that by (simp add: Job_convert_def)
  qed
  ultimately show ?thesis using d by (simp add: r')
qed

lemma backfill_rows_nothing:
  "\<forall>r \<in> set rs. \<forall>d. rwDetails r = Some d \<longrightarrow> \<not> needs_backfill d \<Longrightarrow> backfill_rows env rs rows = (None, rows)"
  by (induction env rs rows rule: backfill_rows.induct) (auto split: option.splits)

text \<open>After a backfill that succeeds no output is stored in plain text, and a plain job is still read as it was.
  A second backfill, also with another key, changes nothing.
\<close>

theorem backfill_seals_once:
  assumes "env_ok env" "distinct (map rwJID (dbJobs db))" "encryptExistingResults env db = (None, db')"
  shows "(\<forall>r \<in> set (dbJobs db'). \<forall>d. rwDetails r = Some d \<longrightarrow> \<not> needs_backfill d) \<and>
    list_all2 (\<lambda>r r'. rwJID r' = rwJID r \<and>
      (\<forall>d s. rwDetails r = Some d \<longrightarrow> (\<forall>v \<in> set (output_fields (Job_convert (r, s) d)). \<not> IsEncrypted v) \<longrightarrow>
        (\<exists>d'. rwDetails r' = Some d' \<and> decryptJobResult env (Job_convert (r', s) d') = Inr (Job_convert (r, s) d))))
      (dbJobs db) (dbJobs db') \<and>
    (\<forall>env2. jeDbErr env2 = None \<longrightarrow> encryptExistingResults env2 db' = (None, db'))"
proof -
  have rows: "backfill_rows env (dbJobs db) (dbJobs db) = (None, dbJobs db')" "db' = db\<lparr>dbJobs := dbJobs db'\<rparr>"
    using assms(3) env_ok_enabled [OF assms(1)] by (auto simp: encryptExistingResults_def split: option.splits prod.splits)
  have "list_all2 (\<lambda>r r'. rwJID r' = rwJID r \<and> (if r \<in> set (dbJobs db) then backfilled env r r' else r' = r)) (dbJobs db) (dbJobs db')"
    by (rule backfill_rows_exact [OF rows(1) assms(2) subset_refl assms(2)])
  then have l: "list_all2 (\<lambda>r r'. rwJID r' = rwJID r \<and> backfilled env r r') (dbJobs db) (dbJobs db')"
    by (rule list.rel_mono_strong) auto
  have done_: "\<forall>r \<in> set (dbJobs db'). \<forall>d. rwDetails r = Some d \<longrightarrow> \<not> needs_backfill d"
  proof
    fix r' assume "r' \<in> set (dbJobs db')"
    with l obtain r where "backfilled env r r'" by (metis (no_types, lifting) in_set_conv_nth list_all2_conv_all_nth)
    from backfilled_done [OF assms(1) this] show "\<forall>d. rwDetails r' = Some d \<longrightarrow> \<not> needs_backfill d" by blast
  qed
  have "encryptExistingResults env2 db' = (None, db')" if "jeDbErr env2 = None" for env2
    using that backfill_rows_nothing [OF done_] by (simp add: encryptExistingResults_def)
  moreover from l have "list_all2 (\<lambda>r r'. rwJID r' = rwJID r \<and>
      (\<forall>d s. rwDetails r = Some d \<longrightarrow> (\<forall>v \<in> set (output_fields (Job_convert (r, s) d)). \<not> IsEncrypted v) \<longrightarrow>
        (\<exists>d'. rwDetails r' = Some d' \<and> decryptJobResult env (Job_convert (r', s) d') = Inr (Job_convert (r, s) d))))
      (dbJobs db) (dbJobs db')"
    by (rule list.rel_mono_strong) (use backfilled_done [OF assms(1)] in blast)
  ultimately show ?thesis using done_ by blast
qed

theorem backfill_seals_once_witness:
  "\<exists>db'. encryptExistingResults (demo_env demo_key)
       \<lparr>dbJobs = [Job_convertToSqlite demo_job (Job_details (demo_job\<lparr>jError := ''boom''\<rparr>))], dbMultiJobs = []\<rparr> = (None, db') \<and>
     (\<forall>r \<in> set (dbJobs db'). \<forall>d. rwDetails r = Some d \<longrightarrow> \<not> needs_backfill d)"
proof -
  define d where "d = Job_details (demo_job\<lparr>jError := ''boom''\<rparr>)"
  define db where "db = \<lparr>dbJobs = [Job_convertToSqlite demo_job d], dbMultiJobs = []\<rparr>"
  have "\<exists>db'. encryptExistingResults (demo_env demo_key) db = (None, db')"
    using encrypt_details [OF demo_env_ok, of "jJID demo_job" IsEncrypted d] env_ok_enabled [OF demo_env_ok]
    by (auto simp: encryptExistingResults_def db_def Job_convertToSqlite_def demo_env_def)
  then obtain db' where r: "encryptExistingResults (demo_env demo_key) db = (None, db')" by blast
  have "distinct (map rwJID (dbJobs db))" by (simp add: db_def)
  from backfill_seals_once [OF demo_env_ok this r] r show ?thesis unfolding db_def d_def by blast
qed

end
