(* ===== verification/Commands.thy ===== *)
theory Commands
  imports Jobs Users
begin

text \<open>
  Running commands and scripts on clients: the clients a request targets (\<^verbatim>\<open>server/api_helper_clients.go\<close>), starting jobs on
  one client and on many (\<^verbatim>\<open>server/api_helper_jobs.go\<close>, \<^verbatim>\<open>api_helper_commands.go\<close>), and the handlers of the API
  (\<^verbatim>\<open>api_handler_commands.go\<close>, \<^verbatim>\<open>api_handler_scripts.go\<close>), with the web sockets of \<^verbatim>\<open>share/ws\<close> and the requests of
  \<^verbatim>\<open>share/comm/ssh.go\<close>.

  What an agent answers, what the database and the random generator answer and the clock are the record
  \<open>cmd_env\<close>; the user behind the request is the answer of \<^verbatim>\<open>getUserModelForAuth\<close>. The requests that reach an
  agent are recorded in the state. The goroutines of a concurrent run do not share anything but the tables; they are
  run one after the other. A receive from the channel of a sequential run takes the next result that the run
  is given; when there is none it blocks. Entries of the audit log are left out, and so is the reason of a pause.
\<close>

section \<open>Requests and answers\<close>

record multi_job_request =
  rqClientIDs :: "string list option"
  rqGroupIDs :: "string list option"
  rqClientTags :: "job_client_tags option"
  rqCommand :: string
  rqScript :: string
  rqCwd :: string
  rqIsSudo :: bool
  rqInterpreter :: string
  rqTimeoutSec :: int
  rqExecuteConcurrently :: bool
  rqAbortOnError :: "bool option"
  rqUsername :: string
  rqIsScript :: bool
  rqOrderedClients :: "nat list option"
  rqScheduleID :: "string option"

record execute_input =
  eiCommand :: string
  eiScript :: string
  eiInterpreter :: string
  eiCwd :: string
  eiIsSudo :: bool
  eiTimeoutSec :: int
  eiClientID :: string
  eiIsScript :: bool

definition validInputInterpreter :: "string list" where
  "validInputInterpreter = [''cmd'', ''powershell'']"

definition ValidateInterpreter :: "string \<Rightarrow> bool \<Rightarrow> goerr option" where
  "ValidateInterpreter interpreter isScript =
     (if interpreter = '''' \<or> isScript then None
      else if list_ex (\<lambda>v. interpreter = v) validInputInterpreter then None
      else Some (GoError ''expected interpreter to be one of: %s, actual: %s'' [AS (join '' '' validInputInterpreter), AS interpreter]))"

section \<open>Web sockets\<close>

datatype ui_message = UiError string "goerr option" | UiJob job | UiOutput string string string job_result

record web_socket =
  wsSent :: "ui_message list"
  wsBeforeClose :: int
  wsClosed :: bool

definition NewConcurrentWebSocket :: web_socket where
  "NewConcurrentWebSocket = \<lparr>wsSent = [], wsBeforeClose = 1, wsClosed = False\<rparr>"

definition ws_write :: "ui_message \<Rightarrow> web_socket \<Rightarrow> web_socket" where
  "ws_write m w = (if wsClosed w then w else w\<lparr>wsSent := wsSent w @ [m]\<rparr>)"

definition ws_dec :: "web_socket \<Rightarrow> web_socket" where
  "ws_dec w = (let n = wrap64 (wsBeforeClose w - 1) in w\<lparr>wsBeforeClose := n, wsClosed := wsClosed w \<or> n = 0\<rparr>)"

definition WriteJSON :: "ui_message \<Rightarrow> web_socket \<Rightarrow> web_socket" where
  "WriteJSON m w = ws_dec (ws_write m w)"

definition WriteNonFinalJSON :: "ui_message \<Rightarrow> web_socket \<Rightarrow> web_socket" where
  "WriteNonFinalJSON m w = ws_write m w"

definition WriteError :: "string \<Rightarrow> goerr option \<Rightarrow> web_socket \<Rightarrow> web_socket" where
  "WriteError title err w = WriteJSON (UiError title err) w"

definition SetWritesBeforeClose :: "int \<Rightarrow> web_socket \<Rightarrow> web_socket" where
  "SetWritesBeforeClose n w = w\<lparr>wsBeforeClose := n\<rparr>"

definition ws_Close :: "web_socket \<Rightarrow> web_socket" where
  "ws_Close w = w\<lparr>wsClosed := True\<rparr>"

section \<open>State and environment\<close>

datatype run_reply = SendFailed string | Refused string | BadReply string | Started int time

datatype run_error = ErrClientNotConnected | ConnError goerr | ClientError goerr

record cmd_env =
  ceJobs :: jobs_env
  ceUsers :: users_env
  ceUser :: "user res"
  ceUserName :: string
  ceInsecure :: bool
  ceNow :: time
  ceReplyAt :: time
  ceGroupsErr :: "goerr option"
  ceGroupErr :: "string \<Rightarrow> goerr option"
  ceSaveMultiErr :: "goerr option"
  ceNewJobID :: "string res"
  ceChildJobID :: "nat \<Rightarrow> string res"
  ceReply :: "string \<Rightarrow> job \<Rightarrow> run_reply"
  ceRunRemoteCmdTimeoutSec :: int

record cmd_state =
  csDb :: job_db
  csService :: client_service
  csGroups :: "client_group list"
  csUsers :: api_service
  csDone :: "(string \<times> nat) list"
  csUi :: "(string \<times> nat) list"
  csSockets :: "web_socket list"
  csSent :: "(string \<times> job) list"

definition set_socket :: "nat \<Rightarrow> (web_socket \<Rightarrow> web_socket) \<Rightarrow> cmd_state \<Rightarrow> cmd_state" where
  "set_socket a f st = st\<lparr>csSockets := (csSockets st)[a := f (csSockets st ! a)]\<rparr>"

text \<open>\<^verbatim>\<open>SendRequestAndGetResponse\<close>: the request is on the wire whenever there is a connection.\<close>

definition SendRequestAndGetResponse :: "nat option \<Rightarrow> run_reply \<Rightarrow> run_error + (int \<times> time)" where
  "SendRequestAndGetResponse conn reply =
     (case conn of
        None \<Rightarrow> Inl (ConnError (GoError ''cannot send request: the client is not connected'' []))
      | Some _ \<Rightarrow>
          (case reply of
             SendFailed m \<Rightarrow> Inl (ConnError (GoError ''failed to send request: %v'' [AS m]))
           | Refused m \<Rightarrow> Inl (ClientError (GoError ''client error: %s'' [AS m]))
           | BadReply m \<Rightarrow> Inl (ClientError (GoError ''invalid client response format: failed to decode response into %T: %v'' [AS m]))
           | Started pid startedAt \<Rightarrow> Inr (pid, startedAt)))"

fun run_error_text :: "run_error \<Rightarrow> goerr" where
  "run_error_text ErrClientNotConnected = GoError ''client is not connected'' []"
| "run_error_text (ConnError e) = e"
| "run_error_text (ClientError e) = e"

section \<open>The targets of a request\<close>

definition hasClientTags :: "multi_job_request \<Rightarrow> bool" where
  "hasClientTags rq \<longleftrightarrow> rqClientTags rq \<noteq> None"

definition opt_list :: "'a list option \<Rightarrow> 'a list" where
  "opt_list xs = (case xs of None \<Rightarrow> [] | Some ys \<Rightarrow> ys)"

definition checkTargetingParams :: "multi_job_request \<Rightarrow> goerr option" where
  "checkTargetingParams rq =
     (if rqClientIDs rq = None \<and> rqGroupIDs rq = None \<and> rqClientTags rq = None
      then Some (APIError StatusBadRequest ''Missing targeting parameters.'' [AS ''please specify targeting options, such as client ids, groups ids or tags''])
      else if rqClientIDs rq \<noteq> None \<and> rqClientTags rq \<noteq> None \<or> rqGroupIDs rq \<noteq> None \<and> rqClientTags rq \<noteq> None
      then Some (APIError StatusBadRequest ''Multiple targeting parameters.'' [AS ''multiple targeting options are not supported. Please specify only one''])
      else case rqClientTags rq of
             None \<Rightarrow> None
           | Some t \<Rightarrow> if jtTags t = [] then Some (APIError StatusBadRequest ''No tags specified.'' [AS ''please specify tags in the tags list'']) else None)"

fun find_groups :: "cmd_env \<Rightarrow> cmd_state \<Rightarrow> string list \<Rightarrow> client_group list res" where
  "find_groups env st [] = Inr []"
| "find_groups env st (groupID # groupIDs) =
     (case Groups_Get (ceGroupErr env groupID) groupID (csGroups st) of
        Inl e \<Rightarrow> Inl (APIError StatusInternalServerError ''Failed to get a client group with id=%q.'' [AS groupID])
      | Inr None \<Rightarrow> Inl (APIError StatusBadRequest ''Unknown group with id=%q.'' [AS groupID])
      | Inr (Some grp) \<Rightarrow> bind_res (find_groups env st groupIDs) (\<lambda>gs. Inr (grp # gs)))"

definition makeGroupClientsList :: "cmd_env \<Rightarrow> cmd_state \<Rightarrow> string list \<Rightarrow> nat list res" where
  "makeGroupClientsList env st groupIDs =
     bind_res (find_groups env st groupIDs) (\<lambda>groups. Inr (GetByGroups (ceNow env) groups (csService st)))"

fun makeClientsList :: "cmd_env \<Rightarrow> cmd_state \<Rightarrow> string list \<Rightarrow> nat list res" where
  "makeClientsList env st [] = Inr []"
| "makeClientsList env st (cid # clientIDs) =
     (case Repo_GetByID (ceNow env) cid (csService st) of
        None \<Rightarrow> Inl (APIError StatusNotFound ''Client with id=%q not found.'' [AS cid])
      | Some client \<Rightarrow> bind_res (makeClientsList env st clientIDs) (\<lambda>cs. Inr (client # cs)))"

text \<open>The clients of groups that are not used yet, in order; \<open>used\<close> is the map \<^verbatim>\<open>usedClientIDs\<close>.\<close>

fun append_group_clients :: "cmd_state \<Rightarrow> string list \<Rightarrow> nat list \<Rightarrow> nat list" where
  "append_group_clients st used [] = []"
| "append_group_clients st used (groupClient # cs) =
     (let groupClientID = clID (client_at (csService st) groupClient)
      in if groupClientID \<notin> set used then groupClient # append_group_clients st (groupClientID # used) cs
         else append_group_clients st used cs)"

definition getOrderedClients :: "cmd_env \<Rightarrow> cmd_state \<Rightarrow> string list \<Rightarrow> string list \<Rightarrow> (nat list \<times> nat) res" where
  "getOrderedClients env st clientIDs groupIDs =
     bind_res (makeGroupClientsList env st groupIDs) (\<lambda>groupClients.
     bind_res (makeClientsList env st clientIDs) (\<lambda>orderedClients.
       Inr (orderedClients @ append_group_clients st clientIDs groupClients, length groupClients)))"

definition getOrderedClientsByTag :: "cmd_env \<Rightarrow> cmd_state \<Rightarrow> job_client_tags \<Rightarrow> nat list" where
  "getOrderedClientsByTag env st clientTags =
     GetClientsByTag (ceNow env) (jtTags clientTags) (jtOperator clientTags) True (csService st)"

definition validateNonClientsTagTargeting :: "multi_job_request \<Rightarrow> nat \<Rightarrow> nat list \<Rightarrow> goerr option" where
  "validateNonClientsTagTargeting rq groupClientsCount orderedClients =
     (if opt_list (rqGroupIDs rq) \<noteq> [] \<and> groupClientsCount = 0 \<and> opt_list (rqClientIDs rq) = []
      then Some (APIError StatusBadRequest ''no active clients belong to the selected group(s)'' [])
      else if length (opt_list (rqClientIDs rq)) < 1 \<and> groupClientsCount = 0
      then Some (APIError StatusBadRequest ''at least 1 client should be specified'' [])
      else if orderedClients = [] then Some (APIError StatusBadRequest ''at least 1 client should be specified'' [])
      else None)"

definition validateClientTagsTargeting :: "nat list \<Rightarrow> goerr option" where
  "validateClientTagsTargeting orderedClients =
     (if length orderedClients < 1 then Some (APIError StatusBadRequest ''at least 1 client should be specified'' []) else None)"

definition getOrderedClientsWithValidation :: "cmd_env \<Rightarrow> cmd_state \<Rightarrow> multi_job_request \<Rightarrow> (nat list \<times> nat) res" where
  "getOrderedClientsWithValidation env st rq =
     (case checkTargetingParams rq of
        Some e \<Rightarrow> Inl e
      | None \<Rightarrow>
          (case rqClientTags rq of
             None \<Rightarrow>
               bind_res (getOrderedClients env st (opt_list (rqClientIDs rq)) (opt_list (rqGroupIDs rq))) (\<lambda>(targetedClients, n).
                 case validateNonClientsTagTargeting rq n targetedClients of Some e \<Rightarrow> Inl e | None \<Rightarrow> Inr (targetedClients, n))
           | Some t \<Rightarrow>
               (let targetedClients = getOrderedClientsByTag env st t
                in case validateClientTagsTargeting targetedClients of Some e \<Rightarrow> Inl e | None \<Rightarrow> Inr (targetedClients, 0))))"

text \<open>For the targets of something stored long ago: what is gone is skipped.\<close>

fun existing_groups :: "cmd_env \<Rightarrow> cmd_state \<Rightarrow> string list \<Rightarrow> client_group list res" where
  "existing_groups env st [] = Inr []"
| "existing_groups env st (groupID # groupIDs) =
     (case Groups_Get (ceGroupErr env groupID) groupID (csGroups st) of
        Inl e \<Rightarrow> Inl (APIError StatusInternalServerError ''Failed to get a client group with id=%q.'' [AS groupID])
      | Inr None \<Rightarrow> existing_groups env st groupIDs
      | Inr (Some grp) \<Rightarrow> bind_res (existing_groups env st groupIDs) (\<lambda>gs. Inr (grp # gs)))"

fun existing_clients :: "cmd_env \<Rightarrow> cmd_state \<Rightarrow> string list \<Rightarrow> nat list \<times> string list" where
  "existing_clients env st [] = ([], [])"
| "existing_clients env st (cid # clientIDs) =
     (case existing_clients env st clientIDs of (cs, used) \<Rightarrow>
        (case Repo_GetByID (ceNow env) cid (csService st) of
           None \<Rightarrow> (cs, used)
         | Some client \<Rightarrow> (client # cs, cid # used)))"

definition getOrderedClientsIgnoringMissing :: "cmd_env \<Rightarrow> cmd_state \<Rightarrow> multi_job_request \<Rightarrow> nat list res" where
  "getOrderedClientsIgnoringMissing env st rq =
     (case rqClientTags rq of
        Some t \<Rightarrow> Inr (getOrderedClientsByTag env st t)
      | None \<Rightarrow>
          bind_res (existing_groups env st (opt_list (rqGroupIDs rq))) (\<lambda>groups.
            let groupClients = GetByGroups (ceNow env) groups (csService st);
                (orderedClients, used) = existing_clients env st (opt_list (rqClientIDs rq))
            in Inr (orderedClients @ append_group_clients st used groupClients)))"

section \<open>One job\<close>

definition maxAgentStartedAtSkew :: duration where "maxAgentStartedAtSkew = Minute"

definition plausibleAgentStartedAt :: "time \<Rightarrow> time \<Rightarrow> time \<Rightarrow> time \<times> bool" where
  "plausibleAgentStartedAt dispatchedAt now reportedAt =
     (if reportedAt < dispatchedAt - maxAgentStartedAtSkew \<or> now + maxAgentStartedAtSkew < reportedAt then (dispatchedAt, False)
      else (reportedAt, True))"

definition new_job :: "string \<Rightarrow> client \<Rightarrow> string \<Rightarrow> string \<Rightarrow> string \<Rightarrow> string \<Rightarrow> int \<Rightarrow> bool \<Rightarrow> bool \<Rightarrow> string option \<Rightarrow> time \<Rightarrow> bool \<Rightarrow> job" where
  "new_job jid client cmd interpreter createdBy cwd timeoutSec isSudo isScript multiJobID startedAt stream =
     \<lparr>jJID = jid, jStatus = '''', jFinishedAt = None, jClientID = clID client, jClientName = clName client, jCommand = cmd,
      jCwd = cwd, jInterpreter = interpreter, jPID = None, jStartedAt = startedAt, jCreatedBy = createdBy,
      jTimeoutSec = timeoutSec, jMultiJobID = multiJobID, jScheduleID = None, jError = '''', jResult = None,
      jIsSudo = isSudo, jIsScript = isScript, jStreamResult = stream\<rparr>"

definition record_sent :: "client \<Rightarrow> job \<Rightarrow> cmd_state \<Rightarrow> cmd_state" where
  "record_sent client j st = (if clConnection client = None then st else st\<lparr>csSent := csSent st @ [(clID client, j)]\<rparr>)"

text \<open>The first part of \<^verbatim>\<open>createAndRunJob\<close>: the job is sent, the answer completes it; a failure is shown in the UI.\<close>

definition dispatch :: "cmd_env \<Rightarrow> nat option \<Rightarrow> nat \<Rightarrow> job \<Rightarrow> cmd_state \<Rightarrow> (run_error option \<times> job) \<times> cmd_state" where
  "dispatch env ui a curJob st =
     (let client = client_at (csService st) a;
          r = (if \<not> clPaused client
               then (if clConnection client \<noteq> None
                     then SendRequestAndGetResponse (clConnection client) (ceReply env (clID client) curJob)
                     else Inl ErrClientNotConnected)
               else Inl (ConnError (GoError ''client is paused (reason = %s)'' [])));
          st1 = (if clPaused client then st else record_sent client curJob st)
      in case r of
           Inl err \<Rightarrow>
             (let failed = curJob\<lparr>jStatus := JobStatusFailed, jFinishedAt := Some (ceReplyAt env),
                                  jError := err_format (run_error_text err)\<rparr>
              in ((Some err, failed), case ui of None \<Rightarrow> st1 | Some s \<Rightarrow> set_socket s (WriteJSON (UiJob failed)) st1))
         | Inr (pid, startedAt) \<Rightarrow>
             ((None, curJob\<lparr>jPID := Some pid, jStatus := JobStatusRunning,
                            jStartedAt := fst (plausibleAgentStartedAt (jStartedAt curJob) (ceReplyAt env) startedAt)\<rparr>), st1))"

definition createAndRunJob :: "cmd_env \<Rightarrow> nat option \<Rightarrow> nat \<Rightarrow> job \<Rightarrow> cmd_state \<Rightarrow> run_error option \<times> cmd_state" where
  "createAndRunJob env ui a curJob st =
     (case dispatch env ui a curJob st of ((err, curJob1), st1) \<Rightarrow>
        if err \<noteq> None \<and> jMultiJobID curJob1 = None then (err, st1)
        else (err, st1\<lparr>csDb := snd (CreateJob (ceJobs env) curJob1 (csDb st1))\<rparr>))"

section \<open>Jobs on many clients\<close>

definition child_job :: "cmd_env \<Rightarrow> multi_job \<Rightarrow> bool \<Rightarrow> string \<Rightarrow> client \<Rightarrow> job" where
  "child_job env mj stream jid client =
     new_job jid client (mjCommand mj) (mjInterpreter mj) (mjCreatedBy mj) (mjCwd mj) (mjTimeoutSec mj) (mjIsSudo mj)
       (mjIsScript mj) (Some (mjJID mj)) (ceNow env) stream"

datatype run_end = RunDone | RunBlocked

text \<open>
  The loop over the clients of a sequential run. \<open>n\<close> counts the clients, for the generated ids; \<open>results\<close> are the results that
  arrive on the channel of the run, in order.
\<close>

fun run_sequential :: "cmd_env \<Rightarrow> nat option \<Rightarrow> multi_job \<Rightarrow> nat \<Rightarrow> nat list \<Rightarrow> job list \<Rightarrow> cmd_state \<Rightarrow> run_end \<times> cmd_state" where
  "run_sequential env ui mj n [] results st = (RunDone, st)"
| "run_sequential env ui mj n (a # as) results st =
     (case ceChildJobID env n of
        Inl e \<Rightarrow> (RunDone, case ui of None \<Rightarrow> st | Some s \<Rightarrow> set_socket s (WriteError ''Could not generate job id.'' (Some e)) st)
      | Inr curJID \<Rightarrow>
          (case createAndRunJob env ui a (child_job env mj (ui \<noteq> None) curJID (client_at (csService st) a)) st of
             (Some err, st1) \<Rightarrow>
               (if mjAbortOnErr mj \<and> err \<noteq> ErrClientNotConnected
                then (RunDone, case ui of None \<Rightarrow> st1 | Some s \<Rightarrow> set_socket s ws_Close st1)
                else run_sequential env ui mj (n + 1) as results st1)
           | (None, st1) \<Rightarrow>
               (if ceInsecure env then run_sequential env ui mj (n + 1) as results st1
                else case results of
                       [] \<Rightarrow> (RunBlocked, st1)
                     | jobResult # results1 \<Rightarrow>
                         if mjAbortOnErr mj \<and> jStatus jobResult = JobStatusFailed
                         then (RunDone, case ui of None \<Rightarrow> st1 | Some s \<Rightarrow> set_socket s ws_Close st1)
                         else run_sequential env ui mj (n + 1) as results1 st1)))"

fun run_concurrent :: "cmd_env \<Rightarrow> nat option \<Rightarrow> multi_job \<Rightarrow> nat \<Rightarrow> nat list \<Rightarrow> cmd_state \<Rightarrow> cmd_state" where
  "run_concurrent env ui mj n [] st = st"
| "run_concurrent env ui mj n (a # as) st =
     (case ceChildJobID env n of
        Inl e \<Rightarrow> (case ui of None \<Rightarrow> st | Some s \<Rightarrow> set_socket s (WriteError ''Could not generate job id.'' (Some e)) st)
      | Inr curJID \<Rightarrow>
          run_concurrent env ui mj (n + 1) as
            (snd (createAndRunJob env ui a (child_job env mj (ui \<noteq> None) curJID (client_at (csService st) a)) st)))"

definition executeMultiClientJob :: "cmd_env \<Rightarrow> multi_job \<Rightarrow> nat list \<Rightarrow> job list \<Rightarrow> cmd_state \<Rightarrow> run_end \<times> cmd_state" where
  "executeMultiClientJob env mj orderedClients results st =
     (if mjConcurrent mj then (RunDone, run_concurrent env None mj 0 orderedClients st)
      else case run_sequential env None mj 0 orderedClients results (st\<lparr>csDone := AList.update (mjJID mj) (length orderedClients) (csDone st)\<rparr>) of
             (RunDone, st1) \<Rightarrow> (RunDone, st1\<lparr>csDone := AList.delete (mjJID mj) (csDone st1)\<rparr>)
           | (RunBlocked, st1) \<Rightarrow> (RunBlocked, st1))"

definition executionPermission :: "bool \<Rightarrow> string" where
  "executionPermission isScript = (if isScript then ''scripts'' else ''commands'')"

definition checkExecutionPermission :: "cmd_env \<Rightarrow> cmd_state \<Rightarrow> user \<Rightarrow> bool \<Rightarrow> goerr option" where
  "checkExecutionPermission env st usr isScript =
     (if ceInsecure env \<or> \<not> SupportsGroupPermissions (asProvider (csUsers st)) then None
      else CheckPermission (ceUsers env) (csUsers st) usr (executionPermission isScript))"

definition clients_of :: "cmd_state \<Rightarrow> nat list \<Rightarrow> client list" where
  "clients_of st as = map (client_at (csService st)) as"

definition checkMultiJobAccess :: "cmd_env \<Rightarrow> cmd_state \<Rightarrow> multi_job_request \<Rightarrow> goerr option" where
  "checkMultiJobAccess env st rq =
     (if rqUsername rq = '''' then Some (APIError StatusForbidden ''cannot authorize the job: it names no user'' [])
      else case GetByUsername (ceUsers env) (asProvider (csUsers st)) (rqUsername rq) of
             Inl e \<Rightarrow> Some e
           | Inr None \<Rightarrow> Some (APIError StatusForbidden ''cannot authorize the job: user %q no longer exists'' [AS (rqUsername rq)])
           | Inr (Some usr) \<Rightarrow>
               (case checkExecutionPermission env st usr (rqIsScript rq) of
                  Some e \<Rightarrow> Some e
                | None \<Rightarrow>
                    (case Groups_GetAll (ceGroupsErr env) (csGroups st) of
                       Inl e \<Rightarrow> Some e
                     | Inr clientGroups \<Rightarrow> CheckClientsAccess (clients_of st (opt_list (rqOrderedClients rq))) usr clientGroups)))"

text \<open>The targets of a request whose ordered clients are not known yet; a schedule is such a request.\<close>

definition resolve_targets :: "cmd_env \<Rightarrow> cmd_state \<Rightarrow> multi_job_request \<Rightarrow> nat list res" where
  "resolve_targets env st rq =
     (case rqOrderedClients rq of
        Some cs \<Rightarrow> Inr cs
      | None \<Rightarrow>
          (case rqClientTags rq of
             None \<Rightarrow> bind_res (getOrderedClients env st (opt_list (rqClientIDs rq)) (opt_list (rqGroupIDs rq))) (\<lambda>(cs, _). Inr cs)
           | Some t \<Rightarrow> Inr (getOrderedClientsByTag env st t)))"

definition make_multi_job :: "cmd_env \<Rightarrow> string \<Rightarrow> string \<Rightarrow> string \<Rightarrow> string option \<Rightarrow> multi_job_request \<Rightarrow> multi_job" where
  "make_multi_job env jid createdBy command scheduleID rq =
     \<lparr>mjJID = jid, mjStartedAt = ceNow env, mjCreatedBy = createdBy, mjScheduleID = scheduleID,
      mjClientIDs = opt_list (rqClientIDs rq), mjGroupIDs = opt_list (rqGroupIDs rq), mjClientTags = rqClientTags rq,
      mjCommand = command, mjCwd = rqCwd rq, mjInterpreter = rqInterpreter rq, mjTimeoutSec = rqTimeoutSec rq,
      mjConcurrent = rqExecuteConcurrently rq,
      mjAbortOnErr = (case rqAbortOnError rq of None \<Rightarrow> True | Some b \<Rightarrow> b), mjJobs = [],
      mjIsSudo = rqIsSudo rq, mjIsScript = rqIsScript rq\<rparr>"

definition with_timeout :: "cmd_env \<Rightarrow> multi_job_request \<Rightarrow> multi_job_request" where
  "with_timeout env rq = (if rqTimeoutSec rq \<le> 0 then rq\<lparr>rqTimeoutSec := ceRunRemoteCmdTimeoutSec env\<rparr> else rq)"

text \<open>\<^verbatim>\<open>StartMultiClientJob\<close> up to the goroutine: the job and the clients that \<^verbatim>\<open>executeMultiClientJob\<close> is started with.\<close>

definition StartMultiClientJob :: "cmd_env \<Rightarrow> multi_job_request \<Rightarrow> cmd_state \<Rightarrow> (multi_job \<times> nat list) res \<times> cmd_state" where
  "StartMultiClientJob env rq0 st =
     (let rq1 = with_timeout env rq0
      in case ceNewJobID env of
           Inl e \<Rightarrow> (Inl e, st)
         | Inr jid \<Rightarrow>
             (case resolve_targets env st rq1 of
                Inl e \<Rightarrow> (Inl e, st)
              | Inr orderedClients \<Rightarrow>
                  if orderedClients = [] then (Inl (GoError ''no clients for execution'' []), st)
                  else let rq = rq1\<lparr>rqOrderedClients := Some orderedClients\<rparr>
                       in (case checkMultiJobAccess env st rq of
                             Some e \<Rightarrow> (Inl e, st)
                           | None \<Rightarrow>
                               (case (if rqIsScript rq then b64_decode (rqScript rq) else Inr (rqCommand rq)) of
                                  Inl e \<Rightarrow> (Inl e, st)
                                | Inr command \<Rightarrow>
                                    let mj = make_multi_job env jid (rqUsername rq) command (rqScheduleID rq) rq
                                    in (case SaveMultiJob (ceSaveMultiErr env) mj (csDb st) of
                                          (Some e, _) \<Rightarrow> (Inl e, st)
                                        | (None, db) \<Rightarrow> (Inr (mj, orderedClients), st\<lparr>csDb := db\<rparr>))))))"

section \<open>Running over a web socket\<close>

datatype ws_end = WsReturned | WsWaiting | WsBlocked | WsPanic

text \<open>
  \<^verbatim>\<open>handleCommandsExecutionWS\<close> on the socket \<open>s\<close>. \<open>WsWaiting\<close>: all is started and the handler waits for the UI to close the
  socket, with the job still registered. The branch for a single client indexes an empty list.
\<close>

definition finish_ws :: "string \<Rightarrow> string option \<Rightarrow> cmd_state \<Rightarrow> cmd_state" where
  "finish_ws jid done st =
     st\<lparr>csUi := AList.delete jid (csUi st),
        csDone := (case done of None \<Rightarrow> csDone st | Some m \<Rightarrow> AList.delete m (csDone st))\<rparr>"

definition handleCommandsExecutionWS :: "cmd_env \<Rightarrow> nat \<Rightarrow> multi_job_request \<Rightarrow> job list \<Rightarrow> cmd_state \<Rightarrow> ws_end \<times> cmd_state" where
  "handleCommandsExecutionWS env s rq0 results st =
     (if rqCommand rq0 = '''' then (WsReturned, set_socket s (WriteError ''Command cannot be empty.'' None) st)
      else case ValidateInterpreter (rqInterpreter rq0) (rqIsScript rq0) of
        Some e \<Rightarrow> (WsReturned, set_socket s (WriteError ''Invalid interpreter'' (Some e)) st)
      | None \<Rightarrow>
      let rq = with_timeout env rq0
      in case ceUser env of
        Inl e \<Rightarrow> (WsReturned, set_socket s (WriteError ''Could not get current user.'' (Some e)) st)
      | Inr curUser \<Rightarrow>
      let (clientGroups, st1) =
            (case Groups_GetAll (ceGroupsErr env) (csGroups st) of
               Inl e \<Rightarrow> ([], set_socket s (WriteError ''Could not get client groups'' (Some e)) st)
             | Inr gs \<Rightarrow> (gs, st));
          ordered = opt_list (rqOrderedClients rq)
      in case CheckClientsAccess (clients_of st1 ordered) curUser clientGroups of
        Some e \<Rightarrow> (WsReturned, set_socket s (WriteError (err_format e) None) st1)
      | None \<Rightarrow>
      (case ceNewJobID env of
        Inl e \<Rightarrow> (WsReturned, set_socket s (WriteError ''Could not generate job id.'' (Some e)) st1)
      | Inr jid \<Rightarrow>
          let st2 = st1\<lparr>csUi := AList.update jid s (csUi st1)\<rparr>
          in if ordered = [] then (WsPanic, finish_ws jid None st2)
             else let mj = make_multi_job env jid (uUsername curUser) (rqCommand rq) None rq
                  in (case SaveMultiJob (ceSaveMultiErr env) mj (csDb st2) of
                        (Some e, _) \<Rightarrow>
                          (WsReturned, finish_ws jid None
                             (set_socket s (WriteError ''Failed to persist a new multi-client job.'' (Some e)) st2))
                      | (None, db) \<Rightarrow>
                          let st3 = set_socket s (SetWritesBeforeClose (int (length ordered))) (st2\<lparr>csDb := db\<rparr>)
                          in if mjConcurrent mj then (WsWaiting, run_concurrent env (Some s) mj 0 ordered st3)
                             else (case run_sequential env (Some s) mj 0 ordered results
                                          (st3\<lparr>csDone := AList.update jid (length ordered) (csDone st3)\<rparr>) of
                                     (RunBlocked, st4) \<Rightarrow> (WsBlocked, st4)
                                   | (RunDone, st4) \<Rightarrow> (WsWaiting, st4)))))"

definition ws_request :: "cmd_env \<Rightarrow> nat \<Rightarrow> (bool + multi_job_request) \<Rightarrow> cmd_state \<Rightarrow> (multi_job_request option) \<times> cmd_state" where
  "ws_request env s msg st =
     (case msg of
        Inl eof \<Rightarrow>
          (None, set_socket s (if eof then WriteError ''Inbound message should contain non empty json object with command data.'' None
                               else WriteError ''Invalid JSON data.'' (Some (GoError ''%v'' []))) st)
      | Inr inboundMsg \<Rightarrow>
          (case getOrderedClientsWithValidation env st inboundMsg of
             Inl e \<Rightarrow> (None, set_socket s (WriteError '''' (Some e)) st)
           | Inr (orderedClients, _) \<Rightarrow> (Some (inboundMsg\<lparr>rqOrderedClients := Some orderedClients\<rparr>), st)))"

definition handleCommandsWS :: "cmd_env \<Rightarrow> nat \<Rightarrow> (bool + multi_job_request) \<Rightarrow> job list \<Rightarrow> cmd_state \<Rightarrow> ws_end \<times> cmd_state" where
  "handleCommandsWS env s msg results st =
     (case ws_request env s msg st of
        (None, st1) \<Rightarrow> (WsReturned, st1)
      | (Some rq, st1) \<Rightarrow> handleCommandsExecutionWS env s (rq\<lparr>rqIsScript := False\<rparr>) results st1)"

definition enrichScriptInput :: "cmd_env \<Rightarrow> multi_job_request \<Rightarrow> multi_job_request res" where
  "enrichScriptInput env rq =
     (if rqScript rq = '''' then Inl (APIError StatusBadRequest ''Missing script body'' [])
      else let rq1 = with_timeout env rq
           in (case b64_decode (rqScript rq1) of
                 Inl e \<Rightarrow> Inl (APIError StatusBadRequest ''failed to decode script payload from base64'' [AS (err_format e)])
               | Inr script \<Rightarrow> Inr (rq1\<lparr>rqCommand := script, rqIsScript := True\<rparr>)))"

definition handleScriptsWS :: "cmd_env \<Rightarrow> nat \<Rightarrow> (bool + multi_job_request) \<Rightarrow> job list \<Rightarrow> cmd_state \<Rightarrow> ws_end \<times> cmd_state" where
  "handleScriptsWS env s msg results st =
     (case ws_request env s msg st of
        (None, st1) \<Rightarrow> (WsReturned, st1)
      | (Some rq, st1) \<Rightarrow>
          (case enrichScriptInput env rq of
             Inl e \<Rightarrow> (WsReturned, set_socket s (WriteError ''Failed to create script on multiple clients'' (Some e)) st1)
           | Inr rq1 \<Rightarrow> handleCommandsExecutionWS env s rq1 results st1))"

section \<open>Handlers\<close>

text \<open>A field of a job in a listing is present when it was requested; a time is its instant.\<close>

definition opt_json :: "('a \<Rightarrow> json) \<Rightarrow> 'a option \<Rightarrow> json" where
  "opt_json f x = (case x of None \<Rightarrow> JNull | Some y \<Rightarrow> f y)"

definition job_fields :: "job \<Rightarrow> (string \<times> json) list" where
  "job_fields j = [(''jid'', JStr (jJID j)), (''status'', JStr (jStatus j)), (''finished_at'', opt_json JNum (jFinishedAt j)),
     (''client_id'', JStr (jClientID j)), (''client_name'', JStr (jClientName j)), (''command'', JStr (jCommand j)),
     (''cwd'', JStr (jCwd j)), (''interpreter'', JStr (jInterpreter j)), (''pid'', opt_json JNum (jPID j)),
     (''started_at'', JNum (jStartedAt j)), (''created_by'', JStr (jCreatedBy j)), (''timeout_sec'', JNum (jTimeoutSec j)),
     (''multi_job_id'', opt_json JStr (jMultiJobID j)), (''schedule_id'', opt_json JStr (jScheduleID j)),
     (''error'', JStr (jError j)), (''is_sudo'', JBool (jIsSudo j)), (''is_script'', JBool (jIsScript j))]"

definition result_fields :: "job_result \<Rightarrow> (string \<times> json) list" where
  "result_fields r = [(''stdout'', JStr (jrStdOut r)), (''stderr'', JStr (jrStdErr r)), (''summary'', JStr (jrSummary r))]"

definition requested :: "string list \<Rightarrow> (string \<times> json) list \<Rightarrow> (string \<times> json) list" where
  "requested names fs = filter (\<lambda>(name, _). name \<in> set names) fs"

definition convertToJobsPayload :: "job list \<Rightarrow> fields_option list \<Rightarrow> json list" where
  "convertToJobsPayload jobs fos =
     (let requestedFields =
            (if RequestedFields fos ''jobs'' \<noteq> [] then RequestedFields fos ''jobs''
             else if RequestedFields fos ''commands'' \<noteq> [] then RequestedFields fos ''commands''
             else RequestedFields fos ''scripts'');
          requestedResultFields = RequestedFields fos ''result''
      in map (\<lambda>j. JObj (requested requestedFields (job_fields j) @
           (if requestedResultFields = [] then []
            else [(''result'', opt_json (\<lambda>r. JObj (requested requestedResultFields (result_fields r))) (jResult j))]))) jobs)"

datatype cmd_payload =
    NewJobResponse string
  | JobsPayload "json list" int
  | JobPayload job
  | MultiJobPayload multi_job
  | SummariesPayload "multi_job_summary list" int

definition handleExecuteCommand :: "cmd_env \<Rightarrow> execute_input \<Rightarrow> cmd_state \<Rightarrow> cmd_payload response \<times> cmd_state" where
  "handleExecuteCommand env ei st =
     (if eiCommand ei = '''' then (jsonErrorResponseWithTitle StatusBadRequest ''Command cannot be empty.'', st)
      else case ValidateInterpreter (eiInterpreter ei) (eiIsScript ei) of
        Some e \<Rightarrow> (jsonErrorResponseWithError StatusBadRequest ''Invalid interpreter.'' e, st)
      | None \<Rightarrow>
      let timeoutSec = (if eiTimeoutSec ei \<le> 0 then ceRunRemoteCmdTimeoutSec env else eiTimeoutSec ei)
      in case Repo_GetActiveByID (eiClientID ei) (csService st) of
        None \<Rightarrow> (jsonErrorResponseWithTitle StatusNotFound ''Active client with id=%q not found.'', st)
      | Some a \<Rightarrow>
      let client = client_at (csService st) a
      in if clPaused client
         then (jsonErrorResponseWithTitle StatusNotFound ''failed to execute command/script for client with id %s due to client being paused (reason = %s)'', st)
         else case ceNewJobID env of
        Inl e \<Rightarrow> (jsonError e, st)
      | Inr jid \<Rightarrow>
      let curJob = (new_job jid client (eiCommand ei) (eiInterpreter ei) (ceUserName env) (eiCwd ei) timeoutSec (eiIsSudo ei)
                      (eiIsScript ei) None 0 False)\<lparr>jClientID := eiClientID ei\<rparr>;
          st1 = record_sent client curJob st
      in case SendRequestAndGetResponse (clConnection client) (ceReply env (clID client) curJob) of
        Inl (ClientError e) \<Rightarrow> (jsonErrorResponseWithTitle StatusConflict (err_format e), st1)
      | Inl e \<Rightarrow> (jsonErrorResponseWithError StatusInternalServerError ''Failed to execute remote command.'' (run_error_text e), st1)
      | Inr (pid, startedAt) \<Rightarrow>
      let curJob1 = curJob\<lparr>jPID := Some pid, jStartedAt := fst (plausibleAgentStartedAt (ceNow env) (ceReplyAt env) startedAt),
                           jStatus := JobStatusRunning\<rparr>
      in (case CreateJob (ceJobs env) curJob1 (csDb st1) of
        (Some e, db) \<Rightarrow> (jsonErrorResponseWithError StatusInternalServerError ''Failed to persist a new job.'' e, st1\<lparr>csDb := db\<rparr>)
      | (None, db) \<Rightarrow> (writeJSONResponse StatusOK (NewJobResponse jid), st1\<lparr>csDb := db\<rparr>)))"

definition handlePostCommand :: "cmd_env \<Rightarrow> string \<Rightarrow> execute_input res \<Rightarrow> cmd_state \<Rightarrow> cmd_payload response \<times> cmd_state" where
  "handlePostCommand env cid body st =
     (if cid = '''' then (jsonErrorResponseWithTitle StatusBadRequest ''Missing %q client id route param.'', st)
      else case body of
             Inl e \<Rightarrow> (jsonError e, st)
           | Inr ei \<Rightarrow> handleExecuteCommand env (ei\<lparr>eiClientID := cid, eiIsScript := False\<rparr>) st)"

definition handleExecuteScript :: "cmd_env \<Rightarrow> string \<Rightarrow> execute_input res \<Rightarrow> cmd_state \<Rightarrow> cmd_payload response \<times> cmd_state" where
  "handleExecuteScript env cid body st =
     (if cid = '''' then (jsonErrorResponseWithTitle StatusBadRequest ''Missing %q client id route param.'', st)
      else case body of
             Inl e \<Rightarrow> (jsonError e, st)
           | Inr ei \<Rightarrow>
               if eiScript ei = '''' then (jsonErrorResponseWithTitle StatusBadRequest ''Missing script body'', st)
               else (case b64_decode (eiScript ei) of
                       Inl e \<Rightarrow> (jsonErrorResponse StatusBadRequest e, st)
                     | Inr script \<Rightarrow> handleExecuteCommand env (ei\<lparr>eiCommand := script, eiClientID := cid, eiIsScript := True\<rparr>) st))"

definition eq_filter :: "string \<Rightarrow> string \<Rightarrow> filter_option" where
  "eq_filter col val = \<lparr>foColumn = [col], foOperator = '''', foValues = [val], foLogical = '''', foCompareFunc = ''''\<rparr>"

definition JobSupportedFilters :: supported where
  "JobSupportedFilters = map (\<lambda>s. (s, True)) [''jid'', ''started_at[gt]'', ''started_at[lt]'', ''started_at[since]'', ''started_at[until]'',
     ''finished_at[gt]'', ''finished_at[lt]'', ''finished_at[since]'', ''finished_at[until]'', ''status'', ''created_by'',
     ''multi_job_id'', ''schedule_id'', ''client_id'']"

definition JobSupportedSorts :: supported where
  "JobSupportedSorts = map (\<lambda>s. (s, True)) [''jid'', ''started_at'', ''finished_at'', ''status'', ''multi_job_id'', ''schedule_id'', ''created_by'']"

definition jobFields :: supported where
  "jobFields = map (\<lambda>s. (s, True)) [''jid'', ''status'', ''finished_at'', ''client_id'', ''client_name'', ''command'', ''cwd'', ''interpreter'', ''pid'',
     ''started_at'', ''created_by'', ''timeout_sec'', ''multi_job_id'', ''schedule_id'', ''error'', ''is_sudo'', ''is_script'']"

definition JobSupportedFields :: "(string \<times> supported) list" where
  "JobSupportedFields = [(''jobs'', jobFields), (''commands'', jobFields), (''scripts'', jobFields),
     (''result'', [(''stdout'', True), (''stderr'', True), (''summary'', True)])]"

definition JobListDefaultFields :: url_values where
  "JobListDefaultFields = [(''fields[jobs]'', [''jid'', ''status'', ''finished_at'']), (''fields[result]'', [''summary''])]"

definition job_list_options :: "url_values \<Rightarrow> goerr list \<times> list_options" where
  "job_list_options q =
     ValidateListOptions (NewOptions q [] [] JobListDefaultFields) JobSupportedSorts JobSupportedFilters (Some JobSupportedFields)
       (Some \<lparr>pcMaxLimit = MaxLimit, pcDefaultLimit = DefaultLimit\<rparr>)"

definition list_jobs :: "cmd_env \<Rightarrow> string \<Rightarrow> list_options \<Rightarrow> cmd_state \<Rightarrow> cmd_payload response" where
  "list_jobs env title options st =
     (case Jobs_List (ceJobs env) options (csDb st) of
        Inl e \<Rightarrow> jsonErrorResponseWithError StatusInternalServerError title e
      | Inr result \<Rightarrow>
          (case Jobs_Count (ceJobs env) options (csDb st) of
             Inl e \<Rightarrow> jsonErrorResponseWithError StatusInternalServerError title e
           | Inr totalCount \<Rightarrow> writeJSONResponse StatusOK (JobsPayload (convertToJobsPayload result (loFields options)) totalCount)))"

definition handleGetCommands :: "cmd_env \<Rightarrow> string \<Rightarrow> url_values \<Rightarrow> cmd_state \<Rightarrow> cmd_payload response" where
  "handleGetCommands env cid q st =
     (if cid = '''' then jsonErrorResponseWithTitle StatusBadRequest ''Missing %q route param.''
      else case job_list_options q of
             (e # es, _) \<Rightarrow> jsonErrors (e # es)
           | ([], options) \<Rightarrow>
               list_jobs env ''Failed to get client jobs: client_id=%q.''
                 (options\<lparr>loFilters := loFilters options @ [eq_filter ''client_id'' cid]\<rparr>) st)"

definition owned_multi_job :: "cmd_env \<Rightarrow> string \<Rightarrow> cmd_state \<Rightarrow> multi_job + cmd_payload response" where
  "owned_multi_job env jid st =
     (case GetMultiJob (ceJobs env) jid (csDb st) of
        Inl e \<Rightarrow> Inr (jsonErrorResponseWithError StatusInternalServerError ''Failed to find a multi-client job[id=%q].'' e)
      | Inr None \<Rightarrow> Inr (jsonErrorResponseWithTitle StatusNotFound ''Multi-client Job[id=%q] not found.'')
      | Inr (Some mj) \<Rightarrow>
          (case ceUser env of
             Inl e \<Rightarrow> Inr (jsonError e)
           | Inr curUser \<Rightarrow>
               if IsAdmin curUser \<or> mjCreatedBy mj = uUsername curUser then Inl mj
               else Inr (jsonErrorResponseWithError StatusForbidden ''forbidden''
                           (GoError ''you are not allowed to access items created by another user'' []))))"

definition handleGetMultiClientCommandJobs :: "cmd_env \<Rightarrow> string \<Rightarrow> url_values \<Rightarrow> cmd_state \<Rightarrow> cmd_payload response" where
  "handleGetMultiClientCommandJobs env multiJobID q st =
     (if multiJobID = '''' then jsonErrorResponseWithTitle StatusBadRequest ''Missing %q route param.''
      else case job_list_options q of
             (e # es, _) \<Rightarrow> jsonErrors (e # es)
           | ([], options) \<Rightarrow>
               (case owned_multi_job env multiJobID st of
                  Inr resp \<Rightarrow> resp
                | Inl _ \<Rightarrow>
                    list_jobs env ''Failed to get jobs: multi_job_id=%q.''
                      (options\<lparr>loFilters := loFilters options @ [eq_filter ''multi_job_id'' multiJobID]\<rparr>) st))"

definition handleGetMultiClientCommand :: "cmd_env \<Rightarrow> string \<Rightarrow> cmd_state \<Rightarrow> cmd_payload response" where
  "handleGetMultiClientCommand env jid st =
     (if jid = '''' then jsonErrorResponseWithTitle StatusBadRequest ''Missing %q route param.''
      else case owned_multi_job env jid st of
             Inr resp \<Rightarrow> resp
           | Inl mj \<Rightarrow> writeJSONResponse StatusOK (MultiJobPayload mj))"

definition handleGetCommand :: "cmd_env \<Rightarrow> string \<Rightarrow> string \<Rightarrow> cmd_state \<Rightarrow> cmd_payload response" where
  "handleGetCommand env cid jid st =
     (if cid = '''' then jsonErrorResponseWithTitle StatusBadRequest ''Missing %q route param.''
      else if jid = '''' then jsonErrorResponseWithTitle StatusBadRequest ''Missing %q route param.''
      else case GetByJID (ceJobs env) cid jid (csDb st) of
             Inl e \<Rightarrow> jsonErrorResponseWithError StatusInternalServerError ''Failed to find a job[id=%q].'' e
           | Inr None \<Rightarrow> jsonErrorResponseWithTitle StatusNotFound ''Job[id=%q] not found.''
           | Inr (Some j) \<Rightarrow> writeJSONResponse StatusOK (JobPayload j))"

definition MultiJobSupportedFilters :: supported where
  "MultiJobSupportedFilters = map (\<lambda>s. (s, True)) [''jid'', ''started_at[gt]'', ''started_at[lt]'', ''started_at[since]'',
     ''started_at[until]'', ''created_by'', ''schedule_id'']"

definition MultiJobSupportedSorts :: supported where
  "MultiJobSupportedSorts = map (\<lambda>s. (s, True)) [''jid'', ''started_at'', ''created_by'', ''schedule_id'']"

definition handleGetMultiClientCommands :: "cmd_env \<Rightarrow> url_values \<Rightarrow> cmd_state \<Rightarrow> cmd_payload response" where
  "handleGetMultiClientCommands env q st =
     (case ValidateListOptions (GetListOptions q) MultiJobSupportedSorts MultiJobSupportedFilters None
             (Some \<lparr>pcMaxLimit = 1000, pcDefaultLimit = 100\<rparr>) of
        (e # es, _) \<Rightarrow> jsonErrors (e # es)
      | ([], options) \<Rightarrow>
          (case ceUser env of
             Inl e \<Rightarrow> jsonError e
           | Inr curUser \<Rightarrow>
               let options1 = (if \<not> IsAdmin curUser
                               then options\<lparr>loFilters := loFilters options @ [eq_filter ''created_by'' (uUsername curUser)]\<rparr>
                               else options)
               in (case GetMultiJobSummaries (ceJobs env) options1 (csDb st) of
                     Inl e \<Rightarrow> jsonErrorResponseWithError StatusInternalServerError ''Failed to get multi-client jobs.'' e
                   | Inr result \<Rightarrow>
                       (case CountMultiJobs (ceJobs env) options1 (csDb st) of
                          Inl e \<Rightarrow> jsonErrorResponseWithError StatusInternalServerError ''Failed to count multi-client jobs.'' e
                        | Inr totalCount \<Rightarrow> writeJSONResponse StatusOK (SummariesPayload result totalCount)))))"

text \<open>
  What the handlers for many clients return: the answer, and the run that was started. \<open>strict\<close>: the handler for commands returns
  when the client groups cannot be read, the one for scripts answers with the error and goes on.
\<close>

definition start_for_user :: "cmd_env \<Rightarrow> bool \<Rightarrow> multi_job_request \<Rightarrow> cmd_state \<Rightarrow>
    (cmd_payload response \<times> (multi_job \<times> nat list) option) \<times> cmd_state" where
  "start_for_user env strict rq st =
     (case ceUser env of
        Inl e \<Rightarrow> ((jsonError e, None), st)
      | Inr curUser \<Rightarrow>
          (case Groups_GetAll (ceGroupsErr env) (csGroups st) of
             Inl e \<Rightarrow>
               if strict then ((jsonError e, None), st)
               else (case CheckClientsAccess (clients_of st (opt_list (rqOrderedClients rq))) curUser [] of
                       Some _ \<Rightarrow> ((jsonError e, None), st)
                     | None \<Rightarrow>
                         (case StartMultiClientJob env (rq\<lparr>rqUsername := uUsername curUser\<rparr>) st of
                            (Inl _, st1) \<Rightarrow> ((jsonError e, None), st1)
                          | (Inr mjrun, st1) \<Rightarrow> ((jsonError e, Some mjrun), st1)))
           | Inr clientGroups \<Rightarrow>
               (case CheckClientsAccess (clients_of st (opt_list (rqOrderedClients rq))) curUser clientGroups of
                  Some e \<Rightarrow> ((jsonError e, None), st)
                | None \<Rightarrow>
                    (case StartMultiClientJob env (rq\<lparr>rqUsername := uUsername curUser\<rparr>) st of
                       (Inl e, st1) \<Rightarrow> ((jsonError e, None), st1)
                     | (Inr mjrun, st1) \<Rightarrow> ((writeJSONResponse StatusOK (NewJobResponse (mjJID (fst mjrun))), Some mjrun), st1)))))"

definition handlePostMultiClientCommand :: "cmd_env \<Rightarrow> multi_job_request res \<Rightarrow> cmd_state \<Rightarrow>
    (cmd_payload response \<times> (multi_job \<times> nat list) option) \<times> cmd_state" where
  "handlePostMultiClientCommand env body st =
     (case body of
        Inl e \<Rightarrow> ((jsonError e, None), st)
      | Inr rq \<Rightarrow>
          if rqCommand rq = '''' then ((jsonErrorResponseWithTitle StatusBadRequest ''Command cannot be empty.'', None), st)
          else (case ValidateInterpreter (rqInterpreter rq) (rqIsScript rq) of
                  Some e \<Rightarrow> ((jsonErrorResponseWithError StatusBadRequest ''Invalid interpreter.'' e, None), st)
                | None \<Rightarrow>
                    (case getOrderedClientsWithValidation env st rq of
                       Inl e \<Rightarrow> ((jsonError e, None), st)
                     | Inr (orderedClients, _) \<Rightarrow> start_for_user env True (rq\<lparr>rqOrderedClients := Some orderedClients\<rparr>) st)))"

definition handlePostMultiClientScript :: "cmd_env \<Rightarrow> multi_job_request res \<Rightarrow> cmd_state \<Rightarrow>
    (cmd_payload response \<times> (multi_job \<times> nat list) option) \<times> cmd_state" where
  "handlePostMultiClientScript env body st =
     (case body of
        Inl e \<Rightarrow> ((jsonError e, None), st)
      | Inr rq \<Rightarrow>
          (case getOrderedClientsWithValidation env st rq of
             Inl e \<Rightarrow> ((jsonError e, None), st)
           | Inr (orderedClients, _) \<Rightarrow>
               (case enrichScriptInput env (rq\<lparr>rqOrderedClients := Some orderedClients\<rparr>) of
                  Inl e \<Rightarrow> ((jsonError e, None), st)
                | Inr rq1 \<Rightarrow> start_for_user env False rq1 st)))"

section \<open>What a run sends\<close>

definition sends :: "cmd_state \<Rightarrow> nat \<Rightarrow> job \<Rightarrow> (string \<times> job) list" where
  "sends st a j =
     (let client = client_at (csService st) a
      in if clPaused client \<or> clConnection client = None then [] else [(clID client, j)])"

lemma set_socket_frame [simp]:
  "csService (set_socket s f st) = csService st" "csSent (set_socket s f st) = csSent st" "csDb (set_socket s f st) = csDb st"
  "csDone (set_socket s f st) = csDone st" "csGroups (set_socket s f st) = csGroups st" "csUsers (set_socket s f st) = csUsers st"
  by (simp_all add: set_socket_def)

lemma record_sent_frame [simp]:
  "csService (record_sent c j st) = csService st" "csDb (record_sent c j st) = csDb st"
  "csGroups (record_sent c j st) = csGroups st" "csUsers (record_sent c j st) = csUsers st"
  by (simp_all add: record_sent_def)

lemma dispatch_frame:
  "csService (snd (dispatch env ui a j st)) = csService st"
  "csSent (snd (dispatch env ui a j st)) = csSent st @ sends st a j"
  "csDb (snd (dispatch env ui a j st)) = csDb st"
  by (auto simp: dispatch_def Let_def sends_def record_sent_def split: sum.splits option.splits)

lemma createAndRunJob_frame:
  assumes "createAndRunJob env ui a j st = (err, st')"
  shows "csService st' = csService st" "csSent st' = csSent st @ sends st a j" "err = fst (fst (dispatch env ui a j st))"
  using assms dispatch_frame [of env ui a j st]
  by (auto simp: createAndRunJob_def split: prod.splits if_splits)

lemma dispatch_started:
  "fst (fst (dispatch env ui a j st)) = None \<longleftrightarrow>
     (\<exists>pid at. sends st a j = [(clID (client_at (csService st) a), j)] \<and> ceReply env (clID (client_at (csService st) a)) j = Started pid at)"
  by (auto simp: dispatch_def Let_def sends_def SendRequestAndGetResponse_def split: sum.splits option.splits run_reply.splits if_splits)

definition of_run :: "cmd_state \<Rightarrow> multi_job \<Rightarrow> nat list \<Rightarrow> string \<times> job \<Rightarrow> bool" where
  "of_run st mj as x \<longleftrightarrow> (case x of (cid, j) \<Rightarrow>
     (\<exists>a \<in> set as. cid = clID (client_at (csService st) a) \<and> jClientID j = cid) \<and>
     jCommand j = mjCommand mj \<and> jCreatedBy j = mjCreatedBy mj \<and> jMultiJobID j = Some (mjJID mj))"

lemma sends_child:
  "x \<in> set (sends st a (child_job env mj stream jid (client_at (csService st) a))) \<Longrightarrow> of_run st mj (a # as) x"
  by (auto simp: sends_def Let_def of_run_def child_job_def new_job_def split: if_splits)

lemma of_run_mono: "of_run st mj as x \<Longrightarrow> csService st' = csService st \<Longrightarrow> of_run st' mj (a # as) x"
  by (auto simp: of_run_def)

lemma run_sequential_cases:
  assumes "run_sequential env ui mj n (a # as) results st = (e, st')"
  obtains (no_id) "csService st' = csService st" "csSent st' = csSent st" "csDone st' = csDone st" "e = RunDone"
  | (stopped) jid j err st1 where "j = child_job env mj (ui \<noteq> None) jid (client_at (csService st) a)"
      "createAndRunJob env ui a j st = (err, st1)" "csService st' = csService st1" "csSent st' = csSent st1" "csDone st' = csDone st1"
      "err \<noteq> None \<and> e = RunDone \<or> err = None \<and> \<not> ceInsecure env \<and>
         (results = [] \<and> e = RunBlocked \<or> (\<exists>r rs. results = r # rs \<and> mjAbortOnErr mj \<and> jStatus r = JobStatusFailed \<and> e = RunDone))"
  | (goes_on) jid j err st1 results1 where "j = child_job env mj (ui \<noteq> None) jid (client_at (csService st) a)"
      "createAndRunJob env ui a j st = (err, st1)" "run_sequential env ui mj (n + 1) as results1 st1 = (e, st')"
      "err \<noteq> None \<and> results1 = results \<or> err = None \<and>
         (ceInsecure env \<and> results1 = results \<or> (\<exists>r. results = r # results1 \<and> \<not> (mjAbortOnErr mj \<and> jStatus r = JobStatusFailed)))"
proof (cases "ceChildJobID env n")
  case (Inl er)
  with assms show thesis by (intro no_id) (auto split: option.splits)
next
  case (Inr jid)
  define j where "j = child_job env mj (ui \<noteq> None) jid (client_at (csService st) a)"
  obtain err st1 where c: "createAndRunJob env ui a j st = (err, st1)" by (cases "createAndRunJob env ui a j st")
  note run = assms [unfolded run_sequential.simps Inr sum.case, folded j_def, unfolded c prod.case]
  show thesis
  proof (cases err)
    case (Some er)
    with run show thesis by (cases "mjAbortOnErr mj \<and> er \<noteq> ErrClientNotConnected")
      (auto intro: stopped [OF j_def c] goes_on [OF j_def c] split: option.splits)
  next
    case None
    then consider "ceInsecure env" | "\<not> ceInsecure env" "results = []"
      | r rs where "\<not> ceInsecure env" "results = r # rs" by (cases results) auto
    then show thesis
    proof cases
      case 1
      with run None show thesis by (intro goes_on [OF j_def c]) auto
    next
      case 2
      with run None show thesis by (intro stopped [OF j_def c]) auto
    next
      case 3
      with run None show thesis by (cases "mjAbortOnErr mj \<and> jStatus r = JobStatusFailed")
        (auto intro: stopped [OF j_def c] goes_on [OF j_def c] split: option.splits)
    qed
  qed
qed

lemma run_sequential_sends:
  assumes "run_sequential env ui mj n as results st = (e, st')"
  shows "csService st' = csService st \<and> (\<exists>new. csSent st' = csSent st @ new \<and> (\<forall>x \<in> set new. of_run st mj as x))"
  using assms
proof (induction as arbitrary: n results st)
  case (Cons a as)
  from Cons.prems show ?case
  proof (cases rule: run_sequential_cases)
    case (stopped jid j err st1)
    with createAndRunJob_frame [OF stopped(2)] sends_child show ?thesis by auto
  next
    case (goes_on jid j err st1 results1)
    note fr = createAndRunJob_frame [OF goes_on(2)]
    from Cons.IH [OF goes_on(3)] obtain new where
      new: "csService st' = csService st1" "csSent st' = csSent st1 @ new" "\<forall>x \<in> set new. of_run st1 mj as x" by blast
    with fr goes_on(1) sends_child of_run_mono [OF _ fr(1) [symmetric]] show ?thesis
      by (intro conjI exI [of _ "sends st a j @ new"]) auto
  qed simp
qed simp

lemma run_concurrent_sends:
  "csService (run_concurrent env ui mj n as st) = csService st \<and>
   (\<exists>new. csSent (run_concurrent env ui mj n as st) = csSent st @ new \<and> (\<forall>x \<in> set new. of_run st mj as x))"
proof (induction as arbitrary: n st)
  case (Cons a as)
  show ?case
  proof (cases "ceChildJobID env n")
    case (Inr jid)
    define j where "j = child_job env mj (ui \<noteq> None) jid (client_at (csService st) a)"
    obtain err st1 where c: "createAndRunJob env ui a j st = (err, st1)" by (cases "createAndRunJob env ui a j st")
    note fr = createAndRunJob_frame [OF c]
    have eq: "run_concurrent env ui mj n (a # as) st = run_concurrent env ui mj (n + 1) as st1" using Inr c by (simp add: j_def)
    from Cons.IH [of "n + 1" st1] obtain new where
      new: "csService (run_concurrent env ui mj (n + 1) as st1) = csService st1"
        "csSent (run_concurrent env ui mj (n + 1) as st1) = csSent st1 @ new" "\<forall>x \<in> set new. of_run st1 mj as x" by blast
    with fr j_def sends_child of_run_mono [OF _ fr(1) [symmetric]] show ?thesis unfolding eq
      by (intro conjI exI [of _ "sends st a j @ new"]) auto
  qed (auto split: option.splits)
qed simp

lemma executeMultiClientJob_sends:
  assumes "executeMultiClientJob env mj as results st = (e, st')"
  shows "csService st' = csService st \<and> (\<exists>new. csSent st' = csSent st @ new \<and> (\<forall>x \<in> set new. of_run st mj as x))"
proof (cases "mjConcurrent mj")
  case True
  with assms run_concurrent_sends [of env None mj 0 as st] show ?thesis by (auto simp: executeMultiClientJob_def)
next
  case False
  define st0 where "st0 = st\<lparr>csDone := AList.update (mjJID mj) (length as) (csDone st)\<rparr>"
  obtain e1 st1 where r: "run_sequential env None mj 0 as results st0 = (e1, st1)" by (cases "run_sequential env None mj 0 as results st0")
  have "csService st' = csService st1 \<and> csSent st' = csSent st1"
    using assms False r by (auto simp: executeMultiClientJob_def st0_def split: run_end.splits)
  moreover have "of_run st0 mj as = of_run st mj as" "csService st0 = csService st" "csSent st0 = csSent st"
    by (simp_all add: of_run_def st0_def fun_eq_iff)
  ultimately show ?thesis using run_sequential_sends [OF r] by simp
qed

section \<open>Authorization of jobs on many clients\<close>

lemma StartMultiClientJob_cases:
  assumes "StartMultiClientJob env rq st = (r, st')"
  obtains (refused) e where "r = Inl e" "st' = st"
  | (accepted) mj cs rq1 where "r = Inr (mj, cs)" "cs \<noteq> []" "rq1 = (with_timeout env rq)\<lparr>rqOrderedClients := Some cs\<rparr>"
      "checkMultiJobAccess env st rq1 = None" "mjCreatedBy mj = rqUsername rq" "mjScheduleID mj = rqScheduleID rq"
      "st' = st\<lparr>csDb := (csDb st)\<lparr>dbMultiJobs := filter (\<lambda>r. mrJID r \<noteq> mjJID mj) (dbMultiJobs (csDb st)) @ [convertMultiJobToSqlite mj]\<rparr>\<rparr>"
proof -
  define rq0 where "rq0 = with_timeout env rq"
  note start = assms [unfolded StartMultiClientJob_def Let_def, folded rq0_def]
  show thesis
  proof (cases "ceNewJobID env")
    case (Inl e)
    with start show thesis by (intro refused) auto
  next
    case (Inr jid)
    note start = start [unfolded Inr sum.case]
    show thesis
    proof (cases "resolve_targets env st rq0")
      case (Inl e)
      with start show thesis by (intro refused) auto
    next
      case (Inr cs)
      note start = start [unfolded Inr sum.case]
      define rq1 where "rq1 = rq0\<lparr>rqOrderedClients := Some cs\<rparr>"
      note start = start [folded rq1_def]
      show thesis
      proof (cases "cs = [] \<or> checkMultiJobAccess env st rq1 \<noteq> None")
        case True
        with start show thesis by (cases "cs = []") (auto intro: refused)
      next
        case False
        then have cs: "cs \<noteq> []" "checkMultiJobAccess env st rq1 = None" by auto
        note start = start [unfolded cs(2) option.case if_not_P [OF cs(1)]]
        show thesis
        proof (cases "if rqIsScript rq1 then b64_decode (rqScript rq1) else Inr (rqCommand rq1)")
          case (Inl e)
          with start show thesis by (intro refused) auto
        next
          case (Inr command)
          note start = start [unfolded Inr sum.case]
          have f: "rqUsername rq1 = rqUsername rq" "rqScheduleID rq1 = rqScheduleID rq" by (simp_all add: rq1_def rq0_def with_timeout_def)
          show thesis
          proof (cases "ceSaveMultiErr env")
            case None
            with start f show thesis
              by (intro accepted [OF _ cs(1) rq1_def [unfolded rq0_def] cs(2)]) (auto simp: SaveMultiJob_def make_multi_job_def)
          qed (use start in \<open>auto intro: refused simp: SaveMultiJob_def\<close>)
        qed
      qed
    qed
  qed
qed


section \<open>Sequential runs\<close>

definition started_count :: "cmd_env \<Rightarrow> (string \<times> job) list \<Rightarrow> nat" where
  "started_count env xs = length (filter (\<lambda>(cid, j). case ceReply env cid j of Started _ _ \<Rightarrow> True | _ \<Rightarrow> False) xs)"

definition usable_results :: "multi_job \<Rightarrow> job list \<Rightarrow> job list" where
  "usable_results mj results =
     (if mjAbortOnErr mj then takeWhile (\<lambda>j. jStatus j \<noteq> JobStatusFailed) results else results)"

lemma started_count_append: "started_count env (xs @ ys) = started_count env xs + started_count env ys"
  by (simp add: started_count_def)

lemma started_count_sends:
  assumes "createAndRunJob env ui a j st = (err, st1)"
  shows "started_count env (sends st a j) = (if err = None then 1 else 0)"
proof -
  have "err = None \<longleftrightarrow> (\<exists>pid at. sends st a j = [(clID (client_at (csService st) a), j)] \<and>
      ceReply env (clID (client_at (csService st) a)) j = Started pid at)"
    using createAndRunJob_frame(3) [OF assms] dispatch_started by metis
  moreover have "sends st a j = [] \<or> sends st a j = [(clID (client_at (csService st) a), j)]" by (simp add: sends_def Let_def)
  ultimately show ?thesis by (auto simp: started_count_def split: run_reply.splits)
qed

lemma run_sequential_counts:
  assumes "\<not> ceInsecure env" "run_sequential env ui mj n as results st = (e, st')"
  shows "\<exists>new. csSent st' = csSent st @ new \<and> started_count env new \<le> length (usable_results mj results) + 1 \<and>
    (e = RunBlocked \<longrightarrow> started_count env new = length results + 1 \<and> usable_results mj results = results)"
  using assms(2)
proof (induction as arbitrary: n results st)
  case Nil
  then show ?case by (simp add: started_count_def)
next
  case (Cons a as)
  from Cons.prems show ?case
  proof (cases rule: run_sequential_cases)
    case no_id
    then show ?thesis by (simp add: started_count_def)
  next
    case (stopped jid j err st1)
    note fr = createAndRunJob_frame [OF stopped(2)] and sc = started_count_sends [OF stopped(2)]
    have "csSent st' = csSent st @ sends st a j" using fr stopped(4) by simp
    then show ?thesis using sc stopped(6) by (intro exI [of _ "sends st a j"]) (auto simp: usable_results_def)
  next
    case (goes_on jid j err st1 results1)
    note fr = createAndRunJob_frame [OF goes_on(2)] and sc = started_count_sends [OF goes_on(2)]
    from Cons.IH [OF goes_on(3)] obtain new where new: "csSent st' = csSent st1 @ new"
      "started_count env new \<le> length (usable_results mj results1) + 1"
      "e = RunBlocked \<longrightarrow> started_count env new = length results1 + 1 \<and> usable_results mj results1 = results1" by blast
    have "csSent st' = csSent st @ (sends st a j @ new)" using fr new by simp
    then show ?thesis using sc new goes_on(4) assms(1)
      by (intro exI [of _ "sends st a j @ new"]) (auto simp: started_count_append usable_results_def)
  qed
qed

lemma createAndRunJob_done:
  assumes "createAndRunJob env ui a j st = (err, st')"
  shows "csDone st' = csDone st"
proof -
  have "csDone (snd (dispatch env ui a j st)) = csDone st"
    by (auto simp: dispatch_def Let_def record_sent_def set_socket_def split: sum.splits option.splits)
  with assms show ?thesis by (auto simp: createAndRunJob_def split: prod.splits if_splits)
qed

lemma run_sequential_done:
  assumes "run_sequential env ui mj n as results st = (e, st')"
  shows "csDone st' = csDone st"
  using assms
proof (induction as arbitrary: n results st)
  case (Cons a as)
  from Cons.prems show ?case
  proof (cases rule: run_sequential_cases)
    case (stopped jid j err st1)
    with createAndRunJob_done [OF stopped(2)] show ?thesis by simp
  next
    case (goes_on jid j err st1 results1)
    with createAndRunJob_done [OF goes_on(2)] Cons.IH [OF goes_on(3)] show ?thesis by simp
  qed simp
qed simp


section \<open>The targets of a request, exactly\<close>

abbreviation id_at :: "cmd_state \<Rightarrow> nat \<Rightarrow> string" where
  "id_at st a \<equiv> clID (client_at (csService st) a)"

lemma append_group_clients_filter:
  "distinct (map (id_at st) as) \<Longrightarrow> append_group_clients st used as = filter (\<lambda>a. id_at st a \<notin> set used) as"
proof (induction as arbitrary: used)
  case (Cons a as)
  from Cons.prems have "id_at st b \<noteq> id_at st a" if "b \<in> set as" for b using that by (auto simp: image_iff)
  then have "filter (\<lambda>b. id_at st b \<notin> set (id_at st a # used)) as = filter (\<lambda>b. id_at st b \<notin> set used) as"
    by (intro filter_cong) auto
  with Cons show ?case by (simp add: Let_def)
qed simp

lemma repo_ids_distinct:
  assumes "repo_wf sv"
  shows "distinct (map (\<lambda>a. clID (client_at sv a)) (map snd (svState sv)))"
proof -
  have "map (\<lambda>a. clID (client_at sv a)) (map snd (svState sv)) = map fst (svState sv)"
    using repo_wfD [OF assms] by (auto simp: map_of_is_SomeI)
  then show ?thesis using repo_wfD(1) [OF assms] by (simp only:)
qed

lemma makeClientsList_ids:
  assumes "repo_wf (csService st)" "makeClientsList env st ids = Inr cs"
  shows "map (id_at st) cs = ids \<and> (\<forall>a \<in> set cs. \<not> Obsolete (ceNow env) (svKeep (csService st)) (client_at (csService st) a))"
  using assms(2)
proof (induction ids arbitrary: cs)
  case (Cons i ids)
  then obtain a cs1 where a: "Repo_GetByID (ceNow env) i (csService st) = Some a" "makeClientsList env st ids = Inr cs1" "cs = a # cs1"
    by (auto simp: bind_res_eq_Inr split: option.splits)
  from a(1) have "id_at st a = i" "\<not> Obsolete (ceNow env) (svKeep (csService st)) (client_at (csService st) a)"
    using repo_wfD(3) [OF assms(1)] by (auto simp: Repo_GetByID_def split: option.splits if_splits)
  with Cons.IH [OF a(2)] a(3) show ?case by simp
qed simp

lemma find_groups_set:
  "find_groups env st gids = Inr gs \<Longrightarrow> set gs = {g. \<exists>gid \<in> set gids. find (\<lambda>g. cgID g = gid) (csGroups st) = Some g}"
proof (induction gids arbitrary: gs)
  case (Cons gid gids)
  then obtain g gs1 where g: "find (\<lambda>g. cgID g = gid) (csGroups st) = Some g" "find_groups env st gids = Inr gs1" "gs = g # gs1"
    by (auto simp: Groups_Get_def bind_res_eq_Inr split: sum.splits option.splits)
  from Cons.IH [OF g(2)] g show ?case by auto
qed simp

lemma BelongsToOneOf_iff: "BelongsToOneOf c gs \<longleftrightarrow> (\<exists>g \<in> set gs. BelongsTo c g)"
  by (induction gs) auto

text \<open>C26: A request runs on the clients it names, in the order and as often as it names them, followed by the clients of its
  groups that it does not name, each once. None of them is obsolete; an id that is not known is an error.
\<close>

theorem targets_exact:
  assumes "repo_wf (csService st)" "getOrderedClients env st clientIDs groupIDs = Inr (cs, n)"
  shows "take (length clientIDs) (map (id_at st) cs) = clientIDs \<and> distinct (drop (length clientIDs) (map (id_at st) cs)) \<and>
    (\<forall>a. a \<in> set (drop (length clientIDs) cs) \<longleftrightarrow>
       a \<in> set (getNonObsoleteClients (ceNow env) (csService st)) \<and> id_at st a \<notin> set clientIDs \<and>
       (\<exists>gid \<in> set groupIDs. \<exists>g. find (\<lambda>g. cgID g = gid) (csGroups st) = Some g \<and> BelongsTo (client_at (csService st) a) g)) \<and>
    (\<forall>a \<in> set cs. \<not> Obsolete (ceNow env) (svKeep (csService st)) (client_at (csService st) a))"
proof -
  define sv where "sv = csService st"
  from assms(2) obtain groups named where g: "find_groups env st groupIDs = Inr groups"
    and named: "makeClientsList env st clientIDs = Inr named"
    and cs: "cs = named @ append_group_clients st clientIDs (GetByGroups (ceNow env) groups sv)"
    by (auto simp: getOrderedClients_def makeGroupClientsList_def bind_res_eq_Inr sv_def)
  note nm = makeClientsList_ids [OF assms(1) named]
  define members where "members = GetByGroups (ceNow env) groups sv"
  have mem: "members = filter (\<lambda>a. \<exists>g \<in> set groups. BelongsTo (client_at sv a) g) (getNonObsoleteClients (ceNow env) sv)"
    by (auto simp: members_def GetByGroups_def BelongsToOneOf_iff)
  have dist: "distinct (map (id_at st) members)"
    unfolding mem getNonObsoleteClients_def queryClients_def sv_def
    by (intro distinct_map_filter repo_ids_distinct assms(1))
  have rest: "append_group_clients st clientIDs members = filter (\<lambda>a. id_at st a \<notin> set clientIDs) members"
    by (rule append_group_clients_filter [OF dist])
  have len: "length named = length clientIDs" using nm by (metis length_map)
  have drop: "drop (length clientIDs) cs = filter (\<lambda>a. id_at st a \<notin> set clientIDs) members"
    using len rest cs by (simp add: members_def)
  have "\<not> Obsolete (ceNow env) (svKeep sv) (client_at sv a)" if "a \<in> set members" for a
    using that by (auto simp: mem getNonObsoleteClients_def queryClients_def)
  then have "\<forall>a \<in> set cs. \<not> Obsolete (ceNow env) (svKeep sv) (client_at sv a)"
    using nm cs rest by (auto simp: members_def sv_def)
  moreover have "distinct (map (id_at st) (drop (length clientIDs) cs))" unfolding drop by (rule distinct_map_filter [OF dist])
  moreover have "take (length clientIDs) (map (id_at st) cs) = clientIDs" using nm len cs by (simp add: take_map)
  moreover have "a \<in> set (drop (length clientIDs) cs) \<longleftrightarrow>
      a \<in> set (getNonObsoleteClients (ceNow env) sv) \<and> id_at st a \<notin> set clientIDs \<and>
      (\<exists>gid \<in> set groupIDs. \<exists>g. find (\<lambda>g. cgID g = gid) (csGroups st) = Some g \<and> BelongsTo (client_at sv a) g)" for a
    unfolding drop mem find_groups_set [OF g] by auto
  ultimately show ?thesis unfolding sv_def by (simp add: drop_map)
qed

section \<open>Jobs on one client\<close>

lemma plausible_bounds:
  assumes "dispatchedAt \<le> now"
  shows "dispatchedAt - Minute \<le> fst (plausibleAgentStartedAt dispatchedAt now reportedAt) \<and>
    fst (plausibleAgentStartedAt dispatchedAt now reportedAt) \<le> now + Minute"
  using assms by (auto simp: plausibleAgentStartedAt_def maxAgentStartedAtSkew_def)

lemma retry_error:
  assumes "fst (WithRetryWhenBusy f) = Inl err"
  shows "\<exists>e n. err = Some e \<and> f n = Inl e"
proof -
  obtain r n where e: "retry_loop f 1 None = (r, n)" by (cases "retry_loop f 1 None")
  with assms have "r = Inl err" by (simp add: WithRetryWhenBusy_def)
  with retry_loop_exact [OF e] show ?thesis by (auto simp: DefaultMaxAttempts_def)
qed

lemma CreateJob_result:
  assumes "CreateJob env j db = (None, db')" "jJID j \<notin> set (map rwJID (dbJobs db))" "\<And>n. jeExec env n \<noteq> Some ErrConstraint"
  shows "\<exists>d. db' = db\<lparr>dbJobs := dbJobs db @ [Job_convertToSqlite j d]\<rparr>"
proof -
  from assms(1) obtain row where row: "toSqlite env j = Inr row" by (cases "toSqlite env j") (simp_all add: CreateJob_def)
  then obtain d where d: "row = Job_convertToSqlite j d" using toSqlite_row by blast
  define f where "f = (\<lambda>n. case jeExec env n of Some e \<Rightarrow> Inl e
    | None \<Rightarrow> if rwJID row \<in> set (map rwJID (dbJobs db)) then Inl ErrConstraint else Inr (dbJobs db @ [row]))"
  have no: "f n \<noteq> Inl ErrConstraint" for n
    using assms(2) assms(3) [of n] by (cases "jeExec env n") (simp_all add: f_def d Job_convertToSqlite_def)
  have res: "(case fst (WithRetryWhenBusy f) of Inl err \<Rightarrow> (if err = Some ErrConstraint then None else Some (sql_failure err), db)
      | Inr rows \<Rightarrow> (None, db\<lparr>dbJobs := rows\<rparr>)) = (None, db')"
    using assms(1) unfolding CreateJob_def row f_def by simp
  show ?thesis
  proof (cases "fst (WithRetryWhenBusy f)")
    case (Inr rows)
    from retry_result [OF Inr] obtain n where "f n = Inr rows" by blast
    then have "rows = dbJobs db @ [row]" by (cases "jeExec env n") (simp_all add: f_def split: if_splits)
    moreover from res [unfolded Inr sum.case] have "db' = db\<lparr>dbJobs := rows\<rparr>" by simp
    ultimately show ?thesis unfolding d by blast
  next
    case (Inl err)
    from res [unfolded Inl sum.case] have "err = Some ErrConstraint" by (simp split: if_splits)
    moreover obtain e n where "err = Some e" "f n = Inl e" using retry_error [OF Inl] by blast
    ultimately show ?thesis using no [of n] by simp
  qed
qed

lemma CreateJob_failed: "CreateJob env j db = (Some e, db') \<Longrightarrow> db' = db"
  by (auto simp: CreateJob_def split: sum.splits if_splits)

lemma response_body_error [simp]: "resp_body (jsonErrorResponseWithError s t e) = Inl (GoError t (AS (err_format e) # err_args e))"
  by (simp add: jsonErrorResponseWithError_def)


section \<open>A client whose id is a wildcard\<close>

text \<open>
  What SQLite's documentation promises of the query that lists jobs by a pattern of the client id: on a first page that is large
  enough, exactly the rows whose id is like the pattern.
\<close>

definition like_jobs_query :: string where
  "like_jobs_query = ''SELECT jobs.* FROM '' @ jobsWithScheduleID @ '' WHERE LOWER(client_id) LIKE ? ESCAPE '' @ [CHR 0x27, CHR 0x5C, CHR 0x27] @
     '' ORDER BY DATETIME(finished_at) DESC, jid ASC LIMIT ? OFFSET ?''"

definition like_select_spec :: "(string \<Rightarrow> string \<Rightarrow> bool) \<Rightarrow> jobs_env \<Rightarrow> job_db \<Rightarrow> bool" where
  "like_select_spec like env db \<longleftrightarrow>
     (\<forall>p. length (dbJobs db) \<le> 100 \<longrightarrow>
        (\<exists>rows. jeSelect env like_jobs_query [p, ''100'', ''0''] db = Inr rows \<and>
           set (map fst rows) = {row \<in> set (dbJobs db). like (to_lower (rwClientID row)) p}))"

definition default_job_options :: list_options where
  "default_job_options = snd (job_list_options [])"

lemma default_job_options_valid: "job_list_options [] = ([], default_job_options)"
proof -
  have "fst (job_list_options []) = []" by code_simp
  then show ?thesis unfolding default_job_options_def by (metis prod.collapse)
qed

lemma default_job_options_simps:
  "loSorts default_job_options = []" "loFilters default_job_options = []"
  "loPagination default_job_options = Some \<lparr>pgLimit = ''100'', pgOffset = ''0'', pgValidatedLimit = 100, pgValidatedOffset = 0\<rparr>"
  by code_simp+

lemma default_requested: "''jid'' \<in> set (RequestedFields (loFields default_job_options) ''jobs'')"
  by code_simp

lemma star_query:
  "AppendOptionsToQuery jobs_driver (Some (default_job_options\<lparr>loFilters := [eq_filter ''client_id'' ''*''],
      loSorts := [\<lparr>soColumn = ''DATETIME(finished_at)'', soIsASC = False\<rparr>, \<lparr>soColumn = ''jid'', soIsASC = True\<rparr>]\<rparr>))
     (''SELECT jobs.* FROM '' @ jobsWithScheduleID) [] = (like_jobs_query, [''%'', ''100'', ''0''])"
  by code_simp

lemma convertJobs_all:
  assumes "\<forall>r \<in> set (map fst rows). rwDetails r \<noteq> None"
  shows "\<exists>js. convertJobs rows = Inr js \<and> map jJID js = map (rwJID \<circ> fst) rows"
  using assms
proof (induction rows)
  case (Cons r rows)
  then obtain d js where "rwDetails (fst r) = Some d" "convertJobs rows = Inr js" "map jJID js = map (rwJID \<circ> fst) rows" by auto
  then show ?case by (cases r) (simp add: Details_Scan_def Job_convert_def)
qed simp

text \<open>C40: The id of a client is chosen by its agent, and the listing of the jobs of a client uses it as a filter value, in which an asterisk is
  a wildcard. For a client with the id \<^verbatim>\<open>*\<close> the listing has the jobs of all clients, although the access check in front of it
  was about this one client only.
\<close>

theorem star_client_lists_all_jobs:
  assumes "like_spec like" "like_select_spec like (ceJobs env) (csDb st)" "length (dbJobs (csDb st)) \<le> 100"
    "\<forall>row \<in> set (dbJobs (csDb st)). rwDetails row \<noteq> None" "\<forall>q ps. \<exists>n. jeCount (ceJobs env) q ps (csDb st) = Inr n"
  shows "\<exists>entries total. handleGetCommands env ''*'' [] st = writeJSONResponse StatusOK (JobsPayload entries total) \<and>
    (\<forall>row \<in> set (dbJobs (csDb st)). \<exists>fs. JObj fs \<in> set entries \<and> (''jid'', JStr (rwJID row)) \<in> set fs)"
proof -
  define options where "options = default_job_options\<lparr>loFilters := [eq_filter ''client_id'' ''*'']\<rparr>"
  have all: "like s ''%''" for s using like_specD(1,2) [OF assms(1)] by auto
  from assms(2,3) obtain rows where rows: "jeSelect (ceJobs env) like_jobs_query [''%'', ''100'', ''0''] (csDb st) = Inr rows"
    "set (map fst rows) = set (dbJobs (csDb st))" unfolding like_select_spec_def using all by fastforce
  obtain js where js: "convertJobs rows = Inr js" "map jJID js = map (rwJID \<circ> fst) rows"
    using convertJobs_all [of rows, unfolded rows(2), OF assms(4)] by blast
  define shown where "shown = map (decryptJobResultInList (ceJobs env)) js"
  have list: "Jobs_List (ceJobs env) options (csDb st) = Inr shown"
    using star_query rows(1) js(1) by (simp add: Jobs_List_def Let_def options_def default_job_options_simps shown_def)
  obtain n where n: "Jobs_Count (ceJobs env) options (csDb st) = Inr n"
    using assms(5) unfolding Jobs_Count_def Let_def case_prod_unfold by blast
  have resp: "handleGetCommands env ''*'' [] st =
      writeJSONResponse StatusOK (JobsPayload (convertToJobsPayload shown (loFields options)) n)"
    using list n by (simp add: handleGetCommands_def default_job_options_valid list_jobs_def options_def default_job_options_simps)
  have "\<exists>fs. JObj fs \<in> set (convertToJobsPayload shown (loFields options)) \<and> (''jid'', JStr (rwJID row)) \<in> set fs"
    if "row \<in> set (dbJobs (csDb st))" for row
  proof -
    from that rows(2) obtain x where "x \<in> set rows" "fst x = row" by (metis imageE set_map)
    then have "rwJID row \<in> set (map (rwJID \<circ> fst) rows)" by (auto simp: image_iff)
    then obtain j where j: "j \<in> set js" "jJID j = rwJID row" unfolding js(2) [symmetric] by auto
    define j1 where "j1 = decryptJobResultInList (ceJobs env) j"
    have j1: "j1 \<in> set shown" "jJID j1 = rwJID row" using j by (simp_all add: j1_def shown_def decryptJobResultInList_def)
    define names where "names = RequestedFields (loFields options) ''jobs''"
    have ne: "names \<noteq> []" "''jid'' \<in> set names" using default_requested by (auto simp: names_def options_def)
    have "(''jid'', JStr (rwJID row)) \<in> set (requested names (job_fields j1))"
      using ne(2) by (simp add: requested_def job_fields_def j1(2))
    moreover have "\<exists>more. JObj (requested names (job_fields j1) @ more) \<in> set (convertToJobsPayload shown (loFields options))"
      unfolding convertToJobsPayload_def Let_def names_def [symmetric] if_P [OF ne(1)] set_map using j1(1) by blast
    ultimately show ?thesis by (metis Un_iff set_append)
  qed
  with resp show ?thesis by blast
qed

section \<open>Examples\<close>

definition demo_sv :: client_service where
  "demo_sv = example_sv\<lparr>svClients := [(new_client ''c1'')\<lparr>clName := ''db-17'', clConnection := Some 1\<rparr>,
     (new_client ''c2'')\<lparr>clName := ''db-18'', clConnection := Some 2\<rparr>], svState := [(''c1'', 0), (''c2'', 1)]\<rparr>"

definition demo_cmd_state :: cmd_state where
  "demo_cmd_state = \<lparr>csDb = \<lparr>dbJobs = [], dbMultiJobs = []\<rparr>, csService = demo_sv, csGroups = [db_group],
     csUsers = \<lparr>asProvider = StaticProvider [(''ann'', dba_user)], asTwoFAOn = False, asPasswordMinLength = 8, asZxcvbnMinscore = 3\<rparr>,
     csDone = [], csUi = [], csSockets = [], csSent = []\<rparr>"

definition demo_cmd_env :: cmd_env where
  "demo_cmd_env = \<lparr>ceJobs = demo_env [], ceUsers = example_env, ceUser = Inr dba_user, ceUserName = ''ann'', ceInsecure = False,
     ceNow = 5, ceReplyAt = 6, ceGroupsErr = None, ceGroupErr = (\<lambda>_. None), ceSaveMultiErr = None, ceNewJobID = Inr ''m1'',
     ceChildJobID = (\<lambda>n. Inr (''j'' @ nat_to_string n)), ceReply = (\<lambda>_ _. Started 42 5), ceRunRemoteCmdTimeoutSec = 60\<rparr>"

definition demo_request :: multi_job_request where
  "demo_request = \<lparr>rqClientIDs = Some [''c2''], rqGroupIDs = Some [''db''], rqClientTags = None, rqCommand = ''uptime'', rqScript = '''',
     rqCwd = '''', rqIsSudo = False, rqInterpreter = '''', rqTimeoutSec = 0, rqExecuteConcurrently = False, rqAbortOnError = None,
     rqUsername = ''ann'', rqIsScript = False, rqOrderedClients = None, rqScheduleID = None\<rparr>"

theorem targets_exact_witness:
  "getOrderedClients demo_cmd_env demo_cmd_state [''c2''] [''db''] = Inr ([1, 0], 2) \<and>
   take 1 (map (id_at demo_cmd_state) [1, 0]) = [''c2'']"
proof
  show t: "getOrderedClients demo_cmd_env demo_cmd_state [''c2''] [''db''] = Inr ([1, 0], 2)" by code_simp
  have "repo_wf (csService demo_cmd_state)"
    by (auto simp: repo_wf_def demo_cmd_state_def demo_sv_def example_sv_def new_client_def split: if_splits)
  from targets_exact [OF this t] show "take 1 (map (id_at demo_cmd_state) [1, 0]) = [''c2'']" by simp
qed

lemma demo_started:
  "\<exists>mj st1. StartMultiClientJob demo_cmd_env demo_request demo_cmd_state = (Inr (mj, [1, 0]), st1)"
proof -
  have "case StartMultiClientJob demo_cmd_env demo_request demo_cmd_state of (Inr (_, cs), _) \<Rightarrow> cs = [1, 0] | _ \<Rightarrow> False" by code_simp
  then show ?thesis by (auto split: prod.splits sum.splits)
qed



definition demo_input :: execute_input where
  "demo_input = \<lparr>eiCommand = ''uptime'', eiScript = '''', eiInterpreter = '''', eiCwd = '''', eiIsSudo = False, eiTimeoutSec = 0,
     eiClientID = ''c1'', eiIsScript = False\<rparr>"


definition like_env :: jobs_env where
  "like_env = (demo_env [])\<lparr>jeSelect := (\<lambda>q ps db.
     if q = like_jobs_query then Inr (map (\<lambda>r. (r, None)) (filter (\<lambda>r. like_ref (hd ps) (to_lower (rwClientID r))) (dbJobs db))) else Inr [])\<rparr>"

theorem star_client_lists_all_jobs_witness:
  "\<exists>entries total. handleGetCommands (demo_cmd_env\<lparr>ceJobs := like_env\<rparr>) ''*'' []
       (demo_cmd_state\<lparr>csDb := \<lparr>dbJobs = [Job_convertToSqlite demo_job (Job_details demo_job)], dbMultiJobs = []\<rparr>\<rparr>)
     = writeJSONResponse StatusOK (JobsPayload entries total) \<and> (\<exists>fs. JObj fs \<in> set entries \<and> (''jid'', JStr ''j1'') \<in> set fs)"
proof -
  define row where "row = Job_convertToSqlite demo_job (Job_details demo_job)"
  define env where "env = demo_cmd_env\<lparr>ceJobs := like_env\<rparr>"
  define st where "st = demo_cmd_state\<lparr>csDb := \<lparr>dbJobs = [row], dbMultiJobs = []\<rparr>\<rparr>"
  have db: "dbJobs (csDb st) = [row]" by (simp add: st_def)
  have row: "rwJID row = ''j1''" "rwDetails row \<noteq> None" by (simp_all add: row_def Job_convertToSqlite_def demo_job_def)
  have "like_select_spec (\<lambda>s p. like_ref p s) (ceJobs env) (csDb st)"
    by (auto simp: like_select_spec_def env_def like_env_def image_image)
  moreover have "\<forall>q ps. \<exists>n. jeCount (ceJobs env) q ps (csDb st) = Inr n" by (simp add: env_def like_env_def demo_env_def)
  ultimately have "\<exists>entries total. handleGetCommands env ''*'' [] st = writeJSONResponse StatusOK (JobsPayload entries total) \<and>
    (\<forall>row \<in> set (dbJobs (csDb st)). \<exists>fs. JObj fs \<in> set entries \<and> (''jid'', JStr (rwJID row)) \<in> set fs)"
    using db row by (intro star_client_lists_all_jobs [OF like_ref_spec]) simp_all
  then show ?thesis unfolding db using row(1) by (simp add: env_def st_def row_def)
qed

end
