(* ===== verification/Spec2Isabelle.thy ===== *)
theory Spec2Isabelle
  imports Login Vault ClientAuth Commands
begin

text \<open>
  Verification of ProxiPort, a server through which operators reach machines behind NAT. An agent on each
  machine keeps an SSH connection to the server; operators call the HTTP API of the server to open tunnels
  to the machines. This development models the parts of the server that decide who may do what, and the parts that
  hand out its resources. The paths below are those of the sources, in \<^verbatim>\<open>server\<close> and \<^verbatim>\<open>share\<close>.

  \<^bold>\<open>How the program is modelled.\<close> A Go function is a HOL function; one that changes state takes the state and
  returns it changed. The clock is an argument \<open>now\<close>, in nanoseconds. Go's \<^verbatim>\<open>int\<close> and \<^verbatim>\<open>time.Duration\<close> are
  integers, with \<open>wrap64\<close> where an operation can overflow; bytes are 8-bit words. An error is a value of
  \<open>goerr\<close>, a fallible function returns \<open>goerr + 'a\<close>, and a panic is \<^term>\<open>None\<close>. Objects that the code shares through
  pointers live in lists and are named by their positions (clients, tunnels, pending logins). The failure of a database or of a
  file is an argument, so every theorem covers it. What is not under the source tree is a parameter
  with a named hypothesis of its documented behaviour: the AEAD cipher (\<open>aead_spec\<close>), bcrypt
  (\<open>bcrypt_spec\<close>), the JWT library (\<open>jwt_spec\<close>), the caches (\<open>cache_spec\<close>, \<open>auth_cache_spec\<close>), the choice of SQLite's row ids
  (\<open>rowid_spec\<close>), the key derivation of the vault, regular expressions, and \<^verbatim>\<open>LIKE\<close> in SQL (\<open>like_spec\<close>). A mutex makes an operation atomic; where the code releases it in between, the operation is cut in
  two steps at that point and the interleavings are considered (port refresh, one-time codes, the start of a client).

  \<^bold>\<open>The theories.\<close>

  \<^item> \<open>Prelude\<close> and \<open>Bytes\<close>: errors, HTTP answers, the functions of Go's library that are used, and the locale
    \<open>step_invariant\<close>, by which an invariant of the steps of a component holds along its runs. It is interpreted
    for the port distributor, the tickets, the staged uploads, the user service, the second factor, the tunnels and the
    credentials of agents.

  \<^item> \<open>Ports\<close> (\<^verbatim>\<open>server/ports\<close>): parsing of port ranges, and the distributor of local ports as a state machine.
    No port is handed out twice before it is seen busy and free again; parsing reads back what is printed; and a
    reservation for UDP is dropped when TCP listens on the same number.

  \<^item> \<open>BanList\<close> (\<^verbatim>\<open>share/security/banlist.go\<close>): exactly when a key is banned, by number of failures and by number of
    distinct credentials. The locale \<open>timed_ban\<close> is the contract of a list with a fixed waiting time.

  \<^item> \<open>Tickets\<close> (\<^verbatim>\<open>server/api_ws_ticket.go\<close>, \<^verbatim>\<open>server/staged_uploads.go\<close>, \<^verbatim>\<open>share/security/token.go\<close>): tickets for
    WebSockets are good once and in time, the registry of staged files holds exactly the live grants, and random tokens
    are uniform.

  \<^item> \<open>Enc\<close> (\<^verbatim>\<open>share/enc\<close>): Base64, AES and the envelope of stored fields; round trip, and no value that is not a sealing.

  \<^item> \<open>UserStore\<close>, \<open>Users\<close> (\<^verbatim>\<open>server/api/users\<close>): the static, file and database providers and the service over them.
    No password is stored in clear (locale \<open>password_store\<close>), a change does what it says and no more, and the two forms of the
    permission check agree.

  \<^item> \<open>Session\<close> (\<^verbatim>\<open>server/api/session\<close>): the sessions in a table and a cache. The cache is coherent with the table
    along every run (locale \<open>session_storage\<close>), and deleted sessions do not come back.

  \<^item> \<open>Bearer\<close> (\<^verbatim>\<open>server/bearer\<close>), \<open>Auth\<close> (\<^verbatim>\<open>server/api_listener.go\<close>, \<^verbatim>\<open>server/api_middleware.go\<close>), \<open>TwoFA\<close>
    (\<^verbatim>\<open>server/2fa_auth.go\<close>, \<^verbatim>\<open>server/totp.go\<close>), \<open>Login\<close> (\<^verbatim>\<open>server/api_handler_login.go\<close>,
    \<^verbatim>\<open>server/api_handler_verify2fa.go\<close>): tokens and their scopes, the middleware, the second factor and the login. A request that is
    served has been authenticated as its user; the password alone opens only the verification; a login is completed only
    with both factors; guesses are bounded and codes are not replayed.

  \<^item> \<open>ClientGroups\<close> (\<^verbatim>\<open>server/cgroups\<close>): the patterns and tag filters of client groups, with a relational meaning of
    the patterns that the greedy search is shown to compute.

  \<^item> \<open>Acl\<close>, \<open>Tunnels\<close> (\<^verbatim>\<open>server/clients/clienttunnel\<close>, \<^verbatim>\<open>share/models/remote.go\<close>): which addresses an access list admits, the
    handlers of TCP and UDP tunnels as steps on connections and datagrams, and starting all protocols of a tunnel or none.

  \<^item> \<open>Clients\<close>, \<open>ClientStart\<close> (\<^verbatim>\<open>server/clients\<close>): the clients and their table, who may access them, and the
    registration of a client with the tunnels it had. A client id and a credential belong together as long as starts do not
    overlap, and an agent cannot set what only the API may set.

  \<^item> \<open>Vault\<close> (\<^verbatim>\<open>server/vault\<close>): the encrypted store of values. Its operations refine a table of plain values with access by
    user group, and unlocking, also with the upgrade of the key derivation, keeps the contents.

  \<^item> \<open>Query\<close> (\<^verbatim>\<open>share/query\<close>): the options of a listing, the SQL made from them and their evaluation in memory. A filter of a request
    cannot change the text of a statement, a page is always a valid range, and the two meanings of a wildcard agree on texts without other
    special characters.

  \<^item> \<open>ClientAuth\<close> (\<^verbatim>\<open>server/clientsauth\<close>, \<^verbatim>\<open>server/client_listener.go\<close>, \<^verbatim>\<open>server/api_handler_clientsauth.go\<close>): the credentials of agents in a
    database, a file or the configuration, behind the locale \<open>credential_store\<close>, the login of an agent with its ban lists, and the handlers.
    An agent is accepted exactly with its password, and what one agent does never bans another.

  \<^item> \<open>Jobs\<close> (\<^verbatim>\<open>server/api/jobs\<close>, \<^verbatim>\<open>share/models/job.go\<close>, \<^verbatim>\<open>db/sqlite\<close>): the tables of jobs. Results are sealed at rest and read back, the backfill
    leaves no plain text, the cleanup keeps the newest jobs, and the retries of a busy database end.

  \<^item> \<open>Commands\<close> (\<^verbatim>\<open>server/api_helper_jobs.go\<close>, \<^verbatim>\<open>api_helper_clients.go\<close>, \<^verbatim>\<open>api_helper_commands.go\<close>, \<^verbatim>\<open>api_handler_commands.go\<close>,
    \<^verbatim>\<open>api_handler_scripts.go\<close>): commands and scripts on one client and on many. A job on many clients is authorized when it starts and
    reaches only its clients, a sequential run waits for each result, and the targets of a request are exactly those it names. A client whose id is
    an asterisk lists the jobs of all clients.

  \<^bold>\<open>Bounds.\<close> No definition uses fuel: loops are structural recursions, or recursions with a termination proof (the
  parser of IPv6 addresses, the retries of a busy database). A loop of the source that runs as long as the server does is a relation of single steps, and theorems are about
  all finite runs.

  \<^bold>\<open>Not modelled.\<close> Sockets, TLS, SSH and the copying of bytes; the text of log and error messages beyond their format; entries of the audit log. A
  query with a fixed text is the function of the rows that it computes; for a listing the text is modelled, and the rows that the database selects
  by it are a parameter. The agent, the command line and the parsing of configuration files; the requests of an agent after its
  login, the handlers that only read clients, uploads, the audit log, schedules, monitoring, alerting, notifications, the libraries of commands and scripts,
  stored tunnels, and OIDC. They are input and output, or data without rules of their
  own; the manifest lists them one by one.
\<close>

end
